(* ===== verification/Zstor_Prelude.thy ===== *)
theory Zstor_Prelude
  imports Main "HOL-Library.Word" "HOL-Library.Sublist"
begin

unbundle bit_operations_syntax

text \<open>
  The vocabulary of the development.

  A Go call has three outcomes: it returns a value, it returns an error value, or it panics;
  \<open>result\<close> has one constructor for each, so that every early return and every panic of the
  source is a branch of the model.  A byte slice is a list of 8-bit words; where the source
  tells a nil slice from an empty one, the model uses \<open>slice\<close>, in which nil is \<open>None\<close>.
  Strings are lists of characters, one per byte, as Go's are.

  The theory also holds what the sources use of Go itself (slice expressions, \<open>copy\<close>,
  \<open>encoding/binary\<close> in little-endian order) and the generic lemmas on lists and words that the
  component theories share.  Facts that unfold the model's plumbing are collected in
  \<open>go_simps\<close>.
\<close>

named_theorems go_simps \<open>unfolding rules for the Go primitives\<close>

section \<open>Types and outcomes\<close>

type_synonym byte = "8 word"
type_synonym bytes = "byte list"
type_synonym slice = "bytes option"
type_synonym uint32 = "32 word"
type_synonym uint64 = "64 word"
type_synonym int64 = "64 word"

datatype ('e, 'a) result = Ok 'a | Err 'e | Panic

fun rbind :: "('e, 'a) result \<Rightarrow> ('a \<Rightarrow> ('e, 'b) result) \<Rightarrow> ('e, 'b) result" where
  "rbind (Ok a) f = f a"
| "rbind (Err e) f = Err e"
| "rbind Panic f = Panic"

lemma rbind_eq_Ok: "rbind r f = Ok b \<longleftrightarrow> (\<exists>a. r = Ok a \<and> f a = Ok b)"
  by (cases r) auto

lemma rbind_cong [fundef_cong]:
  "r = r' \<Longrightarrow> (\<And>a. r' = Ok a \<Longrightarrow> f a = g a) \<Longrightarrow> rbind r f = rbind r' g"
  by (cases r') auto

text \<open>
  A stateful call threads an explicit state; the state survives an error and a panic.
\<close>

type_synonym ('s, 'e, 'a) op = "'s \<Rightarrow> ('e, 'a) result \<times> 's"

fun obind :: "('e, 'a) result \<times> 's \<Rightarrow> ('a \<Rightarrow> 's \<Rightarrow> ('e, 'b) result \<times> 's) \<Rightarrow> ('e, 'b) result \<times> 's" where
  "obind (Ok a, s) f = f a s"
| "obind (Err e, s) f = (Err e, s)"
| "obind (Panic, s) f = (Panic, s)"

lemma obind_eq_Ok: "obind r f = (Ok b, s') \<longleftrightarrow> (\<exists>a s. r = (Ok a, s) \<and> f a s = (Ok b, s'))"
  by (cases "(r, f)" rule: obind.cases) auto

text \<open>Replacing the error of a call, as \<open>if err != nil { return nil, e }\<close> does.\<close>

fun map_err :: "('e \<Rightarrow> 'f) \<Rightarrow> ('e, 'a) result \<Rightarrow> ('f, 'a) result" where
  "map_err g (Ok a) = Ok a"
| "map_err g (Err e) = Err (g e)"
| "map_err g Panic = Panic"

definition omap_err :: "('e \<Rightarrow> 'f) \<Rightarrow> ('e, 'a) result \<times> 's \<Rightarrow> ('f, 'a) result \<times> 's" where
  "omap_err g r = (map_err g (fst r), snd r)"

lemma omap_err_eq_Ok: "omap_err g r = (Ok a, s) \<longleftrightarrow> r = (Ok a, s)"
  by (cases "fst r") (auto simp: omap_err_def prod_eq_iff)

lemma map_err_eq_Ok: "map_err g r = Ok a \<longleftrightarrow> r = Ok a"
  by (cases r) auto

lemma omap_err_Pair [simp]: "omap_err g (r, s) = (map_err g r, s)"
  by (simp add: omap_err_def)

text \<open>A loop that calls a function on every element and stops at the first failure.\<close>

fun fold_result :: "('a \<Rightarrow> 'x \<Rightarrow> ('e, 'a) result) \<Rightarrow> 'a \<Rightarrow> 'x list \<Rightarrow> ('e, 'a) result" where
  "fold_result f acc [] = Ok acc"
| "fold_result f acc (x # xs) = rbind (f acc x) (\<lambda>acc'. fold_result f acc' xs)"

lemma fold_result_append:
  "fold_result f acc (xs @ ys) = rbind (fold_result f acc xs) (\<lambda>acc'. fold_result f acc' ys)"
proof (induction xs arbitrary: acc)
  case Nil
  then show ?case by simp
next
  case (Cons x xs)
  then show ?case by (cases "f acc x") simp_all
qed

lemma fold_result_Ok: "(\<And>acc x. x \<in> set xs \<Longrightarrow> f acc x = Ok (g x acc)) \<Longrightarrow> fold_result f acc xs = Ok (fold g xs acc)"
  by (induction xs arbitrary: acc) simp_all

section \<open>Slices\<close>

text \<open>The slice expressions \<open>x[n:]\<close> and \<open>x[:n]\<close> panic out of range.\<close>

definition slice_from :: "'a list \<Rightarrow> nat \<Rightarrow> ('e, 'a list) result" where
  "slice_from xs n = (if n \<le> length xs then Ok (drop n xs) else Panic)"

definition slice_to :: "'a list \<Rightarrow> nat \<Rightarrow> ('e, 'a list) result" where
  "slice_to xs n = (if n \<le> length xs then Ok (take n xs) else Panic)"

text \<open>Go's \<open>copy(dst, src)\<close>: the new contents of \<open>dst\<close>.\<close>

definition go_copy :: "'a list \<Rightarrow> 'a list \<Rightarrow> 'a list" where
  "go_copy dst src = take (length dst) src @ drop (length src) dst"

lemma length_go_copy [simp]: "length (go_copy dst src) = length dst"
  by (simp add: go_copy_def)

lemma go_copy_exact [simp]: "length dst = length src \<Longrightarrow> go_copy dst src = src"
  by (simp add: go_copy_def)

lemma go_copy_prefix: "length src \<le> length dst \<Longrightarrow> go_copy dst src = src @ drop (length src) dst"
  by (simp add: go_copy_def)

text \<open>Writing a region of an array: \<open>copy(a[i:], src)\<close> seen from the whole array.\<close>

definition copy_at :: "nat \<Rightarrow> 'a list \<Rightarrow> 'a list \<Rightarrow> 'a list" where
  "copy_at i dst src = take i dst @ go_copy (drop i dst) src"

lemma length_copy_at [simp]: "length (copy_at i dst src) = length dst"
  by (simp add: copy_at_def)

lemma copy_at_suffix:
  "i \<le> length dst \<Longrightarrow> length dst = i + length src \<Longrightarrow> copy_at i dst src = take i dst @ src"
  by (simp add: copy_at_def)

section \<open>Little-endian integers\<close>

text \<open>\<open>binary.LittleEndian\<close>: the \<open>n\<close> low bytes of a word, least significant first.\<close>

fun le_bytes :: "nat \<Rightarrow> 'a::len word \<Rightarrow> bytes" where
  "le_bytes 0 w = []"
| "le_bytes (Suc n) w = ucast w # le_bytes n (drop_bit 8 w)"

fun le_word :: "bytes \<Rightarrow> 'a::len word" where
  "le_word [] = 0"
| "le_word (b # bs) = ucast b OR push_bit 8 (le_word bs)"

lemma length_le_bytes [simp]: "length (le_bytes n w) = n"
  by (induction n arbitrary: w) auto

lemma bit_le_word:
  "bit (le_word bs :: 'a::len word) k \<longleftrightarrow>
     k < LENGTH('a) \<and> k div 8 < length bs \<and> bit (bs ! (k div 8)) (k mod 8)"
proof (induction bs arbitrary: k)
  case Nil
  then show ?case by simp
next
  case (Cons b bs)
  show ?case
  proof (cases "k < 8")
    case True
    then show ?thesis by (auto simp: bit_simps)
  next
    case False
    then have "k div 8 = Suc ((k - 8) div 8)" and "k mod 8 = (k - 8) mod 8"
      by (simp_all add: le_div_geq le_mod_geq)
    moreover from False have "\<not> bit b k" by (auto dest: bit_imp_le_length)
    ultimately show ?thesis
      using False by (auto simp: bit_simps Cons.IH)
  qed
qed

lemma nth_le_bytes: "i < n \<Longrightarrow> le_bytes n w ! i = ucast (drop_bit (8 * i) w)"
proof (induction n arbitrary: i w)
  case 0
  then show ?case by simp
next
  case (Suc n)
  then show ?case by (cases i) (auto simp: drop_bit_drop_bit add.commute)
qed

lemma le_word_le_bytes [simp]:
  assumes "LENGTH('a::len) \<le> 8 * n"
  shows "le_word (le_bytes n (w :: 'a word)) = w"
proof (rule bit_word_eqI)
  fix k assume k: "k < LENGTH('a)"
  have "8 * (k div 8) + k mod 8 = k" by simp
  moreover from k assms have "k div 8 < n" by (simp add: less_mult_imp_div_less mult.commute)
  ultimately show "bit (le_word (le_bytes n w) :: 'a word) k = bit w k"
    using k by (simp add: bit_le_word nth_le_bytes bit_simps)
qed

lemma le_bytes_le_word [simp]:
  assumes "8 * length bs \<le> LENGTH('a::len)"
  shows "le_bytes (length bs) (le_word bs :: 'a word) = bs"
proof (rule nth_equalityI)
  fix i assume "i < length (le_bytes (length bs) (le_word bs :: 'a word))"
  then have i: "i < length bs" by simp
  show "le_bytes (length bs) (le_word bs :: 'a word) ! i = bs ! i"
  proof (rule bit_word_eqI)
    fix k :: nat assume k: "k < LENGTH(8)"
    then have "(8 * i + k) div 8 = i" and "(8 * i + k) mod 8 = k" by simp_all
    with i k assms show "bit (le_bytes (length bs) (le_word bs :: 'a word) ! i) k = bit (bs ! i) k"
      by (simp add: nth_le_bytes bit_simps bit_le_word)
  qed
qed simp

lemma le_bytes_inj:
  "LENGTH('a::len) \<le> 8 * n \<Longrightarrow> le_bytes n (v :: 'a word) = le_bytes n w \<longleftrightarrow> v = w"
  by (metis le_word_le_bytes)

section \<open>Words\<close>

lemma word_xor_cancel [simp]: "(a XOR x = b XOR x) = (a = (b :: 'a::len word))"
  by (auto simp: bit_eq_iff bit_simps)

lemma word_xor_cancel_left [simp]: "(x XOR a = x XOR b) = (a = (b :: 'a::len word))"
  by (auto simp: bit_eq_iff bit_simps)

lemma not_bit_byte [simp]: "8 \<le> k \<Longrightarrow> \<not> bit (b :: byte) k"
  by (auto dest: bit_imp_le_length)

lemma unat_byte_less [simp]: "unat (b :: byte) < 256"
  using unsigned_less [of b] by simp

lemmas [go_simps] = slice_from_def slice_to_def

end
