(* ===== verification/Crc32.thy ===== *)
theory Crc32
  imports Zstor_Prelude
begin

unbundle bit_operations_syntax

text \<open>
  The part of Go's \<open>hash/crc32\<close> that \<open>server/encoding\<close> calls: \<open>MakeTable\<close> for a polynomial that
  is neither the IEEE nor the Castagnoli one, and the table-driven \<open>Checksum\<close>.  The lemmas give
  the error-detection power of the checksum: for a polynomial whose top bit is set, two equally
  long messages that differ only inside a window of four consecutive bytes have different
  checksums.
\<close>

section \<open>The algorithm\<close>

text \<open>One shift of the reflected register.\<close>

definition crc_bit :: "uint32 \<Rightarrow> uint32 \<Rightarrow> uint32" where
  "crc_bit poly c = (if bit c 0 then drop_bit 1 c XOR poly else drop_bit 1 c)"

definition MakeTable :: "uint32 \<Rightarrow> uint32 list" where
  "MakeTable poly = map (\<lambda>i. (crc_bit poly ^^ 8) (word_of_nat i)) [0..<256]"

definition crc_step :: "uint32 list \<Rightarrow> uint32 \<Rightarrow> byte \<Rightarrow> uint32" where
  "crc_step tab crc v = (tab ! unat ((ucast crc :: byte) XOR v)) XOR drop_bit 8 crc"

definition simpleUpdate :: "uint32 \<Rightarrow> uint32 list \<Rightarrow> bytes \<Rightarrow> uint32" where
  "simpleUpdate crc tab p = NOT (foldl (crc_step tab) (NOT crc) p)"

definition Checksum :: "bytes \<Rightarrow> uint32 list \<Rightarrow> uint32" where
  "Checksum data tab = simpleUpdate 0 tab data"

definition IEEE :: uint32 where
  "IEEE = 0xedb88320"

definition ChecksumIEEE :: "bytes \<Rightarrow> uint32" where
  "ChecksumIEEE data = Checksum data (MakeTable IEEE)"

section \<open>The register as a linear map\<close>

lemma crc_bit_xor: "crc_bit p (a XOR b) = crc_bit p a XOR crc_bit p b"
  by (auto simp: crc_bit_def bit_simps intro!: bit_word_eqI)

lemma crc_bits_xor: "(crc_bit p ^^ n) (a XOR b) = (crc_bit p ^^ n) a XOR (crc_bit p ^^ n) b"
  by (induction n) (simp_all add: crc_bit_xor)

text \<open>Zero low bits are only shifted out.\<close>

lemma crc_bits_zeros:
  "(\<forall>i<n. \<not> bit c i) \<Longrightarrow> (crc_bit p ^^ n) c = drop_bit n c"
proof (induction n arbitrary: c)
  case 0
  then show ?case by simp
next
  case (Suc n)
  then have "crc_bit p c = drop_bit 1 c" by (simp add: crc_bit_def)
  moreover from Suc.prems have "\<forall>i<n. \<not> bit (drop_bit 1 c) i" by (simp add: bit_drop_bit_eq)
  ultimately show ?case
    by (simp add: funpow_Suc_right Suc.IH drop_bit_drop_bit del: funpow.simps)
qed

lemma crc_bit_top: "bit p 31 \<Longrightarrow> bit (crc_bit p c) 31 = bit c 0"
  by (auto simp: crc_bit_def bit_simps dest: bit_imp_le_length)

lemma crc_bit_inj:
  assumes p: "bit p 31" and eq: "crc_bit p a = crc_bit p b"
  shows "a = b"
proof (rule bit_word_eqI)
  fix k assume k: "k < LENGTH(32)"
  from eq have "bit (crc_bit p a) 31 = bit (crc_bit p b) 31" by simp
  then have low: "bit a 0 = bit b 0" using crc_bit_top [OF p] by simp
  with eq have d: "drop_bit 1 a = drop_bit 1 b"
    by (simp add: crc_bit_def split: if_splits)
  show "bit a k = bit b k"
  proof (cases k)
    case 0
    with low show ?thesis by simp
  next
    case (Suc j)
    from d have "bit (drop_bit 1 a) j = bit (drop_bit 1 b) j" by simp
    with Suc show ?thesis by (simp add: bit_drop_bit_eq)
  qed
qed

lemma crc_bits_inj: "bit p 31 \<Longrightarrow> (crc_bit p ^^ n) a = (crc_bit p ^^ n) b \<Longrightarrow> a = b"
  by (induction n) (auto dest: crc_bit_inj)

section \<open>The table computes eight shifts at once\<close>

lemma MakeTable_nth: "MakeTable p ! unat (b :: byte) = (crc_bit p ^^ 8) (ucast b)"
proof -
  have "word_of_nat (unat b) = (ucast b :: uint32)" by (rule bit_word_eqI) (simp add: bit_simps)
  then show ?thesis by (simp add: MakeTable_def del: funpow.simps)
qed

lemma crc_step_eq:
  "crc_step (MakeTable p) c v = (crc_bit p ^^ 8) (c XOR ucast v)"
proof -
  have "c XOR ucast v = ucast ((ucast c :: byte) XOR v) XOR push_bit 8 (drop_bit 8 c)"
    by (rule bit_word_eqI) (auto simp: bit_simps dest: bit_imp_le_length)
  then have "(crc_bit p ^^ 8) (c XOR ucast v)
      = (crc_bit p ^^ 8) (ucast ((ucast c :: byte) XOR v)) XOR (crc_bit p ^^ 8) (push_bit 8 (drop_bit 8 c))"
    by (simp only: crc_bits_xor)
  also have "(crc_bit p ^^ 8) (push_bit 8 (drop_bit 8 c)) = drop_bit 8 c"
  proof -
    have "drop_bit 8 (push_bit 8 (drop_bit 8 c)) = drop_bit 8 c"
      by (rule bit_word_eqI) (auto simp: bit_simps dest: bit_imp_le_length [of c])
    then show ?thesis by (subst crc_bits_zeros) (auto simp: bit_simps)
  qed
  finally show ?thesis by (simp add: crc_step_def MakeTable_nth)
qed

lemma crc_steps_eq:
  "length bs \<le> 4 \<Longrightarrow>
   foldl (crc_step (MakeTable p)) c bs = (crc_bit p ^^ (8 * length bs)) (c XOR le_word bs)"
proof (induction bs arbitrary: c)
  case Nil
  then show ?case by simp
next
  case (Cons b bs)
  let ?n = "8 * length bs" and ?w = "le_word bs :: uint32"
  have "drop_bit 8 (push_bit 8 ?w) = ?w"
    by (rule bit_word_eqI) (use Cons.prems in \<open>auto simp: bit_simps bit_le_word\<close>)
  then have w8: "(crc_bit p ^^ 8) (push_bit 8 ?w) = ?w"
    by (subst crc_bits_zeros) (auto simp: bit_simps)
  have split: "c XOR le_word (b # bs) = (c XOR ucast b) XOR push_bit 8 ?w"
    by (rule bit_word_eqI) (auto simp: bit_simps dest: bit_imp_le_length)
  have "foldl (crc_step (MakeTable p)) c (b # bs)
      = (crc_bit p ^^ ?n) ((crc_bit p ^^ 8) (c XOR ucast b) XOR ?w)"
    using Cons.prems Cons.IH [of "(crc_bit p ^^ 8) (c XOR ucast b)"]
    by (simp add: crc_step_eq [of p c b] del: funpow.simps)
  also have "\<dots> = (crc_bit p ^^ ?n) ((crc_bit p ^^ 8) ((c XOR ucast b) XOR push_bit 8 ?w))"
    by (simp only: crc_bits_xor w8)
  also have "\<dots> = (crc_bit p ^^ (8 * length (b # bs))) (c XOR le_word (b # bs))"
  proof -
    have len: "8 * length (b # bs) = ?n + 8" by simp
    show ?thesis by (simp only: split len funpow_add o_apply)
  qed
  finally show ?case .
qed

section \<open>Error detection\<close>

lemma crc_steps_inj:
  assumes p: "bit p 31"
  shows "foldl (crc_step (MakeTable p)) c bs = foldl (crc_step (MakeTable p)) d bs \<Longrightarrow> c = d"
proof (induction bs arbitrary: c d)
  case Nil
  then show ?case by simp
next
  case (Cons b bs)
  then have "crc_step (MakeTable p) c b = crc_step (MakeTable p) d b" by simp
  then have "c XOR ucast b = d XOR ucast b"
    unfolding crc_step_eq by (rule crc_bits_inj [OF p])
  then show ?case by simp
qed

lemma crc_window_inj:
  assumes p: "bit p 31" and len: "length u = length v" "length u \<le> 4"
    and eq: "foldl (crc_step (MakeTable p)) c u = foldl (crc_step (MakeTable p)) c v"
  shows "u = v"
proof -
  from eq len have "(crc_bit p ^^ (8 * length v)) (c XOR le_word u)
      = (crc_bit p ^^ (8 * length v)) (c XOR le_word v)"
    by (simp add: crc_steps_eq del: funpow.simps)
  then have "(le_word u :: uint32) = le_word v"
    using crc_bits_inj [OF p] by (metis word_xor_cancel_left)
  then have "le_bytes (length u) (le_word u :: uint32) = le_bytes (length v) (le_word v :: uint32)"
    using len by simp
  moreover have "8 * length u \<le> LENGTH(32)" and "8 * length v \<le> LENGTH(32)" using len by simp_all
  ultimately show ?thesis by (simp only: le_bytes_le_word)
qed

lemma Checksum_window:
  assumes "bit p 31" and "length u = length v" "length u \<le> 4"
    and "Checksum (pre @ u @ post) (MakeTable p) = Checksum (pre @ v @ post) (MakeTable p)"
  shows "u = v"
proof -
  let ?c = "foldl (crc_step (MakeTable p)) (NOT 0) pre"
  from assms(4) have "foldl (crc_step (MakeTable p)) (foldl (crc_step (MakeTable p)) ?c u) post
      = foldl (crc_step (MakeTable p)) (foldl (crc_step (MakeTable p)) ?c v) post"
    by (simp add: Checksum_def simpleUpdate_def)
  then have "foldl (crc_step (MakeTable p)) ?c u = foldl (crc_step (MakeTable p)) ?c v"
    by (rule crc_steps_inj [OF assms(1)])
  with assms(1-3) show ?thesis by (rule crc_window_inj)
qed

end
