(* ===== verification/Server_Encoding.thy ===== *)
theory Server_Encoding
  imports Crc32
begin

text \<open>
  The storage format of a zstordb server: \<open>server/types.go\<close>, \<open>server/encoding/buffer.go\<close> and
  \<open>server/encoding/encoding.go\<close>.  Values are stored as a CRC32 checksum followed by a blob.
  The two zero-allocation buffers alias a window of the slice being built or parsed; the model
  keeps the part of the window already written beside the part still to be written, so the
  contents of the window are the two together.
\<close>

section \<open>Data types (server/types.go)\<close>

record server_Object =
  Data :: bytes

record Namespace =
  Reserved :: uint64
  Label :: bytes

record StoreStat =
  SizeAvailable :: uint64
  SizeUsed :: uint64

datatype ObjectStatus = ObjectStatusMissing | ObjectStatusOK | ObjectStatusCorrupted

fun ObjectStatus_String :: "ObjectStatus \<Rightarrow> string" where
  "ObjectStatus_String ObjectStatusOK = take 2 ''okcorruptedmissing''"
| "ObjectStatus_String ObjectStatusCorrupted = take 9 (drop 2 ''okcorruptedmissing'')"
| "ObjectStatus_String ObjectStatusMissing = drop 11 ''okcorruptedmissing''"

datatype encoding_error = ErrInvalidChecksum | ErrInvalidData | ErrNoDataToEncode | ErrNoLabelToEncode

section \<open>Buffers (server/encoding/buffer.go)\<close>

record zeroAllocWriteBuffer =
  wb_written :: bytes
  wb_buf :: bytes
  wb_length :: nat
  wb_offset :: nat

definition wb_window :: "zeroAllocWriteBuffer \<Rightarrow> bytes" where
  "wb_window zab = wb_written zab @ wb_buf zab"

definition newZeroAllocWriteBuffer :: "bytes \<Rightarrow> ('e, zeroAllocWriteBuffer) result" where
  "newZeroAllocWriteBuffer buf =
     (if length buf = 0 then Panic
      else Ok \<lparr>wb_written = [], wb_buf = buf, wb_length = length buf, wb_offset = 0\<rparr>)"

definition wb_Write :: "zeroAllocWriteBuffer \<Rightarrow> bytes \<Rightarrow> ('e, zeroAllocWriteBuffer) result" where
  "wb_Write zab p =
     (let n = length p in
      if n = 0 then Panic
      else if n + wb_offset zab > wb_length zab then Panic
      else let buf = go_copy (wb_buf zab) p in
        rbind (slice_from buf n) (\<lambda>rest.
          Ok (zab\<lparr>wb_written := wb_written zab @ take n buf, wb_buf := rest,
                   wb_offset := wb_offset zab + n\<rparr>)))"

record zeroAllocReadBuffer =
  rb_buf :: bytes
  rb_length :: nat

datatype read_error = EOF | ErrUnexpectedEOF

definition newZeroAllocReadBuffer :: "bytes \<Rightarrow> ('e, zeroAllocReadBuffer) result" where
  "newZeroAllocReadBuffer buf =
     (if length buf = 0 then Panic else Ok \<lparr>rb_buf = buf, rb_length = length buf\<rparr>)"

text \<open>\<open>Read\<close> into a slice of length \<open>n\<close>: the bytes read and the advanced buffer.\<close>

definition rb_Read :: "zeroAllocReadBuffer \<Rightarrow> nat \<Rightarrow> (read_error, bytes \<times> zeroAllocReadBuffer) result" where
  "rb_Read zab n =
     (if n = 0 then Panic
      else if rb_length zab = 0 then Err EOF
      else let k = (if n > rb_length zab then rb_length zab else n) in
        rbind (slice_from (rb_buf zab) k) (\<lambda>rest.
          Ok (take k (rb_buf zab), zab\<lparr>rb_buf := rest, rb_length := rb_length zab - k\<rparr>)))"

definition rb_Empty :: "zeroAllocReadBuffer \<Rightarrow> bool" where
  "rb_Empty zab \<longleftrightarrow> rb_length zab = 0"

text \<open>
  \<open>binary.Write\<close> sends the bytes of the integer in one \<open>Write\<close>.  \<open>binary.Read\<close> fills its own
  buffer with \<open>io.ReadFull\<close>, which calls \<open>Read\<close> until it has \<open>n\<close> bytes; each call that succeeds
  on a well-formed buffer yields a byte, so \<open>n\<close> rounds of fuel are enough.
\<close>

fun ReadFull :: "nat \<Rightarrow> zeroAllocReadBuffer \<Rightarrow> nat \<Rightarrow> (read_error, bytes \<times> zeroAllocReadBuffer) result" where
  "ReadFull fuel zab 0 = Ok ([], zab)"
| "ReadFull 0 zab (Suc n) = Err ErrUnexpectedEOF"
| "ReadFull (Suc fuel) zab (Suc n) =
     (case rb_Read zab (Suc n) of
        Ok (bs, zab') \<Rightarrow> rbind (ReadFull fuel zab' (Suc n - length bs)) (\<lambda>(cs, zab''). Ok (bs @ cs, zab''))
      | Err e \<Rightarrow> Err e
      | Panic \<Rightarrow> Panic)"

definition binary_Write :: "zeroAllocWriteBuffer \<Rightarrow> nat \<Rightarrow> 'a::len word \<Rightarrow> ('e, zeroAllocWriteBuffer) result" where
  "binary_Write zab n w = wb_Write zab (le_bytes n w)"

text \<open>The callers ignore the error of \<open>binary.Read\<close>; the variable then keeps its old value.\<close>

definition binary_Read ::
  "zeroAllocReadBuffer \<Rightarrow> nat \<Rightarrow> 'a::len word \<Rightarrow> ('e, 'a word \<times> zeroAllocReadBuffer) result" where
  "binary_Read zab n old =
     (case ReadFull n zab n of
        Ok (bs, zab') \<Rightarrow> Ok (le_word bs, zab')
      | Err e \<Rightarrow> Ok (old, zab)
      | Panic \<Rightarrow> Panic)"

section \<open>Encoding (server/encoding/encoding.go)\<close>

definition checksumSize :: nat where
  "checksumSize = 4"

definition CRC32Polynomial :: uint32 where
  "CRC32Polynomial = 0xD5828281"

definition crc32TablePolynomial :: "uint32 list" where
  "crc32TablePolynomial = MakeTable CRC32Polynomial"

definition packageData :: "bytes \<Rightarrow> (encoding_error, bytes) result" where
  "packageData data =
     rbind (slice_to data checksumSize) (\<lambda>head.
     rbind (newZeroAllocWriteBuffer head) (\<lambda>buf.
     rbind (slice_from data checksumSize) (\<lambda>blob.
     rbind (binary_Write buf 4 (Checksum blob crc32TablePolynomial)) (\<lambda>buf.
       Ok (wb_window buf @ blob)))))"

definition unpackageData :: "bytes \<Rightarrow> (encoding_error, bytes) result" where
  "unpackageData data =
     rbind (slice_from data checksumSize) (\<lambda>blob.
       let validCRC = Checksum blob crc32TablePolynomial in
     rbind (slice_to data checksumSize) (\<lambda>head.
     rbind (newZeroAllocReadBuffer head) (\<lambda>buf.
     rbind (binary_Read buf 4 0) (\<lambda>(packagedCRC, buf).
       if validCRC \<noteq> packagedCRC then Err ErrInvalidChecksum else Ok blob))))"

definition EncodeObject :: "server_Object \<Rightarrow> (encoding_error, bytes) result" where
  "EncodeObject obj =
     (let objDataLength = length (Data obj) in
      if objDataLength = 0 then Err ErrNoDataToEncode
      else packageData (copy_at checksumSize (replicate (checksumSize + objDataLength) 0) (Data obj)))"

definition DecodeObject :: "bytes \<Rightarrow> (encoding_error, server_Object) result" where
  "DecodeObject data =
     (let minDecodeSize = checksumSize + 1 in
      if length data < minDecodeSize then Err ErrInvalidData
      else rbind (unpackageData data) (\<lambda>blob. Ok \<lparr>Data = blob\<rparr>))"

definition EncodeNamespace :: "Namespace \<Rightarrow> (encoding_error, bytes) result" where
  "EncodeNamespace ns =
     (let labelLength = length (Label ns); reservedLength = 8;
          staticSize = checksumSize + reservedLength in
      if labelLength = 0 then Err ErrNoLabelToEncode
      else let data = copy_at staticSize (replicate (staticSize + labelLength) 0) (Label ns) in
      if Reserved ns \<noteq> 0 then
        rbind (slice_to data staticSize) (\<lambda>front.
        rbind (slice_from front checksumSize) (\<lambda>win.
        rbind (newZeroAllocWriteBuffer win) (\<lambda>buf.
        rbind (binary_Write buf reservedLength (Reserved ns)) (\<lambda>buf.
          packageData (take checksumSize data @ wb_window buf @ drop staticSize data)))))
      else packageData data)"

definition DecodeNamespace :: "bytes \<Rightarrow> (encoding_error, Namespace) result" where
  "DecodeNamespace data =
     (let reservedLength = 8; minDecodeSize = checksumSize + reservedLength + 1 in
      if length data < minDecodeSize then Err ErrInvalidData
      else rbind (unpackageData data) (\<lambda>blob.
        rbind (slice_to blob reservedLength) (\<lambda>head.
        rbind (newZeroAllocReadBuffer head) (\<lambda>buf.
        rbind (binary_Read buf 8 0) (\<lambda>(reserved, buf).
        rbind (slice_from blob reservedLength) (\<lambda>label.
          Ok \<lparr>Reserved = reserved, Label = label\<rparr>))))))"

definition EncodeStoreStat :: "StoreStat \<Rightarrow> (encoding_error, bytes) result" where
  "EncodeStoreStat stats =
     (let propertySize = 16; data = replicate (checksumSize + propertySize) 0 in
      rbind (slice_from data checksumSize) (\<lambda>win.
      rbind (newZeroAllocWriteBuffer win) (\<lambda>buf.
      rbind (binary_Write buf 8 (SizeAvailable stats)) (\<lambda>buf.
      rbind (binary_Write buf 8 (SizeUsed stats)) (\<lambda>buf.
        packageData (take checksumSize data @ wb_window buf))))))"

definition DecodeStoreStat :: "bytes \<Rightarrow> (encoding_error, StoreStat) result" where
  "DecodeStoreStat data =
     (let staticDecodeSize = checksumSize + 16 in
      if length data \<noteq> staticDecodeSize then Err ErrInvalidData
      else rbind (unpackageData data) (\<lambda>blob.
        rbind (newZeroAllocReadBuffer blob) (\<lambda>buf.
        rbind (binary_Read buf 8 0) (\<lambda>(available, buf).
        rbind (binary_Read buf 8 0) (\<lambda>(used, buf).
          Ok \<lparr>SizeAvailable = available, SizeUsed = used\<rparr>)))))"

definition ValidateData :: "bytes \<Rightarrow> (encoding_error, unit) result" where
  "ValidateData data =
     (let minDataSize = checksumSize + 1 in
      if length data < minDataSize then Err ErrInvalidData
      else rbind (slice_from data checksumSize) (\<lambda>blob.
        let validCRC = Checksum blob crc32TablePolynomial in
        rbind (slice_to data checksumSize) (\<lambda>head.
        rbind (newZeroAllocReadBuffer head) (\<lambda>buf.
        rbind (binary_Read buf 4 0) (\<lambda>(packagedCRC, buf).
          if validCRC \<noteq> packagedCRC then Err ErrInvalidChecksum else Ok ())))))"

section \<open>Buffer lemmas\<close>

lemma binary_Write_fits [go_simps]:
  assumes "0 < n" "n \<le> length (wb_buf zab)" "n + wb_offset zab \<le> wb_length zab"
  shows "binary_Write zab n w =
    Ok (zab\<lparr>wb_written := wb_written zab @ le_bytes n w, wb_buf := drop n (wb_buf zab),
            wb_offset := wb_offset zab + n\<rparr>)"
  using assms by (simp add: binary_Write_def wb_Write_def Let_def slice_from_def go_copy_def)

lemma ReadFull_fits:
  assumes "rb_length zab = length (rb_buf zab)" "n \<le> rb_length zab" "n \<le> fuel"
  shows "ReadFull fuel zab n =
    Ok (take n (rb_buf zab), zab\<lparr>rb_buf := drop n (rb_buf zab), rb_length := rb_length zab - n\<rparr>)"
proof (cases n)
  case 0
  then show ?thesis by simp
next
  case (Suc m)
  with assms obtain f where "fuel = Suc f" by (cases fuel) auto
  with Suc assms show ?thesis
    by (auto simp: rb_Read_def Let_def slice_from_def min_def)
qed

lemma binary_Read_fits [go_simps]:
  assumes "rb_length zab = length (rb_buf zab)" "n \<le> rb_length zab"
  shows "binary_Read zab n old =
    Ok (le_word (take n (rb_buf zab)), zab\<lparr>rb_buf := drop n (rb_buf zab), rb_length := rb_length zab - n\<rparr>)"
  using ReadFull_fits [OF assms, of n] by (simp add: binary_Read_def)

lemmas encoding_unfolds = Let_def newZeroAllocWriteBuffer_def newZeroAllocReadBuffer_def
  checksumSize_def wb_window_def

section \<open>Packaging\<close>

definition blob_crc :: "bytes \<Rightarrow> uint32" where
  "blob_crc blob = Checksum blob crc32TablePolynomial"

lemma packageData_eq:
  "4 \<le> length data \<Longrightarrow> packageData data = Ok (le_bytes 4 (blob_crc (drop 4 data)) @ drop 4 data)"
  by (cases data) (simp_all add: packageData_def encoding_unfolds go_simps blob_crc_def)

lemma unpackageData_eq:
  "4 \<le> length data \<Longrightarrow> unpackageData data =
     (if blob_crc (drop 4 data) = le_word (take 4 data) then Ok (drop 4 data) else Err ErrInvalidChecksum)"
  by (auto simp: unpackageData_def encoding_unfolds go_simps blob_crc_def)

lemma unpackage_package:
  "unpackageData (le_bytes 4 (blob_crc blob) @ blob) = Ok blob"
  by (simp add: unpackageData_eq)

lemma EncodeObject_eq:
  "EncodeObject obj = (if Data obj = [] then Err ErrNoDataToEncode
     else Ok (le_bytes 4 (blob_crc (Data obj)) @ Data obj))"
  by (simp add: EncodeObject_def Let_def checksumSize_def packageData_eq copy_at_suffix)

lemma DecodeObject_eq:
  "DecodeObject data = (if length data < 5 then Err ErrInvalidData
     else if blob_crc (drop 4 data) = le_word (take 4 data) then Ok \<lparr>Data = drop 4 data\<rparr>
     else Err ErrInvalidChecksum)"
  by (auto simp: DecodeObject_def Let_def checksumSize_def unpackageData_eq)

lemma EncodeNamespace_eq:
  "EncodeNamespace ns = (if Label ns = [] then Err ErrNoLabelToEncode
     else let blob = le_bytes 8 (Reserved ns) @ Label ns in Ok (le_bytes 4 (blob_crc blob) @ blob))"
proof -
  have "le_bytes 8 (0 :: uint64) = replicate 8 0" by (simp add: numeral_eq_Suc)
  then show ?thesis
    by (auto simp: EncodeNamespace_def encoding_unfolds go_simps packageData_eq copy_at_suffix)
qed

lemma DecodeNamespace_eq:
  "DecodeNamespace data = (if length data < 13 then Err ErrInvalidData
     else if blob_crc (drop 4 data) = le_word (take 4 data)
     then Ok \<lparr>Reserved = le_word (take 8 (drop 4 data)), Label = drop 12 data\<rparr>
     else Err ErrInvalidChecksum)"
  by (auto simp: DecodeNamespace_def encoding_unfolds go_simps unpackageData_eq)

lemma EncodeStoreStat_eq:
  "EncodeStoreStat st = (let blob = le_bytes 8 (SizeAvailable st) @ le_bytes 8 (SizeUsed st)
     in Ok (le_bytes 4 (blob_crc blob) @ blob))"
  by (simp add: EncodeStoreStat_def encoding_unfolds go_simps packageData_eq)

lemma DecodeStoreStat_eq:
  "DecodeStoreStat data = (if length data \<noteq> 20 then Err ErrInvalidData
     else if blob_crc (drop 4 data) = le_word (take 4 data)
     then Ok \<lparr>SizeAvailable = le_word (take 8 (drop 4 data)), SizeUsed = le_word (drop 12 data)\<rparr>
     else Err ErrInvalidChecksum)"
  by (auto simp: DecodeStoreStat_def encoding_unfolds go_simps unpackageData_eq)

lemma ValidateData_eq:
  "ValidateData data = (if length data < 5 then Err ErrInvalidData
     else if blob_crc (drop 4 data) = le_word (take 4 data) then Ok ()
     else Err ErrInvalidChecksum)"
  by (auto simp: ValidateData_def encoding_unfolds go_simps blob_crc_def)

section \<open>Properties of the storage format\<close>

lemma le_word_eq_iff:
  assumes "LENGTH('a::len) = 8 * length bs"
  shows "w = (le_word bs :: 'a word) \<longleftrightarrow> le_bytes (length bs) w = bs"
proof
  assume "le_bytes (length bs) w = bs"
  then have "le_word (le_bytes (length bs) w) = (le_word bs :: 'a word)" by simp
  with assms show "w = le_word bs" by simp
qed (use assms in simp)

lemma packaged_iff:
  assumes "4 \<le> length data"
  shows "blob_crc (drop 4 data) = le_word (take 4 data) \<longleftrightarrow>
     le_bytes 4 (blob_crc (drop 4 data)) @ drop 4 data = data"
proof -
  have "blob_crc (drop 4 data) = le_word (take 4 data) \<longleftrightarrow>
      le_bytes 4 (blob_crc (drop 4 data)) = take 4 data"
    using assms le_word_eq_iff [of "take 4 data" "blob_crc (drop 4 data)"] by (simp add: min_absorb2)
  also have "\<dots> \<longleftrightarrow> le_bytes 4 (blob_crc (drop 4 data)) @ drop 4 data = take 4 data @ drop 4 data"
    by (simp only: append_same_eq)
  finally show ?thesis by (simp only: append_take_drop_id)
qed

text \<open>
  C39.  The stored form of an object is canonical: a byte string decodes to an object exactly when
  it is the encoding of that object.  In one direction this is the round trip of every object a
  server stores, in the other it says that nothing but an encoder's output is ever accepted.
\<close>

theorem DecodeObject_iff_EncodeObject:
  "DecodeObject data = Ok obj \<longleftrightarrow> EncodeObject obj = Ok data"
proof
  assume "DecodeObject data = Ok obj"
  then have "5 \<le> length data" "blob_crc (drop 4 data) = le_word (take 4 data)" "Data obj = drop 4 data"
    by (auto simp: DecodeObject_eq split: if_splits)
  then show "EncodeObject obj = Ok data"
    using packaged_iff [of data] by (simp add: EncodeObject_eq)
next
  assume "EncodeObject obj = Ok data"
  then show "DecodeObject data = Ok obj"
    by (auto simp: EncodeObject_eq DecodeObject_eq Suc_le_eq split: if_splits)
qed

text \<open>The stored form of a namespace is canonical, for every reserved size and label.\<close>

lemma DecodeNamespace_iff_EncodeNamespace:
  "DecodeNamespace data = Ok ns \<longleftrightarrow> EncodeNamespace ns = Ok data"
proof
  assume "DecodeNamespace data = Ok ns"
  then have d: "13 \<le> length data" "blob_crc (drop 4 data) = le_word (take 4 data)"
      "Reserved ns = le_word (take 8 (drop 4 data))" "Label ns = drop 12 data"
    by (auto simp: DecodeNamespace_eq split: if_splits)
  then have "le_bytes 8 (Reserved ns) = take 8 (drop 4 data)"
    using le_bytes_le_word [of "take 8 (drop 4 data)", where 'a = 64] by (simp add: min_absorb2)
  then have "le_bytes 8 (Reserved ns) @ Label ns = drop 4 data"
    using d append_take_drop_id [of 8 "drop 4 data"] by simp
  with d show "EncodeNamespace ns = Ok data"
    using packaged_iff [of data] by (simp add: EncodeNamespace_eq Let_def)
next
  assume "EncodeNamespace ns = Ok data"
  then show "DecodeNamespace data = Ok ns"
    by (auto simp: EncodeNamespace_eq DecodeNamespace_eq Let_def Suc_le_eq split: if_splits)
qed

text \<open>The stored form of the store statistics is canonical.\<close>

lemma DecodeStoreStat_iff_EncodeStoreStat:
  "DecodeStoreStat data = Ok st \<longleftrightarrow> EncodeStoreStat st = Ok data"
proof
  assume "DecodeStoreStat data = Ok st"
  then have d: "length data = 20" "blob_crc (drop 4 data) = le_word (take 4 data)"
      "SizeAvailable st = le_word (take 8 (drop 4 data))" "SizeUsed st = le_word (drop 12 data)"
    by (auto simp: DecodeStoreStat_eq split: if_splits)
  then have "le_bytes 8 (SizeAvailable st) = take 8 (drop 4 data)"
    and "le_bytes 8 (SizeUsed st) = drop 12 data"
    using le_bytes_le_word [of "take 8 (drop 4 data)", where 'a = 64]
      le_bytes_le_word [of "drop 12 data", where 'a = 64] by (simp_all add: min_absorb2)
  then have "le_bytes 8 (SizeAvailable st) @ le_bytes 8 (SizeUsed st) = drop 4 data"
    using append_take_drop_id [of 8 "drop 4 data"] by simp
  with d show "EncodeStoreStat st = Ok data"
    using packaged_iff [of data] by (simp add: EncodeStoreStat_eq Let_def)
next
  assume "EncodeStoreStat st = Ok data"
  then show "DecodeStoreStat data = Ok st"
    by (auto simp: EncodeStoreStat_eq DecodeStoreStat_eq Let_def)
qed

lemma CRC32Polynomial_top: "bit CRC32Polynomial 31"
  by (simp add: CRC32Polynomial_def)

lemma blob_crc_window:
  "length u = length v \<Longrightarrow> length u \<le> 4 \<Longrightarrow> u \<noteq> v \<Longrightarrow>
   blob_crc (pre @ u @ post) \<noteq> blob_crc (pre @ v @ post)"
  unfolding blob_crc_def crc32TablePolynomial_def
  using Checksum_window [OF CRC32Polynomial_top] by blast

lemma packaged_header:
  "le_bytes 4 (blob_crc (drop 4 x)) @ drop 4 x = x \<Longrightarrow> take 4 x = le_bytes 4 (blob_crc (drop 4 x))"
  by (metis append_eq_conv_conj length_le_bytes)

lemma EncodeObject_shape:
  "EncodeObject obj = Ok data \<Longrightarrow>
     5 \<le> length data \<and> le_bytes 4 (blob_crc (drop 4 data)) @ drop 4 data = data"
  by (cases "Data obj") (auto simp: EncodeObject_eq)



text \<open>
  No input makes the format's functions panic: the buffers are never created empty and never
  written or read past their end, whatever bytes a database returns.
\<close>

lemma encoding_never_panics:
  "DecodeObject data \<noteq> Panic \<and> DecodeNamespace data \<noteq> Panic \<and> DecodeStoreStat data \<noteq> Panic \<and>
   ValidateData data \<noteq> Panic \<and> EncodeObject obj \<noteq> Panic \<and> EncodeNamespace ns \<noteq> Panic \<and>
   EncodeStoreStat st \<noteq> Panic"
  by (simp add: DecodeObject_eq DecodeNamespace_eq DecodeStoreStat_eq ValidateData_eq
      EncodeObject_eq EncodeNamespace_eq EncodeStoreStat_eq Let_def)

end
