(* ===== verification/Db_Keys.thy ===== *)
theory Db_Keys
  imports Zstor_Prelude
begin

text \<open>
  The layout of the key space of a zstordb database (\<open>server/db/keys.go\<close>): data keys, the scope
  keys that prefix them, namespace keys, unlisted keys and the statistics key.  Every builder
  panics on a nil slice, hence the \<open>slice\<close> arguments.
\<close>

section \<open>Definitions\<close>

definition ascii :: "string \<Rightarrow> bytes" where
  "ascii str = map of_char str"

abbreviation colon :: byte where
  "colon \<equiv> of_char (CHR '':'')"

definition SequenceKeyByteSize :: nat where
  "SequenceKeyByteSize = 8"

definition ScopedSequenceKey :: "slice \<Rightarrow> uint64 \<Rightarrow> ('e, bytes) result" where
  "ScopedSequenceKey scopeKey seq =
     (case scopeKey of
        None \<Rightarrow> Panic
      | Some sk \<Rightarrow>
          let skl = length sk;
              key = copy_at 0 (replicate (skl + SequenceKeyByteSize) 0) sk
          in Ok (copy_at skl key (le_bytes 8 seq)))"

definition DataKey :: "slice \<Rightarrow> slice \<Rightarrow> ('e, bytes) result" where
  "DataKey label genKey =
     (case label of
        None \<Rightarrow> Panic
      | Some l \<Rightarrow>
         (case genKey of
            None \<Rightarrow> Panic
          | Some g \<Rightarrow>
              let labelLength = length l;
                  key = replicate (labelLength + length g + 3) 0;
                  key = key[0 := of_char (CHR ''d''), 1 := colon];
                  key = copy_at 2 key l;
                  key = key[labelLength + 2 := colon]
              in Ok (copy_at (labelLength + 3) key g)))"

definition DataScopeKey :: "slice \<Rightarrow> ('e, bytes) result" where
  "DataScopeKey label =
     (case label of
        None \<Rightarrow> Panic
      | Some l \<Rightarrow>
          let key = replicate (length l + 3) 0;
              key = key[0 := of_char (CHR ''d''), 1 := colon];
              key = copy_at 2 key l
          in Ok (key[length key - 1 := colon]))"

definition NamespaceKey :: "slice \<Rightarrow> ('e, bytes) result" where
  "NamespaceKey label =
     (case label of
        None \<Rightarrow> Panic
      | Some l \<Rightarrow>
          let key = replicate (length l + 2) 0;
              key = key[0 := of_char (CHR ''@''), 1 := colon]
          in Ok (copy_at 2 key l))"

definition UnlistedKey :: "slice \<Rightarrow> ('e, bytes) result" where
  "UnlistedKey key =
     (case key of
        None \<Rightarrow> Panic
      | Some k \<Rightarrow>
          let outputKey = replicate (length k + 2) 0;
              outputKey = outputKey[0 := of_char (CHR ''_''), 1 := of_char (CHR ''_'')]
          in Ok (copy_at 2 outputKey k))"

definition StoreStatsKey :: bytes where
  "StoreStatsKey = ascii ''$''"

section \<open>Closed forms\<close>

definition data_scope :: "bytes \<Rightarrow> bytes" where
  "data_scope l = ascii ''d:'' @ l @ [colon]"

lemma ascii_simps [simp]:
  "ascii [] = []" "ascii (c # cs) = of_char c # ascii cs" "ascii (xs @ ys) = ascii xs @ ascii ys"
  "length (ascii xs) = length xs"
  by (simp_all add: ascii_def)

lemma copy_at_0: "length src \<le> length dst \<Longrightarrow> copy_at 0 dst src = src @ drop (length src) dst"
  by (simp add: copy_at_def go_copy_prefix)

lemma copy_at_mid:
  "i + length src \<le> length dst \<Longrightarrow> copy_at i dst src = take i dst @ src @ drop (i + length src) dst"
  by (simp add: copy_at_def go_copy_prefix add.commute)

lemma ScopedSequenceKey_eq: "ScopedSequenceKey (Some sk) seq = Ok (sk @ le_bytes 8 seq)"
  by (simp add: ScopedSequenceKey_def SequenceKeyByteSize_def Let_def copy_at_0 copy_at_mid)

lemma key_frame:
  "(replicate (n + m + 3) 0)[0 := a, 1 := b] = [a, b] @ replicate n 0 @ [0] @ replicate m (0 :: byte)"
proof -
  have "replicate (n + m + 3) (0 :: byte) = [0, 0] @ replicate n 0 @ [0] @ replicate m 0"
    by (simp add: replicate_add numeral_3_eq_3 replicate_app_Cons_same)
  then show ?thesis by simp
qed

lemma copy_at_middle: "length pre = i \<Longrightarrow> length b = length src \<Longrightarrow> copy_at i (pre @ b @ c) src = pre @ src @ c"
  by (simp add: copy_at_mid)

lemma update_middle: "length pre = i \<Longrightarrow> (pre @ [x] @ post)[i := y] = pre @ [y] @ post"
  by (simp add: list_update_append)

lemma DataKey_eq: "DataKey (Some l) (Some g) = Ok (data_scope l @ g)"
proof -
  let ?h = "[of_char (CHR ''d''), colon] :: bytes"
  have "(replicate (length l + length g + 3) 0)[0 := of_char (CHR ''d''), 1 := colon]
      = ?h @ replicate (length l) 0 @ [0] @ replicate (length g) 0" by (rule key_frame)
  moreover have "copy_at 2 (?h @ replicate (length l) 0 @ [0] @ replicate (length g) 0) l
      = ?h @ l @ [0] @ replicate (length g) 0" by (rule copy_at_middle) simp_all
  moreover have "(?h @ l @ [0] @ replicate (length g) 0)[length l + 2 := colon]
      = (?h @ l @ [colon]) @ replicate (length g) 0"
    using update_middle [of "?h @ l" "length l + 2" 0 "replicate (length g) 0" colon] by simp
  moreover have "copy_at (length l + 3) ((?h @ l @ [colon]) @ replicate (length g) 0) g = ?h @ l @ [colon] @ g"
    using copy_at_middle [of "?h @ l @ [colon]" "length l + 3" "replicate (length g) 0" g "[]"] by simp
  ultimately show ?thesis
    by (simp only: DataKey_def data_scope_def Let_def option.case ascii_simps append.simps append_assoc)
qed

lemma DataScopeKey_eq: "DataScopeKey (Some l) = Ok (data_scope l)"
proof -
  let ?h = "[of_char (CHR ''d''), colon] :: bytes"
  have "(replicate (length l + 3) 0)[0 := of_char (CHR ''d''), 1 := colon] = ?h @ replicate (length l) 0 @ [0]"
    using key_frame [of "length l" 0] by simp
  moreover have "copy_at 2 (?h @ replicate (length l) 0 @ [0]) l = ?h @ l @ [0]"
    by (rule copy_at_middle) simp_all
  moreover have "(?h @ l @ [0])[length (?h @ l @ [0]) - 1 := colon] = ?h @ l @ [colon]"
    using update_middle [of "?h @ l" "length l + 2" 0 "[]" colon] by simp
  ultimately show ?thesis
    by (simp only: DataScopeKey_def data_scope_def Let_def option.case ascii_simps append.simps append_assoc)
qed

lemma NamespaceKey_eq: "NamespaceKey (Some l) = Ok (ascii ''@:'' @ l)"
  by (simp add: NamespaceKey_def Let_def copy_at_mid numeral_2_eq_2)

lemma UnlistedKey_eq: "UnlistedKey (Some k) = Ok (ascii ''__'' @ k)"
  by (simp add: UnlistedKey_def Let_def copy_at_mid numeral_2_eq_2)

lemmas key_eqs = ScopedSequenceKey_eq DataKey_eq DataScopeKey_eq NamespaceKey_eq UnlistedKey_eq

section \<open>Separation of the key space\<close>

lemma data_scope_nth: "data_scope l = of_char (CHR ''d'') # colon # l @ [colon]"
  by (simp add: data_scope_def)

lemma colon_split:
  assumes "colon \<notin> set l" "colon \<notin> set l'"
  shows "l @ [colon] @ g = l' @ [colon] @ g' \<longleftrightarrow> l = l' \<and> g = g'"
proof
  assume eq: "l @ [colon] @ g = l' @ [colon] @ g'"
  have "takeWhile (\<lambda>b. b \<noteq> colon) (xs @ [colon] @ ys) = xs" if "colon \<notin> set xs" for xs ys :: bytes
    using that by (induction xs) auto
  with eq assms have "l = l'" by metis
  with eq show "l = l' \<and> g = g'" by simp
qed simp

lemma data_scope_inj:
  "colon \<notin> set l \<Longrightarrow> colon \<notin> set l' \<Longrightarrow> data_scope l @ g = data_scope l' @ g' \<longleftrightarrow> l = l' \<and> g = g'"
  using colon_split [of l l' g g'] by (simp add: data_scope_nth)

lemma data_scope_prefix_iff:
  assumes "colon \<notin> set l" "colon \<notin> set l'"
  shows "prefix (data_scope l) (data_scope l' @ g) \<longleftrightarrow> l = l'"
  unfolding prefix_def using data_scope_inj [OF assms(2,1)] by blast

text \<open>
  A created object's full key is its namespace's scope key followed by the sequence; the server
  hands out what follows the scope key, and \<open>DataKey\<close> recovers the full key from it, so the key
  a client receives always leads back to the stored entry.
\<close>

lemma data_key_reassembled:
  "\<exists>scope key. DataScopeKey (Some l) = Ok scope \<and> ScopedSequenceKey (Some scope) seq = Ok key \<and>
     prefix scope key \<and> length key = length l + 11 \<and>
     DataKey (Some l) (Some (drop (length scope) key)) = Ok key"
  by (simp add: key_eqs) (simp add: data_scope_nth)

text \<open>
  Labels without a colon separate the data of namespaces: two data keys agree only when both the
  label and the object key do, and listing by the scope key of one namespace never meets a key of
  another.
\<close>

lemma namespaces_separated:
  assumes "colon \<notin> set l" "colon \<notin> set l'"
  shows "(DataKey (Some l) (Some g) = DataKey (Some l') (Some g') \<longleftrightarrow> l = l' \<and> g = g') \<and>
    (\<exists>scope key. DataScopeKey (Some l) = Ok scope \<and> DataKey (Some l') (Some g) = Ok key \<and>
       (prefix scope key \<longleftrightarrow> l = l'))"
  using data_scope_inj [OF assms] data_scope_prefix_iff [OF assms] by (simp add: key_eqs)

text \<open>
  A label with a colon breaks that separation: namespaces \<open>a\<close> and \<open>a:b\<close> share data keys, and
  listing the first by its scope key meets every entry of the second.
\<close>

lemma colon_labels_collide:
  "DataKey (Some (l @ [colon] @ l')) (Some g) = DataKey (Some l) (Some (l' @ [colon] @ g)) \<and>
   (\<exists>scope key. DataScopeKey (Some l) = Ok scope \<and> DataKey (Some (l @ [colon] @ l')) (Some g) = Ok key \<and>
      prefix scope key)"
  by (simp add: key_eqs data_scope_nth)

text \<open>
  The families of keys never meet: no data key, namespace key, unlisted key and statistics key
  are equal, and listing a namespace's data never meets an unlisted key.
\<close>

lemma key_families_disjoint:
  "\<exists>d n u s. DataKey (Some l) (Some g) = Ok d \<and> NamespaceKey (Some l') = Ok n \<and>
     UnlistedKey (Some k) = Ok u \<and> DataScopeKey (Some l) = Ok s \<and>
     distinct [d, n, u, StoreStatsKey] \<and> \<not> prefix s n \<and> \<not> prefix s u \<and> \<not> prefix s StoreStatsKey"
  by (simp add: key_eqs data_scope_nth StoreStatsKey_def)

end
