(* ===== verification/Server_Db.thy ===== *)
theory Server_Db
  imports Db_Keys
begin

text \<open>
  The key-value database behind a zstordb server: the \<open>DB\<close> interface of \<open>server/db/db.go\<close>, with
  \<open>CountKeys\<close>, and its in-memory implementation \<open>server/db/memory/memory.go\<close>.

  The interface is a record of operations over an abstract state, so that the server's handlers
  are definitions that take a database as an argument.  What the handlers rely on is the locale
  \<open>kv_db\<close> (and \<open>scoped_db\<close>, which adds that generated keys are new); both are interpreted on the
  in-memory database.  Go visits the entries of a map in an unspecified order: the order of a
  traversal is an argument of \<open>ListItems\<close>, any enumeration of the stored keys.
\<close>

section \<open>The interface (server/db/db.go)\<close>

text \<open>A database may also report an error of its own, which is passed on.\<close>

datatype db_error = ErrNotFound | ErrNilKey | ErrClosedItem | ErrConflict | ErrBackend string

record 's DB =
  db_Set :: "slice \<Rightarrow> bytes \<Rightarrow> ('s, db_error, unit) op"
  db_SetScoped :: "slice \<Rightarrow> bytes \<Rightarrow> ('s, db_error, bytes) op"
  db_Get :: "slice \<Rightarrow> ('s, db_error, bytes) op"
  db_Exists :: "slice \<Rightarrow> ('s, db_error, bool) op"
  db_Delete :: "slice \<Rightarrow> ('s, db_error, unit) op"
  db_ListItems :: "bytes list \<Rightarrow> slice \<Rightarrow> 's \<Rightarrow> (bytes \<times> bytes) list"
  db_Close :: "('s, db_error, unit) op"

text \<open>
  \<open>ListItems(cb, prefix)\<close> calls \<open>cb\<close> on the items of \<open>db_ListItems\<close> in turn, and stops at the first
  error: \<open>fold_result cb\<close> over them.  \<open>CountKeys\<close> counts with a callback that never fails.
\<close>

definition CountKeys :: "'s DB \<Rightarrow> bytes list \<Rightarrow> slice \<Rightarrow> 's \<Rightarrow> (db_error, nat) result" where
  "CountKeys db order pre st =
     fold_result (\<lambda>count item. Ok (count + 1)) 0 (db_ListItems db order pre st)"

definition has_prefix :: "slice \<Rightarrow> bytes \<Rightarrow> bool" where
  "has_prefix pre key \<longleftrightarrow> (case pre of None \<Rightarrow> True | Some p \<Rightarrow> prefix p key)"

section \<open>The in-memory database (server/db/memory/memory.go)\<close>

record memory_DB =
  mdb_m :: "bytes \<rightharpoonup> bytes"
  mdb_c :: "bytes \<rightharpoonup> uint64"

definition memory_New :: memory_DB where
  "memory_New = \<lparr>mdb_m = Map.empty, mdb_c = Map.empty\<rparr>"

definition counter :: "memory_DB \<Rightarrow> bytes \<Rightarrow> uint64" where
  "counter mdb sk = (case mdb_c mdb sk of None \<Rightarrow> 0 | Some n \<Rightarrow> n)"

definition memory_Set :: "slice \<Rightarrow> bytes \<Rightarrow> (memory_DB, db_error, unit) op" where
  "memory_Set key data mdb =
     (case key of
        None \<Rightarrow> (Err ErrNilKey, mdb)
      | Some k \<Rightarrow>
          let b = go_copy (replicate (length data) 0) data
          in (Ok (), mdb\<lparr>mdb_m := (mdb_m mdb)(k \<mapsto> b)\<rparr>))"

definition memory_SetScoped :: "slice \<Rightarrow> bytes \<Rightarrow> (memory_DB, db_error, bytes) op" where
  "memory_SetScoped scopeKey data mdb =
     (case scopeKey of
        None \<Rightarrow> (Err ErrNilKey, mdb)
      | Some sk \<Rightarrow>
          let b = go_copy (replicate (length data) 0) data in
          obind (ScopedSequenceKey scopeKey (counter mdb sk), mdb) (\<lambda>key mdb.
            let mdb = mdb\<lparr>mdb_c := (mdb_c mdb)(sk \<mapsto> counter mdb sk + 1)\<rparr>
            in (Ok key, mdb\<lparr>mdb_m := (mdb_m mdb)(key \<mapsto> b)\<rparr>)))"

definition memory_Get :: "slice \<Rightarrow> (memory_DB, db_error, bytes) op" where
  "memory_Get key mdb =
     (case key of
        None \<Rightarrow> (Err ErrNilKey, mdb)
      | Some k \<Rightarrow>
         (case mdb_m mdb k of
            None \<Rightarrow> (Err ErrNotFound, mdb)
          | Some val \<Rightarrow> (Ok (go_copy (replicate (length val) 0) val), mdb)))"

definition memory_Exists :: "slice \<Rightarrow> (memory_DB, db_error, bool) op" where
  "memory_Exists key mdb =
     (case key of
        None \<Rightarrow> (Err ErrNilKey, mdb)
      | Some k \<Rightarrow> (Ok (mdb_m mdb k \<noteq> None), mdb))"

definition memory_Delete :: "slice \<Rightarrow> (memory_DB, db_error, unit) op" where
  "memory_Delete key mdb =
     (case key of
        None \<Rightarrow> (Err ErrNilKey, mdb)
      | Some k \<Rightarrow> (Ok (), mdb\<lparr>mdb_m := (mdb_m mdb)(k := None)\<rparr>))"

text \<open>The loop of \<open>ListItems\<close> over the keys of the map, in the order the runtime visits them.\<close>

fun memory_ListItems ::
  "bytes list \<Rightarrow> ('a \<Rightarrow> bytes \<times> bytes \<Rightarrow> ('e, 'a) result) \<Rightarrow> slice \<Rightarrow> 'a \<Rightarrow> memory_DB \<Rightarrow> ('e, 'a) result" where
  "memory_ListItems [] cb pre acc mdb = Ok acc"
| "memory_ListItems (k # order) cb pre acc mdb =
     (case mdb_m mdb k of
        None \<Rightarrow> memory_ListItems order cb pre acc mdb
      | Some val \<Rightarrow>
          if pre \<noteq> None \<and> \<not> prefix (the pre) k then memory_ListItems order cb pre acc mdb
          else rbind (cb acc (k, val)) (\<lambda>acc'. memory_ListItems order cb pre acc' mdb))"

definition memory_Close :: "(memory_DB, db_error, unit) op" where
  "memory_Close mdb = (Ok (), mdb\<lparr>mdb_m := Map.empty\<rparr>)"

definition memory_items :: "bytes list \<Rightarrow> slice \<Rightarrow> memory_DB \<Rightarrow> (bytes \<times> bytes) list" where
  "memory_items order pre mdb =
     (case memory_ListItems order (\<lambda>acc item. Ok (acc @ [item])) pre [] mdb of
        Ok items \<Rightarrow> items | Err (e :: db_error) \<Rightarrow> [] | Panic \<Rightarrow> [])"

definition memory_DB_ops :: "memory_DB DB" where
  "memory_DB_ops = \<lparr>db_Set = memory_Set, db_SetScoped = memory_SetScoped, db_Get = memory_Get,
     db_Exists = memory_Exists, db_Delete = memory_Delete, db_ListItems = memory_items,
     db_Close = memory_Close\<rparr>"

section \<open>What a server relies on\<close>

text \<open>
  A traversal order enumerates the stored keys, each once.
\<close>

definition enumerates :: "bytes list \<Rightarrow> (bytes \<rightharpoonup> bytes) \<Rightarrow> bool" where
  "enumerates order m \<longleftrightarrow> distinct order \<and> set order = dom m"

locale kv_db =
  fixes db :: "'s DB"
    and contents :: "'s \<Rightarrow> bytes \<rightharpoonup> bytes"
  assumes get: "db_Get db (Some k) st =
      (case contents st k of None \<Rightarrow> Err ErrNotFound | Some v \<Rightarrow> Ok v, st)"
    and exists: "db_Exists db (Some k) st = (Ok (k \<in> dom (contents st)), st)"
    and set_ok: "\<exists>st'. db_Set db (Some k) d st = (Ok (), st') \<and> contents st' = (contents st)(k \<mapsto> d)"
    and scoped_ok: "\<exists>key st'. db_SetScoped db (Some sk) d st = (Ok (sk @ key), st') \<and> key \<noteq> [] \<and>
      contents st' = (contents st)(sk @ key \<mapsto> d)"
    and delete_ok: "\<exists>st'. db_Delete db (Some k) st = (Ok (), st') \<and> contents st' = (contents st)(k := None)"
    and items_ok: "enumerates order (contents st) \<Longrightarrow>
      distinct (map fst (db_ListItems db order pre st)) \<and>
      (\<forall>k v. (k, v) \<in> set (db_ListItems db order pre st) \<longleftrightarrow> contents st k = Some v \<and> has_prefix pre k)"
begin

lemma CountKeys_card:
  assumes "enumerates order (contents st)"
  shows "CountKeys db order pre st = Ok (card {k \<in> dom (contents st). has_prefix pre k})"
proof -
  let ?items = "db_ListItems db order pre st"
  have "fst ` set ?items = {k \<in> dom (contents st). has_prefix pre k}"
    using items_ok [OF assms, of pre] by (force simp: image_iff)
  then have "card {k \<in> dom (contents st). has_prefix pre k} = length ?items"
    using items_ok [OF assms, of pre] distinct_card [of "map fst ?items"] by simp
  moreover have "fold (\<lambda>item count. count + 1) xs n = n + length xs" for n :: nat and xs :: "(bytes \<times> bytes) list"
    by (induction xs arbitrary: n) simp_all
  ultimately show ?thesis
    by (simp add: CountKeys_def fold_result_Ok [where g = "\<lambda>item count. count + 1"])
qed

end

text \<open>
  A database whose generated keys are new as long as a sequence has room, where \<open>room\<close> may only be
  used up by the scope that draws from it.
\<close>

locale scoped_db = kv_db db contents
  for db :: "'s DB" and contents :: "'s \<Rightarrow> bytes \<rightharpoonup> bytes" +
  fixes room :: "'s \<Rightarrow> bytes \<Rightarrow> nat"
  assumes scoped_new: "0 < room st sk \<Longrightarrow> db_SetScoped db (Some sk) d st = (Ok key, st') \<Longrightarrow>
      key \<notin> dom (contents st)"
    and scoped_room: "0 < room st sk \<Longrightarrow> db_SetScoped db (Some sk) d st = (Ok key, st') \<Longrightarrow>
      room st' sk' = (if sk' = sk then room st sk - 1 else room st sk')"
    and delete_room: "db_Delete db (Some k) st = (r, st') \<Longrightarrow> room st sk \<le> room st' sk"

section \<open>The in-memory database keeps the contract\<close>

lemma copy_zero [simp]: "go_copy (replicate (length d) 0) d = d"
  by simp

lemma memory_ListItems_fold:
  "memory_ListItems order cb pre acc mdb =
     fold_result cb acc (map (\<lambda>k. (k, the (mdb_m mdb k))) (filter (\<lambda>k. mdb_m mdb k \<noteq> None \<and> has_prefix pre k) order))"
  by (induction order arbitrary: acc) (auto simp: has_prefix_def split: option.splits)

lemma fold_snoc: "fold (\<lambda>x acc. acc @ [x]) xs ys = ys @ xs"
  by (induction xs arbitrary: ys) simp_all

lemma memory_items_eq:
  "memory_items order pre mdb = (map (\<lambda>k. (k, the (mdb_m mdb k))) (filter (\<lambda>k. mdb_m mdb k \<noteq> None \<and> has_prefix pre k) order))"
  by (simp add: memory_items_def memory_ListItems_fold fold_snoc
      fold_result_Ok [where g = "\<lambda>x acc. acc @ [x]"])

lemma memory_SetScoped_eq:
  "memory_SetScoped (Some sk) d mdb =
     (let key = sk @ le_bytes 8 (counter mdb sk) in
      (Ok key, mdb\<lparr>mdb_c := (mdb_c mdb)(sk \<mapsto> counter mdb sk + 1), mdb_m := (mdb_m mdb)(key \<mapsto> d)\<rparr>))"
  by (simp add: memory_SetScoped_def ScopedSequenceKey_eq Let_def)

text \<open>
  The keys a scope has not generated yet.  The room of a scope is what is left of its 64-bit
  sequence, provided nobody stored an entry under a key that is still to come.
\<close>

definition memory_room :: "memory_DB \<Rightarrow> bytes \<Rightarrow> nat" where
  "memory_room mdb sk =
     (if \<forall>seq \<ge> counter mdb sk. mdb_m mdb (sk @ le_bytes 8 seq) = None
      then 2 ^ 64 - 1 - unat (counter mdb sk) else 0)"

interpretation mem: kv_db memory_DB_ops mdb_m
proof unfold_locales
  fix sk d and st :: memory_DB
  have "le_bytes 8 (counter st sk) \<noteq> []" by (metis length_le_bytes length_0_conv zero_neq_numeral)
  then show "\<exists>key st'. db_SetScoped memory_DB_ops (Some sk) d st = (Ok (sk @ key), st') \<and> key \<noteq> [] \<and>
      mdb_m st' = (mdb_m st)(sk @ key \<mapsto> d)"
    by (simp add: memory_DB_ops_def memory_SetScoped_eq Let_def)
next
  fix order and st :: memory_DB and pre
  assume "enumerates order (mdb_m st)"
  then show "distinct (map fst (db_ListItems memory_DB_ops order pre st)) \<and>
      (\<forall>k v. (k, v) \<in> set (db_ListItems memory_DB_ops order pre st) \<longleftrightarrow> mdb_m st k = Some v \<and> has_prefix pre k)"
    by (auto simp: memory_DB_ops_def memory_items_eq enumerates_def comp_def image_iff)
qed (auto simp: memory_DB_ops_def memory_Get_def memory_Exists_def memory_Set_def memory_Delete_def
       Let_def split: option.splits)

lemma memory_room_pos:
  assumes "0 < memory_room mdb sk"
  shows "unat (counter mdb sk) + 1 < 2 ^ 64" "\<And>seq. counter mdb sk \<le> seq \<Longrightarrow> mdb_m mdb (sk @ le_bytes 8 seq) = None"
  using assms by (auto simp: memory_room_def split: if_splits)

lemma scoped_key_inj:
  "sk @ le_bytes 8 (s :: uint64) = sk' @ le_bytes 8 s' \<longleftrightarrow> sk = sk' \<and> s = s'"
  by (auto simp: append_eq_append_conv le_bytes_inj)

lemma memory_SetScoped_room:
  assumes room: "0 < memory_room mdb sk" and run: "memory_SetScoped (Some sk) d mdb = (Ok key, mdb')"
  shows "memory_room mdb' sk' = (if sk' = sk then memory_room mdb sk - 1 else memory_room mdb sk')"
proof -
  let ?n = "counter mdb sk"
  from run have key: "key = sk @ le_bytes 8 ?n"
    and mdb': "mdb' = mdb\<lparr>mdb_c := (mdb_c mdb)(sk \<mapsto> ?n + 1), mdb_m := (mdb_m mdb)(key \<mapsto> d)\<rparr>"
    by (auto simp: memory_SetScoped_eq Let_def)
  have suc: "unat (?n + 1) = unat ?n + 1"
    using memory_room_pos(1) [OF room] by (simp add: unat_word_ariths)
  have cnt: "counter mdb' sk' = (if sk' = sk then ?n + 1 else counter mdb sk')"
    by (simp add: mdb' counter_def)
  have fits: "unat ?n < 2 ^ 64 - 1" using memory_room_pos(1) [OF room] by simp
  show ?thesis
  proof (cases "sk' = sk")
    case True
    have "mdb_m mdb' (sk @ le_bytes 8 s) = None" if "?n + 1 \<le> s" for s
    proof -
      from that suc have "?n < s" by (simp add: word_le_nat_alt word_less_nat_alt)
      then show ?thesis
        using memory_room_pos(2) [OF room, of s] by (auto simp: mdb' key le_bytes_inj)
    qed
    with True cnt suc room show ?thesis by (auto simp: memory_room_def split: if_splits)
  next
    case False
    then have "mdb_m mdb' (sk' @ le_bytes 8 s) = mdb_m mdb (sk' @ le_bytes 8 s)" for s :: uint64
      by (simp add: mdb' key scoped_key_inj)
    with False cnt show ?thesis by (auto simp: memory_room_def)
  qed
qed

interpretation mem: scoped_db memory_DB_ops mdb_m memory_room
proof unfold_locales
  fix st sk d key and st' :: memory_DB
  assume room: "0 < memory_room st sk" and run: "db_SetScoped memory_DB_ops (Some sk) d st = (Ok key, st')"
  then have "key = sk @ le_bytes 8 (counter st sk)"
    by (auto simp: memory_DB_ops_def memory_SetScoped_eq Let_def)
  then show "key \<notin> dom (mdb_m st)" using memory_room_pos(2) [OF room order_refl] by auto
next
  fix st sk d key and st' :: memory_DB and sk'
  assume "0 < memory_room st sk" "db_SetScoped memory_DB_ops (Some sk) d st = (Ok key, st')"
  then show "memory_room st' sk' = (if sk' = sk then memory_room st sk - 1 else memory_room st sk')"
    using memory_SetScoped_room by (simp add: memory_DB_ops_def)
next
  fix k r sk and st st' :: memory_DB
  assume "db_Delete memory_DB_ops (Some k) st = (r, st')"
  then have "st' = st\<lparr>mdb_m := (mdb_m st)(k := None)\<rparr>" by (auto simp: memory_DB_ops_def memory_Delete_def)
  then show "memory_room st sk \<le> memory_room st' sk" by (auto simp: memory_room_def counter_def)
qed

end
