(* ===== verification/Rpc_Types.thy ===== *)
theory Rpc_Types
  imports Zstor_Prelude
begin

text \<open>
  The errors of the gRPC services (\<open>server/api/grpc/rpctypes/error.go\<close>) and the log level of a
  status code (\<open>server/api/grpc/utils.go\<close>).  A server-side error travels as a status, a code with a
  description; the client maps the description back.
\<close>

datatype code =
    OK | Canceled | Unknown | InvalidArgument | DeadlineExceeded | NotFound | AlreadyExists
  | PermissionDenied | Unauthenticated | ResourceExhausted | FailedPrecondition | Aborted | OutOfRange
  | Unimplemented | Internal | Unavailable | DataLoss

record status =
  st_code :: code
  st_desc :: string

datatype grpc_error =
    ErrGRPCNilKey | ErrGRPCNilData | ErrGRPCKeyNotFound | ErrGRPCDatabase | ErrGRPCObjectDataCorrupted
  | ErrGRPCNilLabel | ErrGRPCNilToken | ErrGRPCUnimplemented | ErrGRPCPermissionDenied

definition grpc_errors :: "grpc_error list" where
  "grpc_errors = [ErrGRPCNilKey, ErrGRPCNilData, ErrGRPCKeyNotFound, ErrGRPCDatabase,
     ErrGRPCObjectDataCorrupted, ErrGRPCNilLabel, ErrGRPCNilToken, ErrGRPCUnimplemented,
     ErrGRPCPermissionDenied]"

fun grpc_status :: "grpc_error \<Rightarrow> status" where
  "grpc_status ErrGRPCNilKey = \<lparr>st_code = InvalidArgument, st_desc = ''zstordb: key is not provided''\<rparr>"
| "grpc_status ErrGRPCNilData = \<lparr>st_code = InvalidArgument, st_desc = ''zstordb: data is not provided''\<rparr>"
| "grpc_status ErrGRPCKeyNotFound = \<lparr>st_code = NotFound, st_desc = ''zstordb: key is no found''\<rparr>"
| "grpc_status ErrGRPCDatabase = \<lparr>st_code = Internal, st_desc = ''zstordb: database operation failed''\<rparr>"
| "grpc_status ErrGRPCObjectDataCorrupted = \<lparr>st_code = DataLoss, st_desc = ''zstordb: object data is corrupted''\<rparr>"
| "grpc_status ErrGRPCNilLabel = \<lparr>st_code = Unauthenticated, st_desc = ''zstordb: no label given''\<rparr>"
| "grpc_status ErrGRPCNilToken = \<lparr>st_code = Unauthenticated, st_desc = ''zstordb: no JWT token given''\<rparr>"
| "grpc_status ErrGRPCUnimplemented = \<lparr>st_code = Unimplemented, st_desc = ''zstordb: method support not implemented''\<rparr>"
| "grpc_status ErrGRPCPermissionDenied =
     \<lparr>st_code = PermissionDenied, st_desc = ''zstordb: JWT token does not permit requested action''\<rparr>"

text \<open>The table from descriptions to server errors, and the client-side error it yields.\<close>

definition errStringToError :: "string \<rightharpoonup> grpc_error" where
  "errStringToError = map_of (map (\<lambda>e. (st_desc (grpc_status e), e)) grpc_errors)"

datatype rpc_error = ZStorError code string | ForeignError status

definition rpctypes_Error :: "status option \<Rightarrow> rpc_error option" where
  "rpctypes_Error err =
     (case err of
        None \<Rightarrow> None
      | Some s \<Rightarrow>
         (case errStringToError (st_desc s) of
            None \<Rightarrow> Some (ForeignError s)
          | Some verr \<Rightarrow> Some (ZStorError (st_code (grpc_status verr)) (st_desc (grpc_status verr)))))"

definition zstor_error :: "grpc_error \<Rightarrow> rpc_error" where
  "zstor_error e = ZStorError (st_code (grpc_status e)) (st_desc (grpc_status e))"

fun rpc_error_Error :: "rpc_error \<Rightarrow> string" where
  "rpc_error_Error (ZStorError c d) = d"
| "rpc_error_Error (ForeignError s) = st_desc s"

datatype level = DebugLevel | InfoLevel | WarnLevel | ErrorLevel

definition GRPCCodeToLogrusLevelMapping :: "code \<rightharpoonup> level" where
  "GRPCCodeToLogrusLevelMapping = map_of
     [(OK, DebugLevel), (Canceled, DebugLevel), (InvalidArgument, DebugLevel), (NotFound, DebugLevel),
      (AlreadyExists, DebugLevel), (Unauthenticated, InfoLevel), (PermissionDenied, InfoLevel),
      (DeadlineExceeded, WarnLevel), (ResourceExhausted, WarnLevel), (FailedPrecondition, WarnLevel),
      (Aborted, WarnLevel)]"

definition CodeToLogrusLevel :: "code \<Rightarrow> level" where
  "CodeToLogrusLevel c = (case GRPCCodeToLogrusLevelMapping c of Some l \<Rightarrow> l | None \<Rightarrow> ErrorLevel)"

lemma grpc_errors_UNIV: "set grpc_errors = UNIV"
proof -
  have "e \<in> set grpc_errors" for e by (cases e) (simp_all add: grpc_errors_def)
  then show ?thesis by blast
qed

lemma grpc_desc_distinct: "distinct (map (\<lambda>e. st_desc (grpc_status e)) grpc_errors)"
  by (simp add: grpc_errors_def)

lemma errStringToError_desc [simp]: "errStringToError (st_desc (grpc_status e)) = Some e"
proof -
  have "(st_desc (grpc_status e), e) \<in> set (map (\<lambda>e. (st_desc (grpc_status e), e)) grpc_errors)"
    using grpc_errors_UNIV by auto
  then show ?thesis
    unfolding errStringToError_def using grpc_desc_distinct by (simp add: comp_def)
qed

lemma rpctypes_Error_grpc: "rpctypes_Error (Some (grpc_status e)) = Some (zstor_error e)"
  by (simp add: rpctypes_Error_def zstor_error_def)

lemma zstor_error_inject: "zstor_error e = zstor_error e' \<longleftrightarrow> e = e'"
  by (metis errStringToError_desc option.inject rpc_error.inject(1) zstor_error_def)

end
