(* ===== verification/Object_Api.thy ===== *)
theory Object_Api
  imports Server_Encoding Server_Db Rpc_Types
begin

text \<open>
  The object service of a zstordb server: \<open>server/api/object.go\<close> and
  \<open>server/api/grpc/object_api.go\<close>, with the context lookup of \<open>server/api/grpc/middleware.go\<close>.  A handler takes the database it runs on, the request
  context's metadata and the request, and runs on the database's state.
\<close>

section \<open>Errors and request metadata\<close>

type_synonym metadata = "string \<rightharpoonup> string list"

datatype context_error = ErrNoMetadata | ErrNoKeyInMetadata string

definition MetaAuthKey :: string where
  "MetaAuthKey = ''authorization''"

definition MetaLabelKey :: string where
  "MetaLabelKey = ''label''"

definition extractStringFromContext :: "metadata option \<Rightarrow> string \<Rightarrow> (context_error, string) result" where
  "extractStringFromContext ctx key =
     (case ctx of
        None \<Rightarrow> Err ErrNoMetadata
      | Some md \<Rightarrow>
         (case md key of
            None \<Rightarrow> Err (ErrNoKeyInMetadata key)
          | Some vals \<Rightarrow> if length vals < 1 then Err (ErrNoKeyInMetadata key) else Ok (vals ! 0)))"

section \<open>Object status (server/api/object.go)\<close>

definition ObjectStatusForObject :: "'s DB \<Rightarrow> slice \<Rightarrow> ('s, db_error, ObjectStatus) op" where
  "ObjectStatusForObject db key st =
     (case db_Get db key st of
        (Err e, st) \<Rightarrow> if e = ErrNotFound then (Ok ObjectStatusMissing, st) else (Err e, st)
      | (Panic, st) \<Rightarrow> (Panic, st)
      | (Ok data, st) \<Rightarrow>
         (case ValidateData data of
            Err e \<Rightarrow> (Ok ObjectStatusCorrupted, st)
          | Panic \<Rightarrow> (Panic, st)
          | Ok _ \<Rightarrow> (Ok ObjectStatusOK, st)))"

section \<open>Handlers (server/api/grpc/object_api.go)\<close>

definition withLabel ::
  "metadata option \<Rightarrow> (bytes \<Rightarrow> ('s, grpc_error, 'a) op) \<Rightarrow> ('s, grpc_error, 'a) op" where
  "withLabel ctx handle st =
     obind (map_err (\<lambda>_. ErrGRPCNilLabel) (extractStringFromContext ctx MetaLabelKey), st)
       (\<lambda>label st. handle (ascii label) st)"

definition CreateObject :: "'s DB \<Rightarrow> metadata option \<Rightarrow> bytes \<Rightarrow> ('s, grpc_error, bytes) op" where
  "CreateObject db ctx data = withLabel ctx (\<lambda>label st.
     if length data = 0 then (Err ErrGRPCNilData, st)
     else (case EncodeObject \<lparr>Data = data\<rparr> of
        Err e \<Rightarrow> (Panic, st)
      | Panic \<Rightarrow> (Panic, st)
      | Ok encodedData \<Rightarrow>
          obind (DataScopeKey (Some label), st) (\<lambda>scopeKey st.
          obind (omap_err (\<lambda>_. ErrGRPCDatabase) (db_SetScoped db (Some scopeKey) encodedData st)) (\<lambda>key st.
            (slice_from key (length scopeKey), st)))))"

definition GetObject :: "'s DB \<Rightarrow> metadata option \<Rightarrow> bytes \<Rightarrow> ('s, grpc_error, bytes) op" where
  "GetObject db ctx key = withLabel ctx (\<lambda>label st.
     if length key = 0 then (Err ErrGRPCNilKey, st)
     else
       obind (DataKey (Some label) (Some key), st) (\<lambda>key st.
       obind (omap_err (\<lambda>e. if e = ErrNotFound then ErrGRPCKeyNotFound else ErrGRPCDatabase)
               (db_Get db (Some key) st)) (\<lambda>rawData st.
       obind (map_err (\<lambda>_. ErrGRPCObjectDataCorrupted) (DecodeObject rawData), st) (\<lambda>dataObject st.
         (Ok (Data dataObject), st)))))"

definition DeleteObject :: "'s DB \<Rightarrow> metadata option \<Rightarrow> bytes \<Rightarrow> ('s, grpc_error, unit) op" where
  "DeleteObject db ctx key = withLabel ctx (\<lambda>label st.
     if length key = 0 then (Err ErrGRPCNilKey, st)
     else
       obind (DataKey (Some label) (Some key), st) (\<lambda>key st.
       omap_err (\<lambda>_. ErrGRPCDatabase) (db_Delete db (Some key) st)))"

text \<open>\<open>convertStatus\<close> looks the status up in a table with an entry for each of the three values.\<close>

datatype pb_ObjectStatus = PbObjectStatusOK | PbObjectStatusMissing | PbObjectStatusCorrupted

fun convertStatus :: "ObjectStatus \<Rightarrow> pb_ObjectStatus" where
  "convertStatus ObjectStatusOK = PbObjectStatusOK"
| "convertStatus ObjectStatusMissing = PbObjectStatusMissing"
| "convertStatus ObjectStatusCorrupted = PbObjectStatusCorrupted"

definition GetObjectStatus :: "'s DB \<Rightarrow> metadata option \<Rightarrow> bytes \<Rightarrow> ('s, grpc_error, pb_ObjectStatus) op" where
  "GetObjectStatus db ctx key = withLabel ctx (\<lambda>label st.
     if length key = 0 then (Err ErrGRPCNilKey, st)
     else
       obind (DataKey (Some label) (Some key), st) (\<lambda>key st.
       obind (omap_err (\<lambda>_. ErrGRPCDatabase) (ObjectStatusForObject db (Some key) st)) (\<lambda>status st.
         (Ok (convertStatus status), st))))"

text \<open>
  The callback of \<open>ListObjectKeys\<close> on one item.  \<open>send\<close> stands for the stream: the error it reports
  for the \<open>n\<close>-th response, if any; \<open>sent\<close> are the responses sent so far.
\<close>

definition list_callback ::
  "(nat \<Rightarrow> 'e option) \<Rightarrow> nat \<Rightarrow> bytes list \<Rightarrow> bytes \<times> bytes \<Rightarrow> ('e, bytes list) result" where
  "list_callback send scopeKeyLength sent item =
     (let key = fst item; n = length key in
      if n < scopeKeyLength then Panic
      else if n = scopeKeyLength then Ok sent
      else rbind (slice_from key scopeKeyLength) (\<lambda>k.
        case send (length sent) of Some e \<Rightarrow> Err e | None \<Rightarrow> Ok (sent @ [k])))"

definition ListObjectKeys ::
  "'s DB \<Rightarrow> (nat \<Rightarrow> grpc_error option) \<Rightarrow> bytes list \<Rightarrow> metadata option \<Rightarrow> ('s, grpc_error, bytes list) op" where
  "ListObjectKeys db send order ctx = withLabel ctx (\<lambda>label st.
     obind (DataScopeKey (Some label), st) (\<lambda>scopeKey st.
       (fold_result (list_callback send (length scopeKey)) [] (db_ListItems db order (Some scopeKey) st), st)))"

section \<open>The handlers on a database that keeps its contract\<close>

definition labelled :: "string \<Rightarrow> metadata option" where
  "labelled l = Some [MetaLabelKey \<mapsto> [l]]"

text \<open>The label a request carries, if it carries one.\<close>

definition request_label :: "metadata option \<Rightarrow> string option" where
  "request_label ctx =
     (case ctx of None \<Rightarrow> None
      | Some md \<Rightarrow> (case md MetaLabelKey of Some (l # ls) \<Rightarrow> Some l | _ \<Rightarrow> None))"

lemma withLabel_eq:
  "withLabel ctx f st =
     (case request_label ctx of None \<Rightarrow> (Err ErrGRPCNilLabel, st) | Some l \<Rightarrow> f (ascii l) st)"
  by (auto simp: withLabel_def extractStringFromContext_def request_label_def
      split: option.splits list.splits)

lemma request_label_labelled [simp]: "request_label (labelled l) = Some l"
  by (simp add: request_label_def labelled_def)

lemma ValidateData_EncodeObject: "EncodeObject obj = Ok data \<Longrightarrow> ValidateData data = Ok ()"
  by (auto simp: EncodeObject_eq ValidateData_eq Suc_le_eq split: if_splits)

lemma DecodeObject_EncodeObject: "EncodeObject obj = Ok data \<Longrightarrow> DecodeObject data = Ok obj"
  by (auto simp: EncodeObject_eq DecodeObject_eq Suc_le_eq split: if_splits)

definition encoded :: "bytes \<Rightarrow> bytes" where
  "encoded data = le_bytes 4 (blob_crc data) @ data"

lemma EncodeObject_encoded: "data \<noteq> [] \<Longrightarrow> EncodeObject \<lparr>Data = data\<rparr> = Ok (encoded data)"
  by (simp add: EncodeObject_eq encoded_def)

lemma DecodeObject_encoded: "data \<noteq> [] \<Longrightarrow> DecodeObject (encoded data) = Ok \<lparr>Data = data\<rparr>"
  using EncodeObject_encoded DecodeObject_EncodeObject by blast

lemma ValidateData_encoded: "data \<noteq> [] \<Longrightarrow> ValidateData (encoded data) = Ok ()"
  using EncodeObject_encoded ValidateData_EncodeObject by blast

lemmas handler_defs = CreateObject_def GetObject_def DeleteObject_def GetObjectStatus_def
  ListObjectKeys_def ObjectStatusForObject_def withLabel_eq key_eqs

text \<open>The objects of a namespace, as its clients see them.\<close>

definition objects :: "(bytes \<rightharpoonup> bytes) \<Rightarrow> string \<Rightarrow> bytes \<rightharpoonup> bytes" where
  "objects m l key =
     (if key = [] then None
      else case m (data_scope (ascii l) @ key) of
             None \<Rightarrow> None
           | Some raw \<Rightarrow> (case DecodeObject raw of Ok obj \<Rightarrow> Some (Data obj) | _ \<Rightarrow> None))"

context kv_db
begin

lemma CreateObject_spec:
  assumes "request_label ctx = Some l" "data \<noteq> []"
  shows "\<exists>key st'. CreateObject db ctx data st = (Ok key, st') \<and> key \<noteq> [] \<and>
    contents st' = (contents st)(data_scope (ascii l) @ key \<mapsto> encoded data)"
proof -
  obtain key st' where "db_SetScoped db (Some (data_scope (ascii l))) (encoded data) st
      = (Ok (data_scope (ascii l) @ key), st')" and "key \<noteq> []"
    and "contents st' = (contents st)(data_scope (ascii l) @ key \<mapsto> encoded data)"
    using scoped_ok by blast
  with assms show ?thesis
    by (simp add: handler_defs EncodeObject_encoded slice_from_def)
qed

lemma GetObject_spec:
  assumes "request_label ctx = Some l" "key \<noteq> []"
  shows "GetObject db ctx key st =
    (case contents st (data_scope (ascii l) @ key) of
       None \<Rightarrow> Err ErrGRPCKeyNotFound
     | Some raw \<Rightarrow> (case DecodeObject raw of Ok obj \<Rightarrow> Ok (Data obj) | _ \<Rightarrow> Err ErrGRPCObjectDataCorrupted), st)"
proof -
  have "DecodeObject raw \<noteq> Panic" for raw by (simp add: DecodeObject_eq)
  with assms show ?thesis
    by (auto simp: handler_defs get split: option.splits result.splits)
qed

lemma GetObjectStatus_spec:
  assumes "request_label ctx = Some l" "key \<noteq> []"
  shows "GetObjectStatus db ctx key st =
    (Ok (case contents st (data_scope (ascii l) @ key) of
       None \<Rightarrow> PbObjectStatusMissing
     | Some raw \<Rightarrow> (case ValidateData raw of Ok _ \<Rightarrow> PbObjectStatusOK | _ \<Rightarrow> PbObjectStatusCorrupted)), st)"
proof -
  have "ValidateData raw \<noteq> Panic" for raw by (simp add: ValidateData_eq)
  with assms show ?thesis
    by (auto simp: handler_defs get split: option.splits result.splits)
qed

lemma DeleteObject_spec:
  assumes "request_label ctx = Some l" "key \<noteq> []"
  shows "\<exists>st'. DeleteObject db ctx key st = (Ok (), st') \<and>
    contents st' = (contents st)(data_scope (ascii l) @ key := None)"
  using assms delete_ok [of "data_scope (ascii l) @ key" st] by (auto simp: handler_defs)

lemma ListObjectKeys_spec:
  assumes label: "request_label ctx = Some l" and order: "enumerates order (contents st)"
  shows "\<exists>keys. ListObjectKeys db (\<lambda>_. None) order ctx st = (Ok keys, st) \<and> distinct keys \<and>
    set keys = {key. key \<noteq> [] \<and> data_scope (ascii l) @ key \<in> dom (contents st)}"
proof -
  let ?s = "data_scope (ascii l)" and ?items = "db_ListItems db order (Some (data_scope (ascii l))) st"
  let ?add = "\<lambda>(item :: bytes \<times> bytes) sent. if length (fst item) = length ?s then sent else sent @ [drop (length ?s) (fst item)]"
  note items = items_ok [OF order, of "Some ?s"]
  have pre: "prefix ?s (fst item)" if "item \<in> set ?items" for item
    using items that by (cases item) (auto simp: has_prefix_def)
  then have cb: "list_callback (\<lambda>_. None) (length ?s) sent item = (Ok (?add item sent) :: (grpc_error, _) result)"
    if "item \<in> set ?items" for item sent
    using prefix_length_le [OF pre [OF that]] by (auto simp: list_callback_def Let_def slice_from_def not_less)
  let ?keys = "map (\<lambda>item. drop (length ?s) (fst item)) (filter (\<lambda>item. length (fst item) \<noteq> length ?s) ?items)"
  have "fold ?add xs sent = sent @ map (\<lambda>item. drop (length ?s) (fst item)) (filter (\<lambda>item. length (fst item) \<noteq> length ?s) xs)"
    for xs sent by (induction xs arbitrary: sent) simp_all
  then have "ListObjectKeys db (\<lambda>_. None) order ctx st = (Ok ?keys, st)"
    using label by (simp add: handler_defs fold_result_Ok [where g = ?add, OF cb])
  moreover have "distinct ?keys"
  proof -
    have "drop (length ?s) (fst x) = drop (length ?s) (fst y) \<longleftrightarrow> fst x = fst y"
      if "x \<in> set ?items" "y \<in> set ?items" for x y
      using pre [OF that(1)] pre [OF that(2)] by (auto simp: prefix_def)
    then show ?thesis using items by (auto simp: distinct_map inj_on_def)
  qed
  moreover have "set ?keys = {key. key \<noteq> [] \<and> ?s @ key \<in> dom (contents st)}"
  proof (intro set_eqI iffI)
    fix key assume "key \<in> set ?keys"
    then show "key \<in> {key. key \<noteq> [] \<and> ?s @ key \<in> dom (contents st)}"
      using items pre by (force simp: prefix_def)
  next
    fix key assume "key \<in> {key. key \<noteq> [] \<and> ?s @ key \<in> dom (contents st)}"
    then obtain v where "key \<noteq> []" "(?s @ key, v) \<in> set ?items" using items by (auto simp: has_prefix_def)
    then show "key \<in> set ?keys" by (force simp: image_iff)
  qed
  ultimately show ?thesis by blast
qed

end

lemma ascii_inject: "ascii xs = ascii ys \<longleftrightarrow> xs = ys"
proof -
  have "inj (of_char :: char \<Rightarrow> byte)"
  proof (rule injI)
    fix c d :: char assume "(of_char c :: byte) = of_char d"
    then have "(of_nat (of_char c) :: byte) = of_nat (of_char d)" by (simp only: of_nat_of_char)
    then have "unat (of_nat (of_char c) :: byte) = unat (of_nat (of_char d) :: byte)" by simp
    then have "(of_char c :: nat) mod 256 = of_char d mod 256" by (simp add: unsigned_of_nat take_bit_eq_mod)
    then show "c = d" by simp
  qed
  then show ?thesis by (simp add: ascii_def inj_map_eq_map)
qed

lemma objects_update:
  assumes "key \<noteq> []" "data \<noteq> []"
  shows "objects (m(data_scope (ascii l) @ key \<mapsto> encoded data)) l = (objects m l)(key \<mapsto> data)"
  using assms by (auto simp: objects_def DecodeObject_encoded fun_eq_iff)

lemma objects_delete:
  assumes "key \<noteq> []"
  shows "objects (m(data_scope (ascii l) @ key := None)) l = (objects m l)(key := None)"
  using assms by (auto simp: objects_def fun_eq_iff)

lemma objects_other:
  assumes "CHR '':'' \<notin> set l" "CHR '':'' \<notin> set l'" "l \<noteq> l'"
  shows "objects (m(data_scope (ascii l) @ key := v)) l' = objects m l'"
proof -
  have colon: "colon \<notin> set (ascii s)" if "CHR '':'' \<notin> set s" for s
  proof
    assume "colon \<in> set (ascii s)"
    then obtain c where "c \<in> set s" "ascii [c] = ascii '':''" by (auto simp: ascii_def)
    with that show False by (simp only: ascii_inject) auto
  qed
  have "data_scope (ascii l') @ k \<noteq> data_scope (ascii l) @ key" for k
    using data_scope_inj [OF colon colon, of l' l k key] assms by (simp add: ascii_inject)
  then show ?thesis by (simp add: objects_def fun_eq_iff)
qed

section \<open>The object service on the in-memory database\<close>

abbreviation "CreateObject_mem \<equiv> CreateObject memory_DB_ops"
abbreviation "GetObject_mem \<equiv> GetObject memory_DB_ops"
abbreviation "DeleteObject_mem \<equiv> DeleteObject memory_DB_ops"
abbreviation "GetObjectStatus_mem \<equiv> GetObjectStatus memory_DB_ops"
abbreviation "ListObjectKeys_mem \<equiv> ListObjectKeys memory_DB_ops"

text \<open>
  C32.  Creating an object: the request with a label and data succeeds, the namespace's objects gain
  exactly the new key, under which the data can be fetched and has status OK, and the key was not
  in use before, as long as the namespace's sequence has room.
\<close>

theorem CreateObject_stores:
  assumes "request_label ctx = Some l" "data \<noteq> []"
  shows "\<exists>key st'. CreateObject_mem ctx data st = (Ok key, st') \<and>
    objects (mdb_m st') l = (objects (mdb_m st) l)(key \<mapsto> data) \<and>
    GetObject_mem ctx key st' = (Ok data, st') \<and>
    GetObjectStatus_mem ctx key st' = (Ok PbObjectStatusOK, st') \<and>
    (0 < memory_room st (data_scope (ascii l)) \<longrightarrow>
       mdb_m st (data_scope (ascii l) @ key) = None \<and>
       GetObject_mem ctx key st = (Err ErrGRPCKeyNotFound, st))"
proof -
  obtain key st' where run: "CreateObject_mem ctx data st = (Ok key, st')" and key: "key \<noteq> []"
    and cont: "mdb_m st' = (mdb_m st)(data_scope (ascii l) @ key \<mapsto> encoded data)"
    using mem.CreateObject_spec [OF assms] by blast
  obtain key' where scoped: "db_SetScoped memory_DB_ops (Some (data_scope (ascii l))) (encoded data) st
      = (Ok (data_scope (ascii l) @ key'), st')" "key' = key"
    using run assms mem.scoped_ok [of "data_scope (ascii l)" "encoded data" st]
    by (auto simp: handler_defs EncodeObject_encoded slice_from_def)
  have new: "mdb_m st (data_scope (ascii l) @ key) = None" if "0 < memory_room st (data_scope (ascii l))"
    using mem.scoped_new [OF that scoped(1)] scoped(2) by (simp add: domIff)
  have "objects (mdb_m st') l = (objects (mdb_m st) l)(key \<mapsto> data)"
    using objects_update [OF key assms(2)] cont by simp
  with run key cont new assms show ?thesis
    by (auto simp: mem.GetObject_spec mem.GetObjectStatus_spec DecodeObject_encoded ValidateData_encoded)
qed

theorem CreateObject_stores_witness:
  "\<exists>key st'. CreateObject_mem (labelled ''a'') [1, 2] memory_New = (Ok key, st') \<and>
     GetObject_mem (labelled ''a'') key st' = (Ok [1, 2], st')"
  using CreateObject_stores [of "labelled ''a''" "''a''" "[1, 2]" memory_New] by auto

text \<open>
  C33.  Deleting an object: the namespace's objects lose exactly that key, fetching it reports
  \<open>ErrGRPCKeyNotFound\<close> and its status is Missing; deleting it again succeeds and changes nothing.
\<close>

theorem DeleteObject_removes:
  assumes "request_label ctx = Some l" "key \<noteq> []"
  shows "\<exists>st'. DeleteObject_mem ctx key st = (Ok (), st') \<and>
    objects (mdb_m st') l = (objects (mdb_m st) l)(key := None) \<and>
    GetObject_mem ctx key st' = (Err ErrGRPCKeyNotFound, st') \<and>
    GetObjectStatus_mem ctx key st' = (Ok PbObjectStatusMissing, st') \<and>
    (\<exists>st''. DeleteObject_mem ctx key st' = (Ok (), st'') \<and> mdb_m st'' = mdb_m st')"
proof -
  obtain st' where run: "DeleteObject_mem ctx key st = (Ok (), st')"
    and cont: "mdb_m st' = (mdb_m st)(data_scope (ascii l) @ key := None)"
    using mem.DeleteObject_spec [OF assms] by blast
  moreover obtain st'' where "DeleteObject_mem ctx key st' = (Ok (), st'')"
    and "mdb_m st'' = (mdb_m st')(data_scope (ascii l) @ key := None)"
    using mem.DeleteObject_spec [OF assms] by blast
  ultimately show ?thesis
    using assms by (simp add: mem.GetObject_spec mem.GetObjectStatus_spec objects_delete)
qed

theorem DeleteObject_removes_witness:
  "\<exists>st'. DeleteObject_mem (labelled ''a'') [7] memory_New = (Ok (), st') \<and>
     GetObject_mem (labelled ''a'') [7] st' = (Err ErrGRPCKeyNotFound, st')"
  using DeleteObject_removes [of "labelled ''a''" "''a''" "[7]" memory_New] by auto

text \<open>
  C34.  Listing the keys of a namespace sends every stored key of it exactly once and no other,
  whatever order the database visits its entries in.
\<close>

theorem ListObjectKeys_complete:
  assumes "request_label ctx = Some l" "enumerates order (mdb_m st)"
  shows "\<exists>keys. ListObjectKeys_mem (\<lambda>_. None) order ctx st = (Ok keys, st) \<and> distinct keys \<and>
    set keys = {key. key \<noteq> [] \<and> data_scope (ascii l) @ key \<in> dom (mdb_m st)}"
  using mem.ListObjectKeys_spec [OF assms] .

theorem ListObjectKeys_complete_witness:
  "\<exists>keys. ListObjectKeys_mem (\<lambda>_. None) [ascii ''d:a:k'', ascii ''d:b:j''] (labelled ''a'')
      (memory_New\<lparr>mdb_m := [ascii ''d:a:k'' \<mapsto> [1], ascii ''d:b:j'' \<mapsto> [2]]\<rparr>)
    = (Ok keys, memory_New\<lparr>mdb_m := [ascii ''d:a:k'' \<mapsto> [1], ascii ''d:b:j'' \<mapsto> [2]]\<rparr>) \<and> ascii ''k'' \<in> set keys"
proof -
  let ?st = "memory_New\<lparr>mdb_m := [ascii ''d:a:k'' \<mapsto> [1], ascii ''d:b:j'' \<mapsto> [2]]\<rparr>"
  have en: "enumerates [ascii ''d:a:k'', ascii ''d:b:j''] (mdb_m ?st)"
    by (auto simp: enumerates_def)
  show ?thesis
    using ListObjectKeys_complete [OF request_label_labelled [of "''a''"] en] by (auto simp: data_scope_nth)
qed

text \<open>
  C35.  Requests for one namespace leave the objects of every other namespace as they are, when
  neither label holds a colon.
\<close>

theorem other_namespaces_untouched:
  assumes "request_label ctx = Some l" "CHR '':'' \<notin> set l" "CHR '':'' \<notin> set l'" "l \<noteq> l'"
  shows "objects (mdb_m (snd (CreateObject_mem ctx data st))) l' = objects (mdb_m st) l' \<and>
    objects (mdb_m (snd (DeleteObject_mem ctx key st))) l' = objects (mdb_m st) l' \<and>
    snd (GetObject_mem ctx key st) = st \<and> snd (GetObjectStatus_mem ctx key st) = st"
proof -
  have "objects (mdb_m (snd (CreateObject_mem ctx data st))) l' = objects (mdb_m st) l'"
  proof (cases "data = []")
    case True
    with assms show ?thesis by (simp add: handler_defs)
  next
    case False
    then show ?thesis
      using mem.CreateObject_spec [OF assms(1), of data st] objects_other [OF assms(2-4)] by auto
  qed
  moreover have "objects (mdb_m (snd (DeleteObject_mem ctx key st))) l' = objects (mdb_m st) l'"
  proof (cases "key = []")
    case True
    with assms show ?thesis by (simp add: handler_defs)
  next
    case False
    then show ?thesis
      using mem.DeleteObject_spec [OF assms(1), of key st] objects_other [OF assms(2-4)] by auto
  qed
  moreover have "snd (GetObject_mem ctx key st) = st \<and> snd (GetObjectStatus_mem ctx key st) = st"
    using assms(1) mem.GetObject_spec [OF assms(1), of key st] mem.GetObjectStatus_spec [OF assms(1), of key st]
    by (cases "key = []") (auto simp: handler_defs)
  ultimately show ?thesis by blast
qed

theorem other_namespaces_untouched_witness:
  "objects (mdb_m (snd (CreateObject_mem (labelled ''a'') [1] memory_New))) ''b'' = objects (mdb_m memory_New) ''b''"
  using other_namespaces_untouched [of "labelled ''a''" "''a''" "''b''" "[1]" memory_New "[]"] by simp



end
