(* ===== verification/Go_Strings.thy ===== *)
theory Go_Strings
  imports Zstor_Prelude
begin

text \<open>
  The functions of Go's package \<open>strings\<close> that the sources use, on strings as lists of bytes, with
  the facts about a separator that occurs once.
\<close>

abbreviation HasPrefix :: "string \<Rightarrow> string \<Rightarrow> bool" where
  "HasPrefix s p \<equiv> prefix p s"

abbreviation HasSuffix :: "string \<Rightarrow> string \<Rightarrow> bool" where
  "HasSuffix s p \<equiv> suffix p s"

definition TrimPrefix :: "string \<Rightarrow> string \<Rightarrow> string" where
  "TrimPrefix s p = (if prefix p s then drop (length p) s else s)"

definition is_space :: "char \<Rightarrow> bool" where
  "is_space c \<longleftrightarrow> c \<in> {CHR '' '', CHR 0x09, CHR 0x0A, CHR 0x0B, CHR 0x0C, CHR 0x0D}"

definition TrimSpace :: "string \<Rightarrow> string" where
  "TrimSpace s = rev (dropWhile is_space (rev (dropWhile is_space s)))"

text \<open>\<open>Replace(s, old, new, 1)\<close> for a non-empty \<open>old\<close>: the leftmost occurrence only.\<close>

fun Replace1 :: "string \<Rightarrow> string \<Rightarrow> string \<Rightarrow> string" where
  "Replace1 [] old new = []"
| "Replace1 (c # cs) old new =
     (if prefix old (c # cs) then new @ drop (length old) (c # cs) else c # Replace1 cs old new)"

text \<open>\<open>Count(s, sep)\<close> for a non-empty \<open>sep\<close>: occurrences that do not overlap, from the left.\<close>

fun Count :: "string \<Rightarrow> string \<Rightarrow> nat" where
  "Count [] sep = 0"
| "Count (c # cs) sep =
     (if prefix sep (c # cs) then Suc (Count (drop (length sep - 1) cs) sep) else Count cs sep)"

text \<open>ASCII part of \<open>ToLower\<close>.\<close>

definition ToLower_char :: "char \<Rightarrow> char" where
  "ToLower_char c = (if 65 \<le> (of_char c :: nat) \<and> of_char c \<le> (90 :: nat) then char_of (of_char c + 32 :: nat) else c)"

definition ToLower :: "string \<Rightarrow> string" where
  "ToLower s = map ToLower_char s"

text \<open>ASCII part of \<open>ToUpper\<close>.\<close>

definition ToUpper :: "string \<Rightarrow> string" where
  "ToUpper s = map (\<lambda>c. if 97 \<le> (of_char c :: nat) \<and> of_char c \<le> (122 :: nat) then char_of (of_char c - 32 :: nat) else c) s"

text \<open>\<open>Join\<close>, and \<open>Split\<close> at a separator of one byte.\<close>

fun Join :: "string \<Rightarrow> string list \<Rightarrow> string" where
  "Join sep [] = []"
| "Join sep [s] = s"
| "Join sep (s # ss) = s @ sep @ Join sep ss"

fun Split :: "char \<Rightarrow> string \<Rightarrow> string list" where
  "Split sep [] = [[]]"
| "Split sep (c # s) = (if c = sep then [] # Split sep s else (case Split sep s of [] \<Rightarrow> [[c]] | w # ws \<Rightarrow> (c # w) # ws))"

text \<open>The positions that \<open>IndexByte\<close>, \<open>LastIndexByte\<close> and \<open>IndexAny\<close> give; -1 is \<open>None\<close>.\<close>

definition IndexAny :: "string \<Rightarrow> char list \<Rightarrow> nat option" where
  "IndexAny s cs = (let i = length (takeWhile (\<lambda>c. c \<notin> set cs) s) in if i < length s then Some i else None)"

definition IndexByte :: "string \<Rightarrow> char \<Rightarrow> nat option" where
  "IndexByte s c = IndexAny s [c]"

definition LastIndexByte :: "string \<Rightarrow> char \<Rightarrow> nat option" where
  "LastIndexByte s c = map_option (\<lambda>i. length s - 1 - i) (IndexByte (rev s) c)"

lemma Split_word: "sep \<notin> set w \<Longrightarrow> Split sep w = [w]"
  by (induction w) auto

lemma Split_append: "sep \<notin> set w \<Longrightarrow> Split sep (w @ sep # s) = w # Split sep s"
  by (induction w) auto

lemma Split_Join: "ws \<noteq> [] \<Longrightarrow> \<forall>w\<in>set ws. sep \<notin> set w \<Longrightarrow> Split sep (Join [sep] ws) = ws"
  by (induction "[sep]" ws rule: Join.induct) (auto simp: Split_word Split_append)

lemma IndexAny_Some: "IndexAny s cs = Some i \<Longrightarrow> i < length s \<and> s ! i \<in> set cs"
  using nth_length_takeWhile [of "\<lambda>c. c \<notin> set cs" s] by (auto simp: IndexAny_def Let_def split: if_splits)

lemma Replace1_split:
  assumes "0 < Count s old"
  shows "\<exists>a b. s = a @ old @ b \<and> Replace1 s old new = a @ new @ b"
  using assms
proof (induction s old rule: Count.induct)
  case (1 sep)
  then show ?case by simp
next
  case (2 c cs sep)
  show ?case
  proof (cases "prefix sep (c # cs)")
    case True
    then obtain b where b: "c # cs = sep @ b" by (auto simp: prefix_def)
    then have "drop (length sep) (c # cs) = b" by (simp del: drop_Cons)
    with True have "Replace1 (c # cs) sep new = [] @ new @ b" by (simp only: Replace1.simps if_True append_Nil)
    with b show ?thesis by (metis append_Nil)
  next
    case False
    with 2 obtain a b where "cs = a @ sep @ b" "Replace1 cs sep new = a @ new @ b" by auto
    with False show ?thesis by (intro exI [of _ "c # a"] exI [of _ b]) simp
  qed
qed

lemma cut_at:
  assumes "c \<notin> set a" "c \<notin> set a'"
  shows "a @ c # b = a' @ c # b' \<longleftrightarrow> a = a' \<and> b = b'"
proof
  assume eq: "a @ c # b = a' @ c # b'"
  have "takeWhile (\<lambda>x. x \<noteq> c) (xs @ c # ys) = xs" if "c \<notin> set xs" for xs ys
    using that by (induction xs) auto
  with eq assms have "a = a'" by metis
  with eq show "a = a' \<and> b = b'" by simp
qed simp

lemma ToLower_idem [simp]: "ToLower (ToLower s) = ToLower s"
proof -
  have "ToLower_char (ToLower_char c) = ToLower_char c" for c
    by (simp add: ToLower_char_def)
  then show ?thesis by (simp add: ToLower_def)
qed

end
