(* ===== verification/Server_Auth.thy ===== *)
theory Server_Auth
  imports Object_Api Go_Strings
begin

text \<open>
  Authentication of requests: the permissions of \<open>server/jwt/method.go\<close>, the token verifier of
  \<open>server/jwt/verifier.go\<close> and the interceptor of \<open>server/api/grpc/middleware_auth.go\<close>.

  Parsing a token, which checks its signature and its time claims, is the third-party parser: it
  is the argument \<open>parse\<close> of the verifier.  The cache of verified tokens maps a token to its entry
  and the time at which the entry expires; it may drop any entry at any time.  Times are in
  nanoseconds since the epoch, unbounded.
\<close>

section \<open>Methods (server/jwt/method.go)\<close>

datatype Method = MethodWrite | MethodRead | MethodDelete | MethodAdmin

definition MethodStrings :: string where
  "MethodStrings = ''writereaddeleteadmin''"

fun Method_String :: "Method \<Rightarrow> string" where
  "Method_String MethodWrite = take 5 MethodStrings"
| "Method_String MethodRead = take 4 (drop 5 MethodStrings)"
| "Method_String MethodDelete = take 6 (drop 9 MethodStrings)"
| "Method_String MethodAdmin = take 5 (drop 15 MethodStrings)"

section \<open>The verifier (server/jwt/verifier.go)\<close>

datatype jwt_error =
    ErrNoJWTToken | ErrWrongScopes | ErrInvalidLabel string | ErrInvalidToken | ErrExpiredToken
  | ErrInvalidExpiration | ErrSigningMethod string | ErrParse string

datatype jwt_value = JString string | JNumber int | JArray "jwt_value list" | JOther

record jwt_token =
  tok_Valid :: bool
  tok_Claims :: "(string \<rightharpoonup> jwt_value) option"

text \<open>
  The parser takes the key function of the caller, the time and the compact token.  The key
  function sees the signing method of the token's header.
\<close>

type_synonym 'k keyfunc = "string \<Rightarrow> (jwt_error, 'k) result"
type_synonym 'k parser = "'k keyfunc \<Rightarrow> int \<Rightarrow> string \<Rightarrow> (jwt_error, jwt_token) result"

record jwtCacheVal =
  cv_valid :: bool
  cv_scopes :: "string list"

type_synonym jwt_cache = "string \<rightharpoonup> jwtCacheVal \<times> int"

definition second :: int where
  "second = 1000000000"

definition validateNamespaceLabel :: "string \<Rightarrow> (jwt_error, unit) result" where
  "validateNamespaceLabel nsid =
     (if Count nsid ''_0stor_'' \<noteq> 1 \<or> HasSuffix nsid ''_0stor_''
      then Err (ErrInvalidLabel nsid) else Ok ())"

definition expectedScopes :: "Method \<Rightarrow> string \<Rightarrow> (jwt_error, string list) result" where
  "expectedScopes method label =
     rbind (validateNamespaceLabel label) (\<lambda>_.
       let adminScope = Replace1 label ''_0stor_'' ''.0stor.'' in
       if method = MethodAdmin then Ok [adminScope]
       else Ok [adminScope @ ''.'' @ Method_String method, adminScope])"

fun checkPermissions :: "string list \<Rightarrow> string list \<Rightarrow> bool" where
  "checkPermissions expected [] = False"
| "checkPermissions expected (scope # userScopes) =
     (if list_ex (\<lambda>e. Replace1 scope ''user:memberof:'' [] = e) expected then True
      else checkPermissions expected userScopes)"

definition extractJWTToken :: "metadata option \<Rightarrow> (jwt_error, string) result" where
  "extractJWTToken ctx =
     (case ctx of
        None \<Rightarrow> Err ErrNoJWTToken
      | Some md \<Rightarrow>
         (case md MetaAuthKey of
            None \<Rightarrow> Err ErrNoJWTToken
          | Some token \<Rightarrow> if length token < 1 then Err ErrNoJWTToken else Ok (token ! 0)))"

text \<open>The loop over the scope claim asserts that every element is a string.\<close>

fun claimed_scopes :: "jwt_value list \<Rightarrow> (jwt_error, string list) result" where
  "claimed_scopes [] = Ok []"
| "claimed_scopes (JString s # vs) = rbind (claimed_scopes vs) (\<lambda>ss. Ok (s # ss))"
| "claimed_scopes (v # vs) = Panic"

definition checkJWTGetScopes ::
  "'k parser \<Rightarrow> 'k \<Rightarrow> int \<Rightarrow> string \<Rightarrow> (jwt_error, string list \<times> int) result" where
  "checkJWTGetScopes parse key now tokenStr =
     (let jwtStr = TrimSpace (TrimPrefix tokenStr ''Bearer'') in
      rbind (parse (\<lambda>alg. if alg \<noteq> ''ES384'' then Err (ErrSigningMethod alg) else Ok key) now jwtStr) (\<lambda>token.
        case tok_Claims token of
          None \<Rightarrow> Err ErrInvalidToken
        | Some claims \<Rightarrow>
            if \<not> tok_Valid token then Err ErrInvalidToken
            else (case claims ''scope'' of
                Some (JArray vs) \<Rightarrow>
                  rbind (claimed_scopes vs) (\<lambda>scopes.
                    case claims ''exp'' of
                      Some (JNumber expFl) \<Rightarrow> Ok (scopes, expFl)
                    | _ \<Rightarrow> Err ErrInvalidExpiration)
              | _ \<Rightarrow> Panic)))"

definition getScopesFromCache :: "int \<Rightarrow> string \<Rightarrow> (jwt_cache, jwt_error, string list) op" where
  "getScopesFromCache now token cache =
     (case cache token of
        None \<Rightarrow> (Ok [], cache)
      | Some (cacheVal, expires) \<Rightarrow>
          if \<not> cv_valid cacheVal then (Err ErrInvalidToken, cache)
          else if expires < now then (Err ErrExpiredToken, cache(token := None))
          else (Ok (cv_scopes cacheVal), cache))"

text \<open>
  \<open>getScopes\<close>: no scopes from the cache (a nil slice) means that the token has to be checked.
\<close>

definition getScopes :: "'k parser \<Rightarrow> 'k \<Rightarrow> int \<Rightarrow> string \<Rightarrow> (jwt_cache, jwt_error, string list) op" where
  "getScopes parse key now token cache =
     obind (getScopesFromCache now token cache) (\<lambda>scopes cache.
       if scopes \<noteq> [] then (Ok scopes, cache)
       else (case checkJWTGetScopes parse key now token of
           Panic \<Rightarrow> (Panic, cache)
         | Err e \<Rightarrow> (Err e, cache(token \<mapsto> (\<lparr>cv_valid = False, cv_scopes = []\<rparr>, now + 24 * 3600 * second)))
         | Ok (scopes, exp) \<Rightarrow>
             if exp * second - now < 0
             then (Err ErrExpiredToken,
                   cache(token \<mapsto> (\<lparr>cv_valid = False, cv_scopes = []\<rparr>, now + 24 * 3600 * second)))
             else (Ok scopes,
                   cache(token \<mapsto> (\<lparr>cv_valid = True, cv_scopes = scopes\<rparr>, now + (exp * second - now))))))"

definition ValidateJWT ::
  "'k parser \<Rightarrow> 'k \<Rightarrow> int \<Rightarrow> metadata option \<Rightarrow> Method \<Rightarrow> string \<Rightarrow> (jwt_cache, jwt_error, unit) op" where
  "ValidateJWT parse key now ctx method label cache =
     obind (extractJWTToken ctx, cache) (\<lambda>token cache.
     obind (getScopes parse key now token cache) (\<lambda>scopes cache.
     obind (expectedScopes method label, cache) (\<lambda>expected cache.
       if \<not> checkPermissions expected scopes then (Err ErrWrongScopes, cache) else (Ok (), cache))))"

section \<open>The interceptor (server/api/grpc/middleware_auth.go)\<close>

definition objectPrefix :: string where
  "objectPrefix = ''/ObjectManager/''"

definition namespacePrefix :: string where
  "namespacePrefix = ''/NamespaceManager/''"

definition JWTObjectMethodsMap :: "string \<rightharpoonup> Method" where
  "JWTObjectMethodsMap = map_of [(''GetObject'', MethodRead), (''GetObjectStatus'', MethodRead),
     (''ListObjectKeys'', MethodRead), (''CreateObject'', MethodWrite), (''DeleteObject'', MethodDelete)]"

definition JWTNamespaceMethodsMap :: "string \<rightharpoonup> Method" where
  "JWTNamespaceMethodsMap = map_of [(''GetNamespace'', MethodAdmin)]"

definition getJWTMethod :: "string \<Rightarrow> (string, Method) result" where
  "getJWTMethod grpcMethod =
     (if HasPrefix grpcMethod objectPrefix then
        let m = drop (length objectPrefix) grpcMethod in
        (case JWTObjectMethodsMap m of
           None \<Rightarrow> Err (''namespace object does not contain method '' @ m)
         | Some jwtM \<Rightarrow> Ok jwtM)
      else if HasPrefix grpcMethod namespacePrefix then
        let m = drop (length namespacePrefix) grpcMethod in
        (case JWTNamespaceMethodsMap m of
           None \<Rightarrow> Err (''namespace namespace does not contain method '' @ m)
         | Some jwtM \<Rightarrow> Ok jwtM)
      else Err (''namespace `'' @ grpcMethod @ ''` not recognized by authentication middleware''))"

type_synonym 'v verifier = "metadata option \<Rightarrow> Method \<Rightarrow> string \<Rightarrow> ('v, jwt_error, unit) op"

text \<open>The verifier that accepts everything.\<close>

definition NopVerifier :: "'v verifier" where
  "NopVerifier ctx method label v = (Ok (), v)"

definition jwtAuthenticator :: "'v verifier \<Rightarrow> metadata option \<Rightarrow> string \<Rightarrow> ('v, grpc_error, unit) op" where
  "jwtAuthenticator verify ctx grpcMethod v =
     obind (map_err (\<lambda>_. ErrGRPCNilLabel) (extractStringFromContext ctx MetaLabelKey), v) (\<lambda>label v.
     obind (map_err (\<lambda>_. ErrGRPCUnimplemented) (getJWTMethod grpcMethod), v) (\<lambda>method v.
       omap_err (\<lambda>_. ErrGRPCPermissionDenied) (verify ctx method label v)))"

text \<open>
  A request passes the interceptor in front of its handler; the state is the verifier's together
  with the database's.
\<close>

definition unaryJWTAuthInterceptor ::
  "'v verifier \<Rightarrow> metadata option \<Rightarrow> string \<Rightarrow> ('s, grpc_error, 'a) op \<Rightarrow> ('v \<times> 's, grpc_error, 'a) op" where
  "unaryJWTAuthInterceptor verify ctx fullMethod handler st =
     (case jwtAuthenticator verify ctx fullMethod (fst st) of
        (Ok _, v) \<Rightarrow> (case handler (snd st) of (r, s) \<Rightarrow> (r, (v, s)))
      | (Err e, v) \<Rightarrow> (Err e, (v, snd st))
      | (Panic, v) \<Rightarrow> (Panic, (v, snd st)))"

section \<open>Scopes\<close>

lemma valid_label_split:
  assumes "validateNamespaceLabel l = Ok ()"
  shows "\<exists>a b. l = a @ ''_0stor_'' @ b \<and> b \<noteq> [] \<and> Replace1 l ''_0stor_'' ''.0stor.'' = a @ ''.0stor.'' @ b"
proof -
  from assms have cnt: "Count l ''_0stor_'' = 1" and suf: "\<not> suffix ''_0stor_'' l"
    by (simp_all add: validateNamespaceLabel_def split: if_splits)
  from cnt have "0 < Count l ''_0stor_''" by simp
  from Replace1_split [OF this, of "''.0stor.''"] suf show ?thesis
    by (metis append_Nil2 suffixI)
qed

lemma checkPermissions_iff:
  "checkPermissions expected scopes \<longleftrightarrow>
     (\<exists>s \<in> set scopes. Replace1 s ''user:memberof:'' [] \<in> set expected)"
  by (induction scopes) (auto simp: list_ex_iff)

lemma expectedScopes_Ok:
  "expectedScopes m l = Ok es \<longleftrightarrow>
     validateNamespaceLabel l = Ok () \<and>
     es = (let admin = Replace1 l ''_0stor_'' ''.0stor.'' in
           if m = MethodAdmin then [admin] else [admin @ ''.'' @ Method_String m, admin])"
  by (auto simp: expectedScopes_def rbind_eq_Ok Let_def)

lemma Method_String_simps:
  "Method_String MethodWrite = ''write''" "Method_String MethodRead = ''read''"
  "Method_String MethodDelete = ''delete''" "Method_String MethodAdmin = ''admin''"
  by (simp_all add: MethodStrings_def)

lemma Method_String_inject: "Method_String m = Method_String m' \<longleftrightarrow> m = m'"
  by (cases m; cases m') (simp_all add: Method_String_simps del: Method_String.simps)

lemma Method_String_nodot: "CHR ''.'' \<notin> set (Method_String m)"
  by (cases m) (simp_all add: Method_String_simps del: Method_String.simps)



section \<open>Soundness of the verifier\<close>

text \<open>
  A cache is sound when each valid entry was obtained by checking its token: the check, at some
  earlier time, yielded the entry's scopes and the expiry of the entry.
\<close>

definition cache_sound :: "'k parser \<Rightarrow> 'k \<Rightarrow> int \<Rightarrow> jwt_cache \<Rightarrow> bool" where
  "cache_sound parse key now cache \<longleftrightarrow>
     (\<forall>token v expires. cache token = Some (v, expires) \<and> cv_valid v \<longrightarrow>
        (\<exists>t exp. t \<le> now \<and> checkJWTGetScopes parse key t token = Ok (cv_scopes v, exp) \<and> expires = exp * second))"

text \<open>The runs of a verifier: requests at times that do not go back, and evictions.\<close>

inductive verifier_run :: "'k parser \<Rightarrow> 'k \<Rightarrow> int \<Rightarrow> jwt_cache \<Rightarrow> bool" for parse key where
  start: "verifier_run parse key now Map.empty"
| validate: "verifier_run parse key now cache \<Longrightarrow> now \<le> now' \<Longrightarrow>
    verifier_run parse key now' (snd (ValidateJWT parse key now' ctx method label cache))"
| evict: "verifier_run parse key now cache \<Longrightarrow> verifier_run parse key now (cache(token := None))"

lemma cache_sound_mono: "cache_sound parse key now cache \<Longrightarrow> now \<le> now' \<Longrightarrow> cache_sound parse key now' cache"
  unfolding cache_sound_def by (meson order_trans)

lemma cache_sound_drop: "cache_sound parse key now cache \<Longrightarrow> cache_sound parse key now (cache(token := None))"
  by (auto simp: cache_sound_def)

lemma getScopes_cases:
  assumes sound: "cache_sound parse key now cache"
  shows "cache_sound parse key now (snd (getScopes parse key now token cache))"
    and "getScopes parse key now token cache = (Ok scopes, cache') \<Longrightarrow>
      \<exists>t exp. t \<le> now \<and> now \<le> exp * second \<and> checkJWTGetScopes parse key t token = Ok (scopes, exp)"
proof -
  have check: "cache_sound parse key now (snd (getScopes parse key now token cache)) \<and>
      (getScopes parse key now token cache = (Ok scopes, cache') \<longrightarrow>
        (\<exists>t exp. t \<le> now \<and> now \<le> exp * second \<and> checkJWTGetScopes parse key t token = Ok (scopes, exp)))"
    if "getScopesFromCache now token cache = (Ok [], cache)"
    using sound that
    by (auto simp: getScopes_def cache_sound_def split: result.splits)
  have "cache_sound parse key now (snd (getScopes parse key now token cache)) \<and>
      (getScopes parse key now token cache = (Ok scopes, cache') \<longrightarrow>
        (\<exists>t exp. t \<le> now \<and> now \<le> exp * second \<and> checkJWTGetScopes parse key t token = Ok (scopes, exp)))"
  proof (cases "cache token")
    case None
    then show ?thesis using check by (simp add: getScopesFromCache_def)
  next
    case (Some entry)
    then obtain v expires where entry: "cache token = Some (v, expires)" by (cases entry) auto
    show ?thesis
    proof (cases "cv_valid v \<and> now \<le> expires \<and> cv_scopes v = []")
      case True
      with entry show ?thesis using check by (simp add: getScopesFromCache_def)
    next
      case False
      have keep: "cache_sound parse key now (snd (getScopes parse key now token cache))"
        using False entry sound by (auto simp: getScopes_def getScopesFromCache_def cache_sound_def not_less)
      moreover have "\<exists>t exp. t \<le> now \<and> now \<le> exp * second \<and> checkJWTGetScopes parse key t token = Ok (scopes, exp)"
        if "getScopes parse key now token cache = (Ok scopes, cache')"
      proof -
        from that False entry have "cv_valid v" "now \<le> expires" "scopes = cv_scopes v"
          by (auto simp: getScopes_def getScopesFromCache_def split: if_splits)
        with entry sound show ?thesis unfolding cache_sound_def by blast
      qed
      ultimately show ?thesis by blast
    qed
  qed
  then show "cache_sound parse key now (snd (getScopes parse key now token cache))"
    and "getScopes parse key now token cache = (Ok scopes, cache') \<Longrightarrow>
      \<exists>t exp. t \<le> now \<and> now \<le> exp * second \<and> checkJWTGetScopes parse key t token = Ok (scopes, exp)"
    by blast+
qed

lemma ValidateJWT_cache:
  "snd (ValidateJWT parse key now ctx method label cache) =
     (case extractJWTToken ctx of Ok token \<Rightarrow> snd (getScopes parse key now token cache) | _ \<Rightarrow> cache)"
proof (cases "extractJWTToken ctx")
  case (Ok token)
  obtain r c where run: "getScopes parse key now token cache = (r, c)" by fastforce
  show ?thesis
  proof (cases r)
    fix scopes assume "r = result.Ok scopes"
    with Ok run show ?thesis by (cases "expectedScopes method label") (simp_all add: ValidateJWT_def)
  qed (use Ok run in \<open>simp_all add: ValidateJWT_def\<close>)
qed (simp_all add: ValidateJWT_def)

lemma verifier_run_sound: "verifier_run parse key now cache \<Longrightarrow> cache_sound parse key now cache"
proof (induction rule: verifier_run.induct)
  case (start now)
  then show ?case by (simp add: cache_sound_def)
next
  case (validate now cache now' ctx m label)
  from validate.IH validate.hyps(2) have "cache_sound parse key now' cache" by (rule cache_sound_mono)
  then show ?case
    by (cases "extractJWTToken ctx") (simp_all add: ValidateJWT_cache getScopes_cases(1))
next
  case (evict now cache token)
  from evict.IH show ?case by (rule cache_sound_drop)
qed

lemma ValidateJWT_Ok:
  assumes "ValidateJWT parse key now ctx method label cache = (Ok (), cache')"
  shows "\<exists>token scopes cache' expected. extractJWTToken ctx = Ok token \<and>
    getScopes parse key now token cache = (Ok scopes, cache') \<and>
    expectedScopes method label = Ok expected \<and> checkPermissions expected scopes"
  using assms by (force simp: ValidateJWT_def obind_eq_Ok split: if_splits)

text \<open>
  C23.  Whatever the verifier has cached in the course of its run, an authorised request carries a
  token that the parser accepted, at this time or earlier, that has not expired now, and whose
  scopes include one that the method needs on the label.
\<close>

theorem authorised_requests_have_valid_tokens:
  assumes "verifier_run parse key now0 cache" "now0 \<le> now"
    and "ValidateJWT parse key now ctx method label cache = (Ok (), cache')"
  shows "\<exists>token t scopes exp expected scope. extractJWTToken ctx = Ok token \<and> t \<le> now \<and>
    now \<le> exp * second \<and> checkJWTGetScopes parse key t token = Ok (scopes, exp) \<and>
    expectedScopes method label = Ok expected \<and> scope \<in> set scopes \<and>
    Replace1 scope ''user:memberof:'' [] \<in> set expected"
proof -
  obtain token scopes cache'' expected where v: "extractJWTToken ctx = Ok token"
    "getScopes parse key now token cache = (Ok scopes, cache'')"
    "expectedScopes method label = Ok expected" "checkPermissions expected scopes"
    using ValidateJWT_Ok [OF assms(3)] by blast
  have "cache_sound parse key now cache"
    using verifier_run_sound [OF assms(1)] assms(2) by (rule cache_sound_mono)
  then obtain t exp where "t \<le> now" "now \<le> exp * second" "checkJWTGetScopes parse key t token = Ok (scopes, exp)"
    using getScopes_cases(2) [OF _ v(2)] by blast
  moreover obtain scope where "scope \<in> set scopes" "Replace1 scope ''user:memberof:'' [] \<in> set expected"
    using v(4) unfolding checkPermissions_iff by blast
  ultimately show ?thesis using v(1,3) by blast
qed

definition demo_parser :: "unit parser" where
  "demo_parser keyfunc now s = rbind (keyfunc ''ES384'') (\<lambda>_. Ok \<lparr>tok_Valid = True,
     tok_Claims = Some [''scope'' \<mapsto> JArray [JString ''user:memberof:a.0stor.b.read''], ''exp'' \<mapsto> JNumber 5]\<rparr>)"

theorem authorised_requests_have_valid_tokens_witness:
  "\<exists>token. extractJWTToken (Some [MetaAuthKey \<mapsto> [''Bearer x'']]) = Ok token \<and>
     fst (ValidateJWT demo_parser () 3 (Some [MetaAuthKey \<mapsto> [''Bearer x'']]) MethodRead ''a_0stor_b'' Map.empty) = Ok ()"
proof -
  let ?ctx = "Some [MetaAuthKey \<mapsto> [''Bearer x'']]"
  have ok: "fst (ValidateJWT demo_parser () 3 ?ctx MethodRead ''a_0stor_b'' Map.empty) = Ok ()"
    by (simp add: ValidateJWT_def extractJWTToken_def getScopes_def getScopesFromCache_def second_def
        checkJWTGetScopes_def demo_parser_def expectedScopes_def validateNamespaceLabel_def MethodStrings_def suffix_to_prefix)
  then obtain cache' where run: "ValidateJWT demo_parser () 3 ?ctx MethodRead ''a_0stor_b'' Map.empty = (Ok (), cache')"
    by (metis prod.collapse)
  have "verifier_run demo_parser () 0 Map.empty" by (rule verifier_run.start)
  from authorised_requests_have_valid_tokens [OF this _ run] ok show ?thesis by auto
qed

section \<open>The interceptor guards every handler\<close>

lemma jwtAuthenticator_Ok:
  "jwtAuthenticator verify ctx fullMethod v = (Ok (), v') \<longleftrightarrow>
     (\<exists>label method. extractStringFromContext ctx MetaLabelKey = Ok label \<and>
        getJWTMethod fullMethod = Ok method \<and> verify ctx method label v = (Ok (), v'))"
  by (auto simp: jwtAuthenticator_def obind_eq_Ok omap_err_eq_Ok map_err_eq_Ok)

text \<open>
  No handler runs unless the verifier accepted the request's method for the request's label: a
  request that is not accepted is answered with an error and leaves the database as it is.
\<close>

lemma interceptor_guards:
  "(\<exists>v' label method. extractStringFromContext ctx MetaLabelKey = Ok label \<and>
      getJWTMethod fullMethod = Ok method \<and> verify ctx method label v = (Ok (), v') \<and>
      unaryJWTAuthInterceptor verify ctx fullMethod handler (v, s) = (fst (handler s), (v', snd (handler s)))) \<or>
   (\<exists>r v'. unaryJWTAuthInterceptor verify ctx fullMethod handler (v, s) = (r, (v', s)) \<and> (\<forall>a. r \<noteq> Ok a))"
proof (cases "jwtAuthenticator verify ctx fullMethod v")
  case (Pair r v')
  show ?thesis
  proof (cases r)
    case (Ok u)
    with Pair have "jwtAuthenticator verify ctx fullMethod v = (Ok (), v')" by simp
    then obtain label m where "extractStringFromContext ctx MetaLabelKey = Ok label"
      "getJWTMethod fullMethod = Ok m" "verify ctx m label v = (Ok (), v')"
      unfolding jwtAuthenticator_Ok by blast
    moreover have "unaryJWTAuthInterceptor verify ctx fullMethod handler (v, s) = (fst (handler s), (v', snd (handler s)))"
      using Pair Ok by (simp add: unaryJWTAuthInterceptor_def split: prod.splits)
    ultimately show ?thesis by blast
  qed (use Pair in \<open>auto simp: unaryJWTAuthInterceptor_def\<close>)
qed

text \<open>
  A correctly signed token whose scope claim is absent, or is not a list, makes the verifier
  panic instead of being refused.
\<close>

lemma missing_scope_claim_panics:
  assumes "parse (\<lambda>alg. if alg \<noteq> ''ES384'' then Err (ErrSigningMethod alg) else Ok key) now
      (TrimSpace (TrimPrefix token ''Bearer'')) = Ok \<lparr>tok_Valid = True, tok_Claims = Some claims\<rparr>"
    and "\<forall>vs. claims ''scope'' \<noteq> Some (JArray vs)" "extractJWTToken ctx = Ok token" "cache token = None"
  shows "fst (ValidateJWT parse key now ctx method label cache) = Panic"
  using assms
  by (auto simp: ValidateJWT_def getScopes_def getScopesFromCache_def checkJWTGetScopes_def
      split: option.split jwt_value.split)

lemma missing_scope_claim_panics_witness:
  "fst (ValidateJWT (\<lambda>_ _ _. Ok \<lparr>tok_Valid = True, tok_Claims = Some Map.empty\<rparr>) () 3
     (Some [MetaAuthKey \<mapsto> [''Bearer x'']]) MethodRead ''a_0stor_b'' Map.empty) = Panic"
  by (rule missing_scope_claim_panics [where claims = Map.empty and token = "''Bearer x''"])
    (simp_all add: extractJWTToken_def)

end
