(* ===== verification/Namespace_Api.thy ===== *)
theory Namespace_Api
  imports Server_Auth
begin

text \<open>
  Request statistics and the namespace service: \<open>server/stats/rates.go\<close> on the rate counter it uses,
  \<open>server/api/grpc/middleware_stats.go\<close>, \<open>server/api/grpc/namespace_api.go\<close> and the configuration
  of \<open>server/api/grpc/server.go\<close>.
\<close>

section \<open>Rate counters\<close>

text \<open>
  A rate counter keeps a total and a ring of partial counts; a tick of its timer forgets the
  oldest partial count.  The counts are int64 in the code; an hour's requests stay far below that.
\<close>

record RateCounter =
  rc_counter :: int
  rc_partials :: "int list"
  rc_current :: nat

definition NewRateCounter :: RateCounter where
  "NewRateCounter = \<lparr>rc_counter = 0, rc_partials = replicate 20 0, rc_current = 0\<rparr>"

definition rc_Incr :: "RateCounter \<Rightarrow> int \<Rightarrow> RateCounter" where
  "rc_Incr r val = r\<lparr>rc_counter := rc_counter r + val,
     rc_partials := (rc_partials r)[rc_current r := rc_partials r ! rc_current r + val]\<rparr>"

definition rc_tick :: "RateCounter \<Rightarrow> RateCounter" where
  "rc_tick r = (let next = (rc_current r + 1) mod length (rc_partials r) in
     r\<lparr>rc_counter := rc_counter r + - 1 * (rc_partials r ! next),
        rc_partials := (rc_partials r)[next := 0], rc_current := next\<rparr>)"

definition rc_Rate :: "RateCounter \<Rightarrow> int" where
  "rc_Rate r = rc_counter r"

section \<open>Namespace statistics (server/stats/rates.go)\<close>

record stat =
  readReq :: RateCounter
  writeReq :: RateCounter

type_synonym stats = "string \<rightharpoonup> stat"

definition newStat :: stat where
  "newStat = \<lparr>readReq = NewRateCounter, writeReq = NewRateCounter\<rparr>"

definition AddNamespace :: "string \<Rightarrow> stats \<Rightarrow> stats" where
  "AddNamespace label g = (if g label \<noteq> None then g else g(label \<mapsto> newStat))"

definition lookup_stat :: "string \<Rightarrow> stats \<Rightarrow> stat \<times> stats" where
  "lookup_stat label g =
     (case g label of Some s \<Rightarrow> (s, g) | None \<Rightarrow> let g' = AddNamespace label g in (the (g' label), g'))"

definition IncrRead :: "string \<Rightarrow> stats \<Rightarrow> stats" where
  "IncrRead label g = (case lookup_stat label g of (s, g) \<Rightarrow> g(label \<mapsto> s\<lparr>readReq := rc_Incr (readReq s) 1\<rparr>))"

definition IncrWrite :: "string \<Rightarrow> stats \<Rightarrow> stats" where
  "IncrWrite label g = (case lookup_stat label g of (s, g) \<Rightarrow> g(label \<mapsto> s\<lparr>writeReq := rc_Incr (writeReq s) 1\<rparr>))"

definition Rate :: "string \<Rightarrow> stats \<Rightarrow> (int \<times> int) \<times> stats" where
  "Rate label g = (case lookup_stat label g of (s, g) \<Rightarrow> ((rc_Rate (readReq s), rc_Rate (writeReq s)), g))"

section \<open>Collecting statistics (server/api/grpc/middleware_stats.go)\<close>

datatype labelStatsFunc = StatsIncrRead | StatsIncrWrite

fun run_statsFunc :: "labelStatsFunc \<Rightarrow> string \<Rightarrow> stats \<Rightarrow> stats" where
  "run_statsFunc StatsIncrRead = IncrRead"
| "run_statsFunc StatsIncrWrite = IncrWrite"

definition StatsObjectMethodsMap :: "string \<rightharpoonup> labelStatsFunc" where
  "StatsObjectMethodsMap = map_of [(''GetObject'', StatsIncrRead), (''GetObjectStatus'', StatsIncrRead),
     (''ListObjectKeys'', StatsIncrRead), (''CreateObject'', StatsIncrWrite), (''DeleteObject'', StatsIncrWrite)]"

definition StatsNamespaceMethodsMap :: "string \<rightharpoonup> labelStatsFunc" where
  "StatsNamespaceMethodsMap = map_of [(''GetNamespace'', StatsIncrRead)]"

definition getStatsFunc :: "string \<Rightarrow> (string, labelStatsFunc) result" where
  "getStatsFunc grpcMethod =
     (if HasPrefix grpcMethod objectPrefix then
        let m = drop (length objectPrefix) grpcMethod in
        (case StatsObjectMethodsMap m of
           None \<Rightarrow> Err (''namespace object does not contain method '' @ m)
         | Some f \<Rightarrow> Ok f)
      else if HasPrefix grpcMethod namespacePrefix then
        let m = drop (length namespacePrefix) grpcMethod in
        (case StatsNamespaceMethodsMap m of
           None \<Rightarrow> Err (''namespace namespace does not contain method '' @ m)
         | Some f \<Rightarrow> Ok f)
      else Err (''namespace `'' @ grpcMethod @ ''` not recognized by authentication middleware''))"

text \<open>
  Both errors are logged only: without a label the empty one is used, and without a function the
  call goes to a nil function, which panics.
\<close>

definition statsLogger :: "metadata option \<Rightarrow> string \<Rightarrow> (stats, string, unit) op" where
  "statsLogger ctx grpcMethod g =
     (let label = (case extractStringFromContext ctx MetaLabelKey of Ok l \<Rightarrow> l | _ \<Rightarrow> []) in
      case getStatsFunc grpcMethod of
        Ok f \<Rightarrow> (Ok (), run_statsFunc f label g)
      | _ \<Rightarrow> (Panic, g))"

section \<open>The namespace service (server/api/grpc/namespace_api.go)\<close>

record GetNamespaceResponse =
  resp_Label :: string
  ReadRequestPerHour :: int
  WriteRequestPerHour :: int
  NrObjects :: nat

definition GetNamespace ::
  "'s DB \<Rightarrow> bytes list \<Rightarrow> metadata option \<Rightarrow> ('s \<times> stats, grpc_error, GetNamespaceResponse) op" where
  "GetNamespace db order ctx st =
     (case extractStringFromContext ctx MetaLabelKey of
        Err e \<Rightarrow> (Err ErrGRPCNilLabel, st)
      | Panic \<Rightarrow> (Panic, st)
      | Ok label \<Rightarrow>
         (case CountKeys db order (Some (ascii label)) (fst st) of
            Err e \<Rightarrow> (Err ErrGRPCDatabase, st)
          | Panic \<Rightarrow> (Panic, st)
          | Ok count \<Rightarrow>
             (case Rate label (snd st) of ((read, write), g) \<Rightarrow>
                (Ok \<lparr>resp_Label = label, ReadRequestPerHour = read, WriteRequestPerHour = write, NrObjects = count\<rparr>,
                 (fst st, g)))))"

section \<open>Server configuration (server/api/grpc/server.go)\<close>

definition DefaultMaxMsgsize :: int where
  "DefaultMaxMsgsize = 32"

record 'v ServerConfig =
  MaxMsgSize :: int
  JobCount :: int
  Verifier :: "'v verifier option"

text \<open>\<open>DefaultJobCount\<close> is twice the number of processors, an argument here.\<close>

definition sanitize :: "int \<Rightarrow> 'v ServerConfig \<Rightarrow> 'v ServerConfig" where
  "sanitize defaultJobCount cfg =
     (let cfg = (if MaxMsgSize cfg \<le> 0 then cfg\<lparr>MaxMsgSize := DefaultMaxMsgsize\<rparr> else cfg);
          cfg = cfg\<lparr>MaxMsgSize := MaxMsgSize cfg * (1024 * 1024)\<rparr>
      in if JobCount cfg \<le> 0 then cfg\<lparr>JobCount := defaultJobCount\<rparr> else cfg)"

text \<open>
  A unary call on the server that \<open>New\<close> assembles: the authentication interceptor is in front if a
  verifier is configured, then the statistics are collected, then the handler runs.  The statistics
  are collected by a goroutine of their own: its effect is that of running it before the handler.
\<close>

definition serve ::
  "'v ServerConfig \<Rightarrow> metadata option \<Rightarrow> string \<Rightarrow> ('s, grpc_error, 'a) op \<Rightarrow> ('v \<times> stats \<times> 's, grpc_error, 'a) op" where
  "serve cfg ctx fullMethod handler =
     (let inner = (\<lambda>st. case statsLogger ctx fullMethod (fst st) of
            (Ok _, g) \<Rightarrow> (case handler (snd st) of (r, s) \<Rightarrow> (r, (g, s)))
          | (_, g) \<Rightarrow> (Panic, (g, snd st)))
      in case Verifier cfg of
           Some verify \<Rightarrow> unaryJWTAuthInterceptor verify ctx fullMethod inner
         | None \<Rightarrow> (\<lambda>st. case inner (snd st) of (r, s) \<Rightarrow> (r, (fst st, s))))"

section \<open>Lemmas\<close>

definition rc_ok :: "RateCounter \<Rightarrow> bool" where
  "rc_ok r \<longleftrightarrow> rc_counter r = sum_list (rc_partials r) \<and> rc_current r < length (rc_partials r)"

lemma sum_list_update_int:
  "i < length xs \<Longrightarrow> sum_list (xs[i := (v :: int)]) = sum_list xs - xs ! i + v"
  by (induction xs arbitrary: i) (auto split: nat.splits)

lemma rc_ok_New [simp]: "rc_ok NewRateCounter"
  by (simp add: rc_ok_def NewRateCounter_def sum_list_replicate)

lemma rc_ok_Incr [simp]: "rc_ok r \<Longrightarrow> rc_ok (rc_Incr r v)"
  by (simp add: rc_ok_def rc_Incr_def sum_list_update_int)

lemma rc_ok_tick [simp]: "rc_ok r \<Longrightarrow> rc_ok (rc_tick r)"
proof -
  assume r: "rc_ok r"
  then have "0 < length (rc_partials r)" unfolding rc_ok_def by linarith
  then have "Suc (rc_current r) mod length (rc_partials r) < length (rc_partials r)" by (rule mod_less_divisor)
  with r show ?thesis by (simp add: rc_ok_def rc_tick_def Let_def sum_list_update_int)
qed

lemma rc_tick_partials:
  assumes "rc_current r < length (rc_partials r)" "n \<le> length (rc_partials r)"
  shows "rc_current ((rc_tick ^^ n) r) = (rc_current r + n) mod length (rc_partials r) \<and>
    rc_partials ((rc_tick ^^ n) r) =
      map (\<lambda>i. if \<exists>j\<in>{1..n}. i = (rc_current r + j) mod length (rc_partials r) then 0 else rc_partials r ! i)
        [0..<length (rc_partials r)]"
  using assms(2)
proof (induction n)
  case 0
  with assms show ?case by (simp add: map_nth)
next
  case (Suc n)
  let ?L = "length (rc_partials r)" and ?r = "(rc_tick ^^ n) r"
  from Suc have IH: "rc_current ?r = (rc_current r + n) mod ?L"
    "rc_partials ?r = map (\<lambda>i. if \<exists>j\<in>{1..n}. i = (rc_current r + j) mod ?L then 0 else rc_partials r ! i) [0..<?L]"
    by simp_all
  then have len: "length (rc_partials ?r) = ?L" by simp
  have "rc_current (rc_tick ?r) = (rc_current r + Suc n) mod ?L"
    by (simp add: rc_tick_def Let_def len IH(1) mod_Suc_eq)
  moreover have "rc_partials (rc_tick ?r) = (rc_partials ?r)[(rc_current r + Suc n) mod ?L := 0]"
    by (simp add: rc_tick_def Let_def len IH(1) mod_Suc_eq)
  moreover have "\<dots> = map (\<lambda>i. if \<exists>j\<in>{1..Suc n}. i = (rc_current r + j) mod ?L then 0 else rc_partials r ! i) [0..<?L]"
  proof (rule nth_equalityI)
    fix i assume "i < length ((rc_partials ?r)[(rc_current r + Suc n) mod ?L := 0])"
    then have i: "i < ?L" by (simp add: len)
    have "(\<exists>j\<in>{1..Suc n}. i = (rc_current r + j) mod ?L) \<longleftrightarrow>
        i = (rc_current r + Suc n) mod ?L \<or> (\<exists>j\<in>{1..n}. i = (rc_current r + j) mod ?L)"
      by (auto simp: atLeastAtMostSuc_conv)
    moreover have "(rc_partials ?r)[(rc_current r + Suc n) mod ?L := 0] ! i =
        (if i = (rc_current r + Suc n) mod ?L then 0 else rc_partials ?r ! i)"
      using i len by (cases "i = (rc_current r + Suc n) mod ?L") simp_all
    ultimately show "(rc_partials ?r)[(rc_current r + Suc n) mod ?L := 0] ! i =
        map (\<lambda>i. if \<exists>j\<in>{1..Suc n}. i = (rc_current r + j) mod ?L then 0 else rc_partials r ! i) [0..<?L] ! i"
      using i IH(2) by (simp del: upt_Suc)
  qed (simp add: len)
  ultimately show ?case by simp
qed

lemma rotation_covers: "c < L \<Longrightarrow> i < L \<Longrightarrow> \<exists>j\<in>{1..L}. i = (c + j) mod (L :: nat)"
  by (rule bexI [of _ "if c < i then i - c else i + L - c"]) (auto simp: mod_simps le_mod_geq)

lemma rc_forgets:
  assumes "rc_ok r"
  shows "rc_Rate ((rc_tick ^^ length (rc_partials r)) r) = 0"
proof -
  let ?L = "length (rc_partials r)" and ?r = "(rc_tick ^^ length (rc_partials r)) r"
  have "rc_ok ((rc_tick ^^ n) r)" for n by (induction n) (simp_all add: assms)
  then have "rc_Rate ?r = sum_list (rc_partials ?r)" by (simp add: rc_ok_def rc_Rate_def)
  also have "rc_partials ?r = map (\<lambda>_. 0) [0..<?L]"
    using rc_tick_partials [of r ?L] assms rotation_covers [of "rc_current r" ?L]
    by (auto simp: rc_ok_def intro!: map_cong)
  finally show ?thesis by (simp add: sum_list_0)
qed

lemma lookup_stat_eq:
  "lookup_stat label g = (let s = (case g label of Some s \<Rightarrow> s | None \<Rightarrow> newStat) in (s, g(label \<mapsto> s)))"
  by (auto simp: lookup_stat_def AddNamespace_def Let_def split: option.splits)

definition read_rate :: "stats \<Rightarrow> string \<Rightarrow> int" where
  "read_rate g label = fst (fst (Rate label g))"

definition write_rate :: "stats \<Rightarrow> string \<Rightarrow> int" where
  "write_rate g label = snd (fst (Rate label g))"

lemma rates_after:
  "read_rate (IncrRead l g) l' = read_rate g l' + (if l = l' then 1 else 0)"
  "write_rate (IncrRead l g) l' = write_rate g l'"
  "write_rate (IncrWrite l g) l' = write_rate g l' + (if l = l' then 1 else 0)"
  "read_rate (IncrWrite l g) l' = read_rate g l'"
  by (simp_all add: read_rate_def write_rate_def IncrRead_def IncrWrite_def Rate_def lookup_stat_eq Let_def
      rc_Rate_def rc_Incr_def newStat_def NewRateCounter_def split: option.splits)

lemma rates_after_Rate:
  "read_rate (snd (Rate l g)) l' = read_rate g l'" "write_rate (snd (Rate l g)) l' = write_rate g l'"
  by (simp_all add: read_rate_def write_rate_def Rate_def lookup_stat_eq Let_def split: option.splits)

section \<open>Properties\<close>

lemma tables_agree:
  "getJWTMethod fm = Ok m \<Longrightarrow>
     getStatsFunc fm = Ok (if m \<in> {MethodRead, MethodAdmin} then StatsIncrRead else StatsIncrWrite)"
  by (auto simp: getJWTMethod_def getStatsFunc_def JWTObjectMethodsMap_def JWTNamespaceMethodsMap_def
      StatsObjectMethodsMap_def StatsNamespaceMethodsMap_def Let_def split: if_splits)

lemma extract_request_label:
  "extractStringFromContext ctx MetaLabelKey =
     (case request_label ctx of Some l \<Rightarrow> Ok l
      | None \<Rightarrow> Err (if ctx = None then ErrNoMetadata else ErrNoKeyInMetadata MetaLabelKey))"
  by (auto simp: extractStringFromContext_def request_label_def split: option.splits list.splits)

text \<open>
  C31.  On a server with a verifier, a request that is accepted is counted exactly once: as a read of
  its namespace when its method needs the read or the admin permission, as a write otherwise, and
  no other namespace's rates change; the collector never meets a method it does not know, so the
  reply is the handler's.
\<close>

theorem accepted_requests_counted:
  assumes "Verifier cfg = Some verify" "request_label ctx = Some l" "getJWTMethod fm = Ok m"
    and "verify ctx m l v = (Ok (), v')" "handler s = (r, s')"
  shows "\<exists>g'. serve cfg ctx fm handler (v, g, s) = (r, (v', g', s')) \<and>
    (\<forall>l'. read_rate g' l' = read_rate g l' + (if l' = l \<and> m \<in> {MethodRead, MethodAdmin} then 1 else 0) \<and>
          write_rate g' l' = write_rate g l' + (if l' = l \<and> m \<in> {MethodWrite, MethodDelete} then 1 else 0))"
proof -
  let ?f = "if m \<in> {MethodRead, MethodAdmin} then StatsIncrRead else StatsIncrWrite"
  have stats: "statsLogger ctx fm g = (Ok (), run_statsFunc ?f l g)"
    using assms(2) tables_agree [OF assms(3)] by (simp add: statsLogger_def extract_request_label)
  have "jwtAuthenticator verify ctx fm v = (Ok (), v')"
    using assms by (auto simp: jwtAuthenticator_Ok extract_request_label)
  then have "serve cfg ctx fm handler (v, g, s) = (r, (v', run_statsFunc ?f l g, s'))"
    using assms(1,5) stats by (simp add: serve_def unaryJWTAuthInterceptor_def Let_def)
  moreover have "read_rate (run_statsFunc ?f l g) l' = read_rate g l' + (if l' = l \<and> m \<in> {MethodRead, MethodAdmin} then 1 else 0) \<and>
      write_rate (run_statsFunc ?f l g) l' = write_rate g l' + (if l' = l \<and> m \<in> {MethodWrite, MethodDelete} then 1 else 0)" for l'
    by (cases m) (auto simp: rates_after)
  ultimately show ?thesis by blast
qed

theorem accepted_requests_counted_witness:
  "\<exists>g'. serve \<lparr>MaxMsgSize = 0, JobCount = 0, Verifier = Some NopVerifier\<rparr> (labelled ''a'')
      ''/ObjectManager/GetObject'' (\<lambda>s. (Ok (5 :: nat), s)) ((), Map.empty, ()) = (Ok 5, ((), g', ())) \<and>
    read_rate g' ''a'' = read_rate Map.empty ''a'' + 1"
proof -
  have "getJWTMethod ''/ObjectManager/GetObject'' = Ok MethodRead"
    by (simp add: getJWTMethod_def objectPrefix_def JWTObjectMethodsMap_def)
  from accepted_requests_counted [OF _ request_label_labelled [of "''a''"] this,
      of "\<lparr>MaxMsgSize = 0, JobCount = 0, Verifier = Some NopVerifier\<rparr>" NopVerifier "()" "()"
        "\<lambda>s. (Ok (5 :: nat), s)" "()" "Ok 5" "()" Map.empty]
  show ?thesis by (fastforce simp: NopVerifier_def)
qed

text \<open>The database states a server can bring about with its handlers.\<close>

inductive server_reachable :: "memory_DB \<Rightarrow> bool" where
  fresh: "server_reachable memory_New"
| create: "server_reachable st \<Longrightarrow> server_reachable (snd (CreateObject_mem ctx data st))"
| delete: "server_reachable st \<Longrightarrow> server_reachable (snd (DeleteObject_mem ctx key st))"

lemma handler_keys:
  "dom (mdb_m (snd (CreateObject_mem ctx data st))) \<subseteq> dom (mdb_m st) \<union> {k. prefix (ascii ''d:'') k}"
  "dom (mdb_m (snd (DeleteObject_mem ctx key st))) \<subseteq> dom (mdb_m st)"
proof -
  show "dom (mdb_m (snd (CreateObject_mem ctx data st))) \<subseteq> dom (mdb_m st) \<union> {k. prefix (ascii ''d:'') k}"
  proof (cases "request_label ctx = None \<or> data = []")
    case True
    then show ?thesis by (auto simp: handler_defs split: option.splits)
  next
    case False
    then obtain l where "request_label ctx = Some l" "data \<noteq> []" by auto
    from mem.CreateObject_spec [OF this, of st] show ?thesis by (auto simp: data_scope_nth split: if_splits)
  qed
  show "dom (mdb_m (snd (DeleteObject_mem ctx key st))) \<subseteq> dom (mdb_m st)"
  proof (cases "request_label ctx = None \<or> key = []")
    case True
    then show ?thesis by (auto simp: handler_defs split: option.splits)
  next
    case False
    then obtain l where "request_label ctx = Some l" "key \<noteq> []" by auto
    from mem.DeleteObject_spec [OF this, of st] show ?thesis by (auto split: if_splits)
  qed
qed

lemma server_reachable_keys: "server_reachable st \<Longrightarrow> k \<in> dom (mdb_m st) \<Longrightarrow> prefix (ascii ''d:'') k"
proof (induction arbitrary: k rule: server_reachable.induct)
  case fresh
  then show ?case by (simp add: memory_New_def)
next
  case (create st ctx data)
  then show ?case using handler_keys(1) [of ctx data st] by blast
next
  case (delete st ctx key)
  then show ?case using handler_keys(2) [of ctx key st] by blast
qed

text \<open>
  The object count of a namespace is taken over the keys that start with the label itself, not
  with the namespace's scope key: for a label that does not start with the letter d it is zero,
  whatever has been stored in the namespace.
\<close>

lemma GetNamespace_counts_no_objects:
  assumes "server_reachable st" "enumerates order (mdb_m st)" "request_label ctx = Some l"
    and "l \<noteq> []" "hd l \<noteq> CHR ''d''"
  shows "\<exists>resp g'. GetNamespace memory_DB_ops order ctx (st, g) = (Ok resp, (st, g')) \<and>
    resp_Label resp = l \<and> NrObjects resp = 0"
proof -
  obtain c cs where l: "l = c # cs" "c \<noteq> CHR ''d''" using assms(4,5) by (cases l) auto
  then have "(of_char c :: byte) \<noteq> of_char (CHR ''d'')"
    using ascii_inject [of "[c]" "''d''"] by (auto simp: ascii_def)
  then have "\<not> prefix (ascii l) k" if "k \<in> dom (mdb_m st)" for k
    using server_reachable_keys [OF assms(1) that] l by (auto simp: prefix_def)
  then have none: "{k \<in> dom (mdb_m st). has_prefix (Some (ascii l)) k} = {}" by (auto simp: has_prefix_def)
  have "CountKeys memory_DB_ops order (Some (ascii l)) st = Ok 0"
    using mem.CountKeys_card [OF assms(2), of "Some (ascii l)"] unfolding none by simp
  then show ?thesis using assms(3)
    by (auto simp: GetNamespace_def extract_request_label split: prod.splits)
qed

lemma GetNamespace_counts_no_objects_witness:
  "\<exists>key st order resp g'. CreateObject_mem (labelled ''ns'') [1] memory_New = (Ok key, st) \<and>
     GetObject_mem (labelled ''ns'') key st = (Ok [1], st) \<and>
     GetNamespace memory_DB_ops order (labelled ''ns'') (st, Map.empty) = (Ok resp, (st, g')) \<and> NrObjects resp = 0"
proof -
  obtain key st where run: "CreateObject_mem (labelled ''ns'') [1] memory_New = (Ok key, st)" and "key \<noteq> []"
    and cont: "mdb_m st = (mdb_m memory_New)(data_scope (ascii ''ns'') @ key \<mapsto> encoded [1])"
    using mem.CreateObject_spec [OF request_label_labelled, of "[1]" "''ns''" memory_New] by auto
  have "server_reachable st" using server_reachable.create [OF fresh, of "labelled ''ns''" "[1]"] run by simp
  moreover have "enumerates [data_scope (ascii ''ns'') @ key] (mdb_m st)"
    by (auto simp: enumerates_def cont memory_New_def)
  moreover have "GetObject_mem (labelled ''ns'') key st = (Ok [1], st)"
    using \<open>key \<noteq> []\<close> by (simp add: mem.GetObject_spec cont DecodeObject_encoded)
  ultimately show ?thesis
    using run GetNamespace_counts_no_objects [OF _ _ request_label_labelled [of "''ns''"], of st] by fastforce
qed

end
