(* ===== verification/Datastor_Client.thy ===== *)
theory Datastor_Client
  imports Namespace_Api "HOL-Library.Multiset"
begin

text \<open>
  The client of one zstordb server (\<open>client/datastor/grpc/client.go\<close>, \<open>client/datastor/types.go\<close>), the
  cluster of such clients (\<open>client/datastor/grpc/cluster.go\<close>) and the shard iterators
  (\<open>client/datastor/cluster.go\<close>).

  A remote service is a record of calls on a world state; the service of a zstordb server is the
  server's handlers, with their errors sent as gRPC statuses.
\<close>

section \<open>Errors (client/datastor/types.go)\<close>

datatype client_error =
    ErrMissingKey | ErrMissingData | ErrInvalidStatus | ErrInvalidLabel
  | ErrKeyNotFound | ErrObjectCorrupted | ErrPermissionDenied
  | ErrRpc rpc_error | ErrNoShard string | ErrToken string

datatype datastor_ObjectStatus = StatusMissing | StatusOK | StatusCorrupted

section \<open>The client (client/datastor/grpc/client.go)\<close>

text \<open>
  The object status travels as a number; the numbers of missing, OK and corrupted are 0, 1 and 2.
\<close>

record 'w object_service =
  svc_CreateObject :: "metadata option \<Rightarrow> bytes \<Rightarrow> ('w, status, bytes) op"
  svc_GetObject :: "metadata option \<Rightarrow> bytes \<Rightarrow> ('w, status, bytes) op"
  svc_DeleteObject :: "metadata option \<Rightarrow> bytes \<Rightarrow> ('w, status, unit) op"
  svc_GetObjectStatus :: "metadata option \<Rightarrow> bytes \<Rightarrow> ('w, status, nat) op"
  svc_GetNamespace :: "metadata option \<Rightarrow> ('w, status, GetNamespaceResponse) op"
  svc_ListObjectKeys :: "metadata option \<Rightarrow> 'w \<Rightarrow> (status, bytes) result list"

record 'w datastor_Client =
  c_service :: "'w object_service"
  c_context :: "(client_error, metadata) result"
  c_label :: string

definition expectedErrorMapping :: "rpc_error \<Rightarrow> client_error option" where
  "expectedErrorMapping e =
     (if e = zstor_error ErrGRPCKeyNotFound then Some ErrKeyNotFound
      else if e = zstor_error ErrGRPCObjectDataCorrupted then Some ErrObjectCorrupted
      else if e = zstor_error ErrGRPCPermissionDenied then Some ErrPermissionDenied
      else None)"

definition toErr :: "status \<Rightarrow> client_error" where
  "toErr s =
     (case rpctypes_Error (Some s) of
        Some (ZStorError c d) \<Rightarrow>
          (case expectedErrorMapping (ZStorError c d) of Some e \<Rightarrow> e | None \<Rightarrow> ErrRpc (ZStorError c d))
      | Some (ForeignError s) \<Rightarrow> ErrRpc (ForeignError s)
      | None \<Rightarrow> ErrRpc (ForeignError s))"

definition client_convertStatus :: "nat \<Rightarrow> (client_error, datastor_ObjectStatus) result" where
  "client_convertStatus n =
     (if n = 1 then Ok StatusOK else if n = 0 then Ok StatusMissing else if n = 2 then Ok StatusCorrupted
      else Err ErrInvalidStatus)"

definition client_CreateObject :: "'w datastor_Client \<Rightarrow> bytes \<Rightarrow> ('w, client_error, bytes) op" where
  "client_CreateObject c data w =
     obind (c_context c, w) (\<lambda>ctx w.
       omap_err toErr (svc_CreateObject (c_service c) (Some ctx) data w))"

definition client_GetObject :: "'w datastor_Client \<Rightarrow> bytes \<Rightarrow> ('w, client_error, bytes) op" where
  "client_GetObject c key w =
     obind (c_context c, w) (\<lambda>ctx w.
     obind (omap_err toErr (svc_GetObject (c_service c) (Some ctx) key w)) (\<lambda>data w.
       if length data = 0 then (Err ErrMissingData, w) else (Ok data, w)))"

definition client_DeleteObject :: "'w datastor_Client \<Rightarrow> bytes \<Rightarrow> ('w, client_error, unit) op" where
  "client_DeleteObject c key w =
     obind (c_context c, w) (\<lambda>ctx w.
       omap_err toErr (svc_DeleteObject (c_service c) (Some ctx) key w))"

definition client_GetObjectStatus ::
  "'w datastor_Client \<Rightarrow> bytes \<Rightarrow> ('w, client_error, datastor_ObjectStatus) op" where
  "client_GetObjectStatus c key w =
     obind (c_context c, w) (\<lambda>ctx w.
     obind (omap_err toErr (svc_GetObjectStatus (c_service c) (Some ctx) key w)) (\<lambda>n w.
       (client_convertStatus n, w)))"

definition client_ExistObject :: "'w datastor_Client \<Rightarrow> bytes \<Rightarrow> ('w, client_error, bool) op" where
  "client_ExistObject c key w =
     obind (client_GetObjectStatus c key w) (\<lambda>st w.
       (case st of StatusOK \<Rightarrow> Ok True | StatusCorrupted \<Rightarrow> Err ErrObjectCorrupted | StatusMissing \<Rightarrow> Ok False, w))"

definition client_GetNamespace :: "'w datastor_Client \<Rightarrow> ('w, client_error, GetNamespaceResponse) op" where
  "client_GetNamespace c w =
     obind (c_context c, w) (\<lambda>ctx w.
     obind (omap_err toErr (svc_GetNamespace (c_service c) (Some ctx) w)) (\<lambda>resp w.
       if resp_Label resp \<noteq> c_label c then (Err ErrInvalidLabel, w) else (Ok resp, w)))"

text \<open>
  The results that the key iterator delivers for what the stream delivers: it ends after the first
  error, an empty key included.
\<close>

fun key_results :: "(status, bytes) result list \<Rightarrow> (client_error, bytes) result list" where
  "key_results [] = []"
| "key_results (Ok key # rest) = (if length key = 0 then [Err ErrMissingKey] else Ok key # key_results rest)"
| "key_results (Err s # rest) = [Err (toErr s)]"
| "key_results (Panic # rest) = []"

definition client_ListObjectKeys ::
  "'w datastor_Client \<Rightarrow> 'w \<Rightarrow> (client_error, (client_error, bytes) result list) result" where
  "client_ListObjectKeys c w =
     rbind (c_context c) (\<lambda>ctx. Ok (key_results (svc_ListObjectKeys (c_service c) (Some ctx) w)))"

text \<open>\<open>defaultContextConstructor\<close>, and the one of a client with a token getter.\<close>

definition defaultContextConstructor :: "string \<Rightarrow> (client_error, metadata) result" where
  "defaultContextConstructor namespace = Ok [MetaLabelKey \<mapsto> [namespace]]"

definition tokenContextConstructor :: "(client_error, string) result \<Rightarrow> string \<Rightarrow> (client_error, metadata) result" where
  "tokenContextConstructor getJWTToken label =
     rbind getJWTToken (\<lambda>jwtToken. Ok [MetaAuthKey \<mapsto> [jwtToken], MetaLabelKey \<mapsto> [label]])"

text \<open>
  \<open>NewClient\<close>.  Dialling an address, with TLS or without, gives the services of the server; the tokens are
  the two methods of a token getter.
\<close>

record token_getter =
  tg_GetLabel :: "string \<Rightarrow> (client_error, string) result"
  tg_GetJWTToken :: "string \<Rightarrow> (client_error, string) result"

definition grpc_NewClient ::
  "(string \<Rightarrow> 'p option \<Rightarrow> (string, 'w object_service) result) \<Rightarrow> string \<Rightarrow> string \<Rightarrow> token_getter option \<Rightarrow> 'p option \<Rightarrow>
   (client_error, 'w datastor_Client) result" where
  "grpc_NewClient grpc_Dial addr namespace jwtTokenGetter tlsConfig =
     (if length addr = 0 then Err (ErrNoShard ''no/empty zstordb address given'')
      else if length namespace = 0 then Err (ErrNoShard ''no/empty namespace given'')
      else rbind (map_err (\<lambda>e. ErrNoShard (''couldn't connect to zstordb server '' @ addr @ '': '' @ e)) (grpc_Dial addr tlsConfig)) (\<lambda>conn.
        case jwtTokenGetter of
          None \<Rightarrow> Ok \<lparr>c_service = conn, c_context = defaultContextConstructor namespace, c_label = namespace\<rparr>
        | Some getter \<Rightarrow>
            rbind (tg_GetLabel getter namespace) (\<lambda>label.
              Ok \<lparr>c_service = conn, c_context = tokenContextConstructor (tg_GetJWTToken getter namespace) label, c_label = label\<rparr>)))"

definition grpc_NewInsecureClient ::
  "(string \<Rightarrow> 'p option \<Rightarrow> (string, 'w object_service) result) \<Rightarrow> string \<Rightarrow> string \<Rightarrow> token_getter option \<Rightarrow> (client_error, 'w datastor_Client) result" where
  "grpc_NewInsecureClient grpc_Dial addr namespace jwtTokenGetter = grpc_NewClient grpc_Dial addr namespace jwtTokenGetter None"

section \<open>The cluster (client/datastor/grpc/cluster.go)\<close>

text \<open>
  A shard is known by its address.  \<open>dial\<close> stands for \<open>NewClient\<close>: whether a client for an address
  can be made.
\<close>

record grpc_Cluster =
  listed :: "string \<rightharpoonup> unit"
  listedSlice :: "string list"
  listedCount :: nat
  unlisted :: "string \<rightharpoonup> unit"

fun open_listed ::
  "(string \<Rightarrow> (client_error, unit) result) \<Rightarrow> string list \<Rightarrow> string list \<Rightarrow> (string \<rightharpoonup> unit)
     \<Rightarrow> (client_error, string list \<times> (string \<rightharpoonup> unit)) result" where
  "open_listed dial [] sl m = Ok (sl, m)"
| "open_listed dial (a # as) sl m =
     rbind (dial a) (\<lambda>_. open_listed dial as (sl @ [a]) (m(a \<mapsto> ())))"

definition NewCluster ::
  "(string \<Rightarrow> (client_error, unit) result) \<Rightarrow> string list \<Rightarrow> string \<Rightarrow> (client_error, grpc_Cluster) result" where
  "NewCluster dial addresses namespace =
     (if length addresses = 0 then Err (ErrNoShard ''no listed addresses given'')
      else if namespace = [] then Err (ErrNoShard ''no namespace given'')
      else rbind (open_listed dial addresses [] Map.empty) (\<lambda>(sl, m).
        Ok \<lparr>listed = m, listedSlice = sl, listedCount = length addresses, unlisted = Map.empty\<rparr>))"

definition GetShard ::
  "(string \<Rightarrow> (client_error, unit) result) \<Rightarrow> string \<Rightarrow> (grpc_Cluster, client_error, string) op" where
  "GetShard dial address cluster =
     (if listed cluster address \<noteq> None then (Ok address, cluster)
      else if unlisted cluster address \<noteq> None then (Ok address, cluster)
      else (case dial address of
          Ok _ \<Rightarrow> (Ok address, cluster\<lparr>unlisted := (unlisted cluster)(address \<mapsto> ())\<rparr>)
        | Err e \<Rightarrow> (Err e, cluster)
        | Panic \<Rightarrow> (Panic, cluster)))"

definition filteredSlice :: "grpc_Cluster \<Rightarrow> string list \<Rightarrow> string list" where
  "filteredSlice cluster exceptShards =
     (if length exceptShards = 0 then map (\<lambda>i. listedSlice cluster ! i) [0..<listedCount cluster]
      else filter (\<lambda>shard. shard \<notin> set exceptShards) (listedSlice cluster))"

definition ListedShardCount :: "grpc_Cluster \<Rightarrow> nat" where
  "ListedShardCount cluster = listedCount cluster"

text \<open>A random shard, for the index that is drawn.\<close>

definition GetRandomShard :: "(nat \<Rightarrow> nat) \<Rightarrow> grpc_Cluster \<Rightarrow> ('e, string) result" where
  "GetRandomShard draw cluster =
     (let index = draw (listedCount cluster) in
      if index < length (listedSlice cluster) then Ok (listedSlice cluster ! index) else Panic)"

text \<open>
  \<open>Close\<close> closes the unlisted and then the listed shards, each in the order of its map, and goes on when a
  shard fails.
\<close>

fun close_shards :: "(string \<Rightarrow> ('w, string, unit) op) \<Rightarrow> string list \<Rightarrow> nat \<Rightarrow> ('w, 'e, nat) op" where
  "close_shards close [] errCount w = (Ok errCount, w)"
| "close_shards close (shard # shards) errCount w =
     (case close shard w of
        (Ok _, w) \<Rightarrow> close_shards close shards errCount w
      | (Err e, w) \<Rightarrow> close_shards close shards (Suc errCount) w
      | (Panic, w) \<Rightarrow> (Panic, w))"

definition cluster_Close :: "(string \<Rightarrow> ('w, string, unit) op) \<Rightarrow> string list \<Rightarrow> string list \<Rightarrow> ('w, string, unit) op" where
  "cluster_Close close unlistedShards listedShards w =
     obind (close_shards close unlistedShards 0 w) (\<lambda>errCount w.
     obind (close_shards close listedShards errCount w) (\<lambda>errCount w.
       if errCount > 0 then (Err ''one or multiple shards returned an error while closing'', w) else (Ok (), w)))"

section \<open>Shard iterators (client/datastor/cluster.go)\<close>

record 'a RandomShardIterator =
  rsi_sliceice :: "'a list"
  rsi_length :: nat
  rsi_current :: "'a option"

definition NewRandomShardIterator :: "'a list \<Rightarrow> 'a RandomShardIterator" where
  "NewRandomShardIterator sl = \<lparr>rsi_sliceice = sl, rsi_length = length sl, rsi_current = None\<rparr>"

text \<open>
  \<open>Next\<close> with the index that \<open>RandShardIndex\<close> draws; an index out of range panics, as in the source.
\<close>

definition rsi_Next :: "nat \<Rightarrow> ('a RandomShardIterator, unit, bool) op" where
  "rsi_Next index it =
     (if rsi_length it < 1 then (Ok False, it)
      else let len = rsi_length it - 1 in
        if index < length (rsi_sliceice it) \<and> len < length (rsi_sliceice it) then
          let sl = (rsi_sliceice it)[index := rsi_sliceice it ! len, len := rsi_sliceice it ! index]
          in (Ok True, it\<lparr>rsi_sliceice := sl, rsi_length := len, rsi_current := Some (sl ! len)\<rparr>)
        else (Panic, it))"

definition rsi_Shard :: "'a RandomShardIterator \<Rightarrow> ('e, 'a) result" where
  "rsi_Shard it = (case rsi_current it of None \<Rightarrow> Panic | Some s \<Rightarrow> Ok s)"

definition GetRandomShardIterator :: "grpc_Cluster \<Rightarrow> string list \<Rightarrow> string RandomShardIterator" where
  "GetRandomShardIterator cluster exceptShards = NewRandomShardIterator (filteredSlice cluster exceptShards)"

text \<open>
  What a loop \<open>for it.Next() { it.Shard() }\<close> sees, with \<open>draw n\<close> the index drawn when \<open>n\<close> shards are left.
\<close>

function drain :: "(nat \<Rightarrow> nat) \<Rightarrow> 'a RandomShardIterator \<Rightarrow> (unit, 'a list) result" where
  "drain draw it =
     (case rsi_Next (draw (rsi_length it)) it of
        (Ok True, it') \<Rightarrow>
          (if rsi_length it' < rsi_length it
           then rbind (rsi_Shard it') (\<lambda>s. rbind (drain draw it') (\<lambda>ss. Ok (s # ss)))
           else Panic)
      | (Ok False, it') \<Rightarrow> Ok []
      | _ \<Rightarrow> Panic)"
  by pat_completeness auto
termination by (relation "measure (\<lambda>(draw, it). rsi_length it)") auto

record LazyShardIterator =
  lsi_shards :: "string list"
  lsi_curShard :: "string option"
  lsi_curIndex :: int
  lsi_maxIndex :: int

definition NewLazyShardIterator :: "string list \<Rightarrow> ('e, LazyShardIterator) result" where
  "NewLazyShardIterator shards =
     (if length shards = 0 then Panic
      else Ok \<lparr>lsi_shards = shards, lsi_curShard = None, lsi_curIndex = -1, lsi_maxIndex = int (length shards) - 1\<rparr>)"

function lsi_Next :: "(string \<Rightarrow> bool) \<Rightarrow> LazyShardIterator \<Rightarrow> bool \<times> LazyShardIterator" where
  "lsi_Next canGet it =
     (if lsi_curIndex it < lsi_maxIndex it then
        let i = lsi_curIndex it + 1; shard = lsi_shards it ! nat i in
        if canGet shard then (True, it\<lparr>lsi_curIndex := i, lsi_curShard := Some shard\<rparr>)
        else lsi_Next canGet (it\<lparr>lsi_curIndex := i, lsi_curShard := None\<rparr>)
      else (False, it))"
  by pat_completeness auto
termination
  by (relation "measure (\<lambda>(canGet, it). nat (lsi_maxIndex it - lsi_curIndex it))") (auto simp: Let_def)

definition lsi_Shard :: "LazyShardIterator \<Rightarrow> ('e, string) result" where
  "lsi_Shard it = (case lsi_curShard it of None \<Rightarrow> Panic | Some s \<Rightarrow> Ok s)"

declare drain.simps [simp del] lsi_Next.simps [simp del]

section \<open>Clients and clusters\<close>

text \<open>A client sends the label that its tokens are for, or the bare namespace; it always sends a label.\<close>

lemma grpc_NewClient_context:
  assumes "grpc_NewClient grpc_Dial addr ns getter tls = Ok c" "c_context c = Ok md"
  shows "md MetaLabelKey = Some [c_label c]" "md MetaAuthKey = None \<longleftrightarrow> getter = None"
  using assms
  by (cases getter; auto simp: grpc_NewClient_def defaultContextConstructor_def tokenContextConstructor_def rbind_eq_Ok MetaAuthKey_def MetaLabelKey_def split: if_splits)+

text \<open>Every shard of a cluster is closed, and the error of one is reported when all were closed.\<close>

lemma close_shards_count:
  assumes "\<And>shard w. close shard w = (r shard, f shard w)" "\<forall>shard\<in>set shards. r shard \<noteq> Panic"
  shows "close_shards close shards n w = (Ok (n + length (filter (\<lambda>shard. r shard \<noteq> Ok ()) shards)), fold f shards w)"
  using assms(2)
proof (induction shards arbitrary: n w)
  case (Cons shard shards)
  then show ?case by (cases "r shard") (simp_all add: assms(1))
qed simp

lemma cluster_Close_all:
  assumes "\<And>shard w. close shard w = (r shard, f shard w)" "\<forall>shard\<in>set (us @ ls). r shard \<noteq> Panic"
  shows "snd (cluster_Close close us ls w) = fold f (us @ ls) w" "fst (cluster_Close close us ls w) = Ok () \<longleftrightarrow> (\<forall>shard\<in>set (us @ ls). r shard = Ok ())"
  using assms(2)
  by (auto simp: cluster_Close_def close_shards_count [of close r f, OF assms(1)] filter_empty_conv)

section \<open>Iterators\<close>

lemma swap_take:
  assumes "i \<le> n" "n < length xs"
  shows "mset (take n (xs[i := xs ! n, n := xs ! i])) + {#xs ! i#} = mset (take (Suc n) xs)"
proof -
  let ?ys = "xs[i := xs ! n, n := xs ! i]"
  have "mset (take (Suc n) ?ys) = mset (take (Suc n) xs)"
  proof -
    have "take (Suc n) ?ys = (take (Suc n) xs)[i := take (Suc n) xs ! n, n := take (Suc n) xs ! i]"
      using assms by (simp add: take_update_swap)
    then show ?thesis using mset_swap [of n "take (Suc n) xs" i] assms by simp
  qed
  moreover have "take (Suc n) ?ys = take n ?ys @ [xs ! i]" using assms by (simp add: take_Suc_conv_app_nth)
  ultimately show ?thesis by simp
qed

lemma drain_mset:
  assumes "\<And>n. 0 < n \<Longrightarrow> draw n < n" "rsi_length it \<le> length (rsi_sliceice it)"
  shows "\<exists>ss. drain draw it = Ok ss \<and> mset ss = mset (take (rsi_length it) (rsi_sliceice it))"
  using assms(2)
proof (induction "rsi_length it" arbitrary: it)
  case 0
  then show ?case by (subst drain.simps) (simp add: rsi_Next_def)
next
  case (Suc n)
  let ?i = "draw (Suc n)" and ?s = "rsi_sliceice it"
  let ?slice = "?s[?i := ?s ! n, n := ?s ! ?i]"
  let ?it' = "it\<lparr>rsi_sliceice := ?slice, rsi_length := n, rsi_current := Some (?slice ! n)\<rparr>"
  have i: "?i \<le> n" using assms(1) [of "Suc n"] by simp
  have n: "n < length ?s" using Suc by simp
  have step: "rsi_Next ?i it = (Ok True, ?it')"
    using i n Suc(2) [symmetric] by (simp add: rsi_Next_def Let_def)
  obtain ss where ss: "drain draw ?it' = Ok ss" "mset ss = mset (take n ?slice)"
    using Suc(1) [of ?it'] n by auto
  have "drain draw it = Ok (?s ! ?i # ss)"
    using step n Suc(2) [symmetric] ss(1) by (subst drain.simps) (simp add: rsi_Shard_def)
  moreover have "mset (?s ! ?i # ss) = mset (take (Suc n) ?s)" using ss(2) swap_take [OF i n] by simp
  ultimately show ?case using Suc(2) by metis
qed

lemma open_listed_Ok:
  assumes "open_listed dial as sl m = Ok (sl', m')"
  shows "sl' = sl @ as \<and> dom m' = dom m \<union> set as"
  using assms
proof (induction as arbitrary: sl m)
  case Nil
  then show ?case by simp
next
  case (Cons a as)
  then have "open_listed dial as (sl @ [a]) (m(a \<mapsto> ())) = Ok (sl', m')" by (auto simp: rbind_eq_Ok)
  from Cons.IH [OF this] show ?case by auto
qed

lemma NewCluster_Ok:
  assumes "NewCluster dial addresses ns = Ok cluster"
  shows "listedSlice cluster = addresses \<and> listedCount cluster = length addresses \<and>
    dom (listed cluster) = set addresses \<and> unlisted cluster = Map.empty"
proof -
  from assms obtain sl m where "open_listed dial addresses [] Map.empty = Ok (sl, m)"
    "cluster = \<lparr>listed = m, listedSlice = sl, listedCount = length addresses, unlisted = Map.empty\<rparr>"
    by (auto simp: NewCluster_def rbind_eq_Ok split: if_splits)
  with open_listed_Ok [OF this(1)] show ?thesis by simp
qed

lemma filteredSlice_New:
  assumes "NewCluster dial addresses ns = Ok cluster"
  shows "filteredSlice cluster except = filter (\<lambda>a. a \<notin> set except) addresses"
  using NewCluster_Ok [OF assms] by (simp add: filteredSlice_def map_nth)

lemma GetRandomShard_listed:
  assumes "NewCluster dial addresses ns = Ok cluster" "\<And>n. 0 < n \<Longrightarrow> draw n < n"
  shows "\<exists>shard\<in>set addresses. GetRandomShard draw cluster = Ok shard"
proof -
  have l: "listedSlice cluster = addresses" "listedCount cluster = length addresses" using NewCluster_Ok [OF assms(1)] by simp_all
  have "0 < length addresses" using assms(1) by (simp add: NewCluster_def split: if_splits)
  from assms(2) [OF this] show ?thesis using l by (simp add: GetRandomShard_def)
qed

text \<open>
  A random iterator over a cluster visits every listed shard that is not excepted exactly as often
  as it is listed, and no other, whatever indices are drawn: each shard once, when the addresses are
  distinct.
\<close>

lemma random_iterator_complete:
  assumes "NewCluster dial addresses ns = Ok cluster" "\<And>n. 0 < n \<Longrightarrow> draw n < n"
  shows "\<exists>shards. drain draw (GetRandomShardIterator cluster except) = Ok shards \<and>
    mset shards = filter_mset (\<lambda>a. a \<notin> set except) (mset addresses) \<and>
    (distinct addresses \<longrightarrow> distinct shards)"
proof -
  let ?slice = "filteredSlice cluster except"
  obtain shards where s: "drain draw (GetRandomShardIterator cluster except) = Ok shards" "mset shards = mset ?slice"
    using drain_mset [of draw "GetRandomShardIterator cluster except"] assms(2)
    by (auto simp: GetRandomShardIterator_def NewRandomShardIterator_def)
  moreover have "distinct addresses \<longrightarrow> distinct shards"
    using s(2) mset_eq_imp_distinct_iff [OF s(2)] by (simp add: filteredSlice_New [OF assms(1)])
  ultimately show ?thesis by (simp add: filteredSlice_New [OF assms(1)])
qed

lemma random_iterator_complete_witness:
  "\<exists>shards. drain (\<lambda>n. n - 1) (GetRandomShardIterator
       \<lparr>listed = Map.empty(''a'' \<mapsto> (), ''b'' \<mapsto> ()), listedSlice = [''a'', ''b''], listedCount = 2, unlisted = Map.empty\<rparr> [''a''])
     = Ok shards \<and> mset shards = {#''b''#}"
proof -
  have "NewCluster (\<lambda>_. Ok ()) [''a'', ''b''] ''n'' =
      Ok \<lparr>listed = Map.empty(''a'' \<mapsto> (), ''b'' \<mapsto> ()), listedSlice = [''a'', ''b''], listedCount = 2, unlisted = Map.empty\<rparr>"
    by (simp add: NewCluster_def)
  from random_iterator_complete [OF this, of "\<lambda>n. n - 1" "[''a'']"] show ?thesis by auto
qed

end
