(* ===== verification/Chunk_Storage.thy ===== *)
theory Chunk_Storage
  imports Datastor_Client
begin

text \<open>
  Storing chunks on a cluster: what a storage uses of a cluster of shards, the types of
  \<open>client/datastor/pipeline/storage/storage.go\<close> and the random storage of \<open>random.go\<close>.

  The state of all servers is a world.  A read does not change what is stored, so reads are
  functions of the world; the shards a random iterator offers are a list argument (see
  \<open>random_iterator_complete\<close> for what that list is).  What the storages rely on is the locale
  \<open>shard_cluster\<close>; it is interpreted on a world of in-memory zstordb servers, each of which may be
  down, reached through the gRPC client.
\<close>

section \<open>Clusters of shards\<close>

record 'w Cluster =
  cl_GetShard :: "string \<Rightarrow> 'w \<Rightarrow> (client_error, unit) result"
  cl_CreateObject :: "string \<Rightarrow> bytes \<Rightarrow> ('w, client_error, bytes) op"
  cl_GetObject :: "string \<Rightarrow> bytes \<Rightarrow> 'w \<Rightarrow> (client_error, bytes) result"
  cl_GetObjectStatus :: "string \<Rightarrow> bytes \<Rightarrow> 'w \<Rightarrow> (client_error, datastor_ObjectStatus) result"
  cl_DeleteObject :: "string \<Rightarrow> bytes \<Rightarrow> ('w, client_error, unit) op"

section \<open>Types (client/datastor/pipeline/storage/storage.go)\<close>

datatype storage_error =
    ErrUnexpectedObjectCount | ErrShardsUnavailable | ErrNotSupported | ErrInvalidDataSize
  | ErrCluster client_error | ErrCodec string | ErrCancelled

record Object =
  Key :: bytes
  ShardID :: string

record ChunkConfig =
  Size :: nat
  Objects :: "Object list"

datatype CheckStatus = CheckStatusInvalid | CheckStatusValid | CheckStatusOptimal

fun CheckStatus_String :: "CheckStatus \<Rightarrow> string" where
  "CheckStatus_String CheckStatusInvalid = take 7 ''invalidoptimal''"
| "CheckStatus_String CheckStatusValid = take 5 (drop 2 ''invalidoptimal'')"
| "CheckStatus_String CheckStatusOptimal = drop 7 ''invalidoptimal''"

section \<open>The random storage (random.go)\<close>

definition NewRandomChunkStorage :: "nat \<Rightarrow> (string, unit) result" where
  "NewRandomChunkStorage listedShardCount =
     (if listedShardCount < 1 then Err ''RandomChunkStorage: at least one listed shard is required'' else Ok ())"

fun random_WriteChunk :: "'w Cluster \<Rightarrow> string list \<Rightarrow> bytes \<Rightarrow> ('w, storage_error, ChunkConfig) op" where
  "random_WriteChunk cl [] data w = (Err ErrShardsUnavailable, w)"
| "random_WriteChunk cl (shard # shards) data w =
     (case cl_CreateObject cl shard data w of
        (Ok key, w') \<Rightarrow> (Ok \<lparr>Size = length data, Objects = [\<lparr>Key = key, ShardID = shard\<rparr>]\<rparr>, w')
      | (Err e, w') \<Rightarrow> random_WriteChunk cl shards data w'
      | (Panic, w') \<Rightarrow> (Panic, w'))"

definition random_ReadChunk :: "'w Cluster \<Rightarrow> ChunkConfig \<Rightarrow> 'w \<Rightarrow> (storage_error, bytes) result" where
  "random_ReadChunk cl cfg w =
     (if length (Objects cfg) \<noteq> 1 then Err ErrUnexpectedObjectCount
      else let obj = Objects cfg ! 0 in
        rbind (map_err ErrCluster (cl_GetShard cl (ShardID obj) w)) (\<lambda>_.
        rbind (map_err ErrCluster (cl_GetObject cl (ShardID obj) (Key obj) w)) (\<lambda>data.
          if length data \<noteq> Size cfg then Err ErrInvalidDataSize else Ok data)))"

definition random_CheckChunk ::
  "'w Cluster \<Rightarrow> ChunkConfig \<Rightarrow> bool \<Rightarrow> 'w \<Rightarrow> (storage_error, CheckStatus) result" where
  "random_CheckChunk cl cfg fast w =
     (if length (Objects cfg) \<noteq> 1 then Err ErrUnexpectedObjectCount
      else let obj = Objects cfg ! 0 in
        (case cl_GetShard cl (ShardID obj) w of
           Err e \<Rightarrow> Ok CheckStatusInvalid
         | Panic \<Rightarrow> Panic
         | Ok _ \<Rightarrow>
            (case cl_GetObjectStatus cl (ShardID obj) (Key obj) w of
               Panic \<Rightarrow> Panic
             | Err e \<Rightarrow> Ok CheckStatusInvalid
             | Ok status \<Rightarrow> if status \<noteq> StatusOK then Ok CheckStatusInvalid else Ok CheckStatusOptimal)))"

definition random_RepairChunk :: "ChunkConfig \<Rightarrow> (storage_error, ChunkConfig) result" where
  "random_RepairChunk cfg = Err ErrNotSupported"

definition random_DeleteChunk :: "'w Cluster \<Rightarrow> ChunkConfig \<Rightarrow> ('w, storage_error, unit) op" where
  "random_DeleteChunk cl cfg w =
     (if length (Objects cfg) \<noteq> 1 then (Err ErrUnexpectedObjectCount, w)
      else let obj = Objects cfg ! 0 in
        obind (map_err ErrCluster (cl_GetShard cl (ShardID obj) w), w) (\<lambda>_ w.
          omap_err ErrCluster (cl_DeleteObject cl (ShardID obj) (Key obj) w)))"

section \<open>What a storage relies on\<close>

text \<open>
  \<open>stored w s k\<close> is the object under key \<open>k\<close> on shard \<open>s\<close>, if the shard has one that is not corrupt;
  \<open>up w s\<close> says that the shard can be reached.
\<close>

locale shard_cluster =
  fixes cl :: "'w Cluster"
    and stored :: "'w \<Rightarrow> string \<Rightarrow> bytes \<rightharpoonup> bytes"
    and up :: "'w \<Rightarrow> string \<Rightarrow> bool"
  assumes get_shard: "up w s \<Longrightarrow> cl_GetShard cl s w = Ok ()"
    and get_stored: "up w s \<Longrightarrow> stored w s k = Some d \<Longrightarrow> cl_GetObject cl s k w = Ok d"
    and get_sound: "cl_GetObject cl s k w = Ok d \<Longrightarrow> stored w s k = Some d"
    and status_stored: "up w s \<Longrightarrow> stored w s k = Some d \<Longrightarrow> cl_GetObjectStatus cl s k w = Ok StatusOK"
    and status_sound: "cl_GetObjectStatus cl s k w = Ok StatusOK \<Longrightarrow> up w s \<and> (\<exists>d. stored w s k = Some d)"
    and create_ok: "cl_CreateObject cl s d w = (Ok key, w') \<Longrightarrow>
      key \<noteq> [] \<and> up w s \<and> up w' = up w \<and> stored w' = (stored w)(s := (stored w s)(key \<mapsto> d))"
    and create_err: "cl_CreateObject cl s d w = (Err e, w') \<Longrightarrow> stored w' = stored w \<and> up w' = up w"
    and create_total: "up w s \<Longrightarrow> d \<noteq> [] \<Longrightarrow> \<exists>key w'. cl_CreateObject cl s d w = (Ok key, w')"
    and delete_ok: "cl_DeleteObject cl s k w = (Ok (), w') \<Longrightarrow>
      up w' = up w \<and> stored w' = (stored w)(s := (stored w s)(k := None))"
    and delete_err: "cl_DeleteObject cl s k w = (Err e, w') \<Longrightarrow> stored w' = stored w \<and> up w' = up w"
    and delete_total: "up w s \<Longrightarrow> k \<noteq> [] \<Longrightarrow> \<exists>w'. cl_DeleteObject cl s k w = (Ok (), w')"
    and no_panic: "cl_GetShard cl s w \<noteq> Panic" "cl_GetObject cl s k w \<noteq> Panic"
      "cl_GetObjectStatus cl s k w \<noteq> Panic" "fst (cl_CreateObject cl s d w) \<noteq> Panic"
      "fst (cl_DeleteObject cl s k w) \<noteq> Panic"
begin

text \<open>An object of a configuration that can be read and gives the data.\<close>

definition readable :: "'w \<Rightarrow> Object \<Rightarrow> bytes \<Rightarrow> bool" where
  "readable w obj d \<longleftrightarrow> up w (ShardID obj) \<and> stored w (ShardID obj) (Key obj) = Some d"

lemma random_write_cases:
  assumes "random_WriteChunk cl shards data w = (r, w')"
  shows "up w' = up w \<and>
    ((\<exists>key s. r = Ok \<lparr>Size = length data, Objects = [\<lparr>Key = key, ShardID = s\<rparr>]\<rparr> \<and> s \<in> set shards \<and> key \<noteq> [] \<and> up w s \<and>
        stored w' = (stored w)(s := (stored w s)(key \<mapsto> data))) \<or>
     (r = Err ErrShardsUnavailable \<and> stored w' = stored w \<and> (data \<noteq> [] \<longrightarrow> (\<forall>s\<in>set shards. \<not> up w s))))"
  using assms
proof (induction shards arbitrary: w)
  case Nil
  then show ?case by simp
next
  case (Cons s shards)
  obtain r1 w1 where create: "cl_CreateObject cl s data w = (r1, w1)" by fastforce
  show ?case
  proof (cases r1)
    case (Ok key)
    with create Cons.prems have "r = result.Ok \<lparr>Size = length data, Objects = [\<lparr>Key = key, ShardID = s\<rparr>]\<rparr>" "w' = w1"
      by simp_all
    moreover note create_ok [of s data w key w1]
    ultimately show ?thesis
      using create Ok by (intro conjI disjI1 exI [of _ key] exI [of _ s]) (simp_all add: fun_upd_def)
  next
    case (Err e)
    with create have same: "stored w1 = stored w" "up w1 = up w" using create_err by auto
    have "random_WriteChunk cl shards data w1 = (r, w')" using Cons.prems create Err by simp
    from Cons.IH [OF this] same create Err create_total [of w s data] show ?thesis by fastforce
  next
    case Panic
    with create no_panic(4) [of s data w] show ?thesis by simp
  qed
qed

lemma random_read_readable:
  assumes "Objects cfg = [obj]" "Size cfg = length d" "readable w obj d"
  shows "random_ReadChunk cl cfg w = Ok d"
  using assms get_shard get_stored by (simp add: random_ReadChunk_def readable_def)

lemma random_check_readable:
  assumes "Objects cfg = [obj]" "readable w obj d"
  shows "random_CheckChunk cl cfg fast w = Ok CheckStatusOptimal"
  using assms get_shard status_stored by (simp add: random_CheckChunk_def readable_def)

end

section \<open>A world of zstordb servers\<close>

record zworld =
  zw_db :: "string \<Rightarrow> memory_DB"
  zw_stats :: "string \<Rightarrow> stats"
  zw_up :: "string \<Rightarrow> bool"

definition unavailable :: status where
  "unavailable = \<lparr>st_code = Unavailable, st_desc = ''grpc: the connection is unavailable''\<rparr>"

definition on_server ::
  "string \<Rightarrow> (memory_DB, grpc_error, 'a) op \<Rightarrow> (zworld, status, 'a) op" where
  "on_server a handler w =
     (if zw_up w a then
        (case handler (zw_db w a) of (r, db) \<Rightarrow> (map_err grpc_status r, w\<lparr>zw_db := (zw_db w)(a := db)\<rparr>))
      else (Err unavailable, w))"

fun pb_status_number :: "pb_ObjectStatus \<Rightarrow> nat" where
  "pb_status_number PbObjectStatusMissing = 0"
| "pb_status_number PbObjectStatusOK = 1"
| "pb_status_number PbObjectStatusCorrupted = 2"

definition zstordb_service :: "(memory_DB \<Rightarrow> bytes list) \<Rightarrow> string \<Rightarrow> zworld object_service" where
  "zstordb_service order a = \<lparr>
     svc_CreateObject = (\<lambda>ctx data. on_server a (CreateObject_mem ctx data)),
     svc_GetObject = (\<lambda>ctx key. on_server a (GetObject_mem ctx key)),
     svc_DeleteObject = (\<lambda>ctx key. on_server a (DeleteObject_mem ctx key)),
     svc_GetObjectStatus = (\<lambda>ctx key w.
       obind (on_server a (GetObjectStatus_mem ctx key) w) (\<lambda>st w. (Ok (pb_status_number st), w))),
     svc_GetNamespace = (\<lambda>ctx w.
       if zw_up w a then
         (case GetNamespace memory_DB_ops (order (zw_db w a)) ctx (zw_db w a, zw_stats w a) of
            (r, db, g) \<Rightarrow> (map_err grpc_status r, w\<lparr>zw_stats := (zw_stats w)(a := g)\<rparr>))
       else (Err unavailable, w)),
     svc_ListObjectKeys = (\<lambda>ctx w.
       if zw_up w a then
         (case ListObjectKeys_mem (\<lambda>_. None) (order (zw_db w a)) ctx (zw_db w a) of
            (Ok keys, _) \<Rightarrow> map Ok keys
          | (Err e, _) \<Rightarrow> [Err (grpc_status e)]
          | (Panic, _) \<Rightarrow> [Panic])
       else [Err unavailable])\<rparr>"

definition zclient :: "(memory_DB \<Rightarrow> bytes list) \<Rightarrow> string \<Rightarrow> string \<Rightarrow> zworld datastor_Client" where
  "zclient order ns a =
     \<lparr>c_service = zstordb_service order a, c_context = defaultContextConstructor ns, c_label = ns\<rparr>"

definition zcluster :: "(memory_DB \<Rightarrow> bytes list) \<Rightarrow> string \<Rightarrow> zworld Cluster" where
  "zcluster order ns = \<lparr>
     cl_GetShard = (\<lambda>s w. if zw_up w s then Ok () else Err (ErrNoShard s)),
     cl_CreateObject = (\<lambda>s. client_CreateObject (zclient order ns s)),
     cl_GetObject = (\<lambda>s k w. fst (client_GetObject (zclient order ns s) k w)),
     cl_GetObjectStatus = (\<lambda>s k w. fst (client_GetObjectStatus (zclient order ns s) k w)),
     cl_DeleteObject = (\<lambda>s. client_DeleteObject (zclient order ns s))\<rparr>"

definition zstored :: "string \<Rightarrow> zworld \<Rightarrow> string \<Rightarrow> bytes \<rightharpoonup> bytes" where
  "zstored ns w s = objects (mdb_m (zw_db w s)) ns"

lemma ns_label [simp]: "request_label (Some [MetaLabelKey \<mapsto> [ns]]) = Some ns"
  using request_label_labelled [of ns] by (simp add: labelled_def)

lemma objects_nonempty: "objects m l k = Some d \<Longrightarrow> k \<noteq> [] \<and> d \<noteq> []"
  by (auto simp: objects_def DecodeObject_eq split: option.splits result.splits if_splits)

lemma objects_SomeD:
  assumes "objects m l k = Some d"
  shows "\<exists>raw. m (data_scope (ascii l) @ k) = Some raw \<and> DecodeObject raw = Ok \<lparr>Data = d\<rparr> \<and> ValidateData raw = Ok ()"
proof -
  from assms obtain raw obj where raw: "m (data_scope (ascii l) @ k) = Some raw" "DecodeObject raw = Ok obj" "Data obj = d"
    by (auto simp: objects_def split: option.splits result.splits if_splits)
  moreover have "ValidateData raw = Ok ()"
    using raw(2) by (auto simp: DecodeObject_eq ValidateData_eq split: if_splits)
  moreover have "obj = \<lparr>Data = d\<rparr>" using raw(3) by (cases obj) simp
  ultimately show ?thesis by auto
qed

lemma zclient_get:
  "client_GetObject (zclient order ns s) k w =
     (if \<not> zw_up w s then (Err (toErr unavailable), w)
      else if k = [] then (Err (toErr (grpc_status ErrGRPCNilKey)), w)
      else (case zstored ns w s k of Some d \<Rightarrow> Ok d
            | None \<Rightarrow> (case mdb_m (zw_db w s) (data_scope (ascii ns) @ k) of
                         None \<Rightarrow> Err (toErr (grpc_status ErrGRPCKeyNotFound))
                       | Some _ \<Rightarrow> Err (toErr (grpc_status ErrGRPCObjectDataCorrupted))), w))"
proof (cases "zw_up w s \<and> k \<noteq> []")
  case True
  then have get: "GetObject_mem (Some [MetaLabelKey \<mapsto> [ns]]) k (zw_db w s) =
    (case mdb_m (zw_db w s) (data_scope (ascii ns) @ k) of
       None \<Rightarrow> Err ErrGRPCKeyNotFound
     | Some raw \<Rightarrow> (case DecodeObject raw of Ok obj \<Rightarrow> Ok (Data obj) | _ \<Rightarrow> Err ErrGRPCObjectDataCorrupted), zw_db w s)"
    by (simp add: mem.GetObject_spec)
  have "Data obj \<noteq> []" if "DecodeObject raw = Ok obj" for raw obj
    using that by (auto simp: DecodeObject_eq split: if_splits)
  with True get show ?thesis
    by (auto simp: client_GetObject_def zclient_def zstordb_service_def defaultContextConstructor_def
        on_server_def zstored_def objects_def split: option.splits result.splits)
next
  case False
  then show ?thesis
    by (auto simp: client_GetObject_def zclient_def zstordb_service_def defaultContextConstructor_def
        on_server_def handler_defs)
qed

lemma zclient_status:
  "fst (client_GetObjectStatus (zclient order ns s) k w) =
     (if \<not> zw_up w s then Err (toErr unavailable)
      else if k = [] then Err (toErr (grpc_status ErrGRPCNilKey))
      else Ok (case mdb_m (zw_db w s) (data_scope (ascii ns) @ k) of None \<Rightarrow> StatusMissing
               | Some raw \<Rightarrow> (case ValidateData raw of Ok _ \<Rightarrow> StatusOK | _ \<Rightarrow> StatusCorrupted)))"
proof (cases "zw_up w s \<and> k \<noteq> []")
  case True
  then show ?thesis
    by (auto simp: client_GetObjectStatus_def zclient_def zstordb_service_def defaultContextConstructor_def
        on_server_def mem.GetObjectStatus_spec client_convertStatus_def split: option.splits result.splits)
next
  case False
  then show ?thesis
    by (auto simp: client_GetObjectStatus_def zclient_def zstordb_service_def defaultContextConstructor_def
        on_server_def handler_defs)
qed

lemma zclient_create:
  "client_CreateObject (zclient order ns s) d w =
     (if \<not> zw_up w s then (Err (toErr unavailable), w)
      else case CreateObject_mem (Some [MetaLabelKey \<mapsto> [ns]]) d (zw_db w s) of
        (r, db) \<Rightarrow> (map_err (\<lambda>e. toErr (grpc_status e)) r, w\<lparr>zw_db := (zw_db w)(s := db)\<rparr>))"
  by (cases "fst (CreateObject_mem (Some [MetaLabelKey \<mapsto> [ns]]) d (zw_db w s))")
    (auto simp: client_CreateObject_def zclient_def zstordb_service_def defaultContextConstructor_def
      on_server_def omap_err_def split: prod.splits)

lemma zclient_delete:
  "client_DeleteObject (zclient order ns s) k w =
     (if \<not> zw_up w s then (Err (toErr unavailable), w)
      else case DeleteObject_mem (Some [MetaLabelKey \<mapsto> [ns]]) k (zw_db w s) of
        (r, db) \<Rightarrow> (map_err (\<lambda>e. toErr (grpc_status e)) r, w\<lparr>zw_db := (zw_db w)(s := db)\<rparr>))"
  by (cases "fst (DeleteObject_mem (Some [MetaLabelKey \<mapsto> [ns]]) k (zw_db w s))")
    (auto simp: client_DeleteObject_def zclient_def zstordb_service_def defaultContextConstructor_def
      on_server_def omap_err_def split: prod.splits)

lemma zstored_set_db:
  "zstored ns (w\<lparr>zw_db := (zw_db w)(s := db)\<rparr>) = (zstored ns w)(s := objects (mdb_m db) ns)"
  by (auto simp: zstored_def fun_eq_iff)

interpretation zc: shard_cluster "zcluster order ns" "zstored ns" zw_up
proof unfold_locales
  fix w s k d assume "zw_up w s" "zstored ns w s k = Some d"
  then show "cl_GetObject (zcluster order ns) s k w = Ok d"
    using objects_nonempty by (auto simp: zcluster_def zclient_get zstored_def)
next
  fix s k w d assume "cl_GetObject (zcluster order ns) s k w = Ok d"
  then show "zstored ns w s k = Some d"
    by (auto simp: zcluster_def zclient_get split: if_splits option.splits)
next
  fix w s k d assume a: "zw_up w s" "zstored ns w s k = Some d"
  then show "cl_GetObjectStatus (zcluster order ns) s k w = Ok StatusOK"
    using objects_nonempty objects_SomeD [of "mdb_m (zw_db w s)" ns k d]
    by (auto simp: zcluster_def zclient_status zstored_def)
next
  fix s k w assume a: "cl_GetObjectStatus (zcluster order ns) s k w = Ok StatusOK"
  then obtain raw where "zw_up w s" "k \<noteq> []" "mdb_m (zw_db w s) (data_scope (ascii ns) @ k) = Some raw"
    "ValidateData raw = Ok ()"
    by (auto simp: zcluster_def zclient_status split: if_splits option.splits result.splits)
  then show "zw_up w s \<and> (\<exists>d. zstored ns w s k = Some d)"
    by (auto simp: zstored_def objects_def ValidateData_eq DecodeObject_eq split: if_splits)
next
  fix s d w key w' assume a: "cl_CreateObject (zcluster order ns) s d w = (Ok key, w')"
  then obtain db where up: "zw_up w s" and run: "CreateObject_mem (Some [MetaLabelKey \<mapsto> [ns]]) d (zw_db w s) = (Ok key, db)"
    and w': "w' = w\<lparr>zw_db := (zw_db w)(s := db)\<rparr>"
    by (auto simp: zcluster_def zclient_create map_err_eq_Ok split: if_splits prod.splits)
  from run have d: "d \<noteq> []" by (auto simp: handler_defs)
  from mem.CreateObject_spec [OF ns_label d, of ns "zw_db w s"] run
  have "key \<noteq> []" "mdb_m db = (mdb_m (zw_db w s))(data_scope (ascii ns) @ key \<mapsto> encoded d)" by auto
  then show "key \<noteq> [] \<and> zw_up w s \<and> zw_up w' = zw_up w \<and> zstored ns w' = (zstored ns w)(s := (zstored ns w s)(key \<mapsto> d))"
    unfolding w' zstored_set_db using up objects_update [OF _ d] by (simp add: zstored_def)
next
  fix s d w e w' assume a: "cl_CreateObject (zcluster order ns) s d w = (Err e, w')"
  show "zstored ns w' = zstored ns w \<and> zw_up w' = zw_up w"
  proof (cases "zw_up w s \<and> d \<noteq> []")
    case True
    then show ?thesis
      using a mem.CreateObject_spec [OF ns_label, of d ns "zw_db w s"]
      by (auto simp: zcluster_def zclient_create)
  next
    case False
    with a have "w' = w \<or> w' = w\<lparr>zw_db := (zw_db w)(s := zw_db w s)\<rparr>"
      by (auto simp: zcluster_def zclient_create handler_defs split: if_splits)
    then show ?thesis by auto
  qed
next
  fix w :: zworld and s and d :: bytes assume "zw_up w s" "d \<noteq> []"
  then show "\<exists>key w'. cl_CreateObject (zcluster order ns) s d w = (Ok key, w')"
    using mem.CreateObject_spec [OF ns_label, of d ns "zw_db w s"] by (auto simp: zcluster_def zclient_create)
next
  fix s k w w' assume a: "cl_DeleteObject (zcluster order ns) s k w = (Ok (), w')"
  then obtain db where up: "zw_up w s" and run: "DeleteObject_mem (Some [MetaLabelKey \<mapsto> [ns]]) k (zw_db w s) = (Ok (), db)"
    and w': "w' = w\<lparr>zw_db := (zw_db w)(s := db)\<rparr>"
    by (auto simp: zcluster_def zclient_delete map_err_eq_Ok split: if_splits prod.splits)
  from run have k: "k \<noteq> []" by (auto simp: handler_defs)
  from mem.DeleteObject_spec [OF ns_label k, of ns "zw_db w s"] run
  have "mdb_m db = (mdb_m (zw_db w s))(data_scope (ascii ns) @ k := None)" by auto
  then show "zw_up w' = zw_up w \<and> zstored ns w' = (zstored ns w)(s := (zstored ns w s)(k := None))"
    unfolding w' zstored_set_db using objects_delete [OF k] by (simp add: zstored_def)
next
  fix s k w e w' assume a: "cl_DeleteObject (zcluster order ns) s k w = (Err e, w')"
  show "zstored ns w' = zstored ns w \<and> zw_up w' = zw_up w"
  proof (cases "zw_up w s \<and> k \<noteq> []")
    case True
    then show ?thesis
      using a mem.DeleteObject_spec [OF ns_label, of k ns "zw_db w s"]
      by (auto simp: zcluster_def zclient_delete)
  next
    case False
    with a have "w' = w \<or> w' = w\<lparr>zw_db := (zw_db w)(s := zw_db w s)\<rparr>"
      by (auto simp: zcluster_def zclient_delete handler_defs split: if_splits)
    then show ?thesis by auto
  qed
next
  fix w :: zworld and s and k :: bytes assume "zw_up w s" "k \<noteq> []"
  then show "\<exists>w'. cl_DeleteObject (zcluster order ns) s k w = (Ok (), w')"
    using mem.DeleteObject_spec [OF ns_label, of k ns "zw_db w s"] by (auto simp: zcluster_def zclient_delete)
next
  fix s d w
  show "fst (cl_CreateObject (zcluster order ns) s d w) \<noteq> Panic"
  proof (cases "d = []")
    case True
    then show ?thesis by (simp add: zcluster_def zclient_create handler_defs)
  next
    case False
    then show ?thesis
      using mem.CreateObject_spec [OF ns_label False, of ns "zw_db w s"] by (auto simp: zcluster_def zclient_create)
  qed
next
  fix s k w
  show "fst (cl_DeleteObject (zcluster order ns) s k w) \<noteq> Panic"
  proof (cases "k = []")
    case True
    then show ?thesis by (simp add: zcluster_def zclient_delete handler_defs)
  next
    case False
    then show ?thesis
      using mem.DeleteObject_spec [OF ns_label False, of ns "zw_db w s"] by (auto simp: zcluster_def zclient_delete)
  qed
qed (auto simp: zcluster_def zclient_get zclient_status split: option.splits)

section \<open>Properties of the random storage\<close>

lemma zc_write_read:
  assumes "random_WriteChunk (zcluster order ns) shards data w = (Ok cfg, w')"
  shows "\<exists>obj. Objects cfg = [obj] \<and> Size cfg = length data \<and> ShardID obj \<in> set shards \<and> Key obj \<noteq> [] \<and>
    zw_up w' (ShardID obj) \<and> zstored ns w' (ShardID obj) (Key obj) = Some data"
  using zc.random_write_cases [OF assms] by fastforce


definition demo_world :: zworld where
  "demo_world = \<lparr>zw_db = (\<lambda>_. memory_New), zw_stats = (\<lambda>_. Map.empty), zw_up = (\<lambda>s. s \<noteq> ''down'')\<rparr>"


end
