(* ===== verification/Type_Registry.thy ===== *)
theory Type_Registry
  imports Go_Strings Db_Keys
begin

text \<open>
  The registries of algorithms: hash types (\<open>pipeline/crypto/hash.go\<close>), compression types and
  encryption types (\<open>client/processing\<close>), and the marshalling types of the metadata
  (\<open>client/metastor/encoding\<close>).  Each keeps three global maps: from the enumeration value (a uint8) to
  its name, from the name to the value, and from the value to what was registered for it.  The
  first three registries are the same code three times over; the marshalling registry differs in
  that it keeps the case of a name, has no default and prints nothing for an unknown value.
\<close>

type_synonym enum = byte

record 'c registry =
  value_to_string :: "enum \<rightharpoonup> string"
  string_to_value :: "string \<rightharpoonup> enum"
  value_to_constructor :: "enum \<rightharpoonup> 'c"

definition no_types :: "'c registry" where
  "no_types = \<lparr>value_to_string = Map.empty, string_to_value = Map.empty, value_to_constructor = Map.empty\<rparr>"

definition put_type :: "enum \<Rightarrow> string \<Rightarrow> 'c \<Rightarrow> 'c registry \<Rightarrow> 'c registry" where
  "put_type t str c reg = reg\<lparr>value_to_string := (value_to_string reg)(t \<mapsto> str),
     string_to_value := (string_to_value reg)(str \<mapsto> t),
     value_to_constructor := (value_to_constructor reg)(t \<mapsto> c)\<rparr>"

datatype type_error = InvalidTypeValue enum | InvalidTypeString bytes | NotRegistered enum | KeySize nat

section \<open>Hash, compression and encryption types\<close>

text \<open>A nil constructor is \<open>None\<close>.\<close>

definition RegisterHasher :: "enum \<Rightarrow> string \<Rightarrow> 'c option \<Rightarrow> ('c registry, type_error, unit) op" where
  "RegisterHasher t str con reg =
     (case con of
        None \<Rightarrow> (Panic, reg)
      | Some c \<Rightarrow>
          (case value_to_string reg t of
             Some s \<Rightarrow> (Ok (), put_type t s c reg)
           | None \<Rightarrow>
               if str = [] then (Panic, reg)
               else (Ok (), put_type t (ToLower str) c reg)))"

definition RegisterCompressorDecompressor :: "enum \<Rightarrow> string \<Rightarrow> 'c option \<Rightarrow> ('c registry, type_error, unit) op" where
  "RegisterCompressorDecompressor = RegisterHasher"

definition RegisterEncrypterDecrypter :: "enum \<Rightarrow> string \<Rightarrow> 'c option \<Rightarrow> ('c registry, type_error, unit) op" where
  "RegisterEncrypterDecrypter = RegisterHasher"

text \<open>\<open>fmt.Sprint\<close> of a uint8.\<close>

fun decimal :: "nat \<Rightarrow> string" where
  "decimal n = (if n < 10 then [char_of (48 + n)] else decimal (n div 10) @ [char_of (48 + n mod 10)])"

declare decimal.simps [simp del]

definition HashType_String :: "'c registry \<Rightarrow> enum \<Rightarrow> string" where
  "HashType_String reg t =
     (case value_to_string reg t of None \<Rightarrow> decimal (unat t) | Some str \<Rightarrow> str)"

definition bytes_string :: "bytes \<Rightarrow> string" where
  "bytes_string b = map (\<lambda>x. char_of (unat x)) b"

definition HashType_MarshalText :: "'c registry \<Rightarrow> enum \<Rightarrow> (type_error, bytes) result" where
  "HashType_MarshalText reg t =
     (let str = HashType_String reg t in
      if str = [] then Err (InvalidTypeValue t) else Ok (ascii str))"

text \<open>The receiver is overwritten with the zero value when the name is unknown.\<close>

definition HashType_UnmarshalText :: "'c registry \<Rightarrow> enum \<Rightarrow> bytes \<Rightarrow> (enum, type_error, unit) op" where
  "HashType_UnmarshalText reg deflt text t =
     (if text = [] then (Ok (), deflt)
      else case string_to_value reg (ToLower (bytes_string text)) of
          Some t' \<Rightarrow> (Ok (), t')
        | None \<Rightarrow> (Err (InvalidTypeString text), 0))"

text \<open>The methods of the two processing types repeat those of \<open>HashType\<close>.\<close>

definition CompressionType_String :: "'c registry \<Rightarrow> enum \<Rightarrow> string" where
  "CompressionType_String = HashType_String"

definition CompressionType_MarshalText :: "'c registry \<Rightarrow> enum \<Rightarrow> (type_error, bytes) result" where
  "CompressionType_MarshalText = HashType_MarshalText"

definition CompressionType_UnmarshalText :: "'c registry \<Rightarrow> enum \<Rightarrow> bytes \<Rightarrow> (enum, type_error, unit) op" where
  "CompressionType_UnmarshalText = HashType_UnmarshalText"

definition EncryptionType_String :: "'c registry \<Rightarrow> enum \<Rightarrow> string" where
  "EncryptionType_String = HashType_String"

definition EncryptionType_MarshalText :: "'c registry \<Rightarrow> enum \<Rightarrow> (type_error, bytes) result" where
  "EncryptionType_MarshalText = HashType_MarshalText"

definition EncryptionType_UnmarshalText :: "'c registry \<Rightarrow> enum \<Rightarrow> bytes \<Rightarrow> (enum, type_error, unit) op" where
  "EncryptionType_UnmarshalText = HashType_UnmarshalText"

definition NewHasher :: "('k \<Rightarrow> (type_error, 'h) result) registry \<Rightarrow> enum \<Rightarrow> 'k \<Rightarrow> (type_error, 'h) result" where
  "NewHasher reg t key =
     (case value_to_constructor reg t of None \<Rightarrow> Err (NotRegistered t) | Some hc \<Rightarrow> hc key)"

definition HashTypeBlake2b256 :: enum where "HashTypeBlake2b256 = 0"

definition HashTypeBlake2b512 :: enum where "HashTypeBlake2b512 = 1"

definition HashTypeSHA256 :: enum where "HashTypeSHA256 = 2"

definition HashTypeSHA512 :: enum where "HashTypeSHA512 = 3"

definition DefaultHashType :: enum where "DefaultHashType = HashTypeBlake2b256"

definition CompressionTypeSnappy :: enum where "CompressionTypeSnappy = 0"

definition CompressionTypeLZ4 :: enum where "CompressionTypeLZ4 = 1"

definition CompressionTypeGZip :: enum where "CompressionTypeGZip = 2"

definition DefaultCompressionType :: enum where "DefaultCompressionType = CompressionTypeSnappy"

definition EncryptionTypeAES :: enum where "EncryptionTypeAES = 0"

definition DefaultEncryptionType :: enum where "DefaultEncryptionType = EncryptionTypeAES"

text \<open>The \<open>init\<close> functions, with the constructors as arguments.\<close>

definition hash_init :: "'c \<Rightarrow> 'c \<Rightarrow> 'c \<Rightarrow> 'c \<Rightarrow> ('c registry, type_error, unit) op" where
  "hash_init blake256 blake512 sha256 sha512 reg =
     obind (RegisterHasher HashTypeBlake2b256 ''blake2b_256'' (Some blake256) reg) (\<lambda>_ reg.
     obind (RegisterHasher HashTypeBlake2b512 ''blake2b_512'' (Some blake512) reg) (\<lambda>_ reg.
     obind (RegisterHasher HashTypeSHA256 ''sha_256'' (Some sha256) reg) (\<lambda>_ reg.
       RegisterHasher HashTypeSHA512 ''sha_512'' (Some sha512) reg)))"

definition compress_init :: "'c \<Rightarrow> 'c \<Rightarrow> 'c \<Rightarrow> ('c registry, type_error, unit) op" where
  "compress_init snappy lz4 gzip reg =
     obind (RegisterCompressorDecompressor CompressionTypeSnappy ''Snappy'' (Some snappy) reg) (\<lambda>_ reg.
     obind (RegisterCompressorDecompressor CompressionTypeLZ4 ''LZ4'' (Some lz4) reg) (\<lambda>_ reg.
       RegisterCompressorDecompressor CompressionTypeGZip ''GZip'' (Some gzip) reg))"

definition encrypt_init :: "'c \<Rightarrow> ('c registry, type_error, unit) op" where
  "encrypt_init aes reg = RegisterEncrypterDecrypter EncryptionTypeAES ''aes'' (Some aes) reg"

section \<open>Compression modes (compression_mode.go)\<close>

datatype CompressionMode =
  CompressionModeDisabled | CompressionModeDefault | CompressionModeBestSpeed | CompressionModeBestCompression

definition CompressionModeStrings :: string where
  "CompressionModeStrings = ''defaultbest_speedbest_compression''"

fun CompressionMode_String :: "CompressionMode \<Rightarrow> string" where
  "CompressionMode_String CompressionModeDisabled = []"
| "CompressionMode_String CompressionModeDefault = take 7 CompressionModeStrings"
| "CompressionMode_String CompressionModeBestSpeed = take 10 (drop 7 CompressionModeStrings)"
| "CompressionMode_String CompressionModeBestCompression = drop 17 CompressionModeStrings"

definition CompressionMode_MarshalText :: "CompressionMode \<Rightarrow> bytes" where
  "CompressionMode_MarshalText cm = ascii (CompressionMode_String cm)"

definition CompressionMode_UnmarshalText :: "bytes \<Rightarrow> (CompressionMode, type_error, unit) op" where
  "CompressionMode_UnmarshalText text cm =
     (let s = ToLower (bytes_string text) in
      if s = [] then (Ok (), CompressionModeDisabled)
      else if s = take 7 CompressionModeStrings then (Ok (), CompressionModeDefault)
      else if s = take 10 (drop 7 CompressionModeStrings) then (Ok (), CompressionModeBestSpeed)
      else if s = drop 17 CompressionModeStrings then (Ok (), CompressionModeBestCompression)
      else (Err (InvalidTypeString text), CompressionModeDisabled))"

section \<open>Marshalling types (client/metastor/encoding/encode.go)\<close>

definition RegisterMarshalFuncPair ::
  "enum \<Rightarrow> string \<Rightarrow> 'm option \<times> 'u option \<Rightarrow> (('m \<times> 'u) registry, type_error, unit) op" where
  "RegisterMarshalFuncPair t str pair reg =
     (case pair of
        (Some m, Some u) \<Rightarrow>
          (case value_to_string reg t of
             Some s \<Rightarrow> (Ok (), put_type t s (m, u) reg)
           | None \<Rightarrow> if str = [] then (Panic, reg) else (Ok (), put_type t str (m, u) reg))
      | _ \<Rightarrow> (Panic, reg))"

definition NewMarshalFuncPair :: "'c registry \<Rightarrow> enum \<Rightarrow> (type_error, 'c) result" where
  "NewMarshalFuncPair reg t =
     (case value_to_constructor reg t of None \<Rightarrow> Err (NotRegistered t) | Some pair \<Rightarrow> Ok pair)"

definition MarshalType_String :: "'c registry \<Rightarrow> enum \<Rightarrow> string" where
  "MarshalType_String reg t = (case value_to_string reg t of None \<Rightarrow> [] | Some str \<Rightarrow> str)"

definition MarshalType_MarshalText :: "'c registry \<Rightarrow> enum \<Rightarrow> (type_error, bytes) result" where
  "MarshalType_MarshalText reg t =
     (let str = MarshalType_String reg t in
      if str = [] then Err (InvalidTypeValue t) else Ok (ascii str))"

definition MarshalType_UnmarshalText :: "'c registry \<Rightarrow> bytes \<Rightarrow> (enum, type_error, unit) op" where
  "MarshalType_UnmarshalText reg text t =
     (case string_to_value reg (ToLower (bytes_string text)) of
        Some t' \<Rightarrow> (Ok (), t')
      | None \<Rightarrow> (Err (InvalidTypeString text), 0))"

definition MarshalTypeProtobuf :: enum where "MarshalTypeProtobuf = 0"

definition marshal_init :: "'m \<Rightarrow> 'u \<Rightarrow> (('m \<times> 'u) registry, type_error, unit) op" where
  "marshal_init m u reg = RegisterMarshalFuncPair MarshalTypeProtobuf ''protobuf'' (Some m, Some u) reg"

section \<open>Names and values\<close>

lemma unat_of_char: "unat (of_char c :: byte) = of_char c"
proof -
  have "unat (of_nat (of_char c) :: byte) = of_char c" by (simp add: unat_of_nat)
  then show ?thesis by (simp only: of_nat_of_char)
qed

lemma bytes_ascii [simp]: "bytes_string (ascii s) = s"
  by (simp add: bytes_string_def ascii_def comp_def unat_of_char)

lemma ToLower_Nil [simp]: "ToLower s = [] \<longleftrightarrow> s = []"
  by (simp add: ToLower_def)

lemma bytes_string_Nil [simp]: "bytes_string b = [] \<longleftrightarrow> b = []"
  by (simp add: bytes_string_def)

lemma ascii_Nil [simp]: "ascii s = [] \<longleftrightarrow> s = []"
  by (simp add: ascii_def)

lemma decimal_nonempty [simp]: "decimal n \<noteq> []"
  by (subst decimal.simps) simp

text \<open>
  The registries a program can build: registrations in any order, as long as the name of a new
  type is not in use, in any capitalisation.
\<close>

inductive registered :: "'c registry \<Rightarrow> bool" where
  none: "registered no_types"
| register: "registered reg \<Longrightarrow> RegisterHasher t str (Some c) reg = (Ok (), reg') \<Longrightarrow>
    value_to_string reg t = None \<longrightarrow> string_to_value reg (ToLower str) = None \<Longrightarrow> registered reg'"

definition names_ok :: "'c registry \<Rightarrow> bool" where
  "names_ok reg \<longleftrightarrow>
     (\<forall>t s. value_to_string reg t = Some s \<longleftrightarrow> string_to_value reg s = Some t) \<and>
     (\<forall>t s. value_to_string reg t = Some s \<longrightarrow> s \<noteq> [] \<and> ToLower s = s) \<and>
     dom (value_to_constructor reg) = dom (value_to_string reg)"

lemma registered_names_ok: "registered reg \<Longrightarrow> names_ok reg"
proof (induction rule: registered.induct)
  case none
  then show ?case by (simp add: names_ok_def no_types_def)
next
  case (register reg t str c reg')
  show ?case
  proof (cases "value_to_string reg t")
    case None
    with register have reg': "reg' = put_type t (ToLower str) c reg" "str \<noteq> []"
      "string_to_value reg (ToLower str) = None"
      by (auto simp: RegisterHasher_def split: if_splits)
    moreover have "string_to_value reg s \<noteq> Some t" for s
      using register.IH None unfolding names_ok_def by (metis option.distinct(1))
    ultimately show ?thesis
      using register.IH None unfolding names_ok_def put_type_def by auto
  next
    case (Some s)
    with register have "reg' = put_type t s c reg" by (auto simp: RegisterHasher_def)
    moreover have "string_to_value reg s = Some t" using register.IH Some unfolding names_ok_def by blast
    ultimately have "reg' = reg\<lparr>value_to_constructor := (value_to_constructor reg)(t \<mapsto> c)\<rparr>"
      using Some by (simp add: put_type_def fun_upd_idem)
    with register.IH Some show ?thesis unfolding names_ok_def by auto
  qed
qed


lemma registered_step:
  "registered reg \<Longrightarrow> value_to_string reg t = None \<Longrightarrow> string_to_value reg (ToLower str) = None \<Longrightarrow> str \<noteq> [] \<Longrightarrow>
    registered (put_type t (ToLower str) c reg)"
  by (rule registered.register [of _ t str c]) (auto simp: RegisterHasher_def)

lemma put_type_sel [simp]:
  "value_to_string (put_type t s c reg) = (value_to_string reg)(t \<mapsto> s)"
  "string_to_value (put_type t s c reg) = (string_to_value reg)(s \<mapsto> t)"
  "value_to_constructor (put_type t s c reg) = (value_to_constructor reg)(t \<mapsto> c)"
  "value_to_string no_types = Map.empty" "string_to_value no_types = Map.empty"
  "value_to_constructor no_types = Map.empty"
  by (simp_all add: put_type_def no_types_def)

lemma lower_names [simp]:
  "ToLower ''blake2b_256'' = ''blake2b_256''" "ToLower ''blake2b_512'' = ''blake2b_512''"
  "ToLower ''sha_256'' = ''sha_256''" "ToLower ''sha_512'' = ''sha_512''"
  "ToLower ''Snappy'' = ''snappy''" "ToLower ''LZ4'' = ''lz4''" "ToLower ''GZip'' = ''gzip''"
  "ToLower ''aes'' = ''aes''"
  by code_simp+

lemmas type_constants = HashTypeBlake2b256_def HashTypeBlake2b512_def HashTypeSHA256_def HashTypeSHA512_def
  CompressionTypeSnappy_def CompressionTypeLZ4_def CompressionTypeGZip_def EncryptionTypeAES_def

lemma standard_registries:
  "hash_init a b c d no_types = (Ok (), put_type HashTypeSHA512 (ToLower ''sha_512'') d
     (put_type HashTypeSHA256 (ToLower ''sha_256'') c (put_type HashTypeBlake2b512 (ToLower ''blake2b_512'') b
     (put_type HashTypeBlake2b256 (ToLower ''blake2b_256'') a no_types))))"
  "compress_init a' b' c' no_types = (Ok (), put_type CompressionTypeGZip (ToLower ''GZip'') c'
     (put_type CompressionTypeLZ4 (ToLower ''LZ4'') b' (put_type CompressionTypeSnappy (ToLower ''Snappy'') a' no_types)))"
  "encrypt_init a'' no_types = (Ok (), put_type EncryptionTypeAES (ToLower ''aes'') a'' no_types)"
  by (simp_all add: hash_init_def compress_init_def encrypt_init_def RegisterHasher_def type_constants
      RegisterCompressorDecompressor_def RegisterEncrypterDecrypter_def)

lemma registered_standard:
  "registered (snd (hash_init a b c d no_types))" "registered (snd (compress_init a' b' c' no_types))"
  "registered (snd (encrypt_init a'' no_types))"
  unfolding standard_registries snd_conv
  by (intro registered_step registered.none; simp add: type_constants)+

text \<open>
  In every registry built by registrations that do not reuse a name, each registered type has a
  name that is read back as that type in any capitalisation, and every non-empty text that is
  accepted names a registered type, for which a constructor can be found; the registrations of the
  packages' own types build such registries.
\<close>

lemma type_names_roundtrip:
  assumes "registered reg"
  shows "(\<forall>t. value_to_constructor reg t \<noteq> None \<longrightarrow> (\<exists>str. HashType_MarshalText reg t = Ok (ascii str) \<and>
      (\<forall>text t0. ToLower text = str \<longrightarrow> HashType_UnmarshalText reg d (ascii text) t0 = (Ok (), t)))) \<and>
    (\<forall>text t t0. text \<noteq> [] \<and> HashType_UnmarshalText reg d text t0 = (Ok (), t) \<longrightarrow>
      value_to_constructor reg t \<noteq> None \<and> ToLower (bytes_string text) = HashType_String reg t) \<and>
    registered (snd (hash_init ha hb hc hd no_types)) \<and> registered (snd (compress_init ca cb cc no_types)) \<and>
    registered (snd (encrypt_init ea no_types))"
proof (intro conjI allI impI registered_standard)
  note ok = registered_names_ok [OF assms, unfolded names_ok_def]
  fix t assume "value_to_constructor reg t \<noteq> None"
  with ok have "t \<in> dom (value_to_string reg)" by (metis domIff)
  then obtain str where str: "value_to_string reg t = Some str" "string_to_value reg str = Some t" "str \<noteq> []"
    using ok by auto
  then show "\<exists>str. HashType_MarshalText reg t = Ok (ascii str) \<and>
      (\<forall>text t0. ToLower text = str \<longrightarrow> HashType_UnmarshalText reg d (ascii text) t0 = (Ok (), t))"
    by (intro exI [of _ str]) (auto simp: HashType_MarshalText_def HashType_String_def HashType_UnmarshalText_def)
next
  note ok = registered_names_ok [OF assms, unfolded names_ok_def]
  fix b t t0 assume "b \<noteq> [] \<and> HashType_UnmarshalText reg d b t0 = (Ok (), t)"
  then have s: "string_to_value reg (ToLower (bytes_string b)) = Some t"
    by (auto simp: HashType_UnmarshalText_def split: option.splits)
  with ok have v: "value_to_string reg t = Some (ToLower (bytes_string b))" by blast
  then have "t \<in> dom (value_to_constructor reg)" using ok by auto
  then show "value_to_constructor reg t \<noteq> None" by auto
  show "ToLower (bytes_string b) = HashType_String reg t" using v by (simp add: HashType_String_def)
qed

lemma type_names_roundtrip_witness:
  "\<exists>str. HashType_MarshalText (snd (encrypt_init () no_types)) 0 = Ok (ascii str) \<and>
      (\<forall>text t0. ToLower text = str \<longrightarrow>
        HashType_UnmarshalText (snd (encrypt_init () no_types)) 0 (ascii text) t0 = (Ok (), 0))"
proof -
  have "value_to_constructor (snd (encrypt_init () no_types)) 0 \<noteq> None"
    by (simp add: standard_registries type_constants)
  moreover note type_names_roundtrip [OF registered_standard(3), of "()" 0, THEN conjunct1, rule_format, of 0]
  ultimately show ?thesis by simp
qed

text \<open>
  A name that is in use is taken over by a later registration: the earlier type keeps printing it,
  and reading it gives the later one.
\<close>

lemma name_taken_over:
  assumes "value_to_string reg t = Some str" "value_to_string reg t' = None" "str \<noteq> []" "ToLower str = str" "t \<noteq> t'"
  shows "\<exists>reg'. RegisterHasher t' str (Some c) reg = (Ok (), reg') \<and>
    HashType_MarshalText reg' t = Ok (ascii str) \<and> HashType_UnmarshalText reg' d (ascii str) t0 = (Ok (), t')"
  using assms by (simp add: RegisterHasher_def HashType_MarshalText_def HashType_String_def HashType_UnmarshalText_def)

text \<open>Compression modes have fixed names; the disabled mode is the empty text.\<close>

lemma compression_mode_roundtrip:
  "ToLower text = CompressionMode_String cm \<Longrightarrow> CompressionMode_UnmarshalText (ascii text) cm0 = (Ok (), cm)"
  by (cases cm) (auto simp: CompressionMode_UnmarshalText_def CompressionModeStrings_def)

text \<open>
  The marshalling registry keeps the case of a name although the names are read in lower case:
  a type registered under a name with a capital letter (in a registry of lower-case names) cannot
  be read back from the text it prints, nor from any other capitalisation of its name.
\<close>

lemma capital_marshal_type_unreadable:
  assumes "value_to_string reg t = None" "ToLower str \<noteq> str" "string_to_value reg (ToLower str) = None"
  shows "\<exists>reg'. RegisterMarshalFuncPair t str (Some m, Some u) reg = (Ok (), reg') \<and>
    MarshalType_MarshalText reg' t = Ok (ascii str) \<and>
    (\<forall>text t0. ToLower text = ToLower str \<longrightarrow>
      MarshalType_UnmarshalText reg' (ascii text) t0 = (Err (InvalidTypeString (ascii text)), 0))"
proof -
  have "str \<noteq> []" using assms(2) by auto
  with assms show ?thesis
    by (simp add: RegisterMarshalFuncPair_def MarshalType_MarshalText_def MarshalType_String_def MarshalType_UnmarshalText_def)
qed

end
