(* ===== verification/Crypto_Hash.thy ===== *)
theory Crypto_Hash
  imports Type_Registry
begin

text \<open>
  The hashers of \<open>pipeline/crypto\<close> (\<open>hash.go\<close>, \<open>sha.go\<close>, \<open>blake2b.go\<close>).  A \<open>hash.Hash\<close> is its algorithm
  and what has been written to it since the last reset; the digest of a message under an algorithm is
  the parameter \<open>dg\<close>.  A nil key is \<open>None\<close>.
\<close>

section \<open>Hash objects\<close>

datatype hash_algorithm =
    Blake2b256 bytes | Blake2b512 bytes
  | SHA256 | SHA512 | HMAC_SHA256 bytes | HMAC_SHA512 bytes

record hash_Hash =
  h_algorithm :: hash_algorithm
  h_written :: bytes

type_synonym digest = "hash_algorithm \<Rightarrow> bytes \<Rightarrow> bytes"

definition hash_New :: "hash_algorithm \<Rightarrow> hash_Hash" where
  "hash_New alg = \<lparr>h_algorithm = alg, h_written = []\<rparr>"

definition hash_Reset :: "hash_Hash \<Rightarrow> hash_Hash" where
  "hash_Reset h = h\<lparr>h_written := []\<rparr>"

definition hash_Write :: "bytes \<Rightarrow> hash_Hash \<Rightarrow> hash_Hash" where
  "hash_Write b h = h\<lparr>h_written := h_written h @ b\<rparr>"

definition hash_Sum :: "digest \<Rightarrow> hash_Hash \<Rightarrow> bytes" where
  "hash_Sum dg h = dg (h_algorithm h) (h_written h)"

text \<open>\<open>blake2b.New256\<close> and \<open>New512\<close> refuse keys of more than 64 bytes; a nil key is an empty one.\<close>

definition blake2b_New :: "(bytes \<Rightarrow> hash_algorithm) \<Rightarrow> slice \<Rightarrow> (type_error, hash_Hash) result" where
  "blake2b_New alg key =
     (let k = (case key of None \<Rightarrow> [] | Some k \<Rightarrow> k) in
      if length k > 64 then Err (KeySize (length k)) else Ok (hash_New (alg k)))"

section \<open>The hashers\<close>

definition NewBlake2b256Hasher :: "slice \<Rightarrow> (type_error, hash_Hash) result" where
  "NewBlake2b256Hasher key = rbind (blake2b_New Blake2b256 key) (\<lambda>hash. Ok hash)"

definition NewBlake2b512Hasher :: "slice \<Rightarrow> (type_error, hash_Hash) result" where
  "NewBlake2b512Hasher key = rbind (blake2b_New Blake2b512 key) (\<lambda>hash. Ok hash)"

definition NewSHA256Hasher :: "slice \<Rightarrow> (type_error, hash_Hash) result" where
  "NewSHA256Hasher key = (case key of None \<Rightarrow> Ok (hash_New SHA256) | Some k \<Rightarrow> Ok (hash_New (HMAC_SHA256 k)))"

definition NewSHA512Hasher :: "slice \<Rightarrow> (type_error, hash_Hash) result" where
  "NewSHA512Hasher key = (case key of None \<Rightarrow> Ok (hash_New SHA512) | Some k \<Rightarrow> Ok (hash_New (HMAC_SHA512 k)))"

definition SHA256Hasher_HashBytes :: "digest \<Rightarrow> bytes \<Rightarrow> hash_Hash \<Rightarrow> bytes \<times> hash_Hash" where
  "SHA256Hasher_HashBytes dg data hasher =
     (let hasher = hash_Reset hasher; hasher = hash_Write data hasher in (hash_Sum dg hasher, hasher))"

definition SHA512Hasher_HashBytes :: "digest \<Rightarrow> bytes \<Rightarrow> hash_Hash \<Rightarrow> bytes \<times> hash_Hash" where
  "SHA512Hasher_HashBytes dg data hasher =
     (let hasher = hash_Reset hasher; hasher = hash_Write data hasher in (hash_Sum dg hasher, hasher))"

definition Blake2b256Hasher_HashBytes :: "digest \<Rightarrow> bytes \<Rightarrow> hash_Hash \<Rightarrow> bytes \<times> hash_Hash" where
  "Blake2b256Hasher_HashBytes dg data hasher =
     (let hasher = hash_Reset hasher; hasher = hash_Write data hasher in (hash_Sum dg hasher, hasher))"

definition Blake2b512Hasher_HashBytes :: "digest \<Rightarrow> bytes \<Rightarrow> hash_Hash \<Rightarrow> bytes \<times> hash_Hash" where
  "Blake2b512Hasher_HashBytes dg data hasher =
     (let hasher = hash_Reset hasher; hasher = hash_Write data hasher in (hash_Sum dg hasher, hasher))"

definition SumBlake2b256 :: "digest \<Rightarrow> bytes \<Rightarrow> bytes" where
  "SumBlake2b256 dg data = dg (Blake2b256 []) data"

definition SumBlake2b512 :: "digest \<Rightarrow> bytes \<Rightarrow> bytes" where
  "SumBlake2b512 dg data = dg (Blake2b512 []) data"

definition SumSHA256 :: "digest \<Rightarrow> bytes \<Rightarrow> bytes" where
  "SumSHA256 dg data = dg SHA256 data"

definition SumSHA512 :: "digest \<Rightarrow> bytes \<Rightarrow> bytes" where
  "SumSHA512 dg data = dg SHA512 data"

definition Sum256 :: "digest \<Rightarrow> bytes \<Rightarrow> bytes" where
  "Sum256 dg data = SumBlake2b256 dg data"

definition Sum512 :: "digest \<Rightarrow> bytes \<Rightarrow> bytes" where
  "Sum512 dg data = SumBlake2b512 dg data"

definition NewDefaultHasher256 :: "slice \<Rightarrow> (type_error, hash_Hash) result" where
  "NewDefaultHasher256 key = NewBlake2b256Hasher key"

definition NewDefaultHasher512 :: "slice \<Rightarrow> (type_error, hash_Hash) result" where
  "NewDefaultHasher512 key = NewBlake2b512Hasher key"

text \<open>
  The method of the \<open>Hasher\<close> interface, dispatched on what was constructed, and the hashers the
  package registers.
\<close>

fun HashBytes :: "digest \<Rightarrow> bytes \<Rightarrow> hash_Hash \<Rightarrow> bytes \<times> hash_Hash" where
  "HashBytes dg data h =
     (case h_algorithm h of
        Blake2b256 k \<Rightarrow> Blake2b256Hasher_HashBytes dg data h
      | Blake2b512 k \<Rightarrow> Blake2b512Hasher_HashBytes dg data h
      | SHA256 \<Rightarrow> SHA256Hasher_HashBytes dg data h
      | HMAC_SHA256 k \<Rightarrow> SHA256Hasher_HashBytes dg data h
      | SHA512 \<Rightarrow> SHA512Hasher_HashBytes dg data h
      | HMAC_SHA512 k \<Rightarrow> SHA512Hasher_HashBytes dg data h)"

definition hash_types :: "(slice \<Rightarrow> (type_error, hash_Hash) result) registry" where
  "hash_types = snd (hash_init NewBlake2b256Hasher NewBlake2b512Hasher NewSHA256Hasher NewSHA512Hasher no_types)"

record HashingConfig =
  hash_Type :: enum
  hash_PrivateKey :: string

text \<open>\<open>pipeline/config.go\<close>: the conversion \<open>[]byte(cfg.PrivateKey)\<close> never gives a nil slice.\<close>

definition NewHasherConstructor :: "HashingConfig \<Rightarrow> (type_error, hash_Hash) result" where
  "NewHasherConstructor cfg = NewHasher hash_types (hash_Type cfg) (Some (ascii (hash_PrivateKey cfg)))"

section \<open>Hashing is a function of the data\<close>

lemma HashBytes_eq: "HashBytes dg data h = (dg (h_algorithm h) data, h\<lparr>h_written := data\<rparr>)"
  by (cases "h_algorithm h")
    (simp_all add: Blake2b256Hasher_HashBytes_def Blake2b512Hasher_HashBytes_def SHA256Hasher_HashBytes_def
      SHA512Hasher_HashBytes_def hash_Reset_def hash_Write_def hash_Sum_def Let_def)

declare HashBytes.simps [simp del]

lemma hash_types_lookup:
  "value_to_constructor hash_types t =
     (if t = 0 then Some NewBlake2b256Hasher else if t = 1 then Some NewBlake2b512Hasher
      else if t = 2 then Some NewSHA256Hasher else if t = 3 then Some NewSHA512Hasher else None)"
  by (simp add: hash_types_def standard_registries type_constants)

text \<open>
  A hasher can be used again and again: a digest depends on the configured algorithm, the key
  and the data only.  Without a private key the Blake2b types give the plain checksum of the data;
  the SHA types do not, although a checksum is what the configuration promises: they give the HMAC
  of the data under an empty key, because an empty key is not a nil one.
\<close>

lemma hashers_of_configuration:
  assumes "hash_PrivateKey cfg = []"
  shows "(\<forall>h. NewHasherConstructor cfg = Ok h \<longrightarrow>
      (\<forall>data data' h'. h_algorithm h' = h_algorithm h \<longrightarrow>
        fst (HashBytes dg data h') = fst (HashBytes dg data h) \<and>
        fst (HashBytes dg data (snd (HashBytes dg data' h))) = fst (HashBytes dg data h))) \<and>
    (hash_Type cfg = HashTypeBlake2b256 \<longrightarrow> (\<exists>h. NewHasherConstructor cfg = Ok h \<and> (\<forall>data. fst (HashBytes dg data h) = SumBlake2b256 dg data))) \<and>
    (hash_Type cfg = HashTypeBlake2b512 \<longrightarrow> (\<exists>h. NewHasherConstructor cfg = Ok h \<and> (\<forall>data. fst (HashBytes dg data h) = SumBlake2b512 dg data))) \<and>
    (hash_Type cfg = HashTypeSHA256 \<longrightarrow> (\<exists>h. NewHasherConstructor cfg = Ok h \<and> (\<forall>data. fst (HashBytes dg data h) = dg (HMAC_SHA256 []) data))) \<and>
    (hash_Type cfg = HashTypeSHA512 \<longrightarrow> (\<exists>h. NewHasherConstructor cfg = Ok h \<and> (\<forall>data. fst (HashBytes dg data h) = dg (HMAC_SHA512 []) data)))"
  using assms
  by (simp add: HashBytes_eq NewHasherConstructor_def NewHasher_def hash_types_lookup type_constants NewBlake2b256Hasher_def
      NewBlake2b512Hasher_def NewSHA256Hasher_def NewSHA512Hasher_def blake2b_New_def hash_New_def SumBlake2b256_def SumBlake2b512_def)

lemma hashers_of_configuration_witness:
  "\<exists>h. NewHasherConstructor \<lparr>hash_Type = HashTypeSHA256, hash_PrivateKey = []\<rparr> = Ok h \<and>
     fst (HashBytes (\<lambda>alg data. case alg of HMAC_SHA256 k \<Rightarrow> [1] | _ \<Rightarrow> [2]) [7] h) = [1]"
  using hashers_of_configuration [of "\<lparr>hash_Type = HashTypeSHA256, hash_PrivateKey = []\<rparr>"
      "\<lambda>alg data. case alg of HMAC_SHA256 k \<Rightarrow> [1] | _ \<Rightarrow> [2]"]
  by (auto simp: type_constants)

end
