(* ===== verification/Pipeline_Stages.thy ===== *)
theory Pipeline_Stages
  imports Chunk_Storage Crypto_Hash
begin

text \<open>
  The sequential ends of the asynchronous pipeline (\<open>pipeline/async_splitter.go\<close>): the splitter that
  cuts a stream into chunks, the collector that puts the written chunks into order, and the composer
  that writes the chunks it receives to the output in order.  Collector and composer receive their
  items in whatever order the goroutines before them have sent them.
\<close>

section \<open>Chunks (metatypes/types.go)\<close>

record Chunk =
  ch_Size :: nat
  ch_Objects :: "Object list"
  ch_Hash :: bytes

definition no_chunk :: Chunk where
  "no_chunk = \<lparr>ch_Size = 0, ch_Objects = [], ch_Hash = []\<rparr>"

definition chunk_config :: "Chunk \<Rightarrow> ChunkConfig" where
  "chunk_config chunk = \<lparr>Size = ch_Size chunk, Objects = ch_Objects chunk\<rparr>"

datatype pipeline_error =
    ErrUnexpectedChunkCount | ErrNoChunks | ErrNilReader | ErrNilWriter | ErrMissingChunks
  | ErrHashMismatch | ErrHasher type_error | ErrConstructor string | ErrProcessor string | ErrStorage storage_error
  | ErrReader string | ErrWriter string

section \<open>The splitter\<close>

text \<open>
  The successive results of \<open>r.Read(buf)\<close>: the bytes it has put into the buffer and its error.  A
  list that ends without an error is a reader that has not come to an end.
\<close>

datatype read_error = EOF | ReadFailure string

type_synonym reads = "(bytes \<times> read_error option) list"

fun newAsyncDataSplitter :: "reads \<Rightarrow> (pipeline_error, bytes list) result option" where
  "newAsyncDataSplitter [] = None"
| "newAsyncDataSplitter ((buf, Some EOF) # reads) = Some (Ok [])"
| "newAsyncDataSplitter ((buf, Some (ReadFailure e)) # reads) = Some (Err (ErrReader e))"
| "newAsyncDataSplitter ((buf, None) # reads) =
     map_option (\<lambda>r. rbind r (\<lambda>chunks. Ok (buf # chunks))) (newAsyncDataSplitter reads)"

text \<open>\<open>ioutil.ReadAll\<close>, which the single-object pipeline uses.\<close>

fun ReadAll :: "reads \<Rightarrow> (pipeline_error, bytes) result option" where
  "ReadAll [] = None"
| "ReadAll ((buf, Some EOF) # reads) = Some (Ok buf)"
| "ReadAll ((buf, Some (ReadFailure e)) # reads) = Some (Err (ErrReader e))"
| "ReadAll ((buf, None) # reads) = map_option (\<lambda>r. rbind r (\<lambda>b. Ok (buf @ b))) (ReadAll reads)"

text \<open>The reads from a \<open>bytes.Reader\<close> with a buffer of \<open>chunkSize\<close> bytes.\<close>

function reader_reads :: "nat \<Rightarrow> bytes \<Rightarrow> reads" where
  "reader_reads chunkSize content =
     (if content = [] \<or> chunkSize = 0 then [([], Some EOF)]
      else (take chunkSize content, None) # reader_reads chunkSize (drop chunkSize content))"
  by pat_completeness auto

termination by (relation "measure (\<lambda>(n, content). length content)") auto

declare reader_reads.simps [simp del]

section \<open>The collector\<close>

record collector =
  col_chunks :: "Chunk list"
  col_bufferSize :: nat
  col_received :: nat
  col_chunkSize :: nat

definition new_collector :: "nat \<Rightarrow> collector" where
  "new_collector storageJobCount =
     \<lparr>col_chunks = replicate storageJobCount no_chunk, col_bufferSize = storageJobCount, col_received = 0, col_chunkSize = 0\<rparr>"

definition collect_grow :: "nat \<Rightarrow> collector \<Rightarrow> collector" where
  "collect_grow index col =
     (if col_bufferSize col \<le> index
      then let size' = index + col_bufferSize col * 2 in
        col\<lparr>col_bufferSize := size', col_chunks := go_copy (replicate size' no_chunk) (col_chunks col)\<rparr>
      else col)"

definition collect_step :: "collector \<Rightarrow> nat \<times> Chunk \<Rightarrow> (pipeline_error, collector) result" where
  "collect_step col item =
     (let col = collect_grow (fst item) col in
      if fst item < length (col_chunks col)
      then Ok (col\<lparr>col_chunks := (col_chunks col)[fst item := snd item], col_received := Suc (col_received col),
        col_chunkSize := (if col_chunkSize col \<le> fst item then Suc (fst item) else col_chunkSize col)\<rparr>)
      else Panic)"

definition collect_chunks :: "nat \<Rightarrow> (nat \<times> Chunk) list \<Rightarrow> (pipeline_error, Chunk list) result" where
  "collect_chunks storageJobCount items =
     rbind (fold_result collect_step (new_collector storageJobCount) items) (\<lambda>col.
       if col_received col \<noteq> col_chunkSize col then Err ErrMissingChunks
       else slice_to (col_chunks col) (col_chunkSize col))"

section \<open>The composer\<close>

type_synonym 'o writer = "bytes \<Rightarrow> ('o, string, unit) op"

lemma flush_measure:
  assumes "map_of buffer (Suc i) = Some d"
  shows "card {k \<in> fst ` set buffer. Suc i < k} < card {k \<in> fst ` set buffer. i < k}"
proof (rule psubset_card_mono)
  have "Suc i \<in> fst ` set buffer" using assms by (force dest: map_of_SomeD)
  then show "{k \<in> fst ` set buffer. Suc i < k} \<subset> {k \<in> fst ` set buffer. i < k}" by auto
qed simp

text \<open>The inner loop: write the expected chunk and all buffered ones that follow it.\<close>

function flush :: "'o writer \<Rightarrow> (nat \<times> bytes) list \<Rightarrow> nat \<Rightarrow> bytes \<Rightarrow> ('o, string, nat) op" where
  "flush wr buffer expectedIndex data out =
     obind (wr data out) (\<lambda>_ out.
       case map_of buffer (Suc expectedIndex) of
         None \<Rightarrow> (Ok (Suc expectedIndex), out)
       | Some data' \<Rightarrow> flush wr buffer (Suc expectedIndex) data' out)"
  by pat_completeness auto

termination
  by (relation "measure (\<lambda>(wr, buffer, i, data, out). card {k \<in> fst ` set buffer. i < k})")
    (use flush_measure in auto)

declare flush.simps [simp del]

text \<open>A write to the buffer map replaces what is there.\<close>

fun compose_chunks :: "'o writer \<Rightarrow> nat \<Rightarrow> (nat \<times> bytes) list \<Rightarrow> (nat \<times> bytes) list \<Rightarrow> ('o, string, unit) op" where
  "compose_chunks wr expectedIndex buffer [] out = (Ok (), out)"
| "compose_chunks wr expectedIndex buffer ((index, data) # outputs) out =
     (if index \<noteq> expectedIndex then compose_chunks wr expectedIndex ((index, data) # buffer) outputs out
      else obind (flush wr buffer expectedIndex data out) (\<lambda>expectedIndex out.
        compose_chunks wr expectedIndex buffer outputs out))"

section \<open>The splitter cuts without loss\<close>

lemma splitter_reader:
  "0 < chunkSize \<Longrightarrow> \<exists>chunks. newAsyncDataSplitter (reader_reads chunkSize content) = Some (Ok chunks) \<and> concat chunks = content \<and>
     (\<forall>c\<in>set chunks. c \<noteq> [] \<and> length c \<le> chunkSize)"
proof (induction chunkSize content rule: reader_reads.induct)
  case (1 chunkSize content)
  show ?case
  proof (cases "content = []")
    case True
    then show ?thesis by (simp add: reader_reads.simps)
  next
    case False
    with 1 obtain chunks where "newAsyncDataSplitter (reader_reads chunkSize (drop chunkSize content)) = Some (Ok chunks)"
      "concat chunks = drop chunkSize content" "\<forall>c\<in>set chunks. c \<noteq> [] \<and> length c \<le> chunkSize" by auto
    with False 1(2) show ?thesis
      by (subst reader_reads.simps) (intro exI [of _ "take chunkSize content # chunks"], simp)
  qed
qed

lemma ReadAll_reader: "0 < n \<Longrightarrow> ReadAll (reader_reads n content) = Some (Ok content)"
proof (induction n content rule: reader_reads.induct)
  case (1 n content)
  then show ?case by (subst reader_reads.simps) auto
qed

section \<open>The collector orders\<close>

definition col_inv :: "(nat \<times> Chunk) list \<Rightarrow> collector \<Rightarrow> bool" where
  "col_inv seen col \<longleftrightarrow> col_bufferSize col = length (col_chunks col) \<and> 0 < col_bufferSize col \<and>
     col_received col = length seen \<and> (\<forall>i c. (i, c) \<in> set seen \<longrightarrow> i < col_chunkSize col \<and> col_chunks col ! i = c) \<and>
     col_chunkSize col \<le> length (col_chunks col) \<and> (\<forall>n. col_chunkSize col = Suc n \<longrightarrow> n \<in> fst ` set seen)"

lemma collect_grow_nth:
  assumes "col_bufferSize col = length (col_chunks col)" "0 < col_bufferSize col"
  shows "i < length (col_chunks (collect_grow i col))" "col_bufferSize (collect_grow i col) = length (col_chunks (collect_grow i col))"
    "length (col_chunks col) \<le> length (col_chunks (collect_grow i col))"
    "k < length (col_chunks col) \<Longrightarrow> col_chunks (collect_grow i col) ! k = col_chunks col ! k"
    "col_received (collect_grow i col) = col_received col" "col_chunkSize (collect_grow i col) = col_chunkSize col"
  using assms by (auto simp: collect_grow_def Let_def go_copy_def nth_append)

lemma collect_step_inv:
  assumes inv: "col_inv seen col" and new: "i \<notin> fst ` set seen"
  shows "\<exists>col'. collect_step col (i, c) = Ok col' \<and> col_inv (seen @ [(i, c)]) col'"
proof -
  note g = collect_grow_nth [of col]
  from inv have buf: "col_bufferSize col = length (col_chunks col)" "0 < col_bufferSize col" by (auto simp: col_inv_def)
  let ?g = "collect_grow i col"
  let ?col = "?g\<lparr>col_chunks := (col_chunks ?g)[i := c], col_received := Suc (col_received ?g),
      col_chunkSize := (if col_chunkSize ?g \<le> i then Suc i else col_chunkSize ?g)\<rparr>"
  have "collect_step col (i, c) = Ok ?col" using g(1) [OF buf, of i] by (simp add: collect_step_def Let_def)
  moreover have "col_chunks ?col ! k = d \<and> k < col_chunkSize ?col" if "(k, d) \<in> set seen" for k d
  proof -
    from inv that have k: "k < col_chunkSize col" "col_chunks col ! k = d" "col_chunkSize col \<le> length (col_chunks col)"
      by (auto simp: col_inv_def)
    then have "k < length (col_chunks col)" by simp
    moreover note k
    moreover from that new have "k \<noteq> i" by force
    ultimately show ?thesis using g(4) [OF buf] g(6) [OF buf] by auto
  qed
  moreover have "col_chunkSize ?col \<le> length (col_chunks ?col)"
    using inv g(1,3,6) [OF buf, of i] by (auto simp: col_inv_def)
  moreover have "n \<in> fst ` set (seen @ [(i, c)])" if "col_chunkSize ?col = Suc n" for n
    using that inv g(6) [OF buf, of i] by (auto simp: col_inv_def split: if_splits)
  ultimately show ?thesis
    using g [OF buf, of i] inv by (intro exI [of _ ?col]) (auto simp: col_inv_def)
qed

lemma collect_fold_inv:
  "col_inv seen col \<Longrightarrow> distinct (map fst (seen @ items)) \<Longrightarrow> \<exists>col'. fold_result collect_step col items = Ok col' \<and> col_inv (seen @ items) col'"
proof (induction items arbitrary: seen col)
  case Nil
  then show ?case by simp
next
  case (Cons item items)
  obtain i c where item: "item = (i, c)" by fastforce
  with Cons.prems have "i \<notin> fst ` set seen" by auto
  from collect_step_inv [OF Cons.prems(1) this, of c] obtain col' where
    "collect_step col item = Ok col'" "col_inv (seen @ [item]) col'" using item by blast
  with Cons.IH [of "seen @ [item]" col'] Cons.prems(2) show ?case by simp
qed

lemma collect_chunks_ordered:
  assumes "0 < jobs" "distinct (map fst items)" "fst ` set items = {..<n}"
  shows "\<exists>chunks. collect_chunks jobs items = Ok chunks \<and> length chunks = n \<and> (\<forall>(i, c)\<in>set items. chunks ! i = c)"
proof -
  have "col_inv [] (new_collector jobs)" using assms(1) by (simp add: col_inv_def new_collector_def)
  then obtain col where col: "fold_result collect_step (new_collector jobs) items = Ok col" "col_inv items col"
    using collect_fold_inv [of "[]"] assms(2) by fastforce
  have len: "length items = n"
    using assms(2,3) by (metis card_lessThan distinct_card length_map set_map)
  have "col_chunkSize col = n"
  proof (rule antisym)
    show "col_chunkSize col \<le> n" using col(2) assms(3) by (cases "col_chunkSize col") (auto simp: col_inv_def)
    show "n \<le> col_chunkSize col"
    proof (cases n)
      case (Suc k)
      with assms(3) have "k \<in> fst ` set items" by simp
      with col(2) Suc show ?thesis by (force simp: col_inv_def)
    qed simp
  qed
  with col len show ?thesis
    by (intro exI [of _ "take n (col_chunks col)"]) (auto simp: collect_chunks_def col_inv_def slice_to_def)
qed

text \<open>A chunk that never arrives is noticed.\<close>

lemma collect_chunks_gap:
  assumes "0 < jobs" "distinct (map fst items)" "\<And>n. fst ` set items \<noteq> {..<n}"
  shows "collect_chunks jobs items = Err ErrMissingChunks"
proof -
  have "col_inv [] (new_collector jobs)" using assms(1) by (simp add: col_inv_def new_collector_def)
  then obtain col where col: "fold_result collect_step (new_collector jobs) items = Ok col" "col_inv items col"
    using collect_fold_inv [of "[]"] assms(2) by fastforce
  have "fst ` set items \<subset> {..<col_chunkSize col}" using col(2) assms(3) by (fastforce simp: col_inv_def)
  then have "card (fst ` set items) < col_chunkSize col" using psubset_card_mono [of "{..<col_chunkSize col}"] by simp
  moreover have "card (fst ` set items) = length items" using assms(2) by (metis distinct_card length_map set_map)
  ultimately show ?thesis using col by (simp add: collect_chunks_def col_inv_def)
qed


section \<open>The composer writes in order\<close>

fun write_all :: "'o writer \<Rightarrow> bytes list \<Rightarrow> ('o, string, unit) op" where
  "write_all wr [] out = (Ok (), out)"
| "write_all wr (d # ds) out = obind (wr d out) (\<lambda>_ out. write_all wr ds out)"

lemma write_all_append: "write_all wr (xs @ ys) out = obind (write_all wr xs out) (\<lambda>_ out. write_all wr ys out)"
proof (induction xs arbitrary: out)
  case (Cons x xs)
  obtain r out' where "wr x out = (r, out')" by fastforce
  with Cons show ?case by (cases r) simp_all
qed simp

lemma flush_spec:
  assumes "\<And>j x. map_of buffer j = Some x \<Longrightarrow> x = f j"
  shows "\<exists>k > e. map_of buffer k = None \<and> (\<forall>j. e < j \<and> j < k \<longrightarrow> map_of buffer j \<noteq> None) \<and>
    (\<forall>out. flush wr buffer e (f e) out = obind (write_all wr (map f [e..<k]) out) (\<lambda>_ out. (Ok k, out)))"
proof (induction "card {k \<in> fst ` set buffer. e < k}" arbitrary: e rule: less_induct)
  case less
  show ?case
  proof (cases "map_of buffer (Suc e)")
    case None
    have "flush wr buffer e (f e) out = obind (write_all wr (map f [e..<Suc e]) out) (\<lambda>_ out. (Ok (Suc e), out))" for out
    proof -
      obtain r out' where "wr (f e) out = (r, out')" by fastforce
      with None show ?thesis by (cases r) (simp_all add: flush.simps)
    qed
    with None show ?thesis by (intro exI [of _ "Suc e"]) auto
  next
    case (Some d)
    then have "d = f (Suc e)" using assms by blast
    from less [OF flush_measure [OF Some]] obtain k where k: "Suc e < k" "map_of buffer k = None"
      "\<forall>j. Suc e < j \<and> j < k \<longrightarrow> map_of buffer j \<noteq> None"
      "\<And>out. flush wr buffer (Suc e) (f (Suc e)) out = obind (write_all wr (map f [Suc e..<k]) out) (\<lambda>_ out. (Ok k, out))"
      by blast
    have "flush wr buffer e (f e) out = obind (write_all wr (map f [e..<k]) out) (\<lambda>_ out. (Ok k, out))" for out
    proof -
      have list: "[e..<k] = e # [Suc e..<k]" using k(1) by (simp add: upt_rec)
      obtain r out' where "wr (f e) out = (r, out')" by fastforce
      with Some \<open>d = f (Suc e)\<close> k(4) show ?thesis by (cases r) (simp_all add: flush.simps [of wr buffer e] list)
    qed
    moreover have "map_of buffer j \<noteq> None" if "e < j" "j < k" for j
      using that k(3) Some by (cases "j = Suc e") auto
    ultimately show ?thesis using k(1,2) by (intro exI [of _ k]) auto
  qed
qed

lemma compose_spec:
  assumes "\<And>i x. (i, x) \<in> set items \<union> set buffer \<Longrightarrow> x = f i" "e \<notin> fst ` set buffer" "e \<le> n"
    and "{e..<n} \<subseteq> fst ` set items \<union> fst ` set buffer" "fst ` set items \<subseteq> {e..<n}" "fst ` set buffer \<subseteq> {..<n}"
    and "distinct (map fst items)" "fst ` set items \<inter> fst ` set buffer = {}"
  shows "compose_chunks wr e buffer items out = write_all wr (map f [e..<n]) out"
  using assms
proof (induction items arbitrary: e buffer out)
  case Nil
  have "\<not> e < n"
  proof
    assume "e < n"
    with Nil.prems(4) have "e \<in> fst ` set buffer" by auto
    with Nil.prems(2) show False by auto
  qed
  with Nil.prems(3) show ?case by simp
next
  case (Cons item items)
  obtain i x where item: "item = (i, x)" by fastforce
  show ?case
  proof (cases "i = e")
    case False
    have "compose_chunks wr e ((i, x) # buffer) items out = write_all wr (map f [e..<n]) out"
    proof (rule Cons.IH)
      show "e \<notin> fst ` set ((i, x) # buffer)" using Cons.prems(2) False by simp
      show "\<And>j y. (j, y) \<in> set items \<union> set ((i, x) # buffer) \<Longrightarrow> y = f j" using Cons.prems(1) item by auto
      show "{e..<n} \<subseteq> fst ` set items \<union> fst ` set ((i, x) # buffer)" using Cons.prems(4) item by auto
    qed (use Cons.prems item in auto)
    with False item show ?thesis by simp
  next
    case True
    have x: "x = f e" using Cons.prems(1) item True by auto
    have e: "e < n" using Cons.prems(5) item True by auto
    have buf: "y = f j" if "map_of buffer j = Some y" for j y using that Cons.prems(1) by (auto dest: map_of_SomeD)
    from flush_spec [of buffer f e wr, OF buf] obtain k where k: "e < k" "k \<notin> fst ` set buffer"
      "\<forall>j. e < j \<and> j < k \<longrightarrow> j \<in> fst ` set buffer"
      "\<And>out. flush wr buffer e (f e) out = obind (write_all wr (map f [e..<k]) out) (\<lambda>_ out. (Ok k, out))"
      unfolding map_of_eq_None_iff by auto
    have "k \<le> n"
    proof (rule ccontr)
      assume "\<not> k \<le> n"
      with k(3) e have "n \<in> fst ` set buffer" by auto
      with Cons.prems(6) show False by auto
    qed
    have IH: "compose_chunks wr k buffer items out = write_all wr (map f [k..<n]) out" for out
    proof (rule Cons.IH)
      have "j \<in> fst ` set items \<union> fst ` set buffer" if "j \<in> {k..<n}" for j
      proof -
        have "j \<in> fst ` set (item # items) \<union> fst ` set buffer" using that Cons.prems(4) k(1) by (auto simp: subset_iff)
        then show ?thesis using that k(1) item True by auto
      qed
      then show "{k..<n} \<subseteq> fst ` set items \<union> fst ` set buffer" by blast
      have "j \<in> {k..<n}" if "j \<in> fst ` set items" for j
      proof -
        have "j \<noteq> e" "j \<in> {e..<n}" "j \<notin> fst ` set buffer" using that Cons.prems(5,7,8) item True by auto
        with k(3) show ?thesis by (cases "j < k") auto
      qed
      then show "fst ` set items \<subseteq> {k..<n}" by blast
    qed (use Cons.prems k \<open>k \<le> n\<close> in auto)
    have "[e..<n] = [e..<k] @ [k..<n]" using k(1) \<open>k \<le> n\<close> by (metis le_add_diff_inverse less_imp_le upt_add_eq_append)
    then have split: "write_all wr (map f [e..<n]) out = obind (write_all wr (map f [e..<k]) out) (\<lambda>_ out. write_all wr (map f [k..<n]) out)"
      by (simp add: write_all_append)
    obtain r out' where w: "write_all wr (map f [e..<k]) out = (r, out')" by fastforce
    show ?thesis unfolding split w using item True x k(4) w IH by (cases r) simp_all
  qed
qed

lemma compose_ordered:
  assumes "distinct (map fst items)" "fst ` set items = {..<n}" "\<And>i x. (i, x) \<in> set items \<Longrightarrow> x = f i"
  shows "compose_chunks wr 0 [] items out = write_all wr (map f [0..<n]) out"
  by (rule compose_spec) (use assms in auto)

end
