(* ===== verification/Metastor_Db.thy ===== *)
theory Metastor_Db
  imports Pipeline_Stages
begin

text \<open>
  The key-value databases of the metadata store: the interface (\<open>client/metastor/db/db.go\<close>) and the
  in-memory implementation (\<open>client/metastor/db/test/in_memory_db.go\<close>).

  \<open>Update\<close> calls back into its caller between reading and writing an entry, and the callback may itself
  use the database and change anything else the program can reach; the state is therefore a pair of
  the database and the rest of the program's state.  The steps that other goroutines take between the
  callback and the lock are the argument \<open>interfere\<close>, a function of the number of the attempt.
\<close>

section \<open>Errors and interface (db.go)\<close>

datatype 'e meta_error =
    MetaNotFound | MetaTimeout | MetaUnavailable | InternalError string "string option"
  | MetaNilKey | MetaCodec string | MetaCallback 'e

fun InternalError_Error :: "'e meta_error \<Rightarrow> string" where
  "InternalError_Error (InternalError t None) = ''metastor: internal '' @ t @ '' database error''"
| "InternalError_Error (InternalError t (Some e)) = ''metastor: internal '' @ t @ '' database error: '' @ e"
| "InternalError_Error e = []"

type_synonym ('s, 'x, 'e) UpdateCallback = "bytes \<Rightarrow> ('s \<times> 'x, 'e meta_error, bytes) op"

record ('s, 'x, 'e) meta_DB =
  meta_Set :: "bytes \<Rightarrow> bytes \<Rightarrow> ('s, 'e meta_error, unit) op"
  meta_Get :: "bytes \<Rightarrow> 's \<Rightarrow> ('e meta_error, bytes) result"
  meta_Delete :: "bytes \<Rightarrow> ('s, 'e meta_error, unit) op"
  meta_Update :: "bytes \<Rightarrow> ('s, 'x, 'e) UpdateCallback \<Rightarrow> 's \<times> 'x \<Rightarrow> (('e meta_error, unit) result \<times> 's \<times> 'x) option"
  meta_Close :: "('s, 'e meta_error, unit) op"

section \<open>The in-memory database\<close>

record metastor_DB =
  msd_md :: "bytes \<rightharpoonup> bytes"
  msd_versions :: "bytes \<rightharpoonup> uint64"

definition metastor_New :: metastor_DB where
  "metastor_New = \<lparr>msd_md = Map.empty, msd_versions = Map.empty\<rparr>"

text \<open>A missing map entry reads as zero.\<close>

definition version :: "metastor_DB \<Rightarrow> bytes \<Rightarrow> uint64" where
  "version db key = (case msd_versions db key of None \<Rightarrow> 0 | Some v \<Rightarrow> v)"

definition put :: "bytes \<Rightarrow> bytes \<Rightarrow> metastor_DB \<Rightarrow> metastor_DB" where
  "put key metadata db = db\<lparr>msd_md := (msd_md db)(key \<mapsto> metadata), msd_versions := (msd_versions db)(key \<mapsto> version db key + 1)\<rparr>"

definition metastor_Set :: "bytes \<Rightarrow> bytes \<Rightarrow> (metastor_DB, 'e meta_error, unit) op" where
  "metastor_Set key metadata db = (Ok (), put key metadata db)"

definition metastor_Get :: "bytes \<Rightarrow> metastor_DB \<Rightarrow> ('e meta_error, bytes) result" where
  "metastor_Get key db = (case msd_md db key of None \<Rightarrow> Err MetaNotFound | Some metadata \<Rightarrow> Ok metadata)"

definition metastor_Delete :: "bytes \<Rightarrow> (metastor_DB, 'e meta_error, unit) op" where
  "metastor_Delete key db = (Ok (), db\<lparr>msd_md := (msd_md db)(key := None), msd_versions := (msd_versions db)(key := None)\<rparr>)"

partial_function (option) metastor_Update ::
  "(nat \<Rightarrow> metastor_DB \<Rightarrow> metastor_DB) \<Rightarrow> nat \<Rightarrow> bytes \<Rightarrow> (metastor_DB, 'x, 'e) UpdateCallback \<Rightarrow> metastor_DB \<times> 'x \<Rightarrow>
   (('e meta_error, unit) result \<times> metastor_DB \<times> 'x) option" where
  "metastor_Update interfere n key cb st =
     (case msd_md (fst st) key of
        None \<Rightarrow> Some (Err MetaNotFound, st)
      | Some metadataIn \<Rightarrow>
          (case cb metadataIn st of
             (Err e, st') \<Rightarrow> Some (Err e, st')
           | (Panic, st') \<Rightarrow> Some (Panic, st')
           | (Ok metadataOut, st') \<Rightarrow>
               if version (interfere n (fst st')) key \<noteq> version (fst st) key
               then metastor_Update interfere (Suc n) key cb (interfere n (fst st'), snd st')
               else Some (Ok (), put key metadataOut (interfere n (fst st')), snd st')))"

definition metastor_Close :: "(metastor_DB, 'e meta_error, unit) op" where
  "metastor_Close db = (Ok (), metastor_New)"

definition metastor_DB_ops :: "(nat \<Rightarrow> metastor_DB \<Rightarrow> metastor_DB) \<Rightarrow> (metastor_DB, 'x, 'e) meta_DB" where
  "metastor_DB_ops interfere = \<lparr>meta_Set = metastor_Set, meta_Get = metastor_Get, meta_Delete = metastor_Delete,
     meta_Update = metastor_Update interfere 0, meta_Close = metastor_Close\<rparr>"

section \<open>Contract\<close>

text \<open>
  \<open>stored s\<close> are the entries, \<open>fits k b\<close> says that the database can hold the value \<open>b\<close> under the key \<open>k\<close>, and
  \<open>same k s s'\<close> that the entry of \<open>k\<close> has not been written to between the two states.  \<open>Update\<close> is
  required to be atomic when nobody but the callback is at work.
\<close>

locale metadata_db =
  fixes db :: "('s, 'x, 'e) meta_DB"
    and stored :: "'s \<Rightarrow> bytes \<rightharpoonup> bytes"
    and same :: "bytes \<Rightarrow> 's \<Rightarrow> 's \<Rightarrow> bool"
    and fits :: "bytes \<Rightarrow> bytes \<Rightarrow> bool"
  assumes get: "fits k b0 \<Longrightarrow> meta_Get db k s = (case stored s k of None \<Rightarrow> Err MetaNotFound | Some b \<Rightarrow> Ok b)"
    and set_total: "fits k b \<Longrightarrow> \<exists>s'. meta_Set db k b s = (Ok (), s') \<and> stored s' = (stored s)(k \<mapsto> b) \<and> (\<forall>k'. k' \<noteq> k \<longrightarrow> same k' s s')"
    and delete_total: "fits k b0 \<Longrightarrow> \<exists>s'. meta_Delete db k s = (Ok (), s') \<and> stored s' = (stored s)(k := None)"
    and same_refl: "same k s s"
    and update_missing: "fits k b0 \<Longrightarrow> stored s k = None \<Longrightarrow> meta_Update db k cb (s, x) = Some (Err MetaNotFound, s, x)"
    and update_err: "fits k b \<Longrightarrow> stored s k = Some b \<Longrightarrow> cb b (s, x) = (Err e, st') \<Longrightarrow> meta_Update db k cb (s, x) = Some (Err e, st')"
    and update_ok: "fits k b \<Longrightarrow> fits k b' \<Longrightarrow> stored s k = Some b \<Longrightarrow> cb b (s, x) = (Ok b', s', x') \<Longrightarrow> same k s s' \<Longrightarrow>
      \<exists>s''. meta_Update db k cb (s, x) = Some (Ok (), s'', x') \<and> stored s'' = (stored s')(k \<mapsto> b')"

text \<open>The in-memory database holds everything.\<close>

interpretation msd: metadata_db "metastor_DB_ops (\<lambda>_ db. db)" msd_md "\<lambda>k s s'. msd_md s' k = msd_md s k \<and> version s' k = version s k" "\<lambda>_ _. True"
  by unfold_locales
    (auto simp: metastor_DB_ops_def metastor_Get_def metastor_Set_def metastor_Delete_def put_def version_def metastor_Update.simps split: option.splits)

section \<open>Updates are atomic\<close>

text \<open>Other goroutines that only store entries: what each of them does between two attempts is a list of writes.\<close>

definition put_all :: "(bytes \<times> bytes) list \<Rightarrow> metastor_DB \<Rightarrow> metastor_DB" where
  "put_all = fold (\<lambda>(key, metadata). put key metadata)"

lemma version_put: "version (put k b db) key = (if key = k then version db key + 1 else version db key)"
  by (simp add: version_def put_def)

lemma md_put: "msd_md (put k b db) = (msd_md db)(k \<mapsto> b)"
  by (simp add: put_def)

lemma version_put_all: "version (put_all ws db) key = version db key + of_nat (length (filter (\<lambda>w. fst w = key) ws))"
  by (induction ws arbitrary: db) (auto simp: put_all_def version_put)

lemma put_all_untouched: "filter (\<lambda>w. fst w = key) ws = [] \<Longrightarrow> msd_md (put_all ws db) key = msd_md db key"
  by (induction ws arbitrary: db) (auto simp: put_all_def md_put split: if_splits)

lemma put_all_present: "msd_md db key \<noteq> None \<Longrightarrow> msd_md (put_all ws db) key \<noteq> None"
  by (induction ws arbitrary: db) (auto simp: put_all_def md_put)

lemma put_all_append: "put_all (ws @ vs) db = put_all vs (put_all ws db)"
  by (simp add: put_all_def)

lemma same_version:
  assumes "version (put_all ws db) key = version db key" "length ws < 2 ^ 64"
  shows "filter (\<lambda>w. fst w = key) ws = []"
proof -
  let ?n = "length (filter (\<lambda>w. fst w = key) ws)"
  have "(of_nat ?n :: uint64) = 0" using assms(1) by (simp add: version_put_all)
  moreover have "?n < 2 ^ 64" using assms(2) length_filter_le [of "\<lambda>w. fst w = key" ws] by (rule order_le_less_trans [rotated])
  moreover have "unat (of_nat ?n :: uint64) = ?n mod 2 ^ 64" by (simp add: unat_of_nat)
  ultimately have "?n = 0" by simp
  then show ?thesis by simp
qed

text \<open>
  C8.  \<open>Update\<close> loses no write of another goroutine.  Other goroutines store entries, of this key or of
  others, fewer than \<open>2 ^ 64\<close> during one attempt, while the callback computes the new value from the old
  one.  The update returns as soon as the key is left alone during one attempt, and then it has the
  effect of reading the entry, computing and writing in one step on the database as the others left it.
\<close>

theorem update_atomic:
  assumes cb: "\<And>b db x. cb b (db, x) = (Ok (f b), db, g x)" and present: "msd_md db key \<noteq> None"
    and few: "\<And>i. length (writes i) < 2 ^ 64" and quiet: "key \<notin> fst ` set (writes m)"
  shows "\<exists>j \<le> m. \<exists>b. let db' = put_all (concat (map writes [0..<Suc j])) db in
    msd_md db' key = Some b \<and>
    metastor_Update (\<lambda>i. put_all (writes i)) 0 key cb (db, x) = Some (Ok (), put key (f b) db', (g ^^ Suc j) x)"
proof -
  let ?touched = "\<lambda>i. key \<in> fst ` set (writes i)" and ?db = "\<lambda>i. put_all (concat (map writes [0..<i])) db"
  define j where "j = (LEAST i. \<not> ?touched i)"
  have j: "\<not> ?touched j" "j \<le> m" 
    unfolding j_def using LeastI [of "\<lambda>i. \<not> ?touched i" m] Least_le [of "\<lambda>i. \<not> ?touched i" m] quiet by blast+
  have before: "?touched i" if "i < j" for i using not_less_Least [OF that [unfolded j_def]] by blast
  have next_db: "put_all (writes i) (?db i) = ?db (Suc i)" for i by (simp add: put_all_append)
  have differs: "version (?db (Suc i)) key \<noteq> version (?db i) key" if "i < j" for i
  proof -
    have "filter (\<lambda>w. fst w = key) (writes i) \<noteq> []" using before [OF that] by (auto simp: filter_empty_conv)
    then show ?thesis using same_version [of "writes i" "?db i" key] few [of i] unfolding next_db by blast
  qed
  have same: "version (?db (Suc j)) key = version (?db j) key" "msd_md (?db (Suc j)) key = msd_md (?db j) key"
  proof -
    have "filter (\<lambda>w. fst w = key) (writes j) = []" using j(1) by (auto simp: filter_empty_conv)
    then show "version (?db (Suc j)) key = version (?db j) key" "msd_md (?db (Suc j)) key = msd_md (?db j) key"
      using put_all_untouched version_put_all [of "writes j" "?db j" key] unfolding next_db [symmetric] by simp_all
  qed
  have upd: "i \<le> j \<Longrightarrow> \<exists>b. msd_md (?db j) key = Some b \<and> metastor_Update (\<lambda>i. put_all (writes i)) i key cb (?db i, x') =
      Some (Ok (), put key (f b) (?db (Suc j)), (g ^^ Suc (j - i)) x')" for i x'
  proof (induction "j - i" arbitrary: i x')
    case 0
    then have "i = j" by simp
    moreover obtain b where "msd_md (?db j) key = Some b" using put_all_present [OF present] by blast
    ultimately show ?case using same unfolding next_db [symmetric] by (subst metastor_Update.simps) (simp add: cb)
  next
    case (Suc d)
    then have i: "i < j" "d = j - Suc i" by simp_all
    obtain b where b: "msd_md (?db i) key = Some b" using put_all_present [OF present] by blast
    have "metastor_Update (\<lambda>i. put_all (writes i)) i key cb (?db i, x') = metastor_Update (\<lambda>i. put_all (writes i)) (Suc i) key cb (?db (Suc i), g x')"
      using b differs [OF i(1)] unfolding next_db [symmetric] by (subst metastor_Update.simps) (simp add: cb)
    moreover have "(g ^^ Suc (j - Suc i)) (g x') = (g ^^ Suc (j - i)) x'"
      using i by (metis Suc_diff_Suc comp_apply funpow_Suc_right)
    ultimately show ?case using Suc.hyps(1) [OF i(2), of "g x'"] i(1) by (simp del: upt_Suc funpow.simps)
  qed
  from upd [of 0 x] obtain b where "msd_md (?db j) key = Some b"
    "metastor_Update (\<lambda>i. put_all (writes i)) 0 key cb (db, x) = Some (Ok (), put key (f b) (?db (Suc j)), (g ^^ Suc j) x)"
    by (auto simp: put_all_def)
  with same(2) j(2) show ?thesis by (intro exI [of _ j] conjI exI [of _ b]) (simp_all add: Let_def del: upt_Suc funpow.simps)
qed

theorem update_atomic_witness:
  "metastor_Update (\<lambda>i. put_all (if i = 0 then [([7], [5])] else [])) 0 [7] (\<lambda>b (db, x). (Ok (b @ [1]), db, x :: nat))
     (put [7] [3] metastor_New, 0) =
   (Some (Ok (), put [7] [5, 1] (put_all [([7], [5])] (put [7] [3] metastor_New)), 0) ::
      ((unit meta_error, unit) result \<times> metastor_DB \<times> nat) option)"
proof -
  let ?w = "\<lambda>i :: nat. if i = 0 then [([7], [5])] else [] :: (bytes \<times> bytes) list"
  have few: "length (?w i) < 2 ^ 64" for i by simp
  have "\<exists>j \<le> 1. \<exists>b. let db' = put_all (concat (map ?w [0..<Suc j])) (put [7] [3] metastor_New) in
    msd_md db' [7] = Some b \<and>
    metastor_Update (\<lambda>i. put_all (?w i)) 0 [7] (\<lambda>b (db, x). (Ok (b @ [1]), db, x :: nat)) (put [7] [3] metastor_New, 0) =
    (Some (Ok (), put [7] (b @ [1]) db', ((\<lambda>x. x) ^^ Suc j) 0) :: ((unit meta_error, unit) result \<times> metastor_DB \<times> nat) option)"
    by (rule update_atomic [OF _ _ few]) (simp_all add: put_def)
  then obtain j b where j: "j \<le> 1" and b: "msd_md (put_all (concat (map ?w [0..<Suc j])) (put [7] [3] metastor_New)) [7] = Some b"
    and r: "metastor_Update (\<lambda>i. put_all (?w i)) 0 [7] (\<lambda>b (db, x). (Ok (b @ [1]), db, x :: nat)) (put [7] [3] metastor_New, 0) =
    (Some (Ok (), put [7] (b @ [1]) (put_all (concat (map ?w [0..<Suc j])) (put [7] [3] metastor_New)), ((\<lambda>x. x) ^^ Suc j) 0) ::
      ((unit meta_error, unit) result \<times> metastor_DB \<times> nat) option)" by (auto simp: Let_def)
  have "concat (map ?w [0..<Suc j]) = [([7], [5])]" using j by (cases j) auto
  moreover from this b have "b = [5]" by (simp add: put_all_def md_put)
  moreover have "((\<lambda>x. x) ^^ n) y = y" for n and y :: nat by (induction n) simp_all
  ultimately show ?thesis using r by simp
qed

text \<open>
  The version of an entry is deleted with it.  An entry that is deleted and stored again while the
  callback runs has the version it had, and the update overwrites it: here the value \<open>[9]\<close> is lost.
\<close>

lemma update_aba:
  "map_option (\<lambda>(r, db, x). (r, msd_md db [7]))
     (metastor_Update (\<lambda>i db. put [7] [9] (snd (metastor_Delete [7] db :: (unit meta_error, unit) result \<times> metastor_DB))) 0 [7]
        (\<lambda>b st. (Ok (b @ [1]), st)) (put [7] [3] metastor_New, ())) = Some (Ok () :: (unit meta_error, unit) result, Some [3, 1])"
  by (simp add: metastor_Update.simps put_def version_def metastor_Delete_def metastor_New_def)

end
