(* ===== verification/Processing.thy ===== *)
theory Processing
  imports Type_Registry
begin

text \<open>
  The processors of \<open>client/processing\<close>, which compress and encrypt a chunk on its way to the storage
  and undo it on its way back.

  A processor hands out slices of the buffers it keeps, so what a caller holds may be overwritten
  by a later call: the model has an explicit memory of arrays, a slice is a view (an array and a
  length), and a processor is a value with the addresses of its buffers that every call returns
  updated.  The random source is a pool of bytes in the state.  Sealing and opening with AES-GCM and
  the three compression codecs are the parameters of a record; what is assumed of them is
  \<open>codecs_ok\<close>.
\<close>

section \<open>Memory\<close>

type_synonym addr = nat
type_synonym memory = "bytes list"
type_synonym view = "addr \<times> nat"

definition contents :: "memory \<Rightarrow> view \<Rightarrow> bytes" where
  "contents m v = take (snd v) (m ! fst v)"

definition new_array :: "bytes \<Rightarrow> memory \<Rightarrow> addr \<times> memory" where
  "new_array b m = (length m, m @ [b])"

definition store_at :: "addr \<Rightarrow> nat \<Rightarrow> bytes \<Rightarrow> memory \<Rightarrow> memory" where
  "store_at a i b m = m[a := copy_at i (m ! a) b]"

record pstate =
  ps_mem :: memory
  ps_rand :: bytes

text \<open>The length of a slice that may be nil.\<close>

definition len_slice :: "memory \<Rightarrow> addr option \<Rightarrow> nat" where
  "len_slice m b = (case b of None \<Rightarrow> 0 | Some a \<Rightarrow> length (m ! a))"

text \<open>
  \<open>append\<close> to the first \<open>n\<close> bytes of an array: in place when they fit, into a new array otherwise.
\<close>

definition append_view :: "addr \<Rightarrow> nat \<Rightarrow> bytes \<Rightarrow> memory \<Rightarrow> view \<times> memory" where
  "append_view a n b m =
     (if n + length b \<le> length (m ! a) then ((a, n + length b), store_at a n b m)
      else case new_array (take n (m ! a) @ b) m of (a', m') \<Rightarrow> ((a', n + length b), m'))"

section \<open>Codecs\<close>

datatype compressor = Snappy | LZ4 | GZip int

record codecs =
  gcm_Seal :: "bytes \<Rightarrow> bytes \<Rightarrow> bytes \<Rightarrow> bytes"
  gcm_Open :: "bytes \<Rightarrow> bytes \<Rightarrow> bytes \<Rightarrow> (string, bytes) result"
  compress :: "compressor \<Rightarrow> bytes \<Rightarrow> (string, bytes) result"
  decompress :: "compressor \<Rightarrow> bytes \<Rightarrow> (string, bytes) result"

definition gcm_NonceSize :: nat where "gcm_NonceSize = 12"

definition gcm_Overhead :: nat where "gcm_Overhead = 16"

text \<open>
  Sealing adds the tag, opening what was sealed with the same key and nonce gives the plain text,
  decompressing what was compressed with the same codec gives the input, and compressed data
  always has a header.
\<close>

definition codecs_ok :: "codecs \<Rightarrow> bool" where
  "codecs_ok lib \<longleftrightarrow>
     (\<forall>key nonce p. length (gcm_Seal lib key nonce p) = length p + gcm_Overhead \<and>
        gcm_Open lib key nonce (gcm_Seal lib key nonce p) = Ok p) \<and>
     (\<forall>c x y. compress lib c x = Ok y \<longrightarrow> y \<noteq> [] \<and> decompress lib c y = Ok x)"

section \<open>The AES processor (crypto.go)\<close>

record AESEncrypterDecrypter =
  gcm_key :: bytes
  readBuffer :: "addr option"
  writeBuffer :: "addr option"
  nonceSize :: nat
  cipherOverhead :: nat

definition NewAESEncrypterDecrypter :: "bytes \<Rightarrow> (string, AESEncrypterDecrypter) result" where
  "NewAESEncrypterDecrypter privateKey =
     (if length privateKey \<notin> {16, 24, 32} then Err ''crypto/aes: invalid key size''
      else Ok \<lparr>gcm_key = privateKey, readBuffer = None, writeBuffer = None, nonceSize = gcm_NonceSize,
        cipherOverhead = gcm_NonceSize + gcm_Overhead\<rparr>)"

text \<open>Both buffers grow in the same way.\<close>

definition grow :: "nat \<Rightarrow> addr option \<Rightarrow> memory \<Rightarrow> addr option \<times> memory" where
  "grow need buf m =
     (if len_slice m buf < need
      then case new_array (replicate (len_slice m buf * 2 + need) 0) m of (a, m') \<Rightarrow> (Some a, m')
      else (buf, m))"

definition aes_WriteProcess ::
  "codecs \<Rightarrow> AESEncrypterDecrypter \<Rightarrow> view \<Rightarrow> pstate \<Rightarrow> (string, view) result \<times> AESEncrypterDecrypter \<times> pstate" where
  "aes_WriteProcess lib ed plain st =
     (case grow (snd plain + cipherOverhead ed) (writeBuffer ed) (ps_mem st) of
        (None, m) \<Rightarrow> (Panic, ed, st\<lparr>ps_mem := m\<rparr>)
      | (Some a, m) \<Rightarrow>
          let ed' = ed\<lparr>writeBuffer := Some a\<rparr>; n = nonceSize ed; nonce = take n (ps_rand st);
              m = store_at a 0 nonce m; st = st\<lparr>ps_rand := drop n (ps_rand st)\<rparr> in
          if length nonce < n then (Err ''unexpected EOF'', ed', st\<lparr>ps_mem := m\<rparr>)
          else case append_view a n (gcm_Seal lib (gcm_key ed) nonce (contents m plain)) m of
            (v, m) \<Rightarrow> (Ok v, ed', st\<lparr>ps_mem := m\<rparr>))"

text \<open>A ciphertext that cannot be opened leaves zeroes in the buffer.\<close>

definition aes_ReadProcess ::
  "codecs \<Rightarrow> AESEncrypterDecrypter \<Rightarrow> view \<Rightarrow> pstate \<Rightarrow> (string, view) result \<times> AESEncrypterDecrypter \<times> pstate" where
  "aes_ReadProcess lib ed cipher st =
     (case grow (snd cipher) (readBuffer ed) (ps_mem st) of
        (buf, m) \<Rightarrow>
          let ed' = ed\<lparr>readBuffer := buf\<rparr>; n = nonceSize ed; c = contents m cipher in
          if snd cipher \<le> n then (Err ''malformed ciphertext'', ed', st\<lparr>ps_mem := m\<rparr>)
          else case buf of
            None \<Rightarrow> (Panic, ed', st\<lparr>ps_mem := m\<rparr>)
          | Some a \<Rightarrow>
              (case gcm_Open lib (gcm_key ed) (take n c) (drop n c) of
                 Ok plain \<Rightarrow> (case append_view a 0 plain m of (v, m) \<Rightarrow> (Ok v, ed', st\<lparr>ps_mem := m\<rparr>))
               | Err e \<Rightarrow> (Err e, ed', st\<lparr>ps_mem := store_at a 0 (replicate (snd cipher - cipherOverhead ed) 0) m\<rparr>)
               | Panic \<Rightarrow> (Panic, ed', st\<lparr>ps_mem := m\<rparr>)))"

section \<open>The compressing processors (compress.go)\<close>

record CompressorDecompressor =
  cd_codec :: compressor
  cd_readBuffer :: addr
  cd_writeBuffer :: addr

text \<open>\<open>bytes.NewBuffer(nil)\<close> twice.\<close>

definition new_compressor :: "compressor \<Rightarrow> memory \<Rightarrow> CompressorDecompressor \<times> memory" where
  "new_compressor c m =
     (\<lparr>cd_codec = c, cd_readBuffer = length m, cd_writeBuffer = Suc (length m)\<rparr>, m @ [[], []])"

definition NewSnappyCompressorDecompressor :: "CompressionMode \<Rightarrow> memory \<Rightarrow> CompressorDecompressor \<times> memory" where
  "NewSnappyCompressorDecompressor cm = new_compressor Snappy"

definition NewLZ4CompressorDecompressor :: "CompressionMode \<Rightarrow> memory \<Rightarrow> CompressorDecompressor \<times> memory" where
  "NewLZ4CompressorDecompressor cm = new_compressor LZ4"

definition GZipCompressionModeMapping :: "CompressionMode \<rightharpoonup> int" where
  "GZipCompressionModeMapping =
     [CompressionModeBestSpeed \<mapsto> 1, CompressionModeBestCompression \<mapsto> 9, CompressionModeDefault \<mapsto> - 1]"

definition NewGZipCompressorDecompressor :: "CompressionMode \<Rightarrow> memory \<Rightarrow> CompressorDecompressor \<times> memory" where
  "NewGZipCompressorDecompressor cm =
     (let level = (case GZipCompressionModeMapping cm of
          Some l \<Rightarrow> l
        | None \<Rightarrow> (case GZipCompressionModeMapping CompressionModeDefault of Some l \<Rightarrow> l | None \<Rightarrow> 0)) in
      new_compressor (GZip level))"

text \<open>
  The three processors reset a buffer, run the codec into it and return its bytes; a \<open>bytes.Buffer\<close>
  keeps its array across \<open>Reset\<close> and moves to a new one when it has to grow.
\<close>

definition cd_WriteProcess ::
  "codecs \<Rightarrow> CompressorDecompressor \<Rightarrow> view \<Rightarrow> pstate \<Rightarrow> (string, view) result \<times> CompressorDecompressor \<times> pstate" where
  "cd_WriteProcess lib cd data st =
     (case compress lib (cd_codec cd) (contents (ps_mem st) data) of
        Ok out \<Rightarrow>
          (case append_view (cd_writeBuffer cd) 0 out (ps_mem st) of
             (v, m) \<Rightarrow> (Ok v, cd\<lparr>cd_writeBuffer := fst v\<rparr>, st\<lparr>ps_mem := m\<rparr>))
      | Err e \<Rightarrow> (Err e, cd, st)
      | Panic \<Rightarrow> (Panic, cd, st))"

definition cd_ReadProcess ::
  "codecs \<Rightarrow> CompressorDecompressor \<Rightarrow> view \<Rightarrow> pstate \<Rightarrow> (string, view) result \<times> CompressorDecompressor \<times> pstate" where
  "cd_ReadProcess lib cd data st =
     (case decompress lib (cd_codec cd) (contents (ps_mem st) data) of
        Ok out \<Rightarrow>
          (case append_view (cd_readBuffer cd) 0 out (ps_mem st) of
             (v, m) \<Rightarrow> (Ok v, cd\<lparr>cd_readBuffer := fst v\<rparr>, st\<lparr>ps_mem := m\<rparr>))
      | Err e \<Rightarrow> (Err e, cd, st)
      | Panic \<Rightarrow> (Panic, cd, st))"

section \<open>Processors and chains of them (processor.go)\<close>

datatype processor =
    NopProcessor
  | AESProcessor AESEncrypterDecrypter
  | CompressProcessor CompressorDecompressor
  | ProcessorChain "processor list"

definition NewProcessorChain :: "processor list \<Rightarrow> (string, processor) result" where
  "NewProcessorChain processors = (if length processors < 2 then Panic else Ok (ProcessorChain processors))"

text \<open>A chain stops at the first error; the processors it has called keep their new buffers.\<close>

fun WriteProcess :: "codecs \<Rightarrow> processor \<Rightarrow> view \<Rightarrow> pstate \<Rightarrow> (string, view) result \<times> processor \<times> pstate"
  and chain_write :: "codecs \<Rightarrow> processor list \<Rightarrow> view \<Rightarrow> pstate \<Rightarrow> (string, view) result \<times> processor list \<times> pstate" where
  "WriteProcess lib NopProcessor data st = (Ok data, NopProcessor, st)"
| "WriteProcess lib (AESProcessor ed) data st =
     (case aes_WriteProcess lib ed data st of (r, ed', st') \<Rightarrow> (r, AESProcessor ed', st'))"
| "WriteProcess lib (CompressProcessor cd) data st =
     (case cd_WriteProcess lib cd data st of (r, cd', st') \<Rightarrow> (r, CompressProcessor cd', st'))"
| "WriteProcess lib (ProcessorChain ps) data st =
     (case chain_write lib ps data st of (r, ps', st') \<Rightarrow> (r, ProcessorChain ps', st'))"
| "chain_write lib [] data st = (Ok data, [], st)"
| "chain_write lib (p # ps) data st =
     (case WriteProcess lib p data st of
        (Ok data', p', st') \<Rightarrow> (case chain_write lib ps data' st' of (r, ps', st'') \<Rightarrow> (r, p' # ps', st''))
      | (r, p', st') \<Rightarrow> (r, p' # ps, st'))"

text \<open>Reading runs from the last processor to the first.\<close>

fun ReadProcess :: "codecs \<Rightarrow> processor \<Rightarrow> view \<Rightarrow> pstate \<Rightarrow> (string, view) result \<times> processor \<times> pstate"
  and chain_read :: "codecs \<Rightarrow> processor list \<Rightarrow> view \<Rightarrow> pstate \<Rightarrow> (string, view) result \<times> processor list \<times> pstate" where
  "ReadProcess lib NopProcessor data st = (Ok data, NopProcessor, st)"
| "ReadProcess lib (AESProcessor ed) data st =
     (case aes_ReadProcess lib ed data st of (r, ed', st') \<Rightarrow> (r, AESProcessor ed', st'))"
| "ReadProcess lib (CompressProcessor cd) data st =
     (case cd_ReadProcess lib cd data st of (r, cd', st') \<Rightarrow> (r, CompressProcessor cd', st'))"
| "ReadProcess lib (ProcessorChain ps) data st =
     (case chain_read lib ps data st of (r, ps', st') \<Rightarrow> (r, ProcessorChain ps', st'))"
| "chain_read lib [] data st = (Ok data, [], st)"
| "chain_read lib (p # ps) data st =
     (case chain_read lib ps data st of
        (Ok data', ps', st') \<Rightarrow> (case ReadProcess lib p data' st' of (r, p', st'') \<Rightarrow> (r, p' # ps', st''))
      | (r, ps', st') \<Rightarrow> (r, p # ps', st'))"

text \<open>A chain answers for its last processor in the write direction, for its first in the read direction.\<close>

fun SharedWriteBuffer :: "processor \<Rightarrow> bool" where
  "SharedWriteBuffer NopProcessor = False"
| "SharedWriteBuffer (AESProcessor ed) = True"
| "SharedWriteBuffer (CompressProcessor cd) = True"
| "SharedWriteBuffer (ProcessorChain ps) = (case rev (map SharedWriteBuffer ps) of [] \<Rightarrow> False | b # _ \<Rightarrow> b)"

fun SharedReadBuffer :: "processor \<Rightarrow> bool" where
  "SharedReadBuffer NopProcessor = False"
| "SharedReadBuffer (AESProcessor ed) = True"
| "SharedReadBuffer (CompressProcessor cd) = True"
| "SharedReadBuffer (ProcessorChain ps) = (case map SharedReadBuffer ps of [] \<Rightarrow> False | b # _ \<Rightarrow> b)"


section \<open>Construction (compress.go, crypto.go and pipeline/config.go)\<close>

type_synonym processor_constructor = "(memory, string, processor) op"

definition NewCompressorDecompressor ::
  "(CompressionMode \<Rightarrow> processor_constructor) registry \<Rightarrow> enum \<Rightarrow> CompressionMode \<Rightarrow> processor_constructor" where
  "NewCompressorDecompressor reg ct mode m =
     (case value_to_constructor reg ct of
        None \<Rightarrow> (Err ''not a valid/registered CompressionType value'', m)
      | Some cdc \<Rightarrow> cdc mode m)"

definition NewEncrypterDecrypter ::
  "(bytes \<Rightarrow> processor_constructor) registry \<Rightarrow> enum \<Rightarrow> bytes \<Rightarrow> processor_constructor" where
  "NewEncrypterDecrypter reg et privateKey m =
     (case value_to_constructor reg et of
        None \<Rightarrow> (Err ''not a valid/registered EncryptionType value'', m)
      | Some edc \<Rightarrow> edc privateKey m)"

text \<open>What the packages register.\<close>

definition compression_types :: "(CompressionMode \<Rightarrow> processor_constructor) registry" where
  "compression_types = snd (compress_init
     (\<lambda>mode m. case NewSnappyCompressorDecompressor mode m of (cd, m) \<Rightarrow> (Ok (CompressProcessor cd), m))
     (\<lambda>mode m. case NewLZ4CompressorDecompressor mode m of (cd, m) \<Rightarrow> (Ok (CompressProcessor cd), m))
     (\<lambda>mode m. case NewGZipCompressorDecompressor mode m of (cd, m) \<Rightarrow> (Ok (CompressProcessor cd), m))
     no_types)"

definition encryption_types :: "(bytes \<Rightarrow> processor_constructor) registry" where
  "encryption_types = snd (encrypt_init
     (\<lambda>key m. (rbind (NewAESEncrypterDecrypter key) (\<lambda>ed. Ok (AESProcessor ed)), m)) no_types)"

record CompressionConfig =
  comp_Mode :: CompressionMode
  comp_Type :: enum

record EncryptionConfig =
  enc_PrivateKey :: string
  enc_Type :: enum

definition NewProcessorConstructor :: "CompressionConfig \<Rightarrow> EncryptionConfig \<Rightarrow> processor_constructor" where
  "NewProcessorConstructor compression encryption m =
     (if comp_Mode compression = CompressionModeDisabled then
        if enc_PrivateKey encryption = [] then (Ok NopProcessor, m)
        else NewEncrypterDecrypter encryption_types (enc_Type encryption) (ascii (enc_PrivateKey encryption)) m
      else if enc_PrivateKey encryption = [] then
        NewCompressorDecompressor compression_types (comp_Type compression) (comp_Mode compression) m
      else
        obind (NewCompressorDecompressor compression_types (comp_Type compression) (comp_Mode compression) m) (\<lambda>cd m.
        obind (NewEncrypterDecrypter encryption_types (enc_Type encryption) (ascii (enc_PrivateKey encryption)) m) (\<lambda>ed m.
          (NewProcessorChain [cd, ed], m))))"

section \<open>The loops of the pipeline's processor goroutines\<close>

text \<open>
  One goroutine: its inputs arrive in arrays of their own, and what it sends on is a copy when the
  processor says that it shares its buffer.
\<close>

definition copy_out :: "bool \<Rightarrow> view \<Rightarrow> pstate \<Rightarrow> view \<times> pstate" where
  "copy_out shared v st =
     (if shared then case new_array (contents (ps_mem st) v) (ps_mem st) of (a, m) \<Rightarrow> ((a, snd v), st\<lparr>ps_mem := m\<rparr>)
      else (v, st))"

fun process_loop ::
  "(processor \<Rightarrow> view \<Rightarrow> pstate \<Rightarrow> (string, view) result \<times> processor \<times> pstate) \<Rightarrow> (processor \<Rightarrow> bool) \<Rightarrow>
   processor \<Rightarrow> bytes list \<Rightarrow> pstate \<Rightarrow> (string, view list) result \<times> processor \<times> pstate" where
  "process_loop step shared p [] st = (Ok [], p, st)"
| "process_loop step shared p (x # xs) st =
     (case new_array x (ps_mem st) of
        (a, m) \<Rightarrow>
          (case step p (a, length x) (st\<lparr>ps_mem := m\<rparr>) of
             (Ok v, p, st) \<Rightarrow>
               (case copy_out (shared p) v st of
                  (v, st) \<Rightarrow>
                    (case process_loop step shared p xs st of
                       (Ok vs, p, st) \<Rightarrow> (Ok (v # vs), p, st)
                     | (r, p, st) \<Rightarrow> (r, p, st)))
           | (Err e, p, st) \<Rightarrow> (Err e, p, st)
           | (Panic, p, st) \<Rightarrow> (Panic, p, st)))"

definition write_loop :: "codecs \<Rightarrow> processor \<Rightarrow> bytes list \<Rightarrow> pstate \<Rightarrow> (string, view list) result \<times> processor \<times> pstate" where
  "write_loop lib = process_loop (WriteProcess lib) SharedWriteBuffer"

definition read_loop :: "codecs \<Rightarrow> processor \<Rightarrow> bytes list \<Rightarrow> pstate \<Rightarrow> (string, view list) result \<times> processor \<times> pstate" where
  "read_loop lib = process_loop (ReadProcess lib) SharedReadBuffer"

section \<open>What a call does to the memory\<close>

fun owned :: "processor \<Rightarrow> addr list" where
  "owned NopProcessor = []"
| "owned (AESProcessor ed) = (case readBuffer ed of None \<Rightarrow> [] | Some a \<Rightarrow> [a]) @ (case writeBuffer ed of None \<Rightarrow> [] | Some a \<Rightarrow> [a])"
| "owned (CompressProcessor cd) = [cd_readBuffer cd, cd_writeBuffer cd]"
| "owned (ProcessorChain ps) = concat (map owned ps)"

text \<open>The processor without its buffers: what it was configured with.\<close>

fun shape :: "processor \<Rightarrow> processor" where
  "shape NopProcessor = NopProcessor"
| "shape (AESProcessor ed) = AESProcessor (ed\<lparr>readBuffer := None, writeBuffer := None\<rparr>)"
| "shape (CompressProcessor cd) = CompressProcessor (cd\<lparr>cd_readBuffer := 0, cd_writeBuffer := 0\<rparr>)"
| "shape (ProcessorChain ps) = ProcessorChain (map shape ps)"

fun configured :: "processor \<Rightarrow> bool" where
  "configured (AESProcessor ed) \<longleftrightarrow> nonceSize ed = gcm_NonceSize \<and> cipherOverhead ed = gcm_NonceSize + gcm_Overhead"
| "configured (ProcessorChain ps) \<longleftrightarrow> list_all configured ps"
| "configured _ \<longleftrightarrow> True"

text \<open>The stored forms of a chunk: one for each nonce.\<close>

fun encodes :: "codecs \<Rightarrow> processor \<Rightarrow> bytes \<Rightarrow> bytes \<Rightarrow> bool"
  and chain_encodes :: "codecs \<Rightarrow> processor list \<Rightarrow> bytes \<Rightarrow> bytes \<Rightarrow> bool" where
  "encodes lib NopProcessor x y \<longleftrightarrow> x = y"
| "encodes lib (AESProcessor ed) x y \<longleftrightarrow>
     (\<exists>nonce. length nonce = nonceSize ed \<and> y = nonce @ gcm_Seal lib (gcm_key ed) nonce x)"
| "encodes lib (CompressProcessor cd) x y \<longleftrightarrow> compress lib (cd_codec cd) x = Ok y"
| "encodes lib (ProcessorChain ps) x y \<longleftrightarrow> chain_encodes lib ps x y"
| "chain_encodes lib [] x y \<longleftrightarrow> x = y"
| "chain_encodes lib (p # ps) x y \<longleftrightarrow> (\<exists>z. encodes lib p x z \<and> chain_encodes lib ps z y)"

lemma encodes_shape: "encodes lib (shape p) = encodes lib p" "chain_encodes lib (map shape ps) = chain_encodes lib ps"
proof -
  have "encodes lib (shape p) x y = encodes lib p x y"
    "chain_encodes lib (map shape ps) x y = chain_encodes lib ps x y" for x y
    by (induction lib p x y and lib ps x y rule: encodes_chain_encodes.induct) auto
  then show "encodes lib (shape p) = encodes lib p" "chain_encodes lib (map shape ps) = chain_encodes lib ps"
    by (intro ext; simp)+
qed

definition view_ok :: "memory \<Rightarrow> view \<Rightarrow> bool" where
  "view_ok m v \<longleftrightarrow> fst v < length m \<and> snd v \<le> length (m ! fst v)"

definition buffers_ok :: "addr list \<Rightarrow> memory \<Rightarrow> bool" where
  "buffers_ok own m \<longleftrightarrow> distinct own \<and> (\<forall>a\<in>set own. a < length m)"

text \<open>
  A call changes no array that it does not own, owns afterwards what it owned before or has
  allocated, and returns its input or one of its own buffers.
\<close>

definition good_step ::
  "addr list \<Rightarrow> (bytes \<Rightarrow> bool) \<Rightarrow> view \<Rightarrow> memory \<Rightarrow> (string, view) result \<Rightarrow> addr list \<Rightarrow> memory \<Rightarrow> bool" where
  "good_step own out v m r own' m' \<longleftrightarrow>
     length m \<le> length m' \<and> (\<forall>a < length m. a \<notin> set own \<longrightarrow> m' ! a = m ! a) \<and>
     distinct own' \<and> set own' \<subseteq> set own \<union> {length m..<length m'} \<and>
     (\<forall>v'. r = Ok v' \<longrightarrow> view_ok m' v' \<and> fst v' \<in> insert (fst v) (set own') \<and> out (contents m' v'))"

lemma good_step_buffers: "buffers_ok own m \<Longrightarrow> good_step own out v m r own' m' \<Longrightarrow> buffers_ok own' m'"
  by (fastforce simp: buffers_ok_def good_step_def)

lemma good_step_contents:
  "good_step own out v m r own' m' \<Longrightarrow> view_ok m u \<Longrightarrow> fst u \<notin> set own \<Longrightarrow> view_ok m' u \<and> contents m' u = contents m u"
  by (fastforce simp: good_step_def view_ok_def contents_def)

lemma good_step_swap: "good_step (a @ b) out v m r (a' @ b') m' = good_step (b @ a) out v m r (b' @ a') m'"
  by (auto simp: good_step_def)

lemma good_step_weaken:
  "good_step own out v m r own' m' \<Longrightarrow> (\<And>x. out x \<Longrightarrow> out' x) \<Longrightarrow> good_step own out' v m r own' m'"
  by (auto simp: good_step_def)

lemma own_disjoint:
  assumes "buffers_ok (own1 @ own2) m" "set own1' \<subseteq> set own1 \<union> {length m..<k}" "set own2' \<subseteq> set own2 \<union> {k..<k'}"
    and "length m \<le> k"
  shows "set own1' \<inter> set own2' = {}"
proof -
  have "False" if "a \<in> set own1'" "a \<in> set own2'" for a
  proof -
    from that assms(2,3) have a: "a \<in> set own1 \<or> length m \<le> a \<and> a < k" "a \<in> set own2 \<or> k \<le> a" by auto
    from assms(1) have "a \<in> set own1 \<Longrightarrow> a < length m \<and> a \<notin> set own2" "a \<in> set own2 \<Longrightarrow> a < length m"
      by (auto simp: buffers_ok_def)
    with a assms(4) show False by linarith
  qed
  then show ?thesis by blast
qed

lemma good_step_comp:
  assumes own: "buffers_ok (own1 @ own2) m"
    and 1: "good_step own1 out1 v m (Ok z) own1' m1"
    and 2: "good_step own2 out2 z m1 r own2' m2"
  shows "good_step (own1 @ own2) out2 v m r (own1' @ own2') m2"
proof -
  have le: "length m \<le> length m1" "length m1 \<le> length m2"
    and sub: "set own1' \<subseteq> set own1 \<union> {length m..<length m1}" "set own2' \<subseteq> set own2 \<union> {length m1..<length m2}"
    and z: "fst z \<in> insert (fst v) (set own1')"
    using 1 2 by (simp_all add: good_step_def)
  have "m2 ! a = m ! a" if "a < length m" "a \<notin> set own1" "a \<notin> set own2" for a
    using that 1 2 le(1) by (simp add: good_step_def)
  moreover have "set own1' \<inter> set own2' = {}" by (rule own_disjoint [OF own sub le(1)])
  moreover have "set (own1' @ own2') \<subseteq> set (own1 @ own2) \<union> {length m..<length m2}"
    using sub le by fastforce
  moreover have "distinct own1'" "distinct own2'" using 1 2 by (simp_all add: good_step_def)
  moreover have "view_ok m2 v' \<and> fst v' \<in> insert (fst v) (set (own1' @ own2')) \<and> out2 (contents m2 v')" if "r = Ok v'" for v'
    using that 2 z by (auto simp: good_step_def)
  ultimately show ?thesis unfolding good_step_def using le by simp
qed

lemma good_step_fail:
  assumes own: "buffers_ok (own1 @ own2) m"
    and 1: "good_step own1 out1 v m r own1' m1" and r: "\<forall>v'. r \<noteq> Ok v'"
  shows "good_step (own1 @ own2) out2 v m r (own1' @ own2) m1"
proof -
  have sub: "set own1' \<subseteq> set own1 \<union> {length m..<length m1}" "length m \<le> length m1" "distinct own1'"
    using 1 by (simp_all add: good_step_def)
  have "set own1' \<inter> set own2 = {}" using own_disjoint [OF own sub(1) _ sub(2), of own2 "length m1"] by blast
  moreover have "distinct own2" using own by (simp add: buffers_ok_def)
  moreover have "\<forall>a < length m. a \<notin> set (own1 @ own2) \<longrightarrow> m1 ! a = m ! a" using 1 by (simp add: good_step_def)
  ultimately show ?thesis unfolding good_step_def using sub r by auto
qed


section \<open>Single processors\<close>

lemma copy_at_fits: "i + length b \<le> length xs \<Longrightarrow> copy_at i xs b = take i xs @ b @ drop (i + length b) xs"
  by (simp add: copy_at_def go_copy_prefix add.commute)

lemma length_store_at [simp]: "length (store_at a i b m) = length m"
  by (simp add: store_at_def)

lemma store_at_nth: "a < length m \<Longrightarrow> store_at a i b m ! a' = (if a' = a then copy_at i (m ! a) b else m ! a')"
  by (simp add: store_at_def nth_list_update)

lemma append_view_fits:
  assumes "a < length m" "n + length b \<le> length (m ! a)"
  shows "\<exists>m'. append_view a n b m = ((a, n + length b), m') \<and> length m' = length m \<and>
    length (m' ! a) = length (m ! a) \<and> (\<forall>a'. a' \<noteq> a \<longrightarrow> m' ! a' = m ! a') \<and>
    contents m' (a, n + length b) = take n (m ! a) @ b"
  using assms by (auto simp: append_view_def store_at_nth contents_def copy_at_fits)

lemma append_view_0:
  assumes "append_view a 0 b m = (v, m')" "a < length m"
  shows "contents m' v = b \<and> view_ok m' v \<and> length m \<le> length m' \<and>
    (fst v = a \<or> fst v = length m \<and> length m < length m') \<and> (\<forall>a'<length m. a' \<noteq> a \<longrightarrow> m' ! a' = m ! a')"
proof (cases "length b \<le> length (m ! a)")
  case True
  with assms append_view_fits [of a m 0 b] show ?thesis by (auto simp: view_ok_def)
next
  case False
  with assms have "m' = m @ [b]" "v = (length m, length b)" by (auto simp: append_view_def new_array_def)
  then show ?thesis by (simp add: contents_def view_ok_def nth_append)
qed

lemma grow_spec:
  assumes "grow need buf m = (b, m')" "0 < need" "\<And>a. buf = Some a \<Longrightarrow> a < length m"
  shows "\<exists>a. b = Some a \<and> a < length m' \<and> need \<le> length (m' ! a) \<and> length m \<le> length m' \<and>
    (\<forall>a<length m. m' ! a = m ! a) \<and> (buf = Some a \<or> a = length m \<and> length m < length m')"
proof (cases "len_slice m buf < need")
  case True
  with assms(1) have "b = Some (length m)" "m' = m @ [replicate (len_slice m buf * 2 + need) 0]"
    by (auto simp: grow_def new_array_def)
  then show ?thesis by (simp add: nth_append)
next
  case False
  with assms show ?thesis by (cases buf) (auto simp: grow_def len_slice_def)
qed

lemma cd_write_step:
  assumes "cd_WriteProcess lib cd v st = (r, cd', st')" "buffers_ok (owned (CompressProcessor cd)) (ps_mem st)" "view_ok (ps_mem st) v"
  shows "good_step (owned (CompressProcessor cd)) (encodes lib (CompressProcessor cd) (contents (ps_mem st) v)) v (ps_mem st) r
      (owned (CompressProcessor cd')) (ps_mem st') \<and> shape (CompressProcessor cd') = shape (CompressProcessor cd)"
proof (cases "compress lib (cd_codec cd) (contents (ps_mem st) v)")
  case (Ok out)
  obtain u m' where ap: "append_view (cd_writeBuffer cd) 0 out (ps_mem st) = (u, m')" by fastforce
  with assms(1) Ok have res: "r = result.Ok u" "cd' = cd\<lparr>cd_writeBuffer := fst u\<rparr>" "ps_mem st' = m'"
    by (auto simp: cd_WriteProcess_def)
  from assms(2) have "cd_writeBuffer cd < length (ps_mem st)" "cd_readBuffer cd < length (ps_mem st)"
    "cd_readBuffer cd \<noteq> cd_writeBuffer cd" by (simp_all add: buffers_ok_def)
  with append_view_0 [OF ap] Ok res show ?thesis by (auto simp: good_step_def)
qed (use assms in \<open>auto simp: cd_WriteProcess_def good_step_def buffers_ok_def\<close>)

lemma cd_read_step:
  assumes "cd_ReadProcess lib cd v st = (r, cd', st')" "buffers_ok (owned (CompressProcessor cd)) (ps_mem st)" "view_ok (ps_mem st) v"
    and "codecs_ok lib" "encodes lib (CompressProcessor cd) x (contents (ps_mem st) v)"
  shows "good_step (owned (CompressProcessor cd)) (\<lambda>y. y = x) v (ps_mem st) r (owned (CompressProcessor cd')) (ps_mem st') \<and>
    shape (CompressProcessor cd') = shape (CompressProcessor cd) \<and> (\<exists>u. r = Ok u)"
proof -
  have out: "decompress lib (cd_codec cd) (contents (ps_mem st) v) = Ok x"
    using assms(4,5) by (auto simp: codecs_ok_def)
  obtain u m' where ap: "append_view (cd_readBuffer cd) 0 x (ps_mem st) = (u, m')" by fastforce
  with assms(1) out have res: "r = result.Ok u" "cd' = cd\<lparr>cd_readBuffer := fst u\<rparr>" "ps_mem st' = m'"
    by (auto simp: cd_ReadProcess_def)
  from assms(2) have "cd_writeBuffer cd < length (ps_mem st)" "cd_readBuffer cd < length (ps_mem st)"
    "cd_readBuffer cd \<noteq> cd_writeBuffer cd" by (simp_all add: buffers_ok_def)
  with append_view_0 [OF ap] res show ?thesis by (auto simp: good_step_def)
qed

lemma aes_write_step:
  assumes run: "aes_WriteProcess lib ed v st = (r, ed', st')" and own: "buffers_ok (owned (AESProcessor ed)) (ps_mem st)"
    and v: "view_ok (ps_mem st) v" "fst v \<notin> set (owned (AESProcessor ed))"
    and lib: "codecs_ok lib" "configured (AESProcessor ed)"
  shows "good_step (owned (AESProcessor ed)) (encodes lib (AESProcessor ed) (contents (ps_mem st) v)) v (ps_mem st) r
      (owned (AESProcessor ed')) (ps_mem st') \<and> shape (AESProcessor ed') = shape (AESProcessor ed)"
proof -
  let ?m = "ps_mem st" and ?n = "nonceSize ed" and ?need = "snd v + cipherOverhead ed"
  obtain b m1 where grow: "grow ?need (writeBuffer ed) ?m = (b, m1)" by fastforce
  have need: "0 < ?need" using lib(2) by (simp add: gcm_NonceSize_def)
  have "a < length ?m" if "writeBuffer ed = Some a" for a using own that by (simp add: buffers_ok_def)
  from grow_spec [OF grow need this] obtain a where a: "b = Some a" "a < length m1" "?need \<le> length (m1 ! a)"
    "length ?m \<le> length m1" "\<forall>a<length ?m. m1 ! a = ?m ! a" "writeBuffer ed = Some a \<or> a = length ?m \<and> length ?m < length m1"
    by blast
  let ?nonce = "take ?n (ps_rand st)" and ?m2 = "store_at a 0 (take ?n (ps_rand st)) m1"
  have ed': "ed' = ed\<lparr>writeBuffer := Some a\<rparr>"
    using run grow a(1) by (auto simp: aes_WriteProcess_def Let_def split: if_splits prod.splits)
  have fstv: "fst v \<noteq> a" using a(6) v by (auto simp: view_ok_def)
  have same: "contents ?m2 v = contents ?m v"
    using fstv a(2,5) v(1) by (simp add: contents_def store_at_nth view_ok_def)
  have own': "distinct (owned (AESProcessor ed'))" "set (owned (AESProcessor ed')) \<subseteq> set (owned (AESProcessor ed)) \<union> {length ?m..<length m1}"
    "a \<in> set (owned (AESProcessor ed'))"
    using own a(6) by (auto simp: ed' buffers_ok_def split: option.splits)
  have keep: "\<forall>a'<length ?m. a' \<notin> set (owned (AESProcessor ed)) \<longrightarrow> ?m2 ! a' = ?m ! a'"
    using a(2,5,6) by (auto simp: store_at_nth split: option.splits)
  have shape: "shape (AESProcessor ed') = shape (AESProcessor ed)" by (simp add: ed')
  show ?thesis
  proof (cases "length (ps_rand st) < ?n")
    case True
    with run grow a(1) have "r = Err ''unexpected EOF''" "ps_mem st' = ?m2"
      by (auto simp: aes_WriteProcess_def Let_def)
    with own' keep a(4) shape show ?thesis by (simp add: good_step_def)
  next
    case False
    then have n: "length ?nonce = ?n" by simp
    let ?c = "gcm_Seal lib (gcm_key ed) ?nonce (contents ?m v)"
    have len: "length (contents ?m v) = snd v" using v(1) by (simp add: contents_def view_ok_def)
    have fits: "?n + length ?c \<le> length (?m2 ! a)"
      using a(2,3) lib len by (simp add: store_at_nth codecs_ok_def)
    have head: "take ?n (?m2 ! a) = ?nonce"
      using a(2,3) n lib by (simp add: store_at_nth copy_at_fits)
    obtain m3 where ap: "append_view a ?n ?c ?m2 = ((a, ?n + length ?c), m3)" "length m3 = length m1"
      "length (m3 ! a) = length (?m2 ! a)" "\<forall>a'. a' \<noteq> a \<longrightarrow> m3 ! a' = ?m2 ! a'"
      "contents m3 (a, ?n + length ?c) = ?nonce @ ?c"
      using append_view_fits [OF _ fits] a(2) head by auto
    with run grow a(1) False same have res: "r = Ok (a, ?n + length ?c)" "ps_mem st' = m3"
      by (auto simp: aes_WriteProcess_def Let_def)
    have "m3 ! a' = ?m ! a'" if "a' < length ?m" "a' \<notin> set (owned (AESProcessor ed))" for a'
      using that keep ap(4) a(6) by (cases "a' = a") (auto split: option.splits)
    moreover have "view_ok m3 (a, ?n + length ?c)" using ap(2,3) a(2) fits by (simp add: view_ok_def)
    moreover have "encodes lib (AESProcessor ed) (contents ?m v) (contents m3 (a, ?n + length ?c))"
      unfolding ap(5) encodes.simps using n by (intro exI [of _ ?nonce]) simp
    ultimately show ?thesis
      using own' a(4) ap(2) res shape unfolding good_step_def by (simp del: owned.simps encodes.simps)
  qed
qed

lemma aes_read_step:
  assumes run: "aes_ReadProcess lib ed v st = (r, ed', st')" and own: "buffers_ok (owned (AESProcessor ed)) (ps_mem st)"
    and v: "view_ok (ps_mem st) v" "fst v \<notin> set (owned (AESProcessor ed))"
    and lib: "codecs_ok lib" "configured (AESProcessor ed)" and enc: "encodes lib (AESProcessor ed) x (contents (ps_mem st) v)"
  shows "good_step (owned (AESProcessor ed)) (\<lambda>y. y = x) v (ps_mem st) r (owned (AESProcessor ed')) (ps_mem st') \<and>
    shape (AESProcessor ed') = shape (AESProcessor ed) \<and> (\<exists>u. r = Ok u)"
proof -
  let ?m = "ps_mem st" and ?n = "nonceSize ed"
  from enc obtain nonce where nonce: "length nonce = ?n" "contents ?m v = nonce @ gcm_Seal lib (gcm_key ed) nonce x" by auto
  have "length (contents ?m v) = snd v" using v(1) by (simp add: contents_def view_ok_def)
  with nonce lib have len: "snd v = ?n + length x + gcm_Overhead" by (simp add: codecs_ok_def)
  obtain b m1 where grow: "grow (snd v) (readBuffer ed) ?m = (b, m1)" by fastforce
  have need: "0 < snd v" using len by (simp add: gcm_Overhead_def)
  have "a < length ?m" if "readBuffer ed = Some a" for a using own that by (simp add: buffers_ok_def)
  from grow_spec [OF grow need this] obtain a where a: "b = Some a" "a < length m1" "snd v \<le> length (m1 ! a)"
    "length ?m \<le> length m1" "\<forall>a<length ?m. m1 ! a = ?m ! a" "readBuffer ed = Some a \<or> a = length ?m \<and> length ?m < length m1"
    by blast
  have same: "contents m1 v = contents ?m v" using a(5) v(1) by (simp add: contents_def view_ok_def)
  have opened: "gcm_Open lib (gcm_key ed) (take ?n (contents m1 v)) (drop ?n (contents m1 v)) = Ok x"
    using nonce lib same by (simp add: codecs_ok_def)
  have fits: "0 + length x \<le> length (m1 ! a)" using a(3) len by simp
  obtain m2 where ap: "append_view a 0 x m1 = ((a, length x), m2)" "length m2 = length m1"
    "length (m2 ! a) = length (m1 ! a)" "\<forall>a'. a' \<noteq> a \<longrightarrow> m2 ! a' = m1 ! a'" "contents m2 (a, length x) = x"
    using append_view_fits [OF a(2) fits] by auto
  have "\<not> snd v \<le> ?n" using len by (simp add: gcm_Overhead_def)
  with run grow a(1) opened ap have res: "r = Ok (a, length x)" "ed' = ed\<lparr>readBuffer := Some a\<rparr>" "ps_mem st' = m2"
    by (auto simp: aes_ReadProcess_def Let_def)
  have "distinct (owned (AESProcessor ed'))" "set (owned (AESProcessor ed')) \<subseteq> set (owned (AESProcessor ed)) \<union> {length ?m..<length m1}"
    "a \<in> set (owned (AESProcessor ed'))"
    using own a(6) by (auto simp: res buffers_ok_def split: option.splits)
  moreover have "m2 ! a' = ?m ! a'" if "a' < length ?m" "a' \<notin> set (owned (AESProcessor ed))" for a'
    using that a(5,6) ap(4) by (cases "a' = a") (auto split: option.splits)
  moreover have "view_ok m2 (a, length x)" using ap(2,3) a(2) fits by (simp add: view_ok_def)
  ultimately show ?thesis using a(4) ap(2,5) res unfolding good_step_def by auto
qed


section \<open>Chains\<close>

lemma write_step:
  shows "WriteProcess lib p v st = (r, p', st') \<Longrightarrow> buffers_ok (owned p) (ps_mem st) \<Longrightarrow> view_ok (ps_mem st) v \<Longrightarrow>
      fst v \<notin> set (owned p) \<Longrightarrow> codecs_ok lib \<Longrightarrow> configured p \<Longrightarrow>
      good_step (owned p) (encodes lib p (contents (ps_mem st) v)) v (ps_mem st) r (owned p') (ps_mem st') \<and> shape p' = shape p"
    and "chain_write lib ps v st = (r, ps', st') \<Longrightarrow> buffers_ok (concat (map owned ps)) (ps_mem st) \<Longrightarrow> view_ok (ps_mem st) v \<Longrightarrow>
      fst v \<notin> set (concat (map owned ps)) \<Longrightarrow> codecs_ok lib \<Longrightarrow> list_all configured ps \<Longrightarrow>
      good_step (concat (map owned ps)) (chain_encodes lib ps (contents (ps_mem st) v)) v (ps_mem st) r
        (concat (map owned ps')) (ps_mem st') \<and> map shape ps' = map shape ps"
proof (induction lib p v st and lib ps v st arbitrary: r p' st' and r ps' st' rule: WriteProcess_chain_write.induct)
  case (1 lib v st)
  then show ?case by (auto simp: good_step_def)
next
  case (2 lib ed v st)
  obtain ed' where "aes_WriteProcess lib ed v st = (r, ed', st')" "p' = AESProcessor ed'"
    using 2(1) by (auto split: prod.splits)
  then show ?case using aes_write_step 2 by blast
next
  case (3 lib cd v st)
  obtain cd' where "cd_WriteProcess lib cd v st = (r, cd', st')" "p' = CompressProcessor cd'"
    using 3(1) by (auto split: prod.splits)
  then show ?case using cd_write_step 3 by blast
next
  case (4 lib ps v st)
  obtain ps' where "chain_write lib ps v st = (r, ps', st')" "p' = ProcessorChain ps'"
    using 4(2) by (auto split: prod.splits)
  then show ?case using 4 by simp
next
  case (5 lib v st)
  then show ?case by (auto simp: good_step_def)
next
  case (6 lib p ps v st)
  obtain r1 p1 st1 where run1: "WriteProcess lib p v st = (r1, p1, st1)" by (metis prod_cases3)
  have own: "buffers_ok (owned p @ concat (map owned ps)) (ps_mem st)" using 6(4) by simp
  then have own1: "buffers_ok (owned p) (ps_mem st)" "buffers_ok (concat (map owned ps)) (ps_mem st)"
    by (auto simp: buffers_ok_def)
  have step1: "good_step (owned p) (encodes lib p (contents (ps_mem st) v)) v (ps_mem st) r1 (owned p1) (ps_mem st1)" "shape p1 = shape p"
    using 6(1) [OF run1 own1(1) 6(5)] 6(6-8) by simp_all
  show ?case
  proof (cases r1)
    case (Ok z)
    obtain r2 ps2 st2 where run2: "chain_write lib ps z st1 = (r2, ps2, st2)" by (metis prod_cases3)
    with 6(3) run1 Ok have res: "r = r2" "ps' = p1 # ps2" "st' = st2" by simp_all
    have own2: "buffers_ok (concat (map owned ps)) (ps_mem st1)"
      using own1(2) step1(1) by (fastforce simp: buffers_ok_def good_step_def)
    have z: "view_ok (ps_mem st1) z" "fst z \<in> insert (fst v) (set (owned p1))" "encodes lib p (contents (ps_mem st) v) (contents (ps_mem st1) z)"
      using step1(1) Ok by (simp_all add: good_step_def)
    have sub: "set (owned p1) \<subseteq> set (owned p) \<union> {length (ps_mem st)..<length (ps_mem st1)}" "length (ps_mem st) \<le> length (ps_mem st1)"
      using step1(1) by (simp_all add: good_step_def)
    have "fst z \<notin> set (concat (map owned ps))"
      using own_disjoint [OF own sub(1) _ sub(2), of "concat (map owned ps)" 0] z(2) 6(6) by auto
    then have step2: "good_step (concat (map owned ps)) (chain_encodes lib ps (contents (ps_mem st1) z)) z (ps_mem st1) r2
        (concat (map owned ps2)) (ps_mem st2)" "map shape ps2 = map shape ps"
      using 6(2) [OF run1 [symmetric] Ok refl run2 own2 z(1)] 6(7,8) by simp_all
    have "good_step (owned p @ concat (map owned ps)) (chain_encodes lib ps (contents (ps_mem st1) z)) v (ps_mem st) r2
        (owned p1 @ concat (map owned ps2)) (ps_mem st2)"
      using good_step_comp [OF own _ step2(1)] step1(1) Ok by simp
    then have "good_step (owned p @ concat (map owned ps)) (chain_encodes lib (p # ps) (contents (ps_mem st) v)) v (ps_mem st) r2
        (owned p1 @ concat (map owned ps2)) (ps_mem st2)"
      by (rule good_step_weaken) (use z(3) in auto)
    then show ?thesis using res step1(2) step2(2) by (simp del: chain_encodes.simps)
  next
    case (Err e)
    with 6(3) run1 have res: "r = Err e" "ps' = p1 # ps" "st' = st1" by simp_all
    show ?thesis using good_step_fail [OF own step1(1)] Err res step1(2) by simp
  next
    case Panic
    with 6(3) run1 have res: "r = Panic" "ps' = p1 # ps" "st' = st1" by simp_all
    show ?thesis using good_step_fail [OF own step1(1)] Panic res step1(2) by simp
  qed
qed

lemma read_step:
  shows "ReadProcess lib p v st = (r, p', st') \<Longrightarrow> buffers_ok (owned p) (ps_mem st) \<Longrightarrow> view_ok (ps_mem st) v \<Longrightarrow>
      fst v \<notin> set (owned p) \<Longrightarrow> codecs_ok lib \<Longrightarrow> configured p \<Longrightarrow> encodes lib p x (contents (ps_mem st) v) \<Longrightarrow>
      good_step (owned p) (\<lambda>y. y = x) v (ps_mem st) r (owned p') (ps_mem st') \<and> shape p' = shape p \<and> (\<exists>u. r = Ok u)"
    and "chain_read lib ps v st = (r, ps', st') \<Longrightarrow> buffers_ok (concat (map owned ps)) (ps_mem st) \<Longrightarrow> view_ok (ps_mem st) v \<Longrightarrow>
      fst v \<notin> set (concat (map owned ps)) \<Longrightarrow> codecs_ok lib \<Longrightarrow> list_all configured ps \<Longrightarrow>
      chain_encodes lib ps x (contents (ps_mem st) v) \<Longrightarrow>
      good_step (concat (map owned ps)) (\<lambda>y. y = x) v (ps_mem st) r (concat (map owned ps')) (ps_mem st') \<and>
      map shape ps' = map shape ps \<and> (\<exists>u. r = Ok u)"
proof (induction lib p v st and lib ps v st arbitrary: r p' st' x and r ps' st' x rule: ReadProcess_chain_read.induct)
  case (1 lib v st)
  then show ?case by (auto simp: good_step_def)
next
  case (2 lib ed v st)
  obtain ed' where "aes_ReadProcess lib ed v st = (r, ed', st')" "p' = AESProcessor ed'"
    using 2(1) by (auto split: prod.splits)
  then show ?case using aes_read_step 2 by blast
next
  case (3 lib cd v st)
  obtain cd' where "cd_ReadProcess lib cd v st = (r, cd', st')" "p' = CompressProcessor cd'"
    using 3(1) by (auto split: prod.splits)
  then show ?case using cd_read_step 3 by blast
next
  case (4 lib ps v st)
  obtain ps' where "chain_read lib ps v st = (r, ps', st')" "p' = ProcessorChain ps'"
    using 4(2) by (auto split: prod.splits)
  then show ?case using 4 by simp
next
  case (5 lib v st)
  then show ?case by (auto simp: good_step_def)
next
  case (6 lib p ps v st)
  from 6(9) obtain w where w: "encodes lib p x w" "chain_encodes lib ps w (contents (ps_mem st) v)" by auto
  have own: "buffers_ok (concat (map owned ps) @ owned p) (ps_mem st)" using 6(4) by (auto simp: buffers_ok_def)
  then have own1: "buffers_ok (owned p) (ps_mem st)" "buffers_ok (concat (map owned ps)) (ps_mem st)"
    by (auto simp: buffers_ok_def)
  obtain r1 ps1 st1 where run1: "chain_read lib ps v st = (r1, ps1, st1)" by (metis prod_cases3)
  have step1: "good_step (concat (map owned ps)) (\<lambda>y. y = w) v (ps_mem st) r1 (concat (map owned ps1)) (ps_mem st1)"
    "map shape ps1 = map shape ps" "\<exists>u. r1 = Ok u"
    using 6(1) [OF run1 own1(2) 6(5) _ _ _ w(2)] 6(6-8) by simp_all
  then obtain z where z1: "r1 = Ok z" by blast
  obtain r2 p2 st2 where run2: "ReadProcess lib p z st1 = (r2, p2, st2)" by (metis prod_cases3)
  with 6(3) run1 z1 have res: "r = r2" "ps' = p2 # ps1" "st' = st2" by simp_all
  have own2: "buffers_ok (owned p) (ps_mem st1)"
    using own1(1) step1(1) by (fastforce simp: buffers_ok_def good_step_def)
  have z: "view_ok (ps_mem st1) z" "fst z \<in> insert (fst v) (set (concat (map owned ps1)))" "contents (ps_mem st1) z = w"
    using step1(1) z1 by (simp_all add: good_step_def)
  have sub: "set (concat (map owned ps1)) \<subseteq> set (concat (map owned ps)) \<union> {length (ps_mem st)..<length (ps_mem st1)}"
    "length (ps_mem st) \<le> length (ps_mem st1)"
    using step1(1) by (simp_all add: good_step_def)
  have "fst z \<notin> set (owned p)"
    using own_disjoint [OF own sub(1) _ sub(2), of "owned p" 0] z(2) 6(6) by auto
  then have step2: "good_step (owned p) (\<lambda>y. y = x) z (ps_mem st1) r2 (owned p2) (ps_mem st2)" "shape p2 = shape p" "\<exists>u. r2 = Ok u"
    using 6(2) [OF run1 [symmetric] z1 refl run2 own2 z(1)] 6(7,8) w(1) z(3) by simp_all
  have "good_step (concat (map owned ps) @ owned p) (\<lambda>y. y = x) v (ps_mem st) r2 (concat (map owned ps1) @ owned p2) (ps_mem st2)"
    using good_step_comp [OF own _ step2(1)] step1(1) z1 by simp
  then show ?case using res step1(2) step2(2,3) by (simp add: good_step_swap)
qed


section \<open>Sharing\<close>

text \<open>A processor that only passes its input on.\<close>

fun passes :: "processor \<Rightarrow> bool" where
  "passes NopProcessor \<longleftrightarrow> True"
| "passes (ProcessorChain ps) \<longleftrightarrow> list_all passes ps"
| "passes _ \<longleftrightarrow> False"

lemma passes_write:
  "passes p \<Longrightarrow> WriteProcess lib p v st = (Ok v, p, st)"
  "list_all passes ps \<Longrightarrow> chain_write lib ps v st = (Ok v, ps, st)"
  by (induction lib p v st and lib ps v st rule: WriteProcess_chain_write.induct) auto

lemma passes_read:
  "passes p \<Longrightarrow> ReadProcess lib p v st = (Ok v, p, st)"
  "list_all passes ps \<Longrightarrow> chain_read lib ps v st = (Ok v, ps, st)"
  by (induction lib p v st and lib ps v st rule: ReadProcess_chain_read.induct) auto

lemma shape_invariants:
  "shape p = shape q \<Longrightarrow> passes p = passes q \<and> configured p = configured q \<and>
     SharedWriteBuffer p = SharedWriteBuffer q \<and> SharedReadBuffer p = SharedReadBuffer q"
proof -
  have "passes (shape p) = passes p \<and> configured (shape p) = configured p \<and>
     SharedWriteBuffer (shape p) = SharedWriteBuffer p \<and> SharedReadBuffer (shape p) = SharedReadBuffer p" for p
  proof (induction p)
    case (ProcessorChain ps)
    then have "map (SharedWriteBuffer \<circ> shape) ps = map SharedWriteBuffer ps"
      "map (SharedReadBuffer \<circ> shape) ps = map SharedReadBuffer ps" by simp_all
    with ProcessorChain show ?case by (simp add: list_all_iff del: map_eq_conv)
  qed simp_all
  then show "shape p = shape q \<Longrightarrow> passes p = passes q \<and> configured p = configured q \<and>
     SharedWriteBuffer p = SharedWriteBuffer q \<and> SharedReadBuffer p = SharedReadBuffer q" by metis
qed

lemma view_ok_append [simp]: "view_ok m v \<Longrightarrow> view_ok (m @ xs) v" "view_ok m v \<Longrightarrow> contents (m @ xs) v = contents m v"
  by (auto simp: view_ok_def contents_def nth_append)

lemma buffers_ok_append [simp]: "buffers_ok own m \<Longrightarrow> buffers_ok own (m @ xs)"
  by (auto simp: buffers_ok_def)

text \<open>
  The law of the loop, for any step that keeps to its own buffers: what has been sent can still be
  read at the end.
\<close>

lemma process_loop_spec:
  assumes step: "\<And>p v st r p' st'. step p v st = (r, p', st') \<Longrightarrow> shape p = s \<Longrightarrow> buffers_ok (owned p) (ps_mem st) \<Longrightarrow>
      view_ok (ps_mem st) v \<Longrightarrow> fst v \<notin> set (owned p) \<Longrightarrow> okin (contents (ps_mem st) v) \<Longrightarrow>
      good_step (owned p) (R (contents (ps_mem st) v)) v (ps_mem st) r (owned p') (ps_mem st') \<and> shape p' = s \<and>
      (shared p' \<or> r = Ok v \<and> p' = p \<and> st' = st)"
    and "process_loop step shared p xs st = (Ok vs, p', st')" "shape p = s" "buffers_ok (owned p) (ps_mem st)" "list_all okin xs"
  shows "list_all2 R xs (map (contents (ps_mem st')) vs) \<and>
    (\<forall>u. view_ok (ps_mem st) u \<and> fst u \<notin> set (owned p) \<longrightarrow> contents (ps_mem st') u = contents (ps_mem st) u)"
  using assms(2-)
proof (induction xs arbitrary: p st vs p' st')
  case Nil
  then show ?case by simp
next
  case (Cons x xs)
  let ?m = "ps_mem st" and ?v = "(length (ps_mem st), length x)"
  let ?st1 = "st\<lparr>ps_mem := ps_mem st @ [x]\<rparr>"
  obtain r q st2 where run: "step p ?v ?st1 = (r, q, st2)" by (metis prod_cases3)
  have own: "buffers_ok (owned p) (ps_mem ?st1)" using Cons.prems(3) by simp
  have v: "view_ok (ps_mem ?st1) ?v" "fst ?v \<notin> set (owned p)" "contents (ps_mem ?st1) ?v = x"
    using Cons.prems(3) by (auto simp: view_ok_def contents_def buffers_ok_def nth_append)
  have law: "good_step (owned p) (R x) ?v (ps_mem ?st1) r (owned q) (ps_mem st2)" "shape q = s"
    "shared q \<or> r = Ok ?v \<and> q = p \<and> st2 = ?st1"
    using step [OF run Cons.prems(2) own v(1,2)] v(3) Cons.prems(4) by simp_all
  obtain z where z: "r = Ok z" using Cons.prems(1) run by (cases r) (auto simp: new_array_def)
  obtain w st3 where copy: "copy_out (shared q) z st2 = (w, st3)" by fastforce
  obtain ws where loop: "process_loop step shared q xs st3 = (Ok ws, p', st')" "vs = w # ws"
    using Cons.prems(1) run z copy by (auto simp: new_array_def split: prod.splits result.splits)
  have zok: "view_ok (ps_mem st2) z" "R x (contents (ps_mem st2) z)" using law(1) z by (simp_all add: good_step_def)
  have own2: "buffers_ok (owned q) (ps_mem st2)" using good_step_buffers [OF own law(1)] .
  have st3: "buffers_ok (owned q) (ps_mem st3)" "view_ok (ps_mem st3) w" "contents (ps_mem st3) w = contents (ps_mem st2) z"
    "fst w \<notin> set (owned q)" "\<And>u. view_ok (ps_mem st2) u \<Longrightarrow> view_ok (ps_mem st3) u \<and> contents (ps_mem st3) u = contents (ps_mem st2) u"
    using copy zok own2 law(3) z v(2)
    by (auto simp: copy_out_def new_array_def view_ok_def contents_def nth_append buffers_ok_def split: if_splits)
  have oks: "list_all okin xs" using Cons.prems(4) by simp
  have IH: "list_all2 R xs (map (contents (ps_mem st')) ws)"
    "\<And>u. view_ok (ps_mem st3) u \<Longrightarrow> fst u \<notin> set (owned q) \<Longrightarrow> contents (ps_mem st') u = contents (ps_mem st3) u"
    using Cons.IH [OF loop(1) law(2) st3(1) oks] by blast+
  have "contents (ps_mem st') u = contents ?m u" if u: "view_ok ?m u" "fst u \<notin> set (owned p)" for u
  proof -
    have u1: "view_ok (ps_mem ?st1) u" "contents (ps_mem ?st1) u = contents ?m u" using u by simp_all
    have u2: "view_ok (ps_mem st2) u" "contents (ps_mem st2) u = contents ?m u"
      using good_step_contents [OF law(1) u1(1) u(2)] u1(2) by simp_all
    have "fst u \<notin> set (owned q)" using law(1) u by (auto simp: good_step_def view_ok_def)
    then show ?thesis using st3(5) [OF u2(1)] u2(2) IH(2) by simp
  qed
  then show ?case using IH loop(2) st3 zok by simp
qed


lemma process_loop_total:
  assumes step: "\<And>p v st n. shape p = s \<Longrightarrow> buffers_ok (owned p) (ps_mem st) \<Longrightarrow> view_ok (ps_mem st) v \<Longrightarrow>
      fst v \<notin> set (owned p) \<Longrightarrow> okin (contents (ps_mem st) v) \<Longrightarrow> enough (Suc n) st \<Longrightarrow>
      \<exists>u p' st'. step p v st = (Ok u, p', st') \<and> shape p' = s \<and> buffers_ok (owned p') (ps_mem st') \<and> enough n st'"
    and mem: "\<And>n st m. enough n st \<Longrightarrow> enough n (st\<lparr>ps_mem := m\<rparr>)"
    and "shape p = s" "buffers_ok (owned p) (ps_mem st)" "list_all okin xs" "enough (length xs) st"
  shows "\<exists>vs p' st'. process_loop step shared p xs st = (Ok vs, p', st')"
  using assms(3-)
proof (induction xs arbitrary: p st)
  case Nil
  then show ?case by simp
next
  case (Cons x xs)
  let ?v = "(length (ps_mem st), length x)" and ?st1 = "st\<lparr>ps_mem := ps_mem st @ [x]\<rparr>"
  have "buffers_ok (owned p) (ps_mem ?st1)" "view_ok (ps_mem ?st1) ?v" "fst ?v \<notin> set (owned p)" "okin (contents (ps_mem ?st1) ?v)"
    using Cons.prems by (auto simp: view_ok_def contents_def buffers_ok_def nth_append)
  moreover have "enough (Suc (length xs)) ?st1" using Cons.prems(4) mem by simp
  ultimately obtain u q st2 where q: "step p ?v ?st1 = (Ok u, q, st2)" "shape q = s" "buffers_ok (owned q) (ps_mem st2)" "enough (length xs) st2"
    using step [OF Cons.prems(1)] by blast
  obtain w st3 where copy: "copy_out (shared q) u st2 = (w, st3)" by fastforce
  then have "buffers_ok (owned q) (ps_mem st3)" "enough (length xs) st3"
    using q(3,4) mem by (auto simp: copy_out_def new_array_def split: if_splits)
  then obtain vs p' st' where "process_loop step shared q xs st3 = (Ok vs, p', st')"
    using Cons.IH [OF q(2), of st3] Cons.prems(3) by (auto simp del: split_paired_Ex)
  with q(1) copy show ?case by (simp add: new_array_def)
qed

text \<open>The random bytes that one write takes.\<close>

fun nonces :: "processor \<Rightarrow> nat" where
  "nonces (AESProcessor ed) = nonceSize ed"
| "nonces (ProcessorChain ps) = sum_list (map nonces ps)"
| "nonces _ = 0"

lemma nonces_shape: "shape p = shape q \<Longrightarrow> nonces p = nonces q"
proof -
  have "nonces (shape p) = nonces p" for p
  proof (induction p)
    case (ProcessorChain ps)
    then have "map (nonces \<circ> shape) ps = map nonces ps" by simp
    then show ?case by (simp del: map_eq_conv)
  qed simp_all
  then show "shape p = shape q \<Longrightarrow> nonces p = nonces q" by metis
qed

lemma write_total:
  shows "\<forall>c x. \<exists>y. compress lib c x = Ok y \<Longrightarrow> configured p \<Longrightarrow> nonces p \<le> length (ps_rand st) \<Longrightarrow>
      \<exists>u p' st'. WriteProcess lib p v st = (Ok u, p', st') \<and> ps_rand st' = drop (nonces p) (ps_rand st)"
    and "\<forall>c x. \<exists>y. compress lib c x = Ok y \<Longrightarrow> list_all configured ps \<Longrightarrow> sum_list (map nonces ps) \<le> length (ps_rand st) \<Longrightarrow>
      \<exists>u ps' st'. chain_write lib ps v st = (Ok u, ps', st') \<and> ps_rand st' = drop (sum_list (map nonces ps)) (ps_rand st)"
proof (induction lib p v st and lib ps v st rule: WriteProcess_chain_write.induct)
  case (2 lib ed v st)
  obtain b m where "grow (snd v + cipherOverhead ed) (writeBuffer ed) (ps_mem st) = (b, m)" by fastforce
  moreover from this 2 have "b \<noteq> None"
    by (auto simp: grow_def new_array_def len_slice_def gcm_NonceSize_def split: if_splits option.splits)
  ultimately show ?case using 2
    by (auto simp: aes_WriteProcess_def Let_def split: prod.splits)
next
  case (3 lib cd v st)
  obtain y where "compress lib (cd_codec cd) (contents (ps_mem st) v) = Ok y" using 3 by blast
  then show ?case by (auto simp: cd_WriteProcess_def split: prod.splits)
next
  case (6 lib p ps v st)
  then obtain u p' st' where p: "WriteProcess lib p v st = (Ok u, p', st')" "ps_rand st' = drop (nonces p) (ps_rand st)"
    by auto
  then obtain u2 ps' st2 where "chain_write lib ps u st' = (Ok u2, ps', st2)" "ps_rand st2 = drop (sum_list (map nonces ps)) (ps_rand st')"
    using 6(2) [OF p(1) [symmetric] refl refl 6(3)] 6(4,5) by fastforce
  with p show ?case by (simp add: add.commute)
qed auto


section \<open>Configured processors\<close>

abbreviation new_aes :: "bytes \<Rightarrow> AESEncrypterDecrypter" where
  "new_aes key \<equiv> \<lparr>gcm_key = key, readBuffer = None, writeBuffer = None, nonceSize = gcm_NonceSize,
     cipherOverhead = gcm_NonceSize + gcm_Overhead\<rparr>"

lemma new_encrypter:
  "(\<forall>m. NewEncrypterDecrypter encryption_types t key m = (Ok (AESProcessor (new_aes key)), m)) \<or>
   (\<exists>e. \<forall>m. NewEncrypterDecrypter encryption_types t key m = (Err e, m))"
  by (auto simp: NewEncrypterDecrypter_def encryption_types_def standard_registries NewAESEncrypterDecrypter_def)

lemma new_decompressor:
  "(\<exists>codec. \<forall>m. NewCompressorDecompressor compression_types t mode m =
     (Ok (CompressProcessor (fst (new_compressor codec m))), snd (new_compressor codec m))) \<or>
   (\<exists>e. \<forall>m. NewCompressorDecompressor compression_types t mode m = (Err e, m))"
  by (auto simp: NewCompressorDecompressor_def compression_types_def standard_registries NewSnappyCompressorDecompressor_def
      NewLZ4CompressorDecompressor_def NewGZipCompressorDecompressor_def prod.case_eq_if)

text \<open>
  Whatever is configured, the constructor makes processors of one shape, with buffers of their
  own, that tell truly whether they share them.
\<close>

definition faithful :: "processor \<Rightarrow> bool" where
  "faithful p \<longleftrightarrow> configured p \<and> (SharedWriteBuffer p \<or> passes p) \<and> (SharedReadBuffer p \<or> passes p) \<and> nonces p \<le> gcm_NonceSize"

lemma constructed:
  "\<exists>s. \<forall>m p m'. NewProcessorConstructor cc ec m = (Ok p, m') \<longrightarrow> shape p = s \<and> faithful p \<and> buffers_ok (owned p) m'"
proof -
  let ?enc = "NewEncrypterDecrypter encryption_types (enc_Type ec) (ascii (enc_PrivateKey ec))"
    and ?comp = "NewCompressorDecompressor compression_types (comp_Type cc) (comp_Mode cc)"
  let ?aes = "AESProcessor (new_aes (ascii (enc_PrivateKey ec)))"
    and ?cd = "\<lambda>codec. CompressProcessor \<lparr>cd_codec = codec, cd_readBuffer = 0, cd_writeBuffer = 0\<rparr>"
  note [simp] = NewProcessorConstructor_def faithful_def NewProcessorChain_def buffers_ok_def obind_eq_Ok new_compressor_def
  have comp: "(\<exists>codec. \<forall>m. ?comp m = (Ok (CompressProcessor (fst (new_compressor codec m))), snd (new_compressor codec m))) \<or>
      (\<exists>e. \<forall>m. ?comp m = (Err e, m))"
    by (rule new_decompressor)
  from new_encrypter [of "enc_Type ec" "ascii (enc_PrivateKey ec)"] show ?thesis
  proof (elim disjE exE)
    assume enc: "\<forall>m. ?enc m = (Ok ?aes, m)"
    from comp show ?thesis
    proof (elim disjE exE)
      fix codec assume "\<forall>m. ?comp m = (Ok (CompressProcessor (fst (new_compressor codec m))), snd (new_compressor codec m))"
      with enc show ?thesis
        by (intro exI [of _ "if comp_Mode cc = CompressionModeDisabled then
              if enc_PrivateKey ec = [] then NopProcessor else ?aes
            else if enc_PrivateKey ec = [] then ?cd codec else ProcessorChain [?cd codec, ?aes]"]) auto
    next
      fix e assume "\<forall>m. ?comp m = (Err e, m)"
      with enc show ?thesis by (intro exI [of _ "if enc_PrivateKey ec = [] then NopProcessor else ?aes"]) auto
    qed
  next
    fix e assume enc: "\<forall>m. ?enc m = (Err e, m)"
    from comp show ?thesis
    proof (elim disjE exE)
      fix codec assume "\<forall>m. ?comp m = (Ok (CompressProcessor (fst (new_compressor codec m))), snd (new_compressor codec m))"
      with enc show ?thesis
        by (intro exI [of _ "if comp_Mode cc = CompressionModeDisabled then NopProcessor else ?cd codec"]) auto
    next
      fix e assume "\<forall>m. ?comp m = (Err e, m)"
      with enc show ?thesis by (intro exI [of _ NopProcessor]) auto
    qed
  qed
qed

lemma write_loop_spec:
  assumes "write_loop lib p xs st = (Ok vs, p', st')" "faithful p" "buffers_ok (owned p) (ps_mem st)" "codecs_ok lib"
  shows "list_all2 (encodes lib (shape p)) xs (map (contents (ps_mem st')) vs)"
proof -
  have step: "good_step (owned q) (encodes lib (shape p) (contents (ps_mem t) v)) v (ps_mem t) r (owned q') (ps_mem t') \<and>
      shape q' = shape p \<and> (SharedWriteBuffer q' \<or> r = Ok v \<and> q' = q \<and> t' = t)"
    if "WriteProcess lib q v t = (r, q', t')" "shape q = shape p" "buffers_ok (owned q) (ps_mem t)" "view_ok (ps_mem t) v"
      "fst v \<notin> set (owned q)" for q v t r q' t'
  proof -
    have q: "configured q" "SharedWriteBuffer q \<or> passes q"
      using shape_invariants [OF that(2)] assms(2) by (auto simp: faithful_def)
    then have "good_step (owned q) (encodes lib q (contents (ps_mem t) v)) v (ps_mem t) r (owned q') (ps_mem t') \<and> shape q' = shape q"
      using write_step(1) [OF that(1,3,4,5) assms(4)] by blast
    moreover have "SharedWriteBuffer q' \<or> r = Ok v \<and> q' = q \<and> t' = t"
      using q(2) calculation shape_invariants [of q' q] passes_write(1) [of q lib v t] that(1) by auto
    moreover have "encodes lib q = encodes lib (shape p)" using encodes_shape(1) that(2) by metis
    ultimately show ?thesis using that(2) by simp
  qed
  show ?thesis
    using process_loop_spec [where okin = "\<lambda>_. True" and R = "encodes lib (shape p)" and s = "shape p", OF step assms(1) [unfolded write_loop_def] refl assms(3)]
    by (simp add: list_all_iff)
qed

definition decodes :: "codecs \<Rightarrow> processor \<Rightarrow> bytes \<Rightarrow> bytes \<Rightarrow> bool" where
  "decodes lib p y z \<longleftrightarrow> (\<forall>x. encodes lib p x y \<longrightarrow> z = x)"

lemma read_call:
  assumes run: "ReadProcess lib q v t = (r, q', t')" and q: "shape q = shape p" "buffers_ok (owned q) (ps_mem t)" "view_ok (ps_mem t) v"
      "fst v \<notin> set (owned q)" "\<exists>x. encodes lib (shape p) x (contents (ps_mem t) v)" and p: "faithful p" "codecs_ok lib"
  shows "good_step (owned q) (decodes lib (shape p) (contents (ps_mem t) v)) v (ps_mem t) r (owned q') (ps_mem t') \<and>
      shape q' = shape p \<and> (SharedReadBuffer q' \<or> r = Ok v \<and> q' = q \<and> t' = t)"
    and "\<exists>u. r = Ok u"
proof -
  have conf: "configured q" "SharedReadBuffer q \<or> passes q"
    using shape_invariants [OF q(1)] p(1) by (auto simp: faithful_def)
  have enc: "encodes lib (shape p) = encodes lib q" using encodes_shape(1) q(1) by metis
  note law = read_step(1) [OF run q(2,3,4) p(2) conf(1)]
  from q(5) obtain x where x: "encodes lib q x (contents (ps_mem t) v)" by (auto simp: enc)
  have "z = x'" if "r = Ok u" "contents (ps_mem t') u = z" "encodes lib q x' (contents (ps_mem t) v)" for u z x'
    using law [OF that(3)] that(1,2) by (simp add: good_step_def)
  then have "decodes lib (shape p) (contents (ps_mem t) v) (contents (ps_mem t') u)" if "r = Ok u" for u
    using that by (simp add: decodes_def enc)
  with law [OF x] have "good_step (owned q) (decodes lib (shape p) (contents (ps_mem t) v)) v (ps_mem t) r (owned q') (ps_mem t')"
    by (simp add: good_step_def)
  moreover have "SharedReadBuffer q' \<or> r = Ok v \<and> q' = q \<and> t' = t"
    using conf(2) law [OF x] shape_invariants [of q' q] passes_read(1) [of q lib v t] run by auto
  ultimately show "good_step (owned q) (decodes lib (shape p) (contents (ps_mem t) v)) v (ps_mem t) r (owned q') (ps_mem t') \<and>
      shape q' = shape p \<and> (SharedReadBuffer q' \<or> r = Ok v \<and> q' = q \<and> t' = t)" "\<exists>u. r = Ok u"
    using law [OF x] q(1) by simp_all
qed

lemma read_loop_spec:
  assumes p: "faithful p" "buffers_ok (owned p) (ps_mem st)" "codecs_ok lib" and ys: "list_all2 (encodes lib (shape p)) xs ys"
  shows "\<exists>us p' st'. read_loop lib p ys st = (Ok us, p', st') \<and> map (contents (ps_mem st')) us = xs"
proof -
  let ?okin = "\<lambda>y. \<exists>x. encodes lib (shape p) x y"
  have okins: "list_all ?okin ys" using ys by (auto simp: list_all_length list_all2_conv_all_nth)
  have total: "\<exists>u q' t'. ReadProcess lib q v t = (Ok u, q', t') \<and> shape q' = shape p \<and> buffers_ok (owned q') (ps_mem t') \<and> True"
    if "shape q = shape p" "buffers_ok (owned q) (ps_mem t)" "view_ok (ps_mem t) v" "fst v \<notin> set (owned q)" "?okin (contents (ps_mem t) v)" "True"
    for q v t and n :: nat
  proof -
    obtain r q' t' where run: "ReadProcess lib q v t = (r, q', t')" by (metis prod_cases3)
    note call = read_call [OF run that(1-5) p(1,3)]
    have "buffers_ok (owned q') (ps_mem t')" using good_step_buffers [OF that(2) conjunct1 [OF call(1)]] .
    with run call show ?thesis by auto
  qed
  have "\<exists>us p' st'. process_loop (ReadProcess lib) SharedReadBuffer p ys st = (Ok us, p', st')"
    by (rule process_loop_total [where okin = ?okin and enough = "\<lambda>_ _. True" and s = "shape p", OF total TrueI refl p(2) okins TrueI])
  then obtain us p' st' where loop: "process_loop (ReadProcess lib) SharedReadBuffer p ys st = (Ok us, p', st')" by blast
  have "list_all2 (decodes lib (shape p)) ys (map (contents (ps_mem st')) us)"
    using process_loop_spec [where okin = ?okin and R = "decodes lib (shape p)" and s = "shape p",
        OF read_call(1) [OF _ _ _ _ _ _ p(1,3)] loop refl p(2) okins] by (rule conjunct1)
  then have "map (contents (ps_mem st')) us = xs"
    using ys by (auto simp: list_all2_conv_all_nth decodes_def intro: nth_equalityI)
  with loop show ?thesis by (auto simp: read_loop_def)
qed


lemma write_loop_total:
  assumes p: "faithful p" "buffers_ok (owned p) (ps_mem st)" "codecs_ok lib" and lib: "\<forall>c x. \<exists>y. compress lib c x = Ok y"
    and rand: "gcm_NonceSize * length xs \<le> length (ps_rand st)"
  shows "\<exists>vs p' st'. write_loop lib p xs st = (Ok vs, p', st')"
proof -
  let ?enough = "\<lambda>n st. gcm_NonceSize * n \<le> length (ps_rand st)"
  have step: "\<exists>u q' t'. WriteProcess lib q v t = (Ok u, q', t') \<and> shape q' = shape p \<and> buffers_ok (owned q') (ps_mem t') \<and> ?enough n t'"
    if "shape q = shape p" "buffers_ok (owned q) (ps_mem t)" "view_ok (ps_mem t) v" "fst v \<notin> set (owned q)" "True" "?enough (Suc n) t"
    for q v t n
  proof -
    have q: "configured q" "nonces q \<le> gcm_NonceSize"
      using shape_invariants [OF that(1)] nonces_shape [OF that(1)] p(1) by (auto simp: faithful_def)
    have "nonces q \<le> length (ps_rand t)" using q(2) that(6) by simp
    from write_total(1) [OF lib q(1) this, of v]
    obtain u q' t' where run: "WriteProcess lib q v t = (Ok u, q', t')" "ps_rand t' = drop (nonces q) (ps_rand t)" by blast
    have w: "good_step (owned q) (encodes lib q (contents (ps_mem t) v)) v (ps_mem t) (Ok u) (owned q') (ps_mem t') \<and> shape q' = shape q"
      by (rule write_step(1) [OF run(1) that(2-4) p(3) q(1)])
    have "buffers_ok (owned q') (ps_mem t')" using good_step_buffers [OF that(2) conjunct1 [OF w]] .
    moreover have "?enough n t'" using run(2) q(2) that(6) by simp
    ultimately show ?thesis using run(1) w that(1) by auto
  qed
  have oks: "list_all (\<lambda>_. True) xs" by (simp add: list_all_iff)
  show ?thesis
    unfolding write_loop_def
    by (rule process_loop_total [where okin = "\<lambda>_. True" and enough = ?enough and s = "shape p", OF step _ refl p(2) oks rand]) auto
qed

text \<open>
  C5.  Whatever compression and encryption is configured, what one goroutine has written with its
  processor, another reads back: the stored forms, as they stand in memory after the whole loop (in
  which the processor has reused its buffers), are read by any other processor of the same
  configuration as the original chunks, which are still intact after that processor has reused its
  own buffers.  Writing succeeds when the codec accepts its input and there is randomness for a
  nonce per chunk.
\<close>

theorem processors_roundtrip:
  assumes lib: "codecs_ok lib"
    and p: "NewProcessorConstructor compression encryption m0 = (Ok p, m)"
    and q: "NewProcessorConstructor compression encryption m0' = (Ok q, m')"
  shows "((\<forall>c x. \<exists>y. compress lib c x = Ok y) \<and> 12 * length chunks \<le> length rand \<longrightarrow>
      (\<exists>vs p' st. write_loop lib p chunks \<lparr>ps_mem = m, ps_rand = rand\<rparr> = (Ok vs, p', st))) \<and>
    (\<forall>vs p' st. write_loop lib p chunks \<lparr>ps_mem = m, ps_rand = rand\<rparr> = (Ok vs, p', st) \<longrightarrow>
      (\<exists>us q' st'. read_loop lib q (map (contents (ps_mem st)) vs) \<lparr>ps_mem = m', ps_rand = rand'\<rparr> = (Ok us, q', st') \<and>
        map (contents (ps_mem st')) us = chunks))"
proof -
  obtain s where s: "\<And>m p m'. NewProcessorConstructor compression encryption m = (Ok p, m') \<Longrightarrow>
      shape p = s \<and> faithful p \<and> buffers_ok (owned p) m'"
    using constructed by metis
  from s [OF p] s [OF q] have p': "shape p = s" "faithful p" "buffers_ok (owned p) m"
    and q': "shape q = s" "faithful q" "buffers_ok (owned q) m'" by simp_all
  have "\<exists>vs p' st. write_loop lib p chunks \<lparr>ps_mem = m, ps_rand = rand\<rparr> = (Ok vs, p', st)"
    if "\<forall>c x. \<exists>y. compress lib c x = Ok y" "12 * length chunks \<le> length rand"
    using write_loop_total [OF p'(2) _ lib that(1)] p'(3) that(2) by (simp add: gcm_NonceSize_def)
  moreover have "\<exists>us q' st'. read_loop lib q (map (contents (ps_mem st)) vs) \<lparr>ps_mem = m', ps_rand = rand'\<rparr> = (Ok us, q', st') \<and>
        map (contents (ps_mem st')) us = chunks"
    if "write_loop lib p chunks \<lparr>ps_mem = m, ps_rand = rand\<rparr> = (Ok vs, p', st)" for vs p' st
    using write_loop_spec [OF that p'(2) _ lib] p' q' by (intro read_loop_spec) (simp_all add: lib)
  ultimately show ?thesis by blast
qed

text \<open>Codecs that keep the promise.\<close>

definition demo_codecs :: codecs where
  "demo_codecs = \<lparr>gcm_Seal = (\<lambda>key nonce p. p @ replicate 16 (hd key)),
     gcm_Open = (\<lambda>key nonce c. Ok (take (length c - 16) c)),
     compress = (\<lambda>c x. Ok (1 # x)), decompress = (\<lambda>c y. Ok (tl y))\<rparr>"

lemma demo_codecs_ok: "codecs_ok demo_codecs"
  by (simp add: codecs_ok_def demo_codecs_def gcm_Overhead_def)

theorem processors_roundtrip_witness:
  "\<exists>p m vs p' st us q' st'. NewProcessorConstructor \<lparr>comp_Mode = CompressionModeDefault, comp_Type = 1\<rparr>
       \<lparr>enc_PrivateKey = ''0123456789abcdef'', enc_Type = 0\<rparr> [] = (Ok p, m) \<and>
     write_loop demo_codecs p [[1, 2], [3, 4]] \<lparr>ps_mem = m, ps_rand = replicate 24 9\<rparr> = (Ok vs, p', st) \<and>
     read_loop demo_codecs p (map (contents (ps_mem st)) vs) \<lparr>ps_mem = m, ps_rand = []\<rparr> = (Ok us, q', st') \<and>
     map (contents (ps_mem st')) us = [[1, 2], [3, 4]]"
proof -
  let ?c = "\<lparr>comp_Mode = CompressionModeDefault, comp_Type = 1\<rparr>" and ?e = "\<lparr>enc_PrivateKey = ''0123456789abcdef'', enc_Type = 0\<rparr>"
  have "\<exists>p m. NewProcessorConstructor ?c ?e [] = (Ok p, m)"
    by (simp add: NewProcessorConstructor_def NewCompressorDecompressor_def NewEncrypterDecrypter_def compression_types_def
        encryption_types_def standard_registries type_constants NewLZ4CompressorDecompressor_def new_compressor_def
        NewAESEncrypterDecrypter_def NewProcessorChain_def)
  then obtain p m where p: "NewProcessorConstructor ?c ?e [] = (Ok p, m)" by blast
  note rt = processors_roundtrip [OF demo_codecs_ok p p, of "[[1, 2], [3, 4]]" "replicate 24 9" "[]"]
  have "\<forall>c x. \<exists>y. compress demo_codecs c x = Ok y" by (simp add: demo_codecs_def)
  with rt obtain vs p' st where w: "write_loop demo_codecs p [[1, 2], [3, 4]] \<lparr>ps_mem = m, ps_rand = replicate 24 9\<rparr> = (Ok vs, p', st)"
    by auto
  from conjunct2 [OF rt, rule_format, OF w] obtain us q' st' where
    r: "read_loop demo_codecs p (map (contents (ps_mem st)) vs) \<lparr>ps_mem = m, ps_rand = []\<rparr> = (Ok us, q', st')"
      "map (contents (ps_mem st')) us = [[1, 2], [3, 4]]" by (elim exE conjE)
  show ?thesis using p w r by (intro exI conjI)
qed

text \<open>
  A chain answers for its last processor only.  When that one passes its input on, the chain
  denies sharing a buffer although the slice it returns is the buffer of the processor before: the
  loop does not copy, and the next chunk overwrites the one that was sent.
\<close>

lemma chain_hides_sharing:
  "\<exists>p v1 v2 q st. NewProcessorChain [AESProcessor (new_aes (replicate 16 5)), NopProcessor] = Ok p \<and>
     \<not> SharedWriteBuffer p \<and>
     write_loop demo_codecs p [[1, 2], [3, 4]] \<lparr>ps_mem = [], ps_rand = replicate 12 8 @ replicate 12 9\<rparr> = (Ok [v1, v2], q, st) \<and>
     contents (ps_mem st) v1 = contents (ps_mem st) v2 \<and>
     encodes demo_codecs p [3, 4] (contents (ps_mem st) v1) \<and> \<not> encodes demo_codecs p [1, 2] (contents (ps_mem st) v1)"
proof -
  let ?c = "replicate 12 9 @ [3, 4] @ replicate 16 (5 :: byte)"
  let ?p = "\<lambda>b. ProcessorChain [AESProcessor ((new_aes (replicate 16 5))\<lparr>writeBuffer := b\<rparr>), NopProcessor]"
  have "write_loop demo_codecs (?p None) [[1, 2], [3, 4]] \<lparr>ps_mem = [], ps_rand = replicate 12 8 @ replicate 12 9\<rparr> =
      (Ok [(1, 30), (1, 30)], ?p (Some 1), \<lparr>ps_mem = [[1, 2], ?c, [3, 4]], ps_rand = []\<rparr>)"
    by code_simp
  moreover have "contents [[1, 2], ?c, [3, 4]] (1, 30) = ?c" by (simp add: contents_def)
  moreover have "encodes demo_codecs (?p None) [3, 4] ?c"
    by (auto simp: demo_codecs_def gcm_NonceSize_def intro: exI [of _ "replicate 12 9"])
  moreover have "\<not> encodes demo_codecs (?p None) [1, 2] ?c"
    by (auto simp: demo_codecs_def gcm_NonceSize_def append_eq_append_conv)
  ultimately show ?thesis by (intro exI [of _ "?p None"] exI) (auto simp: NewProcessorChain_def)
qed

end
