(* ===== verification/Pipelines.thy ===== *)
theory Pipelines
  imports Pipeline_Stages Processing
begin

text \<open>
  The pipelines (\<open>pipeline/single_object.go\<close>, \<open>pipeline/async_splitter.go\<close>), which hash, process and
  store content and read it back.  The storage is a record of the operations of \<open>ChunkStorage\<close>.

  The goroutines of the asynchronous pipeline are replaced by a schedule: which indices each
  processor goroutine takes, what randomness it draws, and the orders in which the items reach the
  storage, the collector and the composer.  A processor goroutine runs its whole loop on its own
  memory, and what it has sent is read off that memory at the end of the loop.  The operations of the
  storage run one after another.  A run that fails yields its error and nothing else: how much of
  the output it has produced before is not stated.
\<close>

section \<open>Interfaces\<close>

record 'w ChunkStorage =
  cs_WriteChunk :: "bytes \<Rightarrow> ('w, storage_error, ChunkConfig) op"
  cs_ReadChunk :: "ChunkConfig \<Rightarrow> 'w \<Rightarrow> (storage_error, bytes) result"
  cs_CheckChunk :: "ChunkConfig \<Rightarrow> bool \<Rightarrow> 'w \<Rightarrow> (storage_error, CheckStatus) result"
  cs_RepairChunk :: "ChunkConfig \<Rightarrow> ('w, storage_error, ChunkConfig) op"
  cs_DeleteChunk :: "ChunkConfig \<Rightarrow> ('w, storage_error, unit) op"

type_synonym hasher_constructor = "(type_error, hash_Hash) result"

definition DefaultHasherConstructor :: hasher_constructor where
  "DefaultHasherConstructor = NewDefaultHasher256 None"

definition DefaultProcessorConstructor :: processor_constructor where
  "DefaultProcessorConstructor m = (Ok NopProcessor, m)"

section \<open>The single-object pipeline\<close>

record 'w SingleObjectPipeline =
  sop_hasher :: hasher_constructor
  sop_processor :: processor_constructor
  sop_storage :: "'w ChunkStorage"

definition NewSingleObjectPipeline ::
  "'w ChunkStorage option \<Rightarrow> processor_constructor option \<Rightarrow> hasher_constructor option \<Rightarrow> (string, 'w SingleObjectPipeline) result" where
  "NewSingleObjectPipeline cs pc hc =
     (case cs of
        None \<Rightarrow> Panic
      | Some cs \<Rightarrow> Ok \<lparr>sop_hasher = (case hc of None \<Rightarrow> DefaultHasherConstructor | Some hc \<Rightarrow> hc),
          sop_processor = (case pc of None \<Rightarrow> DefaultProcessorConstructor | Some pc \<Rightarrow> pc), sop_storage = cs\<rparr>)"

text \<open>One call of a processor on data that lies in an array of its own.\<close>

definition process_once ::
  "(processor \<Rightarrow> view \<Rightarrow> pstate \<Rightarrow> (string, view) result \<times> processor \<times> pstate) \<Rightarrow> processor \<Rightarrow> bytes \<Rightarrow> pstate \<Rightarrow>
   (pipeline_error, bytes) result" where
  "process_once step p data st =
     (case new_array data (ps_mem st) of
        (a, m) \<Rightarrow>
          (case step p (a, length data) (st\<lparr>ps_mem := m\<rparr>) of
             (Ok v, _, st') \<Rightarrow> Ok (contents (ps_mem st') v)
           | (Err e, _, _) \<Rightarrow> Err (ErrProcessor e)
           | (Panic, _, _) \<Rightarrow> Panic))"

text \<open>A nil reader or writer is \<open>None\<close>; the result is \<open>None\<close> while the reader has not come to an end.\<close>

definition sop_Write ::
  "codecs \<Rightarrow> digest \<Rightarrow> 'w SingleObjectPipeline \<Rightarrow> bytes \<Rightarrow> reads option \<Rightarrow> 'w \<Rightarrow> ((pipeline_error, Chunk list) result \<times> 'w) option" where
  "sop_Write lib dg sop rand r w =
     (case r of
        None \<Rightarrow> Some (Err ErrNilReader, w)
      | Some reads \<Rightarrow>
          (case (map_err ErrHasher (sop_hasher sop), sop_processor sop []) of
             (Err e, _) \<Rightarrow> Some (Err e, w)
           | (Panic, _) \<Rightarrow> Some (Panic, w)
           | (Ok hasher, (Err e, _)) \<Rightarrow> Some (Err (ErrConstructor e), w)
           | (Ok hasher, (Panic, _)) \<Rightarrow> Some (Panic, w)
           | (Ok hasher, (Ok processor, m)) \<Rightarrow>
               map_option (\<lambda>all.
                 obind (all, w) (\<lambda>input w.
                 let hash = fst (HashBytes dg input hasher) in
                 obind (process_once (WriteProcess lib) processor input \<lparr>ps_mem = m, ps_rand = rand\<rparr>, w) (\<lambda>data w.
                 obind (omap_err ErrStorage (cs_WriteChunk (sop_storage sop) data w)) (\<lambda>cfg w.
                   (Ok [\<lparr>ch_Size = Size cfg, ch_Objects = Objects cfg, ch_Hash = hash\<rparr>], w)))))
                 (ReadAll reads)))"

definition sop_Read ::
  "codecs \<Rightarrow> digest \<Rightarrow> 'w SingleObjectPipeline \<Rightarrow> Chunk list \<Rightarrow> 'o writer option \<Rightarrow> 'w \<Rightarrow> ('o, pipeline_error, unit) op" where
  "sop_Read lib dg sop chunks wr w out =
     (if length chunks \<noteq> 1 then (Err ErrUnexpectedChunkCount, out)
      else case wr of
        None \<Rightarrow> (Err ErrNilWriter, out)
      | Some wr \<Rightarrow>
          obind (map_err ErrHasher (sop_hasher sop), out) (\<lambda>hasher out.
          case sop_processor sop [] of
            (Err e, _) \<Rightarrow> (Err (ErrConstructor e), out)
          | (Panic, _) \<Rightarrow> (Panic, out)
          | (Ok processor, m) \<Rightarrow>
              obind (map_err ErrStorage (cs_ReadChunk (sop_storage sop) (chunk_config (chunks ! 0)) w), out) (\<lambda>data out.
              obind (process_once (ReadProcess lib) processor data \<lparr>ps_mem = m, ps_rand = []\<rparr>, out) (\<lambda>data out.
              if ch_Hash (chunks ! 0) \<noteq> fst (HashBytes dg data hasher) then (Err ErrHashMismatch, out)
              else omap_err ErrWriter (wr data out)))))"

definition sop_Check :: "'w SingleObjectPipeline \<Rightarrow> Chunk list \<Rightarrow> bool \<Rightarrow> 'w \<Rightarrow> (pipeline_error, CheckStatus) result" where
  "sop_Check sop chunks fast w =
     (if length chunks \<noteq> 1 then Err ErrUnexpectedChunkCount
      else map_err ErrStorage (cs_CheckChunk (sop_storage sop) (chunk_config (chunks ! 0)) fast w))"

definition repaired :: "Chunk \<Rightarrow> ChunkConfig \<Rightarrow> Chunk" where
  "repaired chunk cfg = \<lparr>ch_Size = Size cfg, ch_Objects = Objects cfg, ch_Hash = ch_Hash chunk\<rparr>"

definition sop_Repair :: "'w SingleObjectPipeline \<Rightarrow> Chunk list \<Rightarrow> ('w, pipeline_error, Chunk list) op" where
  "sop_Repair sop chunks w =
     (if length chunks \<noteq> 1 then (Err ErrUnexpectedChunkCount, w)
      else obind (omap_err ErrStorage (cs_RepairChunk (sop_storage sop) (chunk_config (chunks ! 0)) w)) (\<lambda>cfg w.
        (Ok [repaired (chunks ! 0) cfg], w)))"

definition sop_Delete :: "'w SingleObjectPipeline \<Rightarrow> Chunk list \<Rightarrow> ('w, pipeline_error, unit) op" where
  "sop_Delete sop chunks w =
     (if length chunks \<noteq> 1 then (Err ErrUnexpectedChunkCount, w)
      else omap_err ErrStorage (cs_DeleteChunk (sop_storage sop) (chunk_config (chunks ! 0)) w))"

section \<open>The asynchronous splitter pipeline\<close>

record 'w AsyncSplitterPipeline =
  asp_hasher :: hasher_constructor
  asp_processor :: processor_constructor
  asp_storage :: "'w ChunkStorage"
  asp_storageJobCount :: nat
  asp_processorJobCount :: nat
  asp_chunkSize :: nat

definition NewAsyncSplitterPipeline ::
  "nat \<Rightarrow> 'w ChunkStorage option \<Rightarrow> int \<Rightarrow> processor_constructor option \<Rightarrow> hasher_constructor option \<Rightarrow> int \<Rightarrow>
   (string, 'w AsyncSplitterPipeline) result" where
  "NewAsyncSplitterPipeline defaultJobCount cs chunkSize pc hc jobCount =
     (case cs of
        None \<Rightarrow> Panic
      | Some cs \<Rightarrow>
          if chunkSize \<le> 0 then Panic
          else let jobCount = (if jobCount \<le> 0 then defaultJobCount else nat jobCount) in
            Ok \<lparr>asp_hasher = (case hc of None \<Rightarrow> DefaultHasherConstructor | Some hc \<Rightarrow> hc),
              asp_processor = (case pc of None \<Rightarrow> DefaultProcessorConstructor | Some pc \<Rightarrow> pc), asp_storage = cs,
              asp_storageJobCount = jobCount * 2, asp_processorJobCount = jobCount, asp_chunkSize = nat chunkSize\<rparr>)"

definition asp_single :: "'w AsyncSplitterPipeline \<Rightarrow> 'w SingleObjectPipeline" where
  "asp_single asp = \<lparr>sop_hasher = asp_hasher asp, sop_processor = asp_processor asp, sop_storage = asp_storage asp\<rparr>"

fun hash_loop :: "digest \<Rightarrow> hash_Hash \<Rightarrow> bytes list \<Rightarrow> bytes list" where
  "hash_loop dg h [] = []"
| "hash_loop dg h (x # xs) = (case HashBytes dg x h of (d, h') \<Rightarrow> d # hash_loop dg h' xs)"

fun join_results :: "('e, 'a list) result list \<Rightarrow> ('e, 'a list) result" where
  "join_results [] = Ok []"
| "join_results (r # rs) = rbind r (\<lambda>xs. rbind (join_results rs) (\<lambda>ys. Ok (xs @ ys)))"

text \<open>A processor goroutine of \<open>Write\<close>: the indices it takes and the random bytes it draws.\<close>

definition write_worker ::
  "codecs \<Rightarrow> digest \<Rightarrow> 'w AsyncSplitterPipeline \<Rightarrow> bytes list \<Rightarrow> nat list \<times> bytes \<Rightarrow> (pipeline_error, (nat \<times> bytes \<times> bytes) list) result" where
  "write_worker lib dg asp inputs worker =
     rbind (map_err ErrHasher (asp_hasher asp)) (\<lambda>hasher.
       case asp_processor asp [] of
         (Err e, _) \<Rightarrow> Err (ErrConstructor e)
       | (Panic, _) \<Rightarrow> Panic
       | (Ok processor, m) \<Rightarrow>
           let jobs = map ((!) inputs) (fst worker) in
           (case write_loop lib processor jobs \<lparr>ps_mem = m, ps_rand = snd worker\<rparr> of
              (Ok vs, _, st) \<Rightarrow> Ok (zip (fst worker) (zip (hash_loop dg hasher jobs) (map (contents (ps_mem st)) vs)))
            | (Err e, _, _) \<Rightarrow> Err (ErrProcessor e)
            | (Panic, _, _) \<Rightarrow> Panic))"

text \<open>The storage goroutines of \<open>Write\<close>, in the order in which they reach the storage.\<close>

fun store_chunks ::
  "'w ChunkStorage \<Rightarrow> (nat \<rightharpoonup> bytes \<times> bytes) \<Rightarrow> nat list \<Rightarrow> ('w, pipeline_error, (nat \<times> Chunk) list) op" where
  "store_chunks cs data [] w = (Ok [], w)"
| "store_chunks cs data (i # order) w =
     (case data i of
        None \<Rightarrow> store_chunks cs data order w
      | Some (hash, d) \<Rightarrow>
          obind (omap_err ErrStorage (cs_WriteChunk cs d w)) (\<lambda>cfg w.
          obind (store_chunks cs data order w) (\<lambda>chunks w.
            (Ok ((i, \<lparr>ch_Size = Size cfg, ch_Objects = Objects cfg, ch_Hash = hash\<rparr>) # chunks), w))))"

record schedule =
  sch_workers :: "(nat list \<times> bytes) list"
  sch_storage :: "nat list"
  sch_output :: "nat list"

definition in_order :: "('i \<rightharpoonup> 'a) \<Rightarrow> 'i list \<Rightarrow> ('i \<times> 'a) list" where
  "in_order data order = concat (map (\<lambda>i. case data i of None \<Rightarrow> [] | Some x \<Rightarrow> [(i, x)]) order)"

definition asp_Write ::
  "codecs \<Rightarrow> digest \<Rightarrow> 'w AsyncSplitterPipeline \<Rightarrow> schedule \<Rightarrow> reads option \<Rightarrow> 'w \<Rightarrow> (pipeline_error, Chunk list \<times> 'w) result option" where
  "asp_Write lib dg asp sch r w =
     (case r of
        None \<Rightarrow> Some (Err ErrNilReader)
      | Some reads \<Rightarrow>
          map_option (\<lambda>split.
            rbind split (\<lambda>inputs.
            rbind (join_results (map (write_worker lib dg asp inputs) (sch_workers sch))) (\<lambda>datas.
            case store_chunks (asp_storage asp) (map_of datas) (sch_storage sch) w of
              (Ok chunks, w') \<Rightarrow>
                rbind (collect_chunks (asp_storageJobCount asp) (in_order (map_of chunks) (sch_output sch))) (\<lambda>chunks. Ok (chunks, w'))
            | (Err e, w') \<Rightarrow> Err e
            | (Panic, w') \<Rightarrow> Panic)))
            (newAsyncDataSplitter reads))"

text \<open>A processor goroutine of \<open>Read\<close>: it checks the hash of every chunk it has processed.\<close>

definition read_worker ::
  "codecs \<Rightarrow> digest \<Rightarrow> 'w AsyncSplitterPipeline \<Rightarrow> Chunk list \<Rightarrow> bytes list \<Rightarrow> nat list \<times> bytes \<Rightarrow> (pipeline_error, (nat \<times> bytes) list) result" where
  "read_worker lib dg asp chunks inputs worker =
     rbind (map_err ErrHasher (asp_hasher asp)) (\<lambda>hasher.
       case asp_processor asp [] of
         (Err e, _) \<Rightarrow> Err (ErrConstructor e)
       | (Panic, _) \<Rightarrow> Panic
       | (Ok processor, m) \<Rightarrow>
           (case read_loop lib processor (map ((!) inputs) (fst worker)) \<lparr>ps_mem = m, ps_rand = snd worker\<rparr> of
              (Ok vs, _, st) \<Rightarrow>
                let datas = map (contents (ps_mem st)) vs in
                if map (\<lambda>i. ch_Hash (chunks ! i)) (fst worker) \<noteq> hash_loop dg hasher datas then Err ErrHashMismatch
                else Ok (zip (fst worker) datas)
            | (Err e, _, _) \<Rightarrow> Err (ErrProcessor e)
            | (Panic, _, _) \<Rightarrow> Panic))"

definition asp_Read ::
  "codecs \<Rightarrow> digest \<Rightarrow> 'w AsyncSplitterPipeline \<Rightarrow> schedule \<Rightarrow> Chunk list \<Rightarrow> 'o writer option \<Rightarrow> 'w \<Rightarrow> 'o \<Rightarrow> (pipeline_error, 'o) result" where
  "asp_Read lib dg asp sch chunks wr w out =
     (if chunks = [] then Err ErrNoChunks
      else if length chunks = 1 then
        (case sop_Read lib dg (asp_single asp) chunks wr w out of (r, out') \<Rightarrow> rbind r (\<lambda>_. Ok out'))
      else case wr of
        None \<Rightarrow> Err ErrNilWriter
      | Some wr \<Rightarrow>
          rbind (join_results (map (\<lambda>chunk. rbind (map_err ErrStorage (cs_ReadChunk (asp_storage asp) (chunk_config chunk) w))
            (\<lambda>data. Ok [data])) chunks)) (\<lambda>inputs.
          rbind (join_results (map (read_worker lib dg asp chunks inputs) (sch_workers sch))) (\<lambda>datas.
            case compose_chunks wr 0 [] (in_order (map_of datas) (sch_output sch)) out of
              (r, out') \<Rightarrow> rbind (map_err ErrWriter r) (\<lambda>_. Ok out'))))"

text \<open>
  \<open>Check\<close>, \<open>Repair\<close> and \<open>Delete\<close> call the storage for every chunk, in any order; \<open>Check\<close> ends at the first
  error or invalid chunk.
\<close>

fun check_chunks :: "'w ChunkStorage \<Rightarrow> bool \<Rightarrow> bool \<Rightarrow> Chunk list \<Rightarrow> 'w \<Rightarrow> (pipeline_error, CheckStatus) result" where
  "check_chunks cs fast optimal [] w = Ok (if optimal then CheckStatusOptimal else CheckStatusValid)"
| "check_chunks cs fast optimal (chunk # chunks) w =
     rbind (map_err ErrStorage (cs_CheckChunk cs (chunk_config chunk) fast w)) (\<lambda>status.
       if status = CheckStatusInvalid then Ok CheckStatusInvalid
       else check_chunks cs fast (optimal \<and> status = CheckStatusOptimal) chunks w)"

definition asp_Check :: "'w AsyncSplitterPipeline \<Rightarrow> nat list \<Rightarrow> Chunk list \<Rightarrow> bool \<Rightarrow> 'w \<Rightarrow> (pipeline_error, CheckStatus) result" where
  "asp_Check asp order chunks fast w =
     (if chunks = [] then Err ErrNoChunks
      else if length chunks = 1 then sop_Check (asp_single asp) chunks fast w
      else check_chunks (asp_storage asp) fast True (map ((!) chunks) order) w)"

fun repair_chunks :: "'w ChunkStorage \<Rightarrow> Chunk list \<Rightarrow> nat list \<Rightarrow> Chunk list \<Rightarrow> ('w, pipeline_error, Chunk list) op" where
  "repair_chunks cs chunks [] out w = (Ok out, w)"
| "repair_chunks cs chunks (i # order) out w =
     obind (omap_err ErrStorage (cs_RepairChunk cs (chunk_config (chunks ! i)) w)) (\<lambda>cfg w.
       repair_chunks cs chunks order (out[i := repaired (chunks ! i) cfg]) w)"

definition asp_Repair :: "'w AsyncSplitterPipeline \<Rightarrow> nat list \<Rightarrow> Chunk list \<Rightarrow> ('w, pipeline_error, Chunk list) op" where
  "asp_Repair asp order chunks w =
     (if chunks = [] then (Err ErrNoChunks, w)
      else if length chunks = 1 then sop_Repair (asp_single asp) chunks w
      else repair_chunks (asp_storage asp) chunks order (replicate (length chunks) no_chunk) w)"

fun delete_chunks :: "'w ChunkStorage \<Rightarrow> Chunk list \<Rightarrow> ('w, pipeline_error, unit) op" where
  "delete_chunks cs [] w = (Ok (), w)"
| "delete_chunks cs (chunk # chunks) w =
     obind (omap_err ErrStorage (cs_DeleteChunk cs (chunk_config chunk) w)) (\<lambda>_ w. delete_chunks cs chunks w)"

definition asp_Delete :: "'w AsyncSplitterPipeline \<Rightarrow> nat list \<Rightarrow> Chunk list \<Rightarrow> ('w, pipeline_error, unit) op" where
  "asp_Delete asp order chunks w =
     (if chunks = [] then (Err ErrNoChunks, w)
      else if length chunks = 1 then sop_Delete (asp_single asp) chunks w
      else delete_chunks (asp_storage asp) (map ((!) chunks) order) w)"


section \<open>The stages between splitter and collector\<close>

definition permutes_upto :: "nat \<Rightarrow> nat list \<Rightarrow> bool" where
  "permutes_upto n xs \<longleftrightarrow> distinct xs \<and> set xs = {..<n}"

definition schedule_ok :: "nat \<Rightarrow> schedule \<Rightarrow> bool" where
  "schedule_ok n sch \<longleftrightarrow> permutes_upto n (concat (map fst (sch_workers sch))) \<and>
     permutes_upto n (sch_storage sch) \<and> permutes_upto n (sch_output sch)"

definition enough_randomness :: "schedule \<Rightarrow> bool" where
  "enough_randomness sch \<longleftrightarrow> (\<forall>(idx, rand)\<in>set (sch_workers sch). gcm_NonceSize * length idx \<le> length rand)"

lemma hash_loop_eq: "hash_loop dg h xs = map (dg (h_algorithm h)) xs"
  by (induction xs arbitrary: h) (simp_all add: HashBytes_eq)

lemma encodes_nonempty:
  assumes "codecs_ok lib"
  shows "encodes lib p x y \<Longrightarrow> configured p \<Longrightarrow> x \<noteq> [] \<Longrightarrow> y \<noteq> []"
    and "chain_encodes lib ps x y \<Longrightarrow> list_all configured ps \<Longrightarrow> x \<noteq> [] \<Longrightarrow> y \<noteq> []"
proof -
  have "(codecs_ok lib \<longrightarrow> encodes lib p x y \<longrightarrow> configured p \<longrightarrow> x \<noteq> [] \<longrightarrow> y \<noteq> [])"
    "(codecs_ok lib \<longrightarrow> chain_encodes lib ps x y \<longrightarrow> list_all configured ps \<longrightarrow> x \<noteq> [] \<longrightarrow> y \<noteq> [])"
    by (induction lib p x y and lib ps x y rule: encodes_chain_encodes.induct)
      (auto simp: codecs_ok_def gcm_NonceSize_def)
  with assms show "encodes lib p x y \<Longrightarrow> configured p \<Longrightarrow> x \<noteq> [] \<Longrightarrow> y \<noteq> []"
    "chain_encodes lib ps x y \<Longrightarrow> list_all configured ps \<Longrightarrow> x \<noteq> [] \<Longrightarrow> y \<noteq> []" by blast+
qed

lemma join_results_Ok:
  "(\<And>x. x \<in> set xs \<Longrightarrow> \<exists>ys. f x = Ok ys \<and> P x ys) \<Longrightarrow>
    \<exists>yss. join_results (map f xs) = Ok (concat yss) \<and> list_all2 P xs yss"
proof (induction xs)
  case (Cons x xs)
  then obtain ys where "f x = Ok ys" "P x ys" by auto
  moreover obtain yss where "join_results (map f xs) = Ok (concat yss)" "list_all2 P xs yss"
    using Cons.IH Cons.prems by fastforce
  ultimately show ?case by (intro exI [of _ "ys # yss"]) simp
qed simp

lemma in_order_eq:
  assumes "set order \<subseteq> dom f"
  shows "map fst (in_order f order) = order" "(i, x) \<in> set (in_order f order) \<longleftrightarrow> i \<in> set order \<and> f i = Some x"
  using assms by (induction order) (auto simp: in_order_def split: option.splits)

lemma shape_idem [simp]: "shape (shape p) = shape p"
  by (induction p) simp_all

text \<open>What a run of the pipeline needs: a processor and a hasher can be made.\<close>

definition constructors_ok :: "processor \<Rightarrow> memory \<Rightarrow> hash_Hash \<Rightarrow> processor_constructor \<Rightarrow> hasher_constructor \<Rightarrow> bool" where
  "constructors_ok p m h pc hc \<longleftrightarrow> pc [] = (Ok p, m) \<and> faithful p \<and> buffers_ok (owned p) m \<and> hc = Ok h"

lemma write_worker_spec:
  assumes c: "constructors_ok p m h (asp_processor asp) (asp_hasher asp)" and lib: "codecs_ok lib" "\<forall>c x. \<exists>y. compress lib c x = Ok y"
    and rand: "gcm_NonceSize * length idx \<le> length rand"
  shows "\<exists>items. write_worker lib dg asp inputs (idx, rand) = Ok items \<and> map fst items = idx \<and>
    (\<forall>(i, hsh, d)\<in>set items. hsh = dg (h_algorithm h) (inputs ! i) \<and> encodes lib (shape p) (inputs ! i) d)"
proof -
  from c have c': "asp_processor asp [] = (Ok p, m)" "faithful p" "buffers_ok (owned p) m" "asp_hasher asp = Ok h"
    by (simp_all add: constructors_ok_def)
  let ?st = "\<lparr>ps_mem = m, ps_rand = rand\<rparr>" and ?jobs = "map ((!) inputs) idx"
  obtain vs p' st' where w: "write_loop lib p ?jobs ?st = (Ok vs, p', st')"
    using write_loop_total [of p ?st lib ?jobs] c' lib rand by auto
  have enc: "list_all2 (encodes lib (shape p)) ?jobs (map (contents (ps_mem st')) vs)"
    using write_loop_spec [OF w c'(2) _ lib(1)] c'(3) by simp
  let ?items = "zip idx (zip (hash_loop dg h ?jobs) (map (contents (ps_mem st')) vs))"
  have len: "length vs = length idx" using list_all2_lengthD [OF enc] by simp
  have "write_worker lib dg asp inputs (idx, rand) = Ok ?items" using c' w by (simp add: write_worker_def Let_def)
  moreover have "map fst ?items = idx" using len by (simp add: hash_loop_eq)
  moreover have "hsh = dg (h_algorithm h) (inputs ! i) \<and> encodes lib (shape p) (inputs ! i) d" if mem: "(i, hsh, d) \<in> set ?items" for i hsh d
  proof -
    from mem obtain k where "k < length idx" "i = idx ! k" "hsh = hash_loop dg h ?jobs ! k" "d = contents (ps_mem st') (vs ! k)"
      using len by (auto simp: set_zip hash_loop_eq)
    then show ?thesis using list_all2_nthD2 [OF enc, of k] len by (simp add: hash_loop_eq)
  qed
  ultimately show ?thesis by (intro exI [of _ ?items]) blast
qed

lemma list_all2_concat_fst:
  "list_all2 (\<lambda>x ys. map fst ys = fst x \<and> Q ys) xs yss \<Longrightarrow> map fst (concat yss) = concat (map fst xs)"
  by (induction rule: list_all2_induct) auto

lemma write_workers_spec:
  assumes c: "constructors_ok p m h (asp_processor asp) (asp_hasher asp)" and lib: "codecs_ok lib" "\<forall>c x. \<exists>y. compress lib c x = Ok y"
    and rand: "enough_randomness sch"
  shows "\<exists>items. join_results (map (write_worker lib dg asp inputs) (sch_workers sch)) = Ok items \<and>
    map fst items = concat (map fst (sch_workers sch)) \<and>
    (\<forall>(i, hsh, d)\<in>set items. hsh = dg (h_algorithm h) (inputs ! i) \<and> encodes lib (shape p) (inputs ! i) d)"
proof -
  let ?Q = "\<lambda>items. \<forall>(i, hsh, d)\<in>set items. hsh = dg (h_algorithm h) (inputs ! i) \<and> encodes lib (shape p) (inputs ! i) d"
  have "\<exists>items. write_worker lib dg asp inputs x = Ok items \<and> (map fst items = fst x \<and> ?Q items)" if "x \<in> set (sch_workers sch)" for x
    using write_worker_spec [OF c lib, of "fst x" "snd x" dg inputs] that rand by (auto simp: enough_randomness_def)
  from join_results_Ok [where P = "\<lambda>x items. map fst items = fst x \<and> ?Q items", OF this] obtain yss where
    y: "join_results (map (write_worker lib dg asp inputs) (sch_workers sch)) = Ok (concat yss)"
      "list_all2 (\<lambda>x items. map fst items = fst x \<and> ?Q items) (sch_workers sch) yss" by blast
  have "?Q (concat yss)" using y(2) by (induction rule: list_all2_induct) auto
  with y list_all2_concat_fst [OF y(2)] show ?thesis by blast
qed

lemma read_worker_spec:
  assumes c: "constructors_ok p m h (asp_processor asp) (asp_hasher asp)" and lib: "codecs_ok lib"
    and items: "\<And>i. i \<in> set (fst worker) \<Longrightarrow> encodes lib (shape p) (orig ! i) (inputs ! i) \<and> ch_Hash (chunks ! i) = dg (h_algorithm h) (orig ! i)"
  shows "read_worker lib dg asp chunks inputs worker = Ok (map (\<lambda>i. (i, orig ! i)) (fst worker))"
proof -
  from c have c': "asp_processor asp [] = (Ok p, m)" "faithful p" "buffers_ok (owned p) m" "asp_hasher asp = Ok h"
    by (simp_all add: constructors_ok_def)
  let ?st = "\<lparr>ps_mem = m, ps_rand = snd worker\<rparr>" and ?xs = "map ((!) orig) (fst worker)"
  have enc: "list_all2 (encodes lib (shape p)) ?xs (map ((!) inputs) (fst worker))"
    using items by (auto simp: list_all2_conv_all_nth)
  have "\<exists>us p' st'. read_loop lib p (map ((!) inputs) (fst worker)) ?st = (Ok us, p', st') \<and> map (contents (ps_mem st')) us = ?xs"
    by (rule read_loop_spec [OF c'(2) _ lib enc]) (simp add: c'(3))
  then obtain us p' st' where r: "read_loop lib p (map ((!) inputs) (fst worker)) ?st = (Ok us, p', st')"
    "map (contents (ps_mem st')) us = ?xs" by blast
  have hash: "map (\<lambda>i. ch_Hash (chunks ! i)) (fst worker) = hash_loop dg h ?xs"
    using items by (simp add: hash_loop_eq)
  have "zip (fst worker) ?xs = map (\<lambda>i. (i, orig ! i)) (fst worker)"
    by (simp add: zip_map2 zip_same_conv_map)
  with hash c' r show ?thesis by (simp add: read_worker_def Let_def)
qed

lemma read_workers_spec:
  assumes c: "constructors_ok p m h (asp_processor asp) (asp_hasher asp)" and lib: "codecs_ok lib"
    and items: "\<And>i. i \<in> set (concat (map fst (sch_workers sch))) \<Longrightarrow>
      encodes lib (shape p) (orig ! i) (inputs ! i) \<and> ch_Hash (chunks ! i) = dg (h_algorithm h) (orig ! i)"
  shows "join_results (map (read_worker lib dg asp chunks inputs) (sch_workers sch)) =
    Ok (map (\<lambda>i. (i, orig ! i)) (concat (map fst (sch_workers sch))))"
proof -
  have "join_results (map (read_worker lib dg asp chunks inputs) ws) = Ok (map (\<lambda>i. (i, orig ! i)) (concat (map fst ws)))"
    if "set ws \<subseteq> set (sch_workers sch)" for ws
    using that
  proof (induction ws)
    case (Cons x ws)
    have "read_worker lib dg asp chunks inputs x = Ok (map (\<lambda>i. (i, orig ! i)) (fst x))"
      by (rule read_worker_spec [OF c lib]) (use items Cons.prems in auto)
    with Cons show ?case by simp
  qed simp
  then show ?thesis by blast
qed

lemma process_once_read:
  assumes c: "constructors_ok p m h pc hc" and lib: "codecs_ok lib" and enc: "encodes lib (shape p) x y"
  shows "process_once (ReadProcess lib) p y \<lparr>ps_mem = m, ps_rand = rand\<rparr> = Ok x"
proof -
  from c have p: "faithful p" "buffers_ok (owned p) m" by (simp_all add: constructors_ok_def)
  let ?st = "\<lparr>ps_mem = m @ [y], ps_rand = rand\<rparr>" and ?v = "(length m, length y)"
  have v: "buffers_ok (owned p) (ps_mem ?st)" "view_ok (ps_mem ?st) ?v" "fst ?v \<notin> set (owned p)" "contents (ps_mem ?st) ?v = y"
    using p(2) by (auto simp: view_ok_def contents_def buffers_ok_def nth_append)
  obtain r q st' where run: "ReadProcess lib p ?v ?st = (r, q, st')" by (metis prod_cases3)
  have "encodes lib p x y" using enc by (simp add: encodes_shape)
  with v p lib have "good_step (owned p) (\<lambda>y. y = x) ?v (ps_mem ?st) r (owned q) (ps_mem st') \<and> shape q = shape p \<and> (\<exists>u. r = Ok u)"
    by (intro read_step(1) [OF run]) (simp_all add: faithful_def)
  then obtain u where "r = Ok u" "contents (ps_mem st') u = x" by (auto simp: good_step_def)
  with run show ?thesis by (simp add: process_once_def new_array_def)
qed

lemma process_once_write:
  assumes c: "constructors_ok p m h pc hc" and lib: "codecs_ok lib" "\<forall>c x. \<exists>y. compress lib c x = Ok y"
    and rand: "gcm_NonceSize \<le> length rand"
  shows "\<exists>y. process_once (WriteProcess lib) p x \<lparr>ps_mem = m, ps_rand = rand\<rparr> = Ok y \<and> encodes lib (shape p) x y"
proof -
  from c have p: "faithful p" "buffers_ok (owned p) m" by (simp_all add: constructors_ok_def)
  let ?st = "\<lparr>ps_mem = m @ [x], ps_rand = rand\<rparr>" and ?v = "(length m, length x)"
  have v: "buffers_ok (owned p) (ps_mem ?st)" "view_ok (ps_mem ?st) ?v" "fst ?v \<notin> set (owned p)" "contents (ps_mem ?st) ?v = x"
    using p(2) by (auto simp: view_ok_def contents_def buffers_ok_def nth_append)
  obtain u q st' where run: "WriteProcess lib p ?v ?st = (Ok u, q, st')"
    using write_total(1) [OF lib(2), of p ?st ?v] p(1) rand by (auto simp: faithful_def)
  have "good_step (owned p) (encodes lib p (contents (ps_mem ?st) ?v)) ?v (ps_mem ?st) (Ok u) (owned q) (ps_mem st') \<and> shape q = shape p"
    using v p lib(1) by (intro write_step(1) [OF run]) (simp_all add: faithful_def)
  then have "encodes lib p x (contents (ps_mem st') u)" unfolding v(4) by (simp add: good_step_def)
  with run show ?thesis by (simp add: process_once_def new_array_def encodes_shape)
qed


section \<open>What the pipelines rely on\<close>

text \<open>
  \<open>holds w cfg d\<close>: the chunk of the configuration can be read and is \<open>d\<close>; \<open>ready n w\<close>: there is room for
  \<open>n\<close> more chunks.
\<close>

locale chunk_storage =
  fixes cs :: "'w ChunkStorage"
    and holds :: "'w \<Rightarrow> ChunkConfig \<Rightarrow> bytes \<Rightarrow> bool"
    and ready :: "nat \<Rightarrow> 'w \<Rightarrow> bool"
  assumes write_ready: "ready (Suc n) w \<Longrightarrow> d \<noteq> [] \<Longrightarrow>
      \<exists>cfg w'. cs_WriteChunk cs d w = (Ok cfg, w') \<and> holds w' cfg d \<and> ready n w' \<and> (\<forall>cfg' d'. holds w cfg' d' \<longrightarrow> holds w' cfg' d')"
    and read_holds: "holds w cfg d \<Longrightarrow> cs_ReadChunk cs cfg w = Ok d"
    and check_holds: "holds w cfg d \<Longrightarrow> \<exists>s. cs_CheckChunk cs cfg fast w = Ok s \<and> s \<noteq> CheckStatusInvalid"
begin

lemma store_chunks_spec:
  assumes "ready (length order + m) w" "\<And>i. i \<in> set order \<Longrightarrow> \<exists>hsh d. data i = Some (hsh, d) \<and> d \<noteq> []"
  shows "\<exists>chunks w'. store_chunks cs data order w = (Ok chunks, w') \<and> map fst chunks = order \<and>
    (\<forall>(i, c)\<in>set chunks. \<exists>d. data i = Some (ch_Hash c, d) \<and> holds w' (chunk_config c) d) \<and>
    (\<forall>cfg d. holds w cfg d \<longrightarrow> holds w' cfg d) \<and> ready m w'"
  using assms
proof (induction order arbitrary: w)
  case (Cons i order)
  then obtain hsh d where d: "data i = Some (hsh, d)" "d \<noteq> []" by (metis list.set_intros(1))
  from write_ready [of "length order + m" w d] Cons.prems(1) d(2) obtain cfg w1 where
    w1: "cs_WriteChunk cs d w = (Ok cfg, w1)" "holds w1 cfg d" "ready (length order + m) w1" "\<forall>cfg' d'. holds w cfg' d' \<longrightarrow> holds w1 cfg' d'"
    by auto
  from Cons.IH [OF w1(3)] Cons.prems(2) obtain chunks w' where
    w': "store_chunks cs data order w1 = (Ok chunks, w')" "map fst chunks = order"
      "\<forall>(i, c)\<in>set chunks. \<exists>d. data i = Some (ch_Hash c, d) \<and> holds w' (chunk_config c) d" "\<forall>cfg d. holds w1 cfg d \<longrightarrow> holds w' cfg d" "ready m w'"
    by auto
  let ?c = "\<lparr>ch_Size = Size cfg, ch_Objects = Objects cfg, ch_Hash = hsh\<rparr>"
  have "chunk_config ?c = cfg" by (simp add: chunk_config_def)
  then have "\<exists>d. data i = Some (ch_Hash ?c, d) \<and> holds w' (chunk_config ?c) d" using d(1) w1(2) w'(4) by auto
  with d w1 w' show ?case by (intro exI [of _ "(i, ?c) # chunks"] exI [of _ w']) auto
qed simp

text \<open>The chunks of a write: chunk \<open>i\<close> holds an encoding of input \<open>i\<close> and has its hash.\<close>

definition written :: "codecs \<Rightarrow> digest \<Rightarrow> processor \<Rightarrow> hash_Hash \<Rightarrow> bytes list \<Rightarrow> Chunk list \<Rightarrow> 'w \<Rightarrow> bool" where
  "written lib dg p h inputs chunks w \<longleftrightarrow> length chunks = length inputs \<and>
     (\<forall>i < length inputs. ch_Hash (chunks ! i) = dg (h_algorithm h) (inputs ! i) \<and>
        (\<exists>d. encodes lib (shape p) (inputs ! i) d \<and> holds w (chunk_config (chunks ! i)) d))"

lemma written_mono:
  "written lib dg p h inputs chunks w \<Longrightarrow> \<forall>cfg d. holds w cfg d \<longrightarrow> holds w' cfg d \<Longrightarrow> written lib dg p h inputs chunks w'"
  unfolding written_def by blast

lemma write_spec:
  assumes c: "constructors_ok p m h (asp_processor asp) (asp_hasher asp)" and lib: "codecs_ok lib" "\<forall>c x. \<exists>y. compress lib c x = Ok y"
    and asp: "asp_storage asp = cs" "0 < asp_storageJobCount asp"
    and split: "newAsyncDataSplitter reads = Some (Ok inputs)" "\<forall>x\<in>set inputs. x \<noteq> []"
    and sch: "schedule_ok (length inputs) sch" "enough_randomness sch" and w: "ready (length inputs + k) w"
  shows "\<exists>chunks w'. asp_Write lib dg asp sch (Some reads) w = Some (Ok (chunks, w')) \<and> written lib dg p h inputs chunks w' \<and>
    (\<forall>cfg d. holds w cfg d \<longrightarrow> holds w' cfg d) \<and> ready k w'"
proof -
  let ?n = "length inputs"
  obtain items where items: "join_results (map (write_worker lib dg asp inputs) (sch_workers sch)) = Ok items"
    "map fst items = concat (map fst (sch_workers sch))"
    "\<forall>(i, hsh, d)\<in>set items. hsh = dg (h_algorithm h) (inputs ! i) \<and> encodes lib (shape p) (inputs ! i) d"
    using write_workers_spec [OF c lib sch(2)] by blast
  have dist: "distinct (map fst items)" "fst ` set items = {..<?n}"
    using sch(1) items(2) by (simp_all add: schedule_ok_def permutes_upto_def flip: set_map)
  have val: "hsh = dg (h_algorithm h) (inputs ! i) \<and> encodes lib (shape p) (inputs ! i) d" if "map_of items i = Some (hsh, d)" for i hsh d
    using that items(3) by (auto dest: map_of_SomeD)
  have def: "\<exists>hsh d. map_of items i = Some (hsh, d) \<and> d \<noteq> []" if "i \<in> set (sch_storage sch)" for i
  proof -
    have i: "i < ?n" using that sch(1) by (auto simp: schedule_ok_def permutes_upto_def)
    then have "map_of items i \<noteq> None" using dist(2) by (auto simp: map_of_eq_None_iff)
    then obtain hsh d where hd: "map_of items i = Some (hsh, d)" by auto
    have conf: "configured (shape p)" using c shape_invariants [of "shape p" p] by (simp add: constructors_ok_def faithful_def)
    have "d \<noteq> []" using encodes_nonempty(1) [OF lib(1)] val [OF hd] conf split(2) i by (metis nth_mem)
    with hd show ?thesis by blast
  qed
  have len: "length (sch_storage sch) = ?n"
    using sch(1) by (metis card_lessThan distinct_card permutes_upto_def schedule_ok_def)
  obtain chunks w' where st: "store_chunks cs (map_of items) (sch_storage sch) w = (Ok chunks, w')" "map fst chunks = sch_storage sch"
    "\<forall>(i, ch)\<in>set chunks. \<exists>d. map_of items i = Some (ch_Hash ch, d) \<and> holds w' (chunk_config ch) d" "\<forall>cfg d. holds w cfg d \<longrightarrow> holds w' cfg d" "ready k w'"
    using store_chunks_spec [of "sch_storage sch" k w "map_of items"] w len def by auto
  let ?out = "in_order (map_of chunks) (sch_output sch)"
  have out: "set (sch_output sch) \<subseteq> dom (map_of chunks)"
    using st(2) sch(1) by (simp add: dom_map_of_conv_image_fst schedule_ok_def permutes_upto_def flip: set_map)
  have "distinct (map fst ?out)" "fst ` set ?out = {..<?n}"
    using in_order_eq(1) [OF out] sch(1) by (simp_all add: schedule_ok_def permutes_upto_def flip: set_map)
  from collect_chunks_ordered [OF asp(2) this] obtain res where
    res: "collect_chunks (asp_storageJobCount asp) ?out = Ok res" "length res = ?n" "\<forall>(i, ch)\<in>set ?out. res ! i = ch" by blast
  have "ch_Hash (res ! i) = dg (h_algorithm h) (inputs ! i) \<and> (\<exists>d. encodes lib (shape p) (inputs ! i) d \<and> holds w' (chunk_config (res ! i)) d)"
    if "i < ?n" for i
  proof -
    have "i \<in> set (sch_output sch)" using that sch(1) by (simp add: schedule_ok_def permutes_upto_def)
    then obtain ch where ch: "map_of chunks i = Some ch" "(i, ch) \<in> set ?out" using out in_order_eq(2) [OF out] by blast
    then have "res ! i = ch" using res(3) by auto
    moreover obtain d where "map_of items i = Some (ch_Hash ch, d)" "holds w' (chunk_config ch) d"
      using st(3) map_of_SomeD [OF ch(1)] by blast
    ultimately show ?thesis using val by blast
  qed
  then have "written lib dg p h inputs res w'" using res(2) by (simp add: written_def)
  moreover have "asp_Write lib dg asp sch (Some reads) w = Some (Ok (res, w'))"
    using split(1) items(1) st(1) res(1) asp(1) by (simp add: asp_Write_def)
  ultimately show ?thesis using st(4,5) by blast
qed


lemma read_all:
  assumes "written lib dg p h inputs chunks w"
  shows "\<exists>datas. join_results (map (\<lambda>chunk. rbind (map_err ErrStorage (cs_ReadChunk cs (chunk_config chunk) w)) (\<lambda>data. Ok [data])) chunks) = Ok datas \<and>
    length datas = length inputs \<and> (\<forall>i < length inputs. encodes lib (shape p) (inputs ! i) (datas ! i))"
proof -
  let ?f = "\<lambda>chunk. rbind (map_err ErrStorage (cs_ReadChunk cs (chunk_config chunk) w)) (\<lambda>data. Ok [data])"
  obtain d where d: "\<And>i. i < length inputs \<Longrightarrow> encodes lib (shape p) (inputs ! i) (d i) \<and> holds w (chunk_config (chunks ! i)) (d i)"
    using assms unfolding written_def by metis
  have *: "join_results (map ?f (map ((!) chunks) is)) = Ok (map d is)" if "set is \<subseteq> {..<length inputs}" for "is"
    using that
  proof (induction "is")
    case (Cons i "is")
    then have "cs_ReadChunk cs (chunk_config (chunks ! i)) w = Ok (d i)" using read_holds d by auto
    with Cons show ?case by simp
  qed simp
  have "set [0..<length inputs] \<subseteq> {..<length inputs}" by auto
  note * [OF this]
  moreover have "map ((!) chunks) [0..<length inputs] = chunks" using assms map_nth [of chunks] by (simp add: written_def)
  ultimately have "join_results (map ?f chunks) = Ok (map d [0..<length inputs])" by (simp only:)
  with d show ?thesis by (intro exI [of _ "map d [0..<length inputs]"]) simp
qed

lemma sop_write_spec:
  assumes c: "constructors_ok p m h (sop_processor sop) (sop_hasher sop)" and lib: "codecs_ok lib" "\<forall>c x. \<exists>y. compress lib c x = Ok y"
    and sop: "sop_storage sop = cs" and reads: "ReadAll reads = Some (Ok input)" "input \<noteq> []"
    and rand: "gcm_NonceSize \<le> length rand" and w: "ready (Suc k) w"
  shows "\<exists>chunks w'. sop_Write lib dg sop rand (Some reads) w = Some (Ok chunks, w') \<and> written lib dg p h [input] chunks w' \<and>
    (\<forall>cfg d. holds w cfg d \<longrightarrow> holds w' cfg d) \<and> ready k w'"
proof -
  obtain y where y: "process_once (WriteProcess lib) p input \<lparr>ps_mem = m, ps_rand = rand\<rparr> = Ok y" "encodes lib (shape p) input y"
    using process_once_write [OF c lib rand] by blast
  have conf: "configured (shape p)" using c shape_invariants [of "shape p" p] by (simp add: constructors_ok_def faithful_def)
  have "y \<noteq> []" using encodes_nonempty(1) [OF lib(1) y(2) conf reads(2)] .
  then obtain cfg w' where "cs_WriteChunk cs y w = (Ok cfg, w')" "holds w' cfg y" "\<forall>cfg' d'. holds w cfg' d' \<longrightarrow> holds w' cfg' d'" "ready k w'"
    using write_ready [of k w y] w by auto
  moreover have "chunk_config \<lparr>ch_Size = Size cfg, ch_Objects = Objects cfg, ch_Hash = hsh\<rparr> = cfg" for hsh by (simp add: chunk_config_def)
  ultimately show ?thesis using c sop reads y
    by (intro exI [of _ "[\<lparr>ch_Size = Size cfg, ch_Objects = Objects cfg, ch_Hash = dg (h_algorithm h) input\<rparr>]"] exI [of _ w'])
      (auto simp: sop_Write_def constructors_ok_def HashBytes_eq written_def intro!: exI [of _ y])
qed

lemma sop_read_spec:
  assumes c: "constructors_ok p m h (sop_processor sop) (sop_hasher sop)" and lib: "codecs_ok lib"
    and sop: "sop_storage sop = cs" and wrt: "written lib dg p h [x] chunks w"
  shows "sop_Read lib dg sop chunks (Some wr) w out = omap_err ErrWriter (wr x out)"
proof -
  from wrt obtain ch d where ch: "chunks = [ch]" "ch_Hash ch = dg (h_algorithm h) x" "encodes lib (shape p) x d" "holds w (chunk_config ch) d"
    by (cases chunks) (auto simp: written_def)
  have "cs_ReadChunk cs (chunk_config ch) w = Ok d" using read_holds ch(4) .
  moreover have "process_once (ReadProcess lib) p d \<lparr>ps_mem = m, ps_rand = []\<rparr> = Ok x"
    by (rule process_once_read [OF c lib ch(3)])
  ultimately show ?thesis using c sop ch by (simp add: sop_Read_def constructors_ok_def HashBytes_eq)
qed

lemma read_spec:
  assumes c: "constructors_ok p m h (asp_processor asp) (asp_hasher asp)" and lib: "codecs_ok lib"
    and asp: "asp_storage asp = cs" and wrt: "written lib dg p h inputs chunks w" and n: "inputs \<noteq> []" and sch: "schedule_ok (length inputs) sch"
  shows "asp_Read lib dg asp sch chunks (Some wr) w out =
    (case write_all wr inputs out of (r, out') \<Rightarrow> rbind (map_err ErrWriter r) (\<lambda>_. Ok out'))"
proof (cases "length inputs = 1")
  case True
  then obtain x where x: "inputs = [x]" by (cases inputs) auto
  have "sop_Read lib dg (asp_single asp) chunks (Some wr) w out = omap_err ErrWriter (wr x out)"
    by (rule sop_read_spec) (use c lib asp wrt x in \<open>simp_all add: asp_single_def\<close>)
  moreover have "length chunks = 1" using wrt x by (simp add: written_def)
  moreover obtain r out' where "wr x out = (r, out')" by fastforce
  ultimately show ?thesis using x by (cases r) (auto simp: asp_Read_def)
next
  case False
  let ?n = "length inputs" and ?idx = "concat (map fst (sch_workers sch))"
  obtain datas where datas: "join_results (map (\<lambda>chunk. rbind (map_err ErrStorage (cs_ReadChunk cs (chunk_config chunk) w)) (\<lambda>data. Ok [data])) chunks) = Ok datas"
    "\<forall>i < ?n. encodes lib (shape p) (inputs ! i) (datas ! i)" using read_all [OF wrt] by blast
  have idx: "distinct ?idx" "set ?idx = {..<?n}" "distinct (sch_output sch)" "set (sch_output sch) = {..<?n}"
    using sch by (simp_all add: schedule_ok_def permutes_upto_def del: set_concat)
  have workers: "join_results (map (read_worker lib dg asp chunks datas) (sch_workers sch)) = Ok (map (\<lambda>i. (i, inputs ! i)) ?idx)"
    by (rule read_workers_spec [OF c lib]) (use datas(2) wrt idx(2) in \<open>auto simp: written_def simp del: set_concat\<close>)
  let ?m = "map_of (map (\<lambda>i. (i, inputs ! i)) ?idx)"
  have m: "?m i = (if i < ?n then Some (inputs ! i) else None)" for i
    using idx(2) by (simp add: map_of_map_restrict restrict_map_def)
  have out: "set (sch_output sch) \<subseteq> dom ?m" using idx(4) m by auto
  have "compose_chunks wr 0 [] (in_order ?m (sch_output sch)) out = write_all wr (map ((!) inputs) [0..<?n]) out"
  proof (rule compose_ordered)
    show "distinct (map fst (in_order ?m (sch_output sch)))" using in_order_eq(1) [OF out] idx(3) by simp
    show "fst ` set (in_order ?m (sch_output sch)) = {..<?n}" using in_order_eq(1) [OF out] idx(4) by (metis set_map)
    show "\<And>i x. (i, x) \<in> set (in_order ?m (sch_output sch)) \<Longrightarrow> x = inputs ! i"
      using in_order_eq(2) [OF out] m by (auto split: if_splits)
  qed
  moreover have "length chunks = ?n" "chunks \<noteq> []" using wrt n by (auto simp: written_def)
  ultimately show ?thesis
    using False n datas(1) workers asp by (simp add: asp_Read_def map_nth split: prod.split)
qed

lemma sop_check_spec:
  assumes "sop_storage sop = cs" "written lib dg p h [x] chunks w"
  shows "\<exists>s. sop_Check sop chunks fast w = Ok s \<and> s \<noteq> CheckStatusInvalid"
proof -
  obtain ch d where "chunks = [ch]" "holds w (chunk_config ch) d" using assms(2) by (cases chunks) (auto simp: written_def)
  with check_holds [of w "chunk_config ch" d fast] assms(1) show ?thesis by (auto simp: sop_Check_def map_err_eq_Ok)
qed

lemma check_spec:
  assumes "asp_storage asp = cs" "written lib dg p h inputs chunks w" "inputs \<noteq> []" "set order \<subseteq> {..<length inputs}"
  shows "\<exists>s. asp_Check asp order chunks fast w = Ok s \<and> s \<noteq> CheckStatusInvalid"
proof -
  have "\<exists>s. cs_CheckChunk cs (chunk_config (chunks ! i)) fast w = Ok s \<and> s \<noteq> CheckStatusInvalid" if "i < length inputs" for i
    using that assms(2) check_holds unfolding written_def by metis
  moreover have "\<exists>s. check_chunks cs fast opt (map ((!) chunks) is) w = Ok s \<and> s \<noteq> CheckStatusInvalid" if "set is \<subseteq> {..<length inputs}" for opt "is"
    using that
  proof (induction "is" arbitrary: opt)
    case (Cons i "is")
    then obtain s where "cs_CheckChunk cs (chunk_config (chunks ! i)) fast w = Ok s" "s \<noteq> CheckStatusInvalid" using calculation [of i] by auto
    with Cons show ?case by simp
  qed simp
  moreover have "length chunks = length inputs" using assms(2) by (simp add: written_def)
  ultimately show ?thesis
    using assms(1,3,4) by (cases "length inputs = 1") (auto simp: asp_Check_def sop_Check_def asp_single_def map_err_eq_Ok)
qed

end

end
