(* ===== verification/Metastor_Client.thy ===== *)
theory Metastor_Client
  imports Metastor_Db Pipelines "HOL-Library.Countable"
begin

text \<open>
  The metadata of stored data (\<open>client/metastor/metatypes/types.go\<close>), its encoding
  (\<open>client/metastor/encoding/proto/proto.go\<close>) and the client of the metadata store
  (\<open>client/metastor/client.go\<close>).  The generated protocol buffer code is an argument, \<open>pb\<close>.
\<close>

section \<open>Metadata and its encoding\<close>

text \<open>The total size wraps around, so it is kept as a word, whose signed reading is the \<open>int64\<close> of the source; the size of one chunk is the length of a slice.\<close>

record Metadata =
  md_Key :: bytes
  md_Size :: int64
  md_CreationEpoch :: int
  md_LastWriteEpoch :: int
  md_Chunks :: "Chunk list"
  md_PreviousKey :: slice
  md_NextKey :: slice

definition new_Metadata :: Metadata where
  "new_Metadata = \<lparr>md_Key = [], md_Size = 0, md_CreationEpoch = 0, md_LastWriteEpoch = 0, md_Chunks = [], md_PreviousKey = None, md_NextKey = None\<rparr>"

record pb_Object =
  pbo_Key :: bytes
  pbo_ShardID :: string

record pb_Chunk =
  pbc_SizeInBytes :: nat
  pbc_Objects :: "pb_Object list"
  pbc_Hash :: bytes

record pb_Metadata =
  pbm_Key :: bytes
  pbm_SizeInBytes :: int64
  pbm_CreationEpoch :: int
  pbm_LastWriteEpoch :: int
  pbm_Chunks :: "pb_Chunk list"
  pbm_PreviousKey :: slice
  pbm_NextKey :: slice

record pb_codec =
  pb_Marshal :: "pb_Metadata \<Rightarrow> (string, bytes) result"
  pb_Unmarshal :: "bytes \<Rightarrow> (string, pb_Metadata) result"

definition pb_object :: "Object \<Rightarrow> pb_Object" where
  "pb_object input = \<lparr>pbo_Key = Key input, pbo_ShardID = ShardID input\<rparr>"

definition pb_chunk :: "Chunk \<Rightarrow> pb_Chunk" where
  "pb_chunk input = \<lparr>pbc_SizeInBytes = ch_Size input, pbc_Objects = map pb_object (ch_Objects input), pbc_Hash = ch_Hash input\<rparr>"

definition MarshalMetadata :: "pb_codec \<Rightarrow> Metadata \<Rightarrow> (string, bytes) result" where
  "MarshalMetadata pb md =
     pb_Marshal pb \<lparr>pbm_Key = md_Key md, pbm_SizeInBytes = md_Size md, pbm_CreationEpoch = md_CreationEpoch md,
       pbm_LastWriteEpoch = md_LastWriteEpoch md, pbm_Chunks = map pb_chunk (md_Chunks md),
       pbm_PreviousKey = md_PreviousKey md, pbm_NextKey = md_NextKey md\<rparr>"

definition meta_object :: "pb_Object \<Rightarrow> Object" where
  "meta_object input = \<lparr>Key = pbo_Key input, ShardID = pbo_ShardID input\<rparr>"

definition meta_chunk :: "pb_Chunk \<Rightarrow> Chunk" where
  "meta_chunk input = \<lparr>ch_Size = pbc_SizeInBytes input, ch_Objects = map meta_object (pbc_Objects input), ch_Hash = pbc_Hash input\<rparr>"

text \<open>The chunks of the target are replaced only when there are any.\<close>

definition UnmarshalMetadata :: "pb_codec \<Rightarrow> bytes \<Rightarrow> Metadata \<Rightarrow> (string, Metadata) result" where
  "UnmarshalMetadata pb b md =
     rbind (pb_Unmarshal pb b) (\<lambda>s.
       let md = md\<lparr>md_Key := pbm_Key s, md_Size := pbm_SizeInBytes s, md_CreationEpoch := pbm_CreationEpoch s,
         md_LastWriteEpoch := pbm_LastWriteEpoch s, md_NextKey := pbm_NextKey s, md_PreviousKey := pbm_PreviousKey s\<rparr> in
       Ok (if length (pbm_Chunks s) > 0 then md\<lparr>md_Chunks := map meta_chunk (pbm_Chunks s)\<rparr> else md))"

section \<open>The client\<close>

type_synonym marshal_pair = "(Metadata \<Rightarrow> (string, bytes) result) \<times> (bytes \<Rightarrow> Metadata \<Rightarrow> (string, Metadata) result)"

record ('s, 'x, 'e) metastor_Config =
  mcfg_Database :: "('s, 'x, 'e) meta_DB option"
  mcfg_MarshalFuncPair :: "((Metadata \<Rightarrow> (string, bytes) result) option \<times> (bytes \<Rightarrow> Metadata \<Rightarrow> (string, Metadata) result) option) option"
  mcfg_ProcessorConstructor :: "processor_constructor option"

text \<open>Encoding draws random bytes when the processor encrypts.\<close>

record ('s, 'x, 'e) metastor_Client =
  mc_db :: "('s, 'x, 'e) meta_DB"
  mc_encode :: "Metadata \<Rightarrow> (bytes, string, bytes) op"
  mc_decode :: "bytes \<Rightarrow> Metadata \<Rightarrow> (string, Metadata) result"

definition write_processed :: "codecs \<Rightarrow> processor_constructor \<Rightarrow> (Metadata \<Rightarrow> (string, bytes) result) \<Rightarrow> Metadata \<Rightarrow> (bytes, string, bytes) op" where
  "write_processed lib pc marshal md rand =
     (case pc [] of
        (Err e, m) \<Rightarrow> (Err e, rand)
      | (Panic, m) \<Rightarrow> (Panic, rand)
      | (Ok processor, m) \<Rightarrow>
          obind (marshal md, rand) (\<lambda>data rand.
            case new_array data m of
              (a, m) \<Rightarrow>
                (case WriteProcess lib processor (a, length data) \<lparr>ps_mem = m, ps_rand = rand\<rparr> of
                   (Ok v, _, st) \<Rightarrow> (Ok (contents (ps_mem st) v), ps_rand st)
                 | (Err e, _, st) \<Rightarrow> (Err e, ps_rand st)
                 | (Panic, _, st) \<Rightarrow> (Panic, ps_rand st))))"

definition read_processed ::
  "codecs \<Rightarrow> processor_constructor \<Rightarrow> (bytes \<Rightarrow> Metadata \<Rightarrow> (string, Metadata) result) \<Rightarrow> bytes \<Rightarrow> Metadata \<Rightarrow> (string, Metadata) result" where
  "read_processed lib pc unmarshal data md =
     (case pc [] of
        (Err e, m) \<Rightarrow> Err e
      | (Panic, m) \<Rightarrow> Panic
      | (Ok processor, m) \<Rightarrow>
          (case new_array data m of
             (a, m) \<Rightarrow>
               (case ReadProcess lib processor (a, length data) \<lparr>ps_mem = m, ps_rand = []\<rparr> of
                  (Ok v, _, st) \<Rightarrow> unmarshal (contents (ps_mem st) v) md
                | (Err e, _, _) \<Rightarrow> Err e
                | (Panic, _, _) \<Rightarrow> Panic)))"

definition metastor_NewClient ::
  "pb_codec \<Rightarrow> codecs \<Rightarrow> ('s, 'x, 'e) metastor_Config \<Rightarrow> (string, ('s, 'x, 'e) metastor_Client) result" where
  "metastor_NewClient pb lib cfg =
     (case mcfg_Database cfg of
        None \<Rightarrow> Err ''NewClient: no metastor database given''
      | Some db \<Rightarrow>
          rbind (case mcfg_MarshalFuncPair cfg of
              Some (None, _) \<Rightarrow> Err ''NewClient: marshal function missing''
            | Some (Some marshal, None) \<Rightarrow> Err ''NewClient: unmarshal function missing''
            | Some (Some marshal, Some unmarshal) \<Rightarrow> Ok (marshal, unmarshal)
            | None \<Rightarrow> Ok (MarshalMetadata pb, UnmarshalMetadata pb)) (\<lambda>(marshal, unmarshal).
          Ok (case mcfg_ProcessorConstructor cfg of
              None \<Rightarrow> \<lparr>mc_db = db, mc_encode = (\<lambda>md rand. (marshal md, rand)), mc_decode = unmarshal\<rparr>
            | Some pc \<Rightarrow> \<lparr>mc_db = db, mc_encode = write_processed lib pc marshal, mc_decode = read_processed lib pc unmarshal\<rparr>)))"

text \<open>
  The part of the program's state the client uses beside the database: the randomness and the
  variable that \<open>UpdateMetadata\<close> shares with its callback.
\<close>

record meta_world =
  mw_rand :: bytes
  mw_metadata :: Metadata

definition SetMetadata :: "('s, 'y meta_world_scheme, 'e) metastor_Client \<Rightarrow> Metadata \<Rightarrow> ('s \<times> 'y meta_world_scheme, 'e meta_error, unit) op" where
  "SetMetadata c md st =
     (if length (md_Key md) = 0 then (Err MetaNilKey, st)
      else case mc_encode c md (mw_rand (snd st)) of
        (r, rand) \<Rightarrow>
          obind (map_err MetaCodec r, (fst st, (snd st)\<lparr>mw_rand := rand\<rparr>)) (\<lambda>data st.
            case meta_Set (mc_db c) (md_Key md) data (fst st) of (r, s) \<Rightarrow> (r, (s, snd st))))"

definition GetMetadata :: "('s, 'x, 'e) metastor_Client \<Rightarrow> bytes \<Rightarrow> 's \<Rightarrow> ('e meta_error, Metadata) result" where
  "GetMetadata c key s =
     (if length key = 0 then Err MetaNilKey
      else rbind (meta_Get (mc_db c) key s) (\<lambda>data. map_err MetaCodec (mc_decode c data new_Metadata)))"

definition update_callback ::
  "('s, 'y meta_world_scheme, 'e) metastor_Client \<Rightarrow> (Metadata \<Rightarrow> ('s \<times> 'y meta_world_scheme, 'e, Metadata) op) \<Rightarrow>
   ('s, 'y meta_world_scheme, 'e) UpdateCallback" where
  "update_callback c cb data st =
     obind (map_err MetaCodec (mc_decode c data (mw_metadata (snd st))), st) (\<lambda>md st.
     obind (omap_err MetaCallback (cb md (apsnd (mw_metadata_update (\<lambda>_. md)) st))) (\<lambda>md st.
       case mc_encode c md (mw_rand (snd st)) of
         (r, rand) \<Rightarrow> (map_err MetaCodec r, (fst st, (snd st)\<lparr>mw_metadata := md, mw_rand := rand\<rparr>))))"

definition UpdateMetadata ::
  "('s, 'y meta_world_scheme, 'e) metastor_Client \<Rightarrow> bytes \<Rightarrow> (Metadata \<Rightarrow> ('s \<times> 'y meta_world_scheme, 'e, Metadata) op) \<Rightarrow>
   's \<times> 'y meta_world_scheme \<Rightarrow> (('e meta_error, Metadata) result \<times> 's \<times> 'y meta_world_scheme) option" where
  "UpdateMetadata c key cb st =
     (if length key = 0 then Some (Err MetaNilKey, st)
      else map_option (\<lambda>(r, st). (rbind r (\<lambda>_. Ok (mw_metadata (snd st))), st))
        (meta_Update (mc_db c) key (update_callback c cb) (apsnd (mw_metadata_update (\<lambda>_. new_Metadata)) st)))"

definition DeleteMetadata :: "('s, 'x, 'e) metastor_Client \<Rightarrow> bytes \<Rightarrow> ('s, 'e meta_error, unit) op" where
  "DeleteMetadata c key s = (if length key = 0 then (Err MetaNilKey, s) else meta_Delete (mc_db c) key s)"

definition metastor_Client_Close :: "('s, 'x, 'e) metastor_Client \<Rightarrow> ('s, 'e meta_error, unit) op" where
  "metastor_Client_Close c s = meta_Close (mc_db c) s"

section \<open>The codec\<close>

text \<open>What protocol buffers promise: a message is read back, an empty byte field as an absent one.\<close>

definition absent :: "slice \<Rightarrow> slice" where
  "absent b = (if b = Some [] then None else b)"

definition pb_ok :: "pb_codec \<Rightarrow> bool" where
  "pb_ok pb \<longleftrightarrow> (\<forall>s. \<exists>b. pb_Marshal pb s = Ok b \<and>
     pb_Unmarshal pb b = Ok (s\<lparr>pbm_PreviousKey := absent (pbm_PreviousKey s), pbm_NextKey := absent (pbm_NextKey s)\<rparr>))"

definition normal :: "Metadata \<Rightarrow> Metadata" where
  "normal md = md\<lparr>md_PreviousKey := absent (md_PreviousKey md), md_NextKey := absent (md_NextKey md)\<rparr>"

text \<open>Encoding needs at most \<open>n\<close> random bytes, and what it gives is decoded to the metadata it was made from.\<close>

definition codec_ok :: "nat \<Rightarrow> ('s, 'x, 'e) metastor_Client \<Rightarrow> bool" where
  "codec_ok n c \<longleftrightarrow> (\<forall>md rand. n \<le> length rand \<longrightarrow>
     (\<exists>b rand'. mc_encode c md rand = (Ok b, rand') \<and> length rand \<le> length rand' + n \<and>
        (\<forall>old. mc_decode c b old = Ok (if md_Chunks md = [] then (normal md)\<lparr>md_Chunks := md_Chunks old\<rparr> else normal md))))"

lemma meta_pb_object [simp]: "meta_object (pb_object obj) = obj"
  by (simp add: meta_object_def pb_object_def)

lemma meta_pb_chunk [simp]: "meta_chunk (pb_chunk c) = c"
  by (simp add: meta_chunk_def pb_chunk_def map_idI)

lemma proto_roundtrip:
  assumes "pb_ok pb"
  shows "\<exists>b. MarshalMetadata pb md = Ok b \<and>
    (\<forall>old. UnmarshalMetadata pb b old = Ok (if md_Chunks md = [] then (normal md)\<lparr>md_Chunks := md_Chunks old\<rparr> else normal md))"
proof -
  obtain b where "MarshalMetadata pb md = Ok b"
    "pb_Unmarshal pb b = Ok \<lparr>pbm_Key = md_Key md, pbm_SizeInBytes = md_Size md, pbm_CreationEpoch = md_CreationEpoch md,
       pbm_LastWriteEpoch = md_LastWriteEpoch md, pbm_Chunks = map pb_chunk (md_Chunks md),
       pbm_PreviousKey = absent (md_PreviousKey md), pbm_NextKey = absent (md_NextKey md)\<rparr>"
    using assms unfolding pb_ok_def MarshalMetadata_def by fastforce
  then show ?thesis by (auto simp: UnmarshalMetadata_def normal_def Let_def map_idI)
qed

lemma run_write:
  "pc [] = (Ok p, m) \<Longrightarrow> marshal md = Ok b \<Longrightarrow> process_once (WriteProcess lib) p b \<lparr>ps_mem = m, ps_rand = rand\<rparr> = Ok y \<Longrightarrow>
   WriteProcess lib p (length m, length b) \<lparr>ps_mem = m @ [b], ps_rand = rand\<rparr> = (r, q, st) \<Longrightarrow>
     write_processed lib pc marshal md rand = (Ok y, ps_rand st)"
  by (auto simp: write_processed_def process_once_def new_array_def split: result.splits)

lemma run_read:
  "pc [] = (Ok p, m) \<Longrightarrow> process_once (ReadProcess lib) p b \<lparr>ps_mem = m, ps_rand = []\<rparr> = Ok data \<Longrightarrow>
     read_processed lib pc unmarshal b md = unmarshal data md"
  by (auto simp: read_processed_def process_once_def new_array_def split: prod.splits result.splits)

lemma processed_codec_ok:
  assumes lib: "codecs_ok lib" "\<forall>c x. \<exists>y. compress lib c x = Ok y" and c: "constructors_ok p m h pc hc"
    and marshal: "\<And>md. \<exists>b. marshal md = Ok b \<and>
      (\<forall>old. unmarshal b old = Ok (if md_Chunks md = [] then (normal md)\<lparr>md_Chunks := md_Chunks old\<rparr> else normal md))"
  shows "codec_ok 12 \<lparr>mc_db = db, mc_encode = write_processed lib pc marshal, mc_decode = read_processed lib pc unmarshal\<rparr>"
  unfolding codec_ok_def
proof (intro allI impI)
  fix md and rand :: bytes assume rand: "12 \<le> length rand"
  from c have p: "pc [] = (Ok p, m)" "configured p" "nonces p \<le> 12" by (simp_all add: constructors_ok_def faithful_def gcm_NonceSize_def)
  obtain b where b: "marshal md = Ok b" "\<forall>old. unmarshal b old = Ok (if md_Chunks md = [] then (normal md)\<lparr>md_Chunks := md_Chunks old\<rparr> else normal md)"
    using marshal by blast
  obtain y where y: "process_once (WriteProcess lib) p b \<lparr>ps_mem = m, ps_rand = rand\<rparr> = Ok y" "encodes lib (shape p) b y"
    using process_once_write [OF c lib, of rand b] rand by (auto simp: gcm_NonceSize_def)
  obtain u q st where st: "WriteProcess lib p (length m, length b) \<lparr>ps_mem = m @ [b], ps_rand = rand\<rparr> = (Ok u, q, st)"
      "ps_rand st = drop (nonces p) rand"
    using write_total(1) [OF lib(2) p(2), of "\<lparr>ps_mem = m @ [b], ps_rand = rand\<rparr>" "(length m, length b)"] p(3) rand by auto
  have "write_processed lib pc marshal md rand = (Ok y, ps_rand st)" by (rule run_write [where pc = pc and marshal = marshal, OF p(1) b(1) y(1) st(1)])
  moreover have "length rand \<le> length (ps_rand st) + 12" using st(2) p(3) by simp
  moreover have "read_processed lib pc unmarshal y old = unmarshal b old" for old
    by (rule run_read [where pc = pc, OF p(1)]) (rule process_once_read [OF c lib(1) y(2)])
  ultimately show "\<exists>b rand'. mc_encode \<lparr>mc_db = db, mc_encode = write_processed lib pc marshal, mc_decode = read_processed lib pc unmarshal\<rparr> md rand = (Ok b, rand') \<and>
      length rand \<le> length rand' + 12 \<and> (\<forall>old. mc_decode \<lparr>mc_db = db, mc_encode = write_processed lib pc marshal, mc_decode = read_processed lib pc unmarshal\<rparr> b old =
        Ok (if md_Chunks md = [] then (normal md)\<lparr>md_Chunks := md_Chunks old\<rparr> else normal md))"
    using b(2) by auto
qed

section \<open>The client implements a map from keys to metadata\<close>

lemma codec_okD:
  assumes "codec_ok n c" "n \<le> length rand"
  obtains b rand' where "mc_encode c md rand = (Ok b, rand')" "length rand \<le> length rand' + n" "mc_decode c b new_Metadata = Ok (normal md)"
proof -
  have old: "(normal md)\<lparr>md_Chunks := md_Chunks new_Metadata\<rparr> = normal md" if "md_Chunks md = []"
    using that by (simp add: normal_def new_Metadata_def)
  from assms obtain b rand' where "mc_encode c md rand = (Ok b, rand')" "length rand \<le> length rand' + n"
    "mc_decode c b new_Metadata = Ok (if md_Chunks md = [] then (normal md)\<lparr>md_Chunks := md_Chunks new_Metadata\<rparr> else normal md)"
    unfolding codec_ok_def by blast
  with that old show thesis by simp
qed

text \<open>What can be got.\<close>

definition metadata_of :: "('s, 'x, 'e) metastor_Client \<Rightarrow> 's \<Rightarrow> bytes \<rightharpoonup> Metadata" where
  "metadata_of c s k = (case GetMetadata c k s of Ok md \<Rightarrow> Some md | _ \<Rightarrow> None)"

context metadata_db
begin

definition entries :: "('s, 'y, 'f) metastor_Client \<Rightarrow> 's \<Rightarrow> bytes \<rightharpoonup> Metadata" where
  "entries c s k =
     (case stored s k of None \<Rightarrow> None | Some b \<Rightarrow> (case mc_decode c b new_Metadata of Ok md \<Rightarrow> Some md | _ \<Rightarrow> None))"

text \<open>The database can hold under the key what the client makes of the metadata.\<close>

definition fitting :: "('s, 'y, 'f) metastor_Client \<Rightarrow> bytes \<Rightarrow> Metadata \<Rightarrow> bool" where
  "fitting c k md \<longleftrightarrow> (\<forall>rand b rand'. mc_encode c md rand = (Ok b, rand') \<longrightarrow> fits k b)"

lemma fittingD: "fitting c k md \<Longrightarrow> mc_encode c md rand = (Ok b, rand') \<Longrightarrow> fits k b"
  unfolding fitting_def by blast

lemma entries_update:
  "stored s' = (stored s)(k \<mapsto> b) \<Longrightarrow> mc_decode c b new_Metadata = Ok md \<Longrightarrow> entries c s' = (entries c s)(k \<mapsto> md)"
  by (rule ext) (simp add: entries_def)

lemma GetMetadata_entry:
  assumes "mc_db c = db" "k \<noteq> []" "fits k b0"
  shows "entries c s k = Some md \<Longrightarrow> GetMetadata c k s = Ok md" "stored s k = None \<Longrightarrow> GetMetadata c k s = Err MetaNotFound"
  using assms by (auto simp: GetMetadata_def entries_def get split: option.splits result.splits)

lemma metadata_of_entry: "mc_db c = db \<Longrightarrow> k \<noteq> [] \<Longrightarrow> fits k b0 \<Longrightarrow> metadata_of c s k = entries c s k"
  using GetMetadata_entry [of c k b0] by (auto simp: metadata_of_def entries_def GetMetadata_def get split: option.splits result.splits)

lemma DeleteMetadata_entry:
  assumes "mc_db c = db" "k \<noteq> []" "fits k b0"
  shows "\<exists>s'. DeleteMetadata c k s = (Ok (), s') \<and> stored s' = (stored s)(k := None) \<and> entries c s' = (entries c s)(k := None)"
proof -
  obtain s' where "meta_Delete db k s = (Ok (), s')" "stored s' = (stored s)(k := None)" using delete_total [OF assms(3)] by blast
  moreover from this have "entries c s' = (entries c s)(k := None)" by (intro ext) (simp add: entries_def)
  ultimately show ?thesis using assms by (auto simp: DeleteMetadata_def)
qed

end

text \<open>The operations that encode need the program state to hold the randomness.\<close>

locale metadata_store = metadata_db db stored same fits
  for db :: "('s, 'y meta_world_scheme, 'e) meta_DB" and stored :: "'s \<Rightarrow> bytes \<rightharpoonup> bytes" and same :: "bytes \<Rightarrow> 's \<Rightarrow> 's \<Rightarrow> bool"
    and fits :: "bytes \<Rightarrow> bytes \<Rightarrow> bool"
begin

lemma SetMetadata_entry:
  assumes c: "mc_db c = db" "codec_ok n c" and md: "md_Key md \<noteq> []" "n \<le> length (mw_rand x)" and fit: "fitting c (md_Key md) md"
  shows "\<exists>s' rand'. SetMetadata c md (s, x) = (Ok (), s', x\<lparr>mw_rand := rand'\<rparr>) \<and> length (mw_rand x) \<le> length rand' + n \<and>
    entries c s' = (entries c s)(md_Key md \<mapsto> normal md) \<and> dom (stored s') = insert (md_Key md) (dom (stored s)) \<and>
    (\<forall>k. k \<noteq> md_Key md \<longrightarrow> same k s s') \<and> (\<forall>b. stored s' (md_Key md) = Some b \<longrightarrow> fits (md_Key md) b)"
proof -
  obtain b rand' where b: "mc_encode c md (mw_rand x) = (Ok b, rand')" "length (mw_rand x) \<le> length rand' + n"
    "mc_decode c b new_Metadata = Ok (normal md)" using codec_okD [OF c(2) md(2)] by blast
  obtain s' where "meta_Set db (md_Key md) b s = (Ok (), s')" "stored s' = (stored s)(md_Key md \<mapsto> b)" "\<forall>k. k \<noteq> md_Key md \<longrightarrow> same k s s'"
    using set_total [OF fittingD [OF fit b(1)]] by blast
  with b c(1) md(1) fittingD [OF fit b(1)] entries_update [OF _ b(3), of s' s "md_Key md"] show ?thesis
    by (intro exI [of _ s'] exI [of _ rand']) (simp add: SetMetadata_def)
qed

lemma UpdateMetadata_entry:
  assumes c: "mc_db c = db" "codec_ok n c" and k: "k \<noteq> []" "entries c s k = Some md"
    and cb: "cb md (s, x\<lparr>mw_metadata := md\<rparr>) = (Ok md', s', x')" "same k s s'" "n \<le> length (mw_rand x')"
    and fit: "fitting c k md'" "\<And>b. stored s k = Some b \<Longrightarrow> fits k b"
  shows "\<exists>s'' rand'. UpdateMetadata c k cb (s, x) = Some (Ok md', s'', x'\<lparr>mw_metadata := md', mw_rand := rand'\<rparr>) \<and>
    length (mw_rand x') \<le> length rand' + n \<and> entries c s'' = (entries c s')(k \<mapsto> normal md') \<and> dom (stored s'') = insert k (dom (stored s')) \<and>
    (\<forall>b. stored s'' k = Some b \<longrightarrow> fits k b)"
proof -
  from k(2) obtain b0 where b0: "stored s k = Some b0" "mc_decode c b0 new_Metadata = Ok md"
    by (auto simp: entries_def split: option.splits result.splits)
  obtain b rand' where b: "mc_encode c md' (mw_rand x') = (Ok b, rand')" "length (mw_rand x') \<le> length rand' + n"
    "mc_decode c b new_Metadata = Ok (normal md')" using codec_okD [OF c(2) cb(3)] by blast
  have "update_callback c cb b0 (s, x\<lparr>mw_metadata := new_Metadata\<rparr>) = (Ok b, s', x'\<lparr>mw_metadata := md', mw_rand := rand'\<rparr>)"
    using b0(2) b(1) cb(1) by (simp add: update_callback_def)
  from update_ok [where cb = "update_callback c cb", OF fit(2) [OF b0(1)] fittingD [OF fit(1) b(1)] b0(1) this cb(2)] obtain s'' where
    "meta_Update db k (update_callback c cb) (s, x\<lparr>mw_metadata := new_Metadata\<rparr>) = Some (Ok (), s'', x'\<lparr>mw_metadata := md', mw_rand := rand'\<rparr>)"
    "stored s'' = (stored s')(k \<mapsto> b)" by blast
  with b c(1) k(1) fittingD [OF fit(1) b(1)] entries_update [OF _ b(3), of s'' s' k] show ?thesis
    by (intro exI [of _ s''] exI [of _ rand']) (simp add: UpdateMetadata_def)
qed

text \<open>
  Together: the client is a map from keys to metadata, on the keys that the database can hold.
\<close>

lemma client_is_map:
  assumes c: "mc_db c = db" "codec_ok n c" and x: "n \<le> length (mw_rand x)" and key: "key \<noteq> []" "fits key b0"
  shows "md_Key md = key \<Longrightarrow> fitting c key md \<Longrightarrow> \<exists>s' x'. SetMetadata c md (s, x) = (Ok (), s', x') \<and>
      (\<forall>b. stored s' key = Some b \<longrightarrow> fits key b) \<and>
      (\<forall>k b1. k \<noteq> [] \<longrightarrow> fits k b1 \<longrightarrow> metadata_of c s' k = ((metadata_of c s)(key \<mapsto> normal md)) k)"
    and "\<exists>s'. DeleteMetadata c key s = (Ok (), s') \<and>
      (\<forall>k b1. k \<noteq> [] \<longrightarrow> fits k b1 \<longrightarrow> metadata_of c s' k = ((metadata_of c s)(key := None)) k)"
    and "metadata_of c s key = Some md \<Longrightarrow> fitting c key (f md) \<Longrightarrow> \<forall>b. stored s key = Some b \<longrightarrow> fits key b \<Longrightarrow>
      \<exists>s' x'. UpdateMetadata c key (\<lambda>md st. (Ok (f md), st)) (s, x) = Some (Ok (f md), s', x') \<and>
      (\<forall>k b1. k \<noteq> [] \<longrightarrow> fits k b1 \<longrightarrow> metadata_of c s' k = ((metadata_of c s)(key \<mapsto> normal (f md))) k)"
proof -
  have lift: "\<forall>k b1. k \<noteq> [] \<longrightarrow> fits k b1 \<longrightarrow> metadata_of c s' k = ((metadata_of c s)(key := v)) k"
    if "entries c s' = (entries c s)(key := v)" for s' v
    using that by (auto simp: fun_eq_iff metadata_of_entry [OF c(1)])
  show "\<exists>s' x'. SetMetadata c md (s, x) = (Ok (), s', x') \<and> (\<forall>b. stored s' key = Some b \<longrightarrow> fits key b) \<and>
      (\<forall>k b1. k \<noteq> [] \<longrightarrow> fits k b1 \<longrightarrow> metadata_of c s' k = ((metadata_of c s)(key \<mapsto> normal md)) k)"
    if "md_Key md = key" "fitting c key md"
  proof -
    have "md_Key md \<noteq> []" "fitting c (md_Key md) md" using that key by simp_all
    from SetMetadata_entry [OF c this(1) x this(2), of s] that(1) lift show ?thesis by blast
  qed
  show "\<exists>s'. DeleteMetadata c key s = (Ok (), s') \<and> (\<forall>k b1. k \<noteq> [] \<longrightarrow> fits k b1 \<longrightarrow> metadata_of c s' k = ((metadata_of c s)(key := None)) k)"
    using DeleteMetadata_entry [OF c(1) key, of s] lift by blast
  show "\<exists>s' x'. UpdateMetadata c key (\<lambda>md st. (Ok (f md), st)) (s, x) = Some (Ok (f md), s', x') \<and>
      (\<forall>k b1. k \<noteq> [] \<longrightarrow> fits k b1 \<longrightarrow> metadata_of c s' k = ((metadata_of c s)(key \<mapsto> normal (f md))) k)"
    if m: "metadata_of c s key = Some md" "fitting c key (f md)" "\<forall>b. stored s key = Some b \<longrightarrow> fits key b"
  proof -
    have "entries c s key = Some md" using m(1) metadata_of_entry [OF c(1) key] by simp
    from UpdateMetadata_entry [OF c key(1) this, of "\<lambda>md st. (Ok (f md), st)" x] x m(2,3) same_refl lift show ?thesis by auto
  qed
qed

lemma UpdateMetadata_missing:
  assumes "mc_db c = db" "k \<noteq> []" "stored s k = None" "fits k b0"
  shows "\<exists>st. UpdateMetadata c k cb (s, x) = Some (Err MetaNotFound, st)"
  using assms update_missing [of k b0 s] by (simp add: UpdateMetadata_def)

lemma UpdateMetadata_refused:
  assumes "mc_db c = db" "k \<noteq> []" "entries c s k = Some md" "cb md (s, x\<lparr>mw_metadata := md\<rparr>) = (Err e, st)"
    and fit: "\<And>b. stored s k = Some b \<Longrightarrow> fits k b"
  shows "UpdateMetadata c k cb (s, x) = Some (Err (MetaCallback e), st)"
proof -
  from assms(3) obtain b0 where b0: "stored s k = Some b0" "mc_decode c b0 new_Metadata = Ok md"
    by (auto simp: entries_def split: option.splits result.splits)
  have "update_callback c cb b0 (s, x\<lparr>mw_metadata := new_Metadata\<rparr>) = (Err (MetaCallback e), st)"
    using b0(2) assms(4) by (simp add: update_callback_def)
  from update_err [where cb = "update_callback c cb", OF fit [OF b0(1)] b0(1) this] assms(1,2) show ?thesis by (simp add: UpdateMetadata_def)
qed

end

interpretation mst: metadata_store "metastor_DB_ops (\<lambda>_ db. db)" msd_md "\<lambda>k s s'. msd_md s' k = msd_md s k \<and> version s' k = version s k" "\<lambda>_ _. True"
  by unfold_locales

lemma lone_fitting: "msd.fitting c k md"
  by (simp add: msd.fitting_def)

lemmas lone_GetMetadata = msd.GetMetadata_entry [OF _ _ TrueI]
lemmas lone_DeleteMetadata = msd.DeleteMetadata_entry [OF _ _ TrueI]
lemmas lone_SetMetadata = mst.SetMetadata_entry [OF _ _ _ _ lone_fitting]
lemmas lone_UpdateMetadata = mst.UpdateMetadata_entry [OF _ _ _ _ _ _ _ lone_fitting TrueI]

section \<open>Configured clients\<close>

text \<open>The in-memory database used by one client alone.\<close>

abbreviation lone_DB :: "(metastor_DB, 'y meta_world_scheme, 'e) meta_DB" where
  "lone_DB \<equiv> metastor_DB_ops (\<lambda>_ db. db)"

definition configured_metastor_on ::
  "('s, 'x, 'e) meta_DB \<Rightarrow> pb_codec \<Rightarrow> codecs \<Rightarrow> (CompressionConfig \<times> EncryptionConfig) option \<Rightarrow> (string, ('s, 'x, 'e) metastor_Client) result" where
  "configured_metastor_on db pb lib cfg = metastor_NewClient pb lib
     \<lparr>mcfg_Database = Some db, mcfg_MarshalFuncPair = None, mcfg_ProcessorConstructor = map_option (\<lambda>(cc, ec). NewProcessorConstructor cc ec) cfg\<rparr>"

abbreviation configured_metastor ::
  "pb_codec \<Rightarrow> codecs \<Rightarrow> (CompressionConfig \<times> EncryptionConfig) option \<Rightarrow> (string, (metastor_DB, 'y meta_world_scheme, 'e) metastor_Client) result" where
  "configured_metastor \<equiv> configured_metastor_on lone_DB"

lemma configured_codec_ok:
  assumes "configured_metastor_on db pb lib cfg = Ok c" "pb_ok pb" "codecs_ok lib" "\<forall>c x. \<exists>y. compress lib c x = Ok y"
    and "\<forall>cc ec. cfg = Some (cc, ec) \<longrightarrow> (\<exists>p m. NewProcessorConstructor cc ec [] = (Ok p, m))"
  shows "codec_ok 12 c \<and> mc_db c = db"
proof (cases cfg)
  case None
  have "codec_ok 12 \<lparr>mc_db = db, mc_encode = (\<lambda>md rand. (MarshalMetadata pb md, rand)), mc_decode = UnmarshalMetadata pb\<rparr>" for db :: "('s, 'x, 'f) meta_DB"
    using proto_roundtrip [OF assms(2)] by (fastforce simp: codec_ok_def)
  with None assms(1) show ?thesis by (auto simp: configured_metastor_on_def metastor_NewClient_def)
next
  case (Some a)
  obtain cc ec where a: "a = (cc, ec)" by fastforce
  with Some assms(5) obtain p m where p: "NewProcessorConstructor cc ec [] = (Ok p, m)" by blast
  with constructed [of cc ec] have "constructors_ok p m h (NewProcessorConstructor cc ec) (Ok h)" for h
    by (auto simp: constructors_ok_def)
  from processed_codec_ok [OF assms(3,4) this proto_roundtrip [OF assms(2)]] Some a assms(1) show ?thesis
    by (auto simp: configured_metastor_on_def metastor_NewClient_def)
qed

lemma metadata_of_entries:
  assumes "mc_db c = lone_DB" "k \<noteq> []"
  shows "metadata_of c s k = msd.entries c s k"
  using assms by (auto simp: metadata_of_def msd.entries_def GetMetadata_def msd.get [OF TrueI] split: option.splits result.splits)

text \<open>
  C7.  The client of the metadata store is a map from keys to metadata, whichever way metadata is
  processed before it is stored: setting, updating and deleting metadata change what can be got
  under the key, and under no other key, to what was set (an empty link is read as an absent one).
\<close>

theorem metastor_client_refines_map:
  assumes c: "configured_metastor pb lib cfg = Ok c" "pb_ok pb" "codecs_ok lib" "\<forall>c x. \<exists>y. compress lib c x = Ok y"
      "\<forall>cc ec. cfg = Some (cc, ec) \<longrightarrow> (\<exists>p m. NewProcessorConstructor cc ec [] = (Ok p, m))"
    and x: "12 \<le> length (mw_rand x)" and key: "key \<noteq> []"
  shows "(md_Key md = key \<longrightarrow> (\<exists>s' x'. SetMetadata c md (s, x) = (Ok (), s', x') \<and>
      (\<forall>k. metadata_of c s' k = ((metadata_of c s)(key \<mapsto> normal md)) k))) \<and>
    (\<exists>s'. DeleteMetadata c key s = (Ok (), s') \<and> (\<forall>k. metadata_of c s' k = ((metadata_of c s)(key := None)) k)) \<and>
    (metadata_of c s key = Some md \<longrightarrow>
      (\<exists>s' x'. UpdateMetadata c key (\<lambda>md st. (Ok (f md), st)) (s, x) = Some (Ok (f md), s', x') \<and>
        (\<forall>k. metadata_of c s' k = ((metadata_of c s)(key \<mapsto> normal (f md))) k)))"
proof -
  from configured_codec_ok [OF c] have ok: "mc_db c = lone_DB" "codec_ok 12 c" by auto
  have nil: "metadata_of c s' [] = None" for s' by (simp add: metadata_of_def GetMetadata_def)
  note map = mst.client_is_map [where s = s and key = key and c = c, OF ok x key TrueI, simplified simp_thms]
  have all: "(\<forall>k. k \<noteq> [] \<longrightarrow> metadata_of c s' k = ((metadata_of c s)(key := v)) k) \<longleftrightarrow> (\<forall>k. metadata_of c s' k = ((metadata_of c s)(key := v)) k)" for s' v
    using nil key by (metis fun_upd_other)
  show ?thesis using map(1) [OF _ lone_fitting, of md] map(2) map(3) [OF _ lone_fitting, of md f] unfolding all by blast
qed

text \<open>A codec that keeps the promise: a message as a number, a number as that many bytes and one more.\<close>

type_synonym pb_tuple = "bytes \<times> int64 \<times> int \<times> int \<times> (nat \<times> (bytes \<times> string) list \<times> bytes) list \<times> slice \<times> slice"

definition demo_tuple :: "pb_Metadata \<Rightarrow> pb_tuple" where
  "demo_tuple s = (pbm_Key s, pbm_SizeInBytes s, pbm_CreationEpoch s, pbm_LastWriteEpoch s,
     map (\<lambda>c. (pbc_SizeInBytes c, map (\<lambda>obj. (pbo_Key obj, pbo_ShardID obj)) (pbc_Objects c), pbc_Hash c)) (pbm_Chunks s),
     absent (pbm_PreviousKey s), absent (pbm_NextKey s))"

fun demo_message :: "pb_tuple \<Rightarrow> pb_Metadata" where
  "demo_message (key, sz, creation, lastWrite, chunks, previous, nextKey) =
     \<lparr>pbm_Key = key, pbm_SizeInBytes = sz, pbm_CreationEpoch = creation, pbm_LastWriteEpoch = lastWrite,
      pbm_Chunks = map (\<lambda>(n, objs, h). \<lparr>pbc_SizeInBytes = n, pbc_Objects = map (\<lambda>(k, s). \<lparr>pbo_Key = k, pbo_ShardID = s\<rparr>) objs, pbc_Hash = h\<rparr>) chunks,
      pbm_PreviousKey = previous, pbm_NextKey = nextKey\<rparr>"

definition demo_pb :: pb_codec where
  "demo_pb = \<lparr>pb_Marshal = (\<lambda>s. Ok (replicate (Suc (to_nat (demo_tuple s))) 0)), pb_Unmarshal = (\<lambda>b. Ok (demo_message (from_nat (length b - 1))))\<rparr>"

lemma demo_pb_ok: "pb_ok demo_pb"
proof -
  have "demo_message (demo_tuple s) = s\<lparr>pbm_PreviousKey := absent (pbm_PreviousKey s), pbm_NextKey := absent (pbm_NextKey s)\<rparr>" for s
    by (simp add: demo_tuple_def comp_def map_idI)
  then show ?thesis by (simp add: pb_ok_def demo_pb_def)
qed

theorem metastor_client_refines_map_witness:
  "\<exists>c s x. (configured_metastor demo_pb demo_codecs None :: (string, (metastor_DB, meta_world, unit) metastor_Client) result) = Ok c \<and>
     SetMetadata c (new_Metadata\<lparr>md_Key := [7], md_NextKey := Some [8]\<rparr>) (metastor_New, \<lparr>mw_rand = replicate 12 0, mw_metadata = new_Metadata\<rparr>) = (Ok (), s, x) \<and>
     metadata_of c s [7] = Some (new_Metadata\<lparr>md_Key := [7], md_NextKey := Some [8]\<rparr>) \<and> metadata_of c s [9] = None"
proof -
  let ?md = "new_Metadata\<lparr>md_Key := [7], md_NextKey := Some [8]\<rparr>" and ?x = "\<lparr>mw_rand = replicate 12 0, mw_metadata = new_Metadata\<rparr>"
  obtain c where c: "(configured_metastor demo_pb demo_codecs None :: (string, (metastor_DB, meta_world, unit) metastor_Client) result) = Ok c" "mc_db c = lone_DB"
    by (simp add: configured_metastor_on_def metastor_NewClient_def)
  have lib: "\<forall>c x. \<exists>y. compress demo_codecs c x = Ok y" by (simp add: demo_codecs_def)
  have "\<exists>s' x'. SetMetadata c ?md (metastor_New, ?x) = (Ok (), s', x') \<and>
      (\<forall>k. metadata_of c s' k = ((metadata_of c metastor_New)([7] \<mapsto> normal ?md)) k)"
    using metastor_client_refines_map [OF c(1) demo_pb_ok demo_codecs_ok lib, of ?x "[7]" ?md metastor_New] by simp
  moreover have "metadata_of c metastor_New [9] = None" using c(2) by (simp add: metadata_of_entries msd.entries_def metastor_New_def)
  moreover have "normal ?md = ?md" by (simp add: normal_def absent_def new_Metadata_def)
  ultimately show ?thesis using c(1) by (elim exE conjE) (intro exI conjI, assumption+, simp_all)
qed

end
