(* ===== verification/Write_Workers.thy ===== *)
theory Write_Workers
  imports Chunk_Storage
begin

text \<open>
  The worker goroutines that write to several shards at once, as both
  \<open>(ReplicatedChunkStorage).write\<close> and \<open>(DistributedChunkStorage).WriteChunk\<close> run them: workers take a
  job (a part with its index) from a channel, take shards from the iterator's channel until one
  accepts the part, and send the object on the result channel; the first failing worker cancels the
  others.  A step of the system is a choice of the scheduler: which worker moves, and, once the
  context is cancelled, whether a blocked select takes the cancellation.  The channels' buffers do
  not restrict the order of steps and are left out.
\<close>

section \<open>The system\<close>

type_synonym job = "nat \<times> bytes"

datatype worker =
    Idle
  | Waiting job
  | Writing job string
  | Sending nat Object
  | Done
  | Failed storage_error

record 'w wstate =
  ws_jobs :: "job list"
  ws_shards :: "string list"
  ws_workers :: "worker list"
  ws_results :: "(nat \<times> Object) list"
  ws_cancelled :: bool
  ws_world :: 'w

datatype choice = Proceed nat | TakeCancel nat | StopJobs | StopShards

definition set_worker :: "nat \<Rightarrow> worker \<Rightarrow> 'w wstate \<Rightarrow> 'w wstate" where
  "set_worker i wk st = st\<lparr>ws_workers := (ws_workers st)[i := wk]\<rparr>"

fun proceed :: "'w Cluster \<Rightarrow> nat \<Rightarrow> worker \<Rightarrow> 'w wstate \<Rightarrow> 'w wstate option" where
  "proceed cl i Idle st =
     (case ws_jobs st of
        [] \<Rightarrow> Some (set_worker i Done st)
      | job # jobs \<Rightarrow> Some (set_worker i (Waiting job) (st\<lparr>ws_jobs := jobs\<rparr>)))"
| "proceed cl i (Waiting job) st =
     (case ws_shards st of
        [] \<Rightarrow> Some (set_worker i (Failed ErrShardsUnavailable) (st\<lparr>ws_cancelled := True\<rparr>))
      | shard # shards \<Rightarrow> Some (set_worker i (Writing job shard) (st\<lparr>ws_shards := shards\<rparr>)))"
| "proceed cl i (Writing job shard) st =
     (case cl_CreateObject cl shard (snd job) (ws_world st) of
        (Ok key, w) \<Rightarrow> Some (set_worker i (Sending (fst job) \<lparr>Key = key, ShardID = shard\<rparr>) (st\<lparr>ws_world := w\<rparr>))
      | (Err e, w) \<Rightarrow> Some (set_worker i (Waiting job) (st\<lparr>ws_world := w\<rparr>))
      | (Panic, w) \<Rightarrow> None)"
| "proceed cl i (Sending index object) st =
     Some (set_worker i Idle (st\<lparr>ws_results := ws_results st @ [(index, object)]\<rparr>))"
| "proceed cl i Done st = None"
| "proceed cl i (Failed e) st = None"

fun take_cancel :: "nat \<Rightarrow> worker \<Rightarrow> 'w wstate \<Rightarrow> 'w wstate option" where
  "take_cancel i Idle st = Some (set_worker i Done st)"
| "take_cancel i (Waiting job) st = Some (set_worker i (Failed ErrCancelled) st)"
| "take_cancel i (Sending index object) st = Some (set_worker i (Failed ErrCancelled) st)"
| "take_cancel i wk st = None"

fun write_step :: "'w Cluster \<Rightarrow> choice \<Rightarrow> 'w wstate \<Rightarrow> 'w wstate option" where
  "write_step cl (Proceed i) st =
     (if i < length (ws_workers st) then proceed cl i (ws_workers st ! i) st else None)"
| "write_step cl (TakeCancel i) st =
     (if ws_cancelled st \<and> i < length (ws_workers st) then take_cancel i (ws_workers st ! i) st else None)"
| "write_step cl StopJobs st =
     (if ws_cancelled st \<and> ws_jobs st \<noteq> [] then Some (st\<lparr>ws_jobs := []\<rparr>) else None)"
| "write_step cl StopShards st =
     (if ws_cancelled st \<and> ws_shards st \<noteq> [] then Some (st\<lparr>ws_shards := []\<rparr>) else None)"

fun run_choices :: "'w Cluster \<Rightarrow> choice list \<Rightarrow> 'w wstate \<Rightarrow> 'w wstate option" where
  "run_choices cl [] st = Some st"
| "run_choices cl (c # cs) st =
     (case write_step cl c st of None \<Rightarrow> None | Some st' \<Rightarrow> run_choices cl cs st')"

definition start_workers :: "nat \<Rightarrow> job list \<Rightarrow> string list \<Rightarrow> 'w \<Rightarrow> 'w wstate" where
  "start_workers jobCount jobs shards w =
     \<lparr>ws_jobs = jobs, ws_shards = shards, ws_workers = replicate jobCount Idle, ws_results = [],
      ws_cancelled = False, ws_world = w\<rparr>"

definition finished :: "'w wstate \<Rightarrow> bool" where
  "finished st \<longleftrightarrow> list_all (\<lambda>wk. case wk of Done \<Rightarrow> True | Failed _ \<Rightarrow> True | _ \<Rightarrow> False) (ws_workers st)"

text \<open>
  \<open>group.Wait\<close>: the run ends when every worker has returned; a schedule that stops before yields
  nothing.
\<close>

definition run_workers ::
  "'w Cluster \<Rightarrow> choice list \<Rightarrow> nat \<Rightarrow> job list \<Rightarrow> string list \<Rightarrow> 'w \<Rightarrow> ((nat \<times> Object) list \<times> 'w) option" where
  "run_workers cl schedule jobCount jobs shards w =
     (case run_choices cl schedule (start_workers jobCount jobs shards w) of
        None \<Rightarrow> None
      | Some st \<Rightarrow> if finished st then Some (ws_results st, ws_world st) else None)"

section \<open>Termination\<close>

fun worker_weight :: "worker \<Rightarrow> nat" where
  "worker_weight Idle = 1"
| "worker_weight (Waiting job) = 4"
| "worker_weight (Writing job shard) = 5"
| "worker_weight (Sending index object) = 3"
| "worker_weight Done = 0"
| "worker_weight (Failed e) = 0"

definition weight :: "'w wstate \<Rightarrow> nat" where
  "weight st = 5 * length (ws_jobs st) + 2 * length (ws_shards st) + sum_list (map worker_weight (ws_workers st))"

lemma sum_list_map_update:
  "i < length xs \<Longrightarrow> sum_list (map f (xs[i := y])) + f (xs ! i) = sum_list (map f xs) + (f y :: nat)"
  by (induction xs arbitrary: i) (auto split: nat.splits)

lemma weight_set_worker:
  "i < length (ws_workers st) \<Longrightarrow>
     weight (set_worker i wk st) + worker_weight (ws_workers st ! i) = weight st + worker_weight wk"
  using sum_list_map_update [of i "ws_workers st" worker_weight wk] by (simp add: weight_def set_worker_def)

lemma write_step_weight:
  assumes "write_step cl c st = Some st'"
  shows "weight st' < weight st"
proof (cases c)
  case (Proceed i)
  with assms have i: "i < length (ws_workers st)" and p: "proceed cl i (ws_workers st ! i) st = Some st'"
    by (auto split: if_splits)
  note sum = sum_list_map_update [OF i, of worker_weight]
  show ?thesis
  proof (cases "ws_workers st ! i")
    case Idle
    with p sum [of Done] sum [of "Waiting (hd (ws_jobs st))"] show ?thesis
      by (auto simp: weight_def set_worker_def split: list.splits)
  next
    case (Waiting job)
    with p sum [of "Failed ErrShardsUnavailable"] sum [of "Writing job (hd (ws_shards st))"] show ?thesis
      by (auto simp: weight_def set_worker_def split: list.splits)
  next
    case (Writing job shard)
    obtain r w where create: "cl_CreateObject cl shard (snd job) (ws_world st) = (r, w)" by fastforce
    show ?thesis
    proof (cases r)
      case (Ok key)
      with p Writing create sum [of "Sending (fst job) \<lparr>Key = key, ShardID = shard\<rparr>"] show ?thesis
        by (auto simp: weight_def set_worker_def)
    next
      case (Err e)
      with p Writing create sum [of "Waiting job"] show ?thesis by (auto simp: weight_def set_worker_def)
    qed (use p Writing create in simp)
  next
    case (Sending index object)
    with p sum [of Idle] show ?thesis by (auto simp: weight_def set_worker_def)
  qed (use p in auto)
next
  case (TakeCancel i)
  with assms have i: "i < length (ws_workers st)" and p: "take_cancel i (ws_workers st ! i) st = Some st'"
    by (auto split: if_splits)
  note sum = sum_list_map_update [OF i, of worker_weight]
  show ?thesis
    using p sum [of Done] sum [of "Failed ErrCancelled"]
    by (cases "ws_workers st ! i") (auto simp: weight_def set_worker_def)
qed (use assms in \<open>auto simp: weight_def split: if_splits\<close>)

lemma run_choices_weight:
  "run_choices cl cs st = Some st' \<Longrightarrow> weight st' + length cs \<le> weight st"
proof (induction cs arbitrary: st)
  case Nil
  then show ?case by simp
next
  case (Cons c cs)
  then obtain st1 where "write_step cl c st = Some st1" "run_choices cl cs st1 = Some st'"
    by (auto split: option.splits)
  with Cons.IH write_step_weight show ?case by fastforce
qed

section \<open>The moves of a worker\<close>

text \<open>
  The same steps as a relation: the worker before and after, and the state with everything but the
  worker updated.
\<close>

inductive move :: "'w Cluster \<Rightarrow> 'w wstate \<Rightarrow> worker \<Rightarrow> worker \<Rightarrow> 'w wstate \<Rightarrow> bool" for cl st where
  no_job: "ws_jobs st = [] \<Longrightarrow> move cl st Idle Done st"
| take_job: "ws_jobs st = job # jobs \<Longrightarrow> move cl st Idle (Waiting job) (st\<lparr>ws_jobs := jobs\<rparr>)"
| no_shard: "ws_shards st = [] \<Longrightarrow>
    move cl st (Waiting job) (Failed ErrShardsUnavailable) (st\<lparr>ws_cancelled := True\<rparr>)"
| take_shard: "ws_shards st = shard # shards \<Longrightarrow>
    move cl st (Waiting job) (Writing job shard) (st\<lparr>ws_shards := shards\<rparr>)"
| created: "cl_CreateObject cl shard (snd job) (ws_world st) = (Ok key, w) \<Longrightarrow>
    move cl st (Writing job shard) (Sending (fst job) \<lparr>Key = key, ShardID = shard\<rparr>) (st\<lparr>ws_world := w\<rparr>)"
| refused: "cl_CreateObject cl shard (snd job) (ws_world st) = (Err e, w) \<Longrightarrow>
    move cl st (Writing job shard) (Waiting job) (st\<lparr>ws_world := w\<rparr>)"
| sent: "move cl st (Sending index obj) Idle (st\<lparr>ws_results := ws_results st @ [(index, obj)]\<rparr>)"
| cancel_idle: "ws_cancelled st \<Longrightarrow> move cl st Idle Done st"
| cancel_waiting: "ws_cancelled st \<Longrightarrow> move cl st (Waiting job) (Failed ErrCancelled) st"
| cancel_sending: "ws_cancelled st \<Longrightarrow> move cl st (Sending index obj) (Failed ErrCancelled) st"

lemma write_step_cases:
  assumes "write_step cl c st = Some st'"
  obtains (move) i wk st1 where "i < length (ws_workers st)" "move cl st (ws_workers st ! i) wk st1" "st' = set_worker i wk st1"
  | (stop_jobs) "ws_cancelled st" "st' = st\<lparr>ws_jobs := []\<rparr>"
  | (stop_shards) "ws_cancelled st" "st' = st\<lparr>ws_shards := []\<rparr>"
proof (cases c)
  case (Proceed i)
  with assms have i: "i < length (ws_workers st)" and p: "proceed cl i (ws_workers st ! i) st = Some st'"
    by (auto split: if_splits)
  have "\<exists>wk st1. move cl st (ws_workers st ! i) wk st1 \<and> st' = set_worker i wk st1"
    using p by (cases "ws_workers st ! i")
      (auto split: list.splits prod.splits result.splits intro: move.intros)
  with i show thesis using that(1) by blast
next
  case (TakeCancel i)
  with assms have i: "i < length (ws_workers st)" "ws_cancelled st" and p: "take_cancel i (ws_workers st ! i) st = Some st'"
    by (auto split: if_splits)
  have "\<exists>wk st1. move cl st (ws_workers st ! i) wk st1 \<and> st' = set_worker i wk st1"
    using p i by (cases "ws_workers st ! i") (auto intro: move.intros)
  with i show thesis using that(1) by blast
qed (use assms that in \<open>auto split: if_splits\<close>)

lemma move_workers: "move cl st old wk st1 \<Longrightarrow> ws_workers st1 = ws_workers st"
  by (cases rule: move.cases) auto

lemma mset_split_at:
  "i < length xs \<Longrightarrow> \<exists>rest. mset xs = add_mset (xs ! i) rest \<and> (\<forall>y. mset (xs[i := y]) = add_mset y rest)"
  by (intro exI [of _ "mset xs - {#xs ! i#}"]) (simp add: mset_update)

text \<open>The indices and the shards that are accounted for.\<close>

fun worker_index :: "worker \<Rightarrow> nat multiset" where
  "worker_index (Waiting job) = {#fst job#}"
| "worker_index (Writing job shard) = {#fst job#}"
| "worker_index (Sending index obj) = {#index#}"
| "worker_index wk = {#}"

fun worker_shard :: "worker \<Rightarrow> string multiset" where
  "worker_shard (Writing job shard) = {#shard#}"
| "worker_shard (Sending index obj) = {#ShardID obj#}"
| "worker_shard wk = {#}"

definition indices :: "'w wstate \<Rightarrow> nat multiset" where
  "indices st = mset (map fst (ws_jobs st)) + (\<Sum>wk\<in>#mset (ws_workers st). worker_index wk) + mset (map fst (ws_results st))"

definition used_shards :: "'w wstate \<Rightarrow> string multiset" where
  "used_shards st = mset (ws_shards st) + (\<Sum>wk\<in>#mset (ws_workers st). worker_shard wk) +
     mset (map (\<lambda>r. ShardID (snd r)) (ws_results st))"

lemma step_indices:
  assumes "write_step cl c st = Some st'"
  shows "indices st' \<subseteq># indices st \<and> (\<not> ws_cancelled st' \<longrightarrow> indices st' = indices st)"
  using assms
proof (cases rule: write_step_cases)
  case (move i wk st1)
  obtain rest where rest: "mset (ws_workers st) = add_mset (ws_workers st ! i) rest"
    "\<And>y. mset ((ws_workers st)[i := y]) = add_mset y rest" using mset_split_at [OF move(1)] by blast
  from move(2) show ?thesis
    by (cases rule: move.cases) (auto simp: indices_def move(3) set_worker_def rest)
qed (auto simp: indices_def)

lemma step_shards:
  assumes "write_step cl c st = Some st'"
  shows "used_shards st' \<subseteq># used_shards st"
  using assms
proof (cases rule: write_step_cases)
  case (move i wk st1)
  obtain rest where rest: "mset (ws_workers st) = add_mset (ws_workers st ! i) rest"
    "\<And>y. mset ((ws_workers st)[i := y]) = add_mset y rest" using mset_split_at [OF move(1)] by blast
  from move(2) show ?thesis
    by (cases rule: move.cases) (auto simp: used_shards_def move(3) set_worker_def rest)
qed (auto simp: used_shards_def)

lemma workers_run: "run_choices cl cs st = Some st' \<Longrightarrow> length (ws_workers st') = length (ws_workers st)"
proof (induction cs arbitrary: st)
  case (Cons c cs)
  then obtain st1 where step: "write_step cl c st = Some st1" and run: "run_choices cl cs st1 = Some st'"
    by (auto split: option.splits)
  from step have "length (ws_workers st1) = length (ws_workers st)"
    by (cases rule: write_step_cases) (auto simp: set_worker_def dest: move_workers)
  with Cons.IH [OF run] show ?case by simp
qed simp

lemma indices_run:
  "run_choices cl cs st = Some st' \<Longrightarrow> indices st' \<subseteq># indices st"
proof (induction cs arbitrary: st)
  case Nil
  then show ?case by simp
next
  case (Cons c cs)
  then obtain st1 where step: "write_step cl c st = Some st1" and run: "run_choices cl cs st1 = Some st'"
    by (auto split: option.splits)
  from step_indices [OF step] Cons.IH [OF run] show ?case by (meson subset_mset.order_trans)
qed

lemma indices_start: "indices (start_workers n J S w) = mset (map fst J)"
proof -
  have "(\<Sum>wk\<in>#mset (replicate n Idle). worker_index wk) = {#}" by (induction n) simp_all
  then show ?thesis by (simp add: indices_def start_workers_def)
qed

lemma distinct_submset: "mset xs \<subseteq># mset ys \<Longrightarrow> distinct ys \<Longrightarrow> distinct xs"
proof -
  assume sub: "mset xs \<subseteq># mset ys" and "distinct ys"
  then have "count (mset ys) a \<le> 1" for a by (simp add: distinct_count_atmost_1)
  then have "count (mset xs) a = (if a \<in> set xs then 1 else 0)" for a
    using mset_subset_eq_count [OF sub, of a] count_greater_zero_iff [of "mset xs" a]
    by (metis count_mset_0_iff le_antisym le_trans less_one not_less set_mset_mset)
  then show ?thesis by (simp add: distinct_count_atmost_1)
qed

lemma shard_used_once:
  assumes "distinct S" "used_shards st \<subseteq># mset S" "mset (ws_workers st) = add_mset (Writing job shard) rest"
  shows "shard \<in> set S" "\<And>wk. wk \<in># rest \<Longrightarrow> shard \<notin># worker_shard wk"
    "\<And>r. r \<in> set (ws_results st) \<Longrightarrow> ShardID (snd r) \<noteq> shard"
proof -
  have "count (mset S) shard \<le> 1" using assms(1) by (simp add: distinct_count_atmost_1)
  moreover have "count (used_shards st) shard \<le> count (mset S) shard"
    using assms(2) by (rule mset_subset_eq_count)
  moreover have "count (used_shards st) shard = count (mset (ws_shards st)) shard + 1 +
      count (\<Sum>wk\<in>#rest. worker_shard wk) shard + count (mset (map (\<lambda>r. ShardID (snd r)) (ws_results st))) shard"
    by (simp add: used_shards_def assms(3))
  ultimately have zero: "count (\<Sum>wk\<in>#rest. worker_shard wk) shard = 0"
      "count (mset (map (\<lambda>r. ShardID (snd r)) (ws_results st))) shard = 0" by linarith+
  have "shard \<in># used_shards st" by (simp add: used_shards_def assms(3))
  then show "shard \<in> set S" using set_mset_mono [OF assms(2)] by auto
  from zero(1) show "shard \<notin># worker_shard wk" if "wk \<in># rest" for wk
    using that by (auto simp: count_eq_zero_iff in_Union_mset_iff)
  from zero(2) show "ShardID (snd r) \<noteq> shard" if "r \<in> set (ws_results st)" for r
    using that by (auto simp: count_eq_zero_iff)
qed

section \<open>The objects a run delivers\<close>

context shard_cluster
begin

definition delivered :: "job list \<Rightarrow> 'w \<Rightarrow> 'w \<Rightarrow> nat \<times> Object \<Rightarrow> bool" where
  "delivered J w0 w r \<longleftrightarrow> Key (snd r) \<noteq> [] \<and> up w0 (ShardID (snd r)) \<and>
     (\<exists>d. (fst r, d) \<in> set J \<and> stored w (ShardID (snd r)) (Key (snd r)) = Some d)"

definition worker_ok :: "job list \<Rightarrow> 'w \<Rightarrow> 'w \<Rightarrow> worker \<Rightarrow> bool" where
  "worker_ok J w0 w wk \<longleftrightarrow>
     (case wk of Waiting job \<Rightarrow> job \<in> set J | Writing job shard \<Rightarrow> job \<in> set J
      | Sending index obj \<Rightarrow> delivered J w0 w (index, obj) | _ \<Rightarrow> True)"

definition winv :: "job list \<Rightarrow> string list \<Rightarrow> 'w \<Rightarrow> 'w wstate \<Rightarrow> bool" where
  "winv J S w0 st \<longleftrightarrow> set (ws_jobs st) \<subseteq> set J \<and> (\<forall>wk\<in>#mset (ws_workers st). worker_ok J w0 (ws_world st) wk) \<and>
     (\<forall>r\<in>set (ws_results st). delivered J w0 (ws_world st) r) \<and> up (ws_world st) = up w0 \<and>
     (\<forall>s. s \<notin> set S \<longrightarrow> stored (ws_world st) s = stored w0 s) \<and> used_shards st \<subseteq># mset S"

lemma delivered_frame:
  "delivered J w0 w r \<Longrightarrow> stored w' = (stored w)(s := m) \<Longrightarrow> ShardID (snd r) \<noteq> s \<Longrightarrow> delivered J w0 w' r"
  by (auto simp: delivered_def)

lemma delivered_same: "stored w' = stored w \<Longrightarrow> delivered J w0 w' r = delivered J w0 w r"
  by (simp add: delivered_def)

lemma worker_ok_same: "stored w' = stored w \<Longrightarrow> worker_ok J w0 w' wk = worker_ok J w0 w wk"
  by (cases wk) (simp_all add: worker_ok_def delivered_def)

lemma worker_ok_frame:
  "worker_ok J w0 w wk \<Longrightarrow> stored w' = (stored w)(s := m) \<Longrightarrow> s \<notin># worker_shard wk \<Longrightarrow> worker_ok J w0 w' wk"
  by (cases wk) (auto simp: worker_ok_def intro: delivered_frame)

lemma winv_start: "winv J S w (start_workers n J S w)"
proof -
  have "(\<Sum>wk\<in>#mset (replicate n Idle). worker_shard wk) = {#}" by (induction n) simp_all
  then show ?thesis by (auto simp: winv_def start_workers_def worker_ok_def used_shards_def)
qed

lemma winv_created:
  assumes inv: "winv J S w0 st" and S: "distinct S"
    and ws: "mset (ws_workers st) = add_mset (Writing job shard) rest"
    and create: "cl_CreateObject cl shard (snd job) (ws_world st) = (Ok key, w)"
  shows "(\<forall>wk\<in>#rest. worker_ok J w0 w wk) \<and> (\<forall>r\<in>set (ws_results st). delivered J w0 w r) \<and>
    delivered J w0 w (fst job, \<lparr>Key = key, ShardID = shard\<rparr>) \<and> up w = up w0 \<and>
    (\<forall>s. s \<notin> set S \<longrightarrow> stored w s = stored w0 s)"
proof -
  note c = create_ok [OF create]
  from inv have used: "used_shards st \<subseteq># mset S" and up0: "up (ws_world st) = up w0" by (simp_all add: winv_def)
  note once = shard_used_once [OF S used ws]
  have "\<forall>wk\<in>#rest. worker_ok J w0 w wk"
    using inv once(2) worker_ok_frame [of J w0 "ws_world st"] c by (auto simp: winv_def ws)
  moreover have "\<forall>r\<in>set (ws_results st). delivered J w0 w r"
    using inv once(3) delivered_frame [of J w0 "ws_world st"] c by (auto simp: winv_def)
  moreover have "delivered J w0 w (fst job, \<lparr>Key = key, ShardID = shard\<rparr>)"
    using inv c up0 by (cases job) (auto simp: delivered_def winv_def ws worker_ok_def)
  ultimately show ?thesis using c up0 inv once(1) by (auto simp: winv_def)
qed

lemma winv_step:
  assumes inv: "winv J S w0 st" and S: "distinct S" and step: "write_step cl c st = Some st'"
  shows "winv J S w0 st'"
proof -
  have used: "used_shards st' \<subseteq># mset S"
    using step_shards [OF step] inv unfolding winv_def by (meson subset_mset.order_trans)
  from step show ?thesis
  proof (cases rule: write_step_cases)
    case (move i wk st1)
    obtain rest where rest: "mset (ws_workers st) = add_mset (ws_workers st ! i) rest"
      "\<And>y. mset ((ws_workers st)[i := y]) = add_mset y rest" using mset_split_at [OF move(1)] by blast
    from move(2) show ?thesis
    proof (cases rule: move.cases)
      case (created shard job key w)
      with winv_created [OF inv S _ created(4), of rest] rest inv used move(3) show ?thesis
        by (simp add: winv_def set_worker_def worker_ok_def)
    next
      case (refused shard job e w)
      note same = create_err [OF refused(4), THEN conjunct1]
      have "worker_ok J w0 w (Waiting job)" "\<forall>wk\<in>#rest. worker_ok J w0 w wk" "\<forall>r\<in>set (ws_results st). delivered J w0 w r"
        using inv rest(1) refused(1) unfolding worker_ok_same [OF same] delivered_same [OF same]
        by (auto simp: winv_def worker_ok_def)
      with refused create_err [OF refused(4)] rest inv used move(3) show ?thesis
        by (simp add: winv_def set_worker_def)
    qed (use inv used rest move(3) in \<open>auto simp: winv_def set_worker_def worker_ok_def\<close>)
  qed (use inv used in \<open>auto simp: winv_def\<close>)
qed

lemma winv_run: "run_choices cl cs st = Some st' \<Longrightarrow> winv J S w0 st \<Longrightarrow> distinct S \<Longrightarrow> winv J S w0 st'"
  by (induction cs arbitrary: st) (auto split: option.splits intro: winv_step)

lemma run_workers_delivered:
  assumes "run_workers cl schedule n J S w = Some (results, w')" "distinct S"
  shows "(\<forall>r\<in>set results. delivered J w w' r) \<and> distinct (map (\<lambda>r. ShardID (snd r)) results) \<and>
    (\<lambda>r. ShardID (snd r)) ` set results \<subseteq> set S \<and> mset (map fst results) \<subseteq># mset (map fst J) \<and> up w' = up w \<and>
    (\<forall>s. s \<notin> set S \<longrightarrow> stored w' s = stored w s)"
proof -
  from assms(1) obtain st where run: "run_choices cl schedule (start_workers n J S w) = Some st"
    and res: "results = ws_results st" "w' = ws_world st"
    by (auto simp: run_workers_def split: option.splits if_splits)
  note inv = winv_run [OF run winv_start assms(2)]
  have used: "mset (map (\<lambda>r. ShardID (snd r)) results) \<subseteq># mset S"
    using inv unfolding winv_def used_shards_def res by (meson mset_subset_eq_add_right subset_mset.order_trans)
  then have "distinct (map (\<lambda>r. ShardID (snd r)) results)"
    using assms(2) by (rule distinct_submset)
  moreover have "(\<lambda>r. ShardID (snd r)) ` set results \<subseteq> set S" using set_mset_mono [OF used] by simp
  moreover have "indices st \<subseteq># indices (start_workers n J S w)" using indices_run [OF run] by blast
  then have "mset (map fst results) \<subseteq># mset (map fst J)"
    unfolding indices_start unfolding indices_def res by (meson mset_subset_eq_add_right subset_mset.order_trans)
  ultimately show ?thesis using inv by (simp add: winv_def res)
qed

text \<open>
  A run with enough shards that are up never cancels: the shards that are up and not lost always
  number at least as many as the jobs.
\<close>

definition live :: "job list \<Rightarrow> 'w \<Rightarrow> 'w wstate \<Rightarrow> bool" where
  "live J w0 st \<longleftrightarrow> \<not> ws_cancelled st \<and> (\<forall>e. Failed e \<notin># mset (ws_workers st)) \<and>
     (Done \<in># mset (ws_workers st) \<longrightarrow> ws_jobs st = []) \<and> indices st = mset (map fst J) \<and>
     length J \<le> size (filter_mset (up w0) (used_shards st))"

lemma live_not_stuck:
  assumes "live J w0 st" "ws_shards st = []" "mset (ws_workers st) = add_mset (Waiting job) rest"
  shows False
proof -
  have le: "size (\<Sum>wk\<in>#M. worker_shard wk) \<le> size (\<Sum>wk\<in>#M. worker_index wk)" for M
  proof (induction M)
    case (add wk M)
    have "size (worker_shard wk) \<le> size (worker_index wk)" by (cases wk) simp_all
    with add show ?case by simp
  qed simp
  have "size (filter_mset (up w0) (used_shards st)) \<le> size (used_shards st)" by (rule size_filter_mset_lesseq)
  also have "\<dots> < size (indices st)"
    using le [of rest] by (simp add: used_shards_def indices_def assms(2,3))
  also have "\<dots> = length J" using assms(1) by (simp add: live_def)
  finally show False using assms(1) by (simp add: live_def)
qed

lemma live_step:
  assumes live: "live J w0 st" and inv: "winv J S w0 st" and step: "write_step cl c st = Some st'"
    and data: "\<forall>j\<in>set J. snd j \<noteq> []"
  shows "live J w0 st'"
proof -
  from live have nc: "\<not> ws_cancelled st" by (simp add: live_def)
  have idx: "\<not> ws_cancelled st' \<Longrightarrow> indices st' = mset (map fst J)"
    using step_indices [OF step] live by (simp add: live_def)
  from step show ?thesis
  proof (cases rule: write_step_cases)
    case (move i wk st1)
    obtain rest where rest: "mset (ws_workers st) = add_mset (ws_workers st ! i) rest"
      "\<And>y. mset ((ws_workers st)[i := y]) = add_mset y rest" using mset_split_at [OF move(1)] by blast
    from move(2) show ?thesis
    proof (cases rule: move.cases)
      case (no_shard job)
      with live_not_stuck [OF live _ rest(1) [unfolded no_shard(1)]] show ?thesis by simp
    next
      case (created shard job key w)
      with live idx nc rest move(3) show ?thesis
        by (simp add: live_def set_worker_def used_shards_def)
    next
      case (refused shard job e w)
      have "job \<in> set J" using inv rest(1) refused(1) by (auto simp: winv_def worker_ok_def)
      then have "\<not> up w0 shard"
        using create_total [of "ws_world st" shard "snd job"] refused(4) data inv by (auto simp: winv_def)
      with refused live idx nc rest move(3) show ?thesis
        by (simp add: live_def set_worker_def used_shards_def)
    qed (use live idx nc rest move(3) in \<open>auto simp: live_def set_worker_def used_shards_def\<close>)
  qed (use nc in simp_all)
qed

lemma live_run:
  assumes "run_choices cl cs st = Some st'" "live J w0 st" "winv J S w0 st" "distinct S" "\<forall>j\<in>set J. snd j \<noteq> []"
  shows "live J w0 st'"
  using assms
proof (induction cs arbitrary: st)
  case (Cons c cs)
  then obtain st1 where step: "write_step cl c st = Some st1" and run: "run_choices cl cs st1 = Some st'"
    by (auto split: option.splits)
  from Cons.IH [OF run live_step [OF Cons.prems(2,3) step Cons.prems(5)] winv_step [OF Cons.prems(3,4) step]] Cons.prems
  show ?case by simp
qed simp

lemma live_start:
  assumes "length J \<le> length (filter (up w) S)"
  shows "live J w (start_workers n J S w)"
proof -
  have "(\<Sum>wk\<in>#mset (replicate n Idle). worker_shard wk) = {#}" by (induction n) simp_all
  then have "used_shards (start_workers n J S w) = mset S" by (simp add: used_shards_def start_workers_def)
  then have "size (filter_mset (up w) (used_shards (start_workers n J S w))) = length (filter (up w) S)"
    by (metis mset_filter size_mset)
  moreover have "ws_workers (start_workers n J S w) = replicate n Idle" "\<not> ws_cancelled (start_workers n J S w)"
    by (simp_all add: start_workers_def)
  ultimately show ?thesis using assms by (auto simp: live_def indices_start)
qed

lemma finished_live:
  assumes "live J w0 st" "finished st" "ws_workers st \<noteq> []"
  shows "mset (map fst (ws_results st)) = mset (map fst J)"
proof -
  have dn: "wk = Done" if "wk \<in> set (ws_workers st)" for wk
    using assms(1,2) that by (cases wk) (auto simp: live_def finished_def list_all_iff)
  then have "Done \<in> set (ws_workers st)" using assms(3) by (metis hd_in_set)
  then have jobs: "ws_jobs st = []" using assms(1) by (simp add: live_def)
  have "(\<Sum>wk\<in>#mset xs. worker_index wk) = {#}" if "\<forall>wk\<in>set xs. wk = Done" for xs
    using that by (induction xs) auto
  then have none: "(\<Sum>wk\<in>#mset (ws_workers st). worker_index wk) = {#}" using dn by blast
  have "indices st = mset (map fst (ws_results st))" unfolding indices_def none jobs by simp
  then show ?thesis using assms(1) by (simp add: live_def)
qed

lemma run_workers_live:
  assumes run: "run_workers cl schedule n J S w = Some (results, w')" and n: "0 < n"
    and S: "distinct S" "length J \<le> length (filter (up w) S)" and data: "\<forall>j\<in>set J. snd j \<noteq> []"
  shows "mset (map fst results) = mset (map fst J)"
proof -
  from run obtain st where st: "run_choices cl schedule (start_workers n J S w) = Some st" "finished st" "results = ws_results st"
    by (auto simp: run_workers_def split: option.splits if_splits)
  have "live J w st" using live_run [OF st(1) live_start [OF S(2)] winv_start S(1) data] .
  moreover have "length (ws_workers st) = n"
    using workers_run [OF st(1)] by (simp add: start_workers_def)
  ultimately show ?thesis using finished_live st(2,3) n by fastforce
qed

text \<open>Every schedule is finite, and any state that is not finished has a next step: runs finish.\<close>

lemma not_finished_step:
  assumes "\<not> finished st"
  shows "\<exists>c st'. write_step cl c st = Some st'"
proof -
  from assms obtain i where "i < length (ws_workers st)"
    "\<not> (case ws_workers st ! i of Done \<Rightarrow> True | Failed _ \<Rightarrow> True | _ \<Rightarrow> False)"
    unfolding finished_def list_all_length by blast
  then have i: "i < length (ws_workers st)" "\<forall>e. ws_workers st ! i \<noteq> Failed e" "ws_workers st ! i \<noteq> Done" by auto
  have "\<exists>st'. proceed cl i (ws_workers st ! i) st = Some st'"
  proof (cases "ws_workers st ! i")
    case (Writing job shard)
    then show ?thesis using no_panic(4) [of shard "snd job" "ws_world st"]
      by (cases "cl_CreateObject cl shard (snd job) (ws_world st)") (auto split: result.splits)
  qed (use i in \<open>auto split: list.splits\<close>)
  with i show ?thesis by (metis write_step.simps(1))
qed

lemma schedule_extends: "\<exists>cs st'. run_choices cl cs st = Some st' \<and> finished st'"
proof (induction "weight st" arbitrary: st rule: less_induct)
  case less
  show ?case
  proof (cases "finished st")
    case True
    then show ?thesis by (intro exI [of _ "[]"]) simp
  next
    case False
    then obtain c st1 where step: "write_step cl c st = Some st1" using not_finished_step by blast
    with less write_step_weight obtain cs st' where "run_choices cl cs st1 = Some st'" "finished st'" by blast
    with step show ?thesis by (intro exI [of _ "c # cs"]) simp
  qed
qed

lemma run_workers_total: "\<exists>schedule results w'. run_workers cl schedule n J S w = Some (results, w')"
proof -
  obtain cs st where "run_choices cl cs (start_workers n J S w) = Some st" "finished st"
    using schedule_extends by blast
  then have "run_workers cl cs n J S w = Some (ws_results st, ws_world st)" by (simp add: run_workers_def)
  then show ?thesis by blast
qed

end

end
