(* ===== verification/Replicated_Storage.thy ===== *)
theory Replicated_Storage
  imports Write_Workers
begin

text \<open>
  The replicated storage, \<open>client/datastor/pipeline/storage/replicated.go\<close>.  Writing runs the workers
  of \<open>Write_Workers\<close> with the same data in every job.  The checking and splitting loops collect
  independent answers of the shards; the order in which the answers arrive is an argument (\<open>arrival\<close>,
  an enumeration of the objects), and a traversal that only counts them does not depend on it.  The
  shards that the random iterator offers are the function \<open>offer\<close> of the excepted shards.
\<close>

section \<open>Definitions\<close>

record ReplicatedChunkStorage =
  rs_dataShardCount :: nat
  rs_jobCount :: nat
  rs_writeJobCount :: nat

definition NewReplicatedChunkStorage ::
  "nat \<Rightarrow> nat \<Rightarrow> int \<Rightarrow> int \<Rightarrow> (string, ReplicatedChunkStorage) result" where
  "NewReplicatedChunkStorage defaultJobCount listedShardCount dataShardCount jobCount =
     (if dataShardCount < 1 then Panic
      else if int listedShardCount < dataShardCount
        then Err ''ReplicatedChunkStorage requires at least dataShardCount amount of listed datastor shards''
      else let jc = (if jobCount < 1 then defaultJobCount else nat jobCount);
               wjc = (if jc < nat dataShardCount then nat dataShardCount else jc)
           in Ok \<lparr>rs_dataShardCount = nat dataShardCount, rs_jobCount = jc, rs_writeJobCount = wjc\<rparr>)"

text \<open>
  \<open>write\<close> returns its configuration beside an error.  A value \<open>None\<close> stands for a schedule that
  stops before all workers have returned.
\<close>

type_synonym write_result = "ChunkConfig \<times> storage_error option"

definition replicated_write ::
  "'w Cluster \<Rightarrow> ReplicatedChunkStorage \<Rightarrow> choice list \<Rightarrow> string list \<Rightarrow> nat \<Rightarrow> bytes \<Rightarrow> 'w \<Rightarrow> (write_result \<times> 'w) option" where
  "replicated_write cl rs schedule shards dataShardCount data w =
     (let jobCount = (if rs_jobCount rs > dataShardCount then dataShardCount else rs_jobCount rs) in
      case run_workers cl schedule jobCount (replicate dataShardCount (0, data)) shards w of
        None \<Rightarrow> None
      | Some (results, w') \<Rightarrow>
          let cfg = \<lparr>Size = length data, Objects = map snd results\<rparr> in
          if length (Objects cfg) < dataShardCount then Some ((cfg, Some ErrShardsUnavailable), w')
          else Some ((cfg, None), w'))"

definition replicated_WriteChunk ::
  "'w Cluster \<Rightarrow> ReplicatedChunkStorage \<Rightarrow> choice list \<Rightarrow> (string list \<Rightarrow> string list) \<Rightarrow> bytes \<Rightarrow> 'w \<Rightarrow> (write_result \<times> 'w) option" where
  "replicated_WriteChunk cl rs schedule offer data w =
     replicated_write cl rs schedule (offer []) (rs_dataShardCount rs) data w"

fun read_first :: "'w Cluster \<Rightarrow> nat \<Rightarrow> Object list \<Rightarrow> 'w \<Rightarrow> (storage_error, bytes) result" where
  "read_first cl sz [] w = Err ErrShardsUnavailable"
| "read_first cl sz (obj # objs) w =
     (case cl_GetShard cl (ShardID obj) w of
        Panic \<Rightarrow> Panic
      | Err e \<Rightarrow> read_first cl sz objs w
      | Ok _ \<Rightarrow>
         (case cl_GetObject cl (ShardID obj) (Key obj) w of
            Panic \<Rightarrow> Panic
          | Err e \<Rightarrow> read_first cl sz objs w
          | Ok data \<Rightarrow> if length data = sz then Ok data else read_first cl sz objs w))"

definition replicated_ReadChunk :: "'w Cluster \<Rightarrow> ChunkConfig \<Rightarrow> 'w \<Rightarrow> (storage_error, bytes) result" where
  "replicated_ReadChunk cl cfg w =
     (if length (Objects cfg) = 0 then Err ErrUnexpectedObjectCount
      else read_first cl (Size cfg) (Objects cfg) w)"

text \<open>What one check of an object finds: the answer is sent only when the object is valid.\<close>

definition object_valid :: "'w Cluster \<Rightarrow> 'w \<Rightarrow> Object \<Rightarrow> bool" where
  "object_valid cl w obj \<longleftrightarrow>
     (case cl_GetShard cl (ShardID obj) w of
        Ok _ \<Rightarrow> (case cl_GetObjectStatus cl (ShardID obj) (Key obj) w of Ok status \<Rightarrow> status = StatusOK | _ \<Rightarrow> False)
      | _ \<Rightarrow> False)"

fun count_valid :: "nat \<Rightarrow> nat \<Rightarrow> unit list \<Rightarrow> CheckStatus" where
  "count_valid dataShardCount n [] = (if n > 0 then CheckStatusValid else CheckStatusInvalid)"
| "count_valid dataShardCount n (r # results) =
     (if n + 1 = dataShardCount then CheckStatusOptimal else count_valid dataShardCount (n + 1) results)"

definition replicated_CheckChunk ::
  "'w Cluster \<Rightarrow> ReplicatedChunkStorage \<Rightarrow> ChunkConfig \<Rightarrow> bool \<Rightarrow> 'w \<Rightarrow> (storage_error, CheckStatus) result" where
  "replicated_CheckChunk cl rs cfg fast w =
     (if length (Objects cfg) = 0 then Err ErrUnexpectedObjectCount
      else let results = map (\<lambda>_. ()) (filter (object_valid cl w) (Objects cfg)) in
        if fast then
          Ok (if results = [] then CheckStatusInvalid
              else if rs_dataShardCount rs = 1 then CheckStatusOptimal else CheckStatusValid)
        else Ok (count_valid (rs_dataShardCount rs) 0 results))"

text \<open>
  One result of \<open>splitObjects\<close>: nothing when the shard cannot be got or when the object is missing or
  corrupt (index -1), valid, or invalid when the status could not be had.
\<close>

datatype split_result = NoResult | ValidObject | InvalidObject

definition split_object :: "'w Cluster \<Rightarrow> 'w \<Rightarrow> Object \<Rightarrow> split_result" where
  "split_object cl w obj =
     (case cl_GetShard cl (ShardID obj) w of
        Ok _ \<Rightarrow>
          (case cl_GetObjectStatus cl (ShardID obj) (Key obj) w of
             Ok status \<Rightarrow> if status = StatusOK then ValidObject else NoResult
           | _ \<Rightarrow> InvalidObject)
      | _ \<Rightarrow> NoResult)"

definition splitObjects :: "'w Cluster \<Rightarrow> nat list \<Rightarrow> Object list \<Rightarrow> 'w \<Rightarrow> Object list \<times> Object list" where
  "splitObjects cl arrival objs w =
     (let received = map (\<lambda>i. objs ! i) arrival
      in (filter (\<lambda>obj. split_object cl w obj = ValidObject) received,
          filter (\<lambda>obj. split_object cl w obj = InvalidObject) received))"

text \<open>
  The read loop of \<open>RepairChunk\<close>: it ranges over the valid objects, drops one from the front of the
  slice for each that cannot be used, and keeps in \<open>object\<close> what the last \<open>GetObject\<close> returned.
\<close>

fun repair_read ::
  "'w Cluster \<Rightarrow> nat \<Rightarrow> Object list \<Rightarrow> bytes option \<Rightarrow> Object list \<Rightarrow> 'w \<Rightarrow> bytes option \<times> Object list" where
  "repair_read cl sz [] object validObjects w = (object, validObjects)"
| "repair_read cl sz (obj # objs) object validObjects w =
     (case cl_GetShard cl (ShardID obj) w of
        Ok _ \<Rightarrow>
          (case cl_GetObject cl (ShardID obj) (Key obj) w of
             Ok data \<Rightarrow> if length data \<noteq> sz then repair_read cl sz objs (Some data) (tl validObjects) w
                        else (Some data, validObjects)
           | _ \<Rightarrow> repair_read cl sz objs None (tl validObjects) w)
      | _ \<Rightarrow> repair_read cl sz objs object (tl validObjects) w)"

definition replicated_RepairChunk ::
  "'w Cluster \<Rightarrow> ReplicatedChunkStorage \<Rightarrow> nat list \<Rightarrow> choice list \<Rightarrow> (string list \<Rightarrow> string list) \<Rightarrow> ChunkConfig
     \<Rightarrow> 'w \<Rightarrow> ((ChunkConfig option \<times> storage_error option) \<times> 'w) option" where
  "replicated_RepairChunk cl rs arrival schedule offer cfg w =
     (if length (Objects cfg) = 0 then Some ((None, Some ErrUnexpectedObjectCount), w)
      else if length (Objects cfg) = 1 then
        (if object_valid cl w (Objects cfg ! 0) then Some ((Some cfg, None), w)
         else Some ((None, Some ErrShardsUnavailable), w))
      else let (validObjects, invalidObjects) = splitObjects cl arrival (Objects cfg) w;
               objectCount = length validObjects in
        if objectCount = 0 then Some ((None, Some ErrShardsUnavailable), w)
        else if objectCount \<ge> rs_dataShardCount rs
          then Some ((Some \<lparr>Size = Size cfg, Objects = validObjects\<rparr>, None), w)
        else (case repair_read cl (Size cfg) validObjects None validObjects w of
            (None, _) \<Rightarrow> Some ((None, Some ErrShardsUnavailable), w)
          | (Some data, validObjects) \<Rightarrow>
              let exceptShards = map ShardID invalidObjects @ map ShardID validObjects in
              (case replicated_write cl rs schedule (offer exceptShards) (rs_dataShardCount rs - length validObjects) data w of
                 None \<Rightarrow> None
               | Some ((outputCfg, Some e), w') \<Rightarrow> Some ((Some outputCfg, Some e), w')
               | Some ((outputCfg, None), w') \<Rightarrow>
                   let outputCfg = outputCfg\<lparr>Objects := validObjects @ Objects outputCfg\<rparr> in
                   if length (Objects cfg) < rs_dataShardCount rs
                   then Some ((Some outputCfg, Some ErrShardsUnavailable), w')
                   else Some ((Some outputCfg, None), w'))))"

text \<open>
  \<open>DeleteChunk\<close>: the deletions that are carried out, in the order they are, and the first error.  All
  objects are among them unless one fails.
\<close>

fun delete_objects :: "'w Cluster \<Rightarrow> Object list \<Rightarrow> ('w, storage_error, unit) op" where
  "delete_objects cl [] w = (Ok (), w)"
| "delete_objects cl (obj # objs) w =
     obind (map_err ErrCluster (cl_GetShard cl (ShardID obj) w), w) (\<lambda>_ w.
     obind (omap_err ErrCluster (cl_DeleteObject cl (ShardID obj) (Key obj) w)) (\<lambda>_ w.
       delete_objects cl objs w))"

definition replicated_DeleteChunk :: "'w Cluster \<Rightarrow> nat list \<Rightarrow> ChunkConfig \<Rightarrow> ('w, storage_error, unit) op" where
  "replicated_DeleteChunk cl order cfg w =
     (if length (Objects cfg) = 0 then (Err ErrUnexpectedObjectCount, w)
      else if length (Objects cfg) = 1 then delete_objects cl [Objects cfg ! 0] w
      else delete_objects cl (map (\<lambda>i. Objects cfg ! i) order) w)"

section \<open>Lemmas\<close>

lemma count_valid_eq:
  "n < d \<Longrightarrow> count_valid d n results =
     (if d \<le> n + length results then CheckStatusOptimal
      else if n + length results > 0 then CheckStatusValid else CheckStatusInvalid)"
  by (induction results arbitrary: n) auto

context shard_cluster
begin

lemma object_valid_iff: "object_valid cl w obj \<longleftrightarrow> (\<exists>d. readable w obj d)"
proof
  assume "object_valid cl w obj"
  then show "\<exists>d. readable w obj d"
    using status_sound by (auto simp: object_valid_def readable_def split: result.splits)
next
  assume "\<exists>d. readable w obj d"
  then show "object_valid cl w obj"
    using get_shard status_stored by (auto simp: object_valid_def readable_def)
qed

lemma split_valid_iff: "split_object cl w obj = ValidObject \<longleftrightarrow> (\<exists>d. readable w obj d)"
  unfolding object_valid_iff [symmetric]
  by (auto simp: split_object_def object_valid_def split: result.splits)

lemma read_first_readable:
  assumes "\<exists>obj\<in>set objs. readable w obj data"
    and "\<forall>obj\<in>set objs. \<forall>d. stored w (ShardID obj) (Key obj) = Some d \<longrightarrow> d = data \<or> length d \<noteq> length data"
  shows "read_first cl (length data) objs w = Ok data"
  using assms
proof (induction objs)
  case (Cons obj objs)
  show ?case
  proof (cases "readable w obj data")
    case True
    then show ?thesis using get_shard get_stored by (simp add: readable_def)
  next
    case False
    then have rest: "read_first cl (length data) objs w = Ok data" using Cons by auto
    have "d = data" if "cl_GetObject cl (ShardID obj) (Key obj) w = Ok d" "length d = length data" for d
      using get_sound [OF that(1)] Cons.prems(2) that(2) by auto
    with rest no_panic show ?thesis by (auto split: result.splits)
  qed
qed simp

lemma replicated_write_spec:
  assumes run: "replicated_write cl rs schedule shards n data w = Some ((cfg, err), w')" and S: "distinct shards"
  shows "Size cfg = length data \<and> (\<forall>obj\<in>set (Objects cfg). readable w' obj data) \<and>
    distinct (map ShardID (Objects cfg)) \<and> ShardID ` set (Objects cfg) \<subseteq> set shards \<and> length (Objects cfg) \<le> n \<and>
    (err = None \<longleftrightarrow> length (Objects cfg) = n) \<and> up w' = up w \<and> (\<forall>s. s \<notin> set shards \<longrightarrow> stored w' s = stored w s)"
proof -
  let ?J = "replicate n (0 :: nat, data)"
  obtain jobs results where rw: "run_workers cl schedule jobs ?J shards w = Some (results, w')"
    and cfg: "cfg = \<lparr>Size = length data, Objects = map snd results\<rparr>"
    and err: "err = (if length results < n then Some ErrShardsUnavailable else None)"
    using run by (auto simp: replicated_write_def Let_def split: option.splits if_splits)
  note d = run_workers_delivered [OF rw S]
  from d have "mset (map fst results) \<subseteq># mset (map fst ?J)" by blast
  from size_mset_mono [OF this] have len: "length results \<le> n" by simp
  have "readable w' (snd r) data" if "r \<in> set results" for r
    using d that by (auto simp: delivered_def readable_def)
  with d len err show ?thesis by (auto simp: cfg comp_def image_image)
qed

lemma replicated_write_succeeds:
  assumes run: "replicated_write cl rs schedule shards n data w = Some ((cfg, err), w')" and S: "distinct shards"
    and enough: "n \<le> length (filter (up w) shards)" and n: "0 < rs_jobCount rs" "data \<noteq> []"
  shows "err = None \<and> length (Objects cfg) = n"
proof (cases "n = 0")
  case True
  then show ?thesis using replicated_write_spec [OF run S] by auto
next
  case False
  let ?J = "replicate n (0 :: nat, data)" and ?jobs = "if rs_jobCount rs > n then n else rs_jobCount rs"
  obtain results where rw: "run_workers cl schedule ?jobs ?J shards w = Some (results, w')"
    and cfg: "Objects cfg = map snd results"
    using run by (auto simp: replicated_write_def Let_def split: option.splits if_splits)
  have "0 < ?jobs" using False n by simp
  from run_workers_live [OF rw this S] enough n(2) have "mset (map fst results) = mset (map fst ?J)" by simp
  then have "size (mset (map fst results)) = size (mset (map fst ?J))" by (rule arg_cong [where f = size])
  then have "length results = n" by simp
  then show ?thesis using replicated_write_spec [OF run S] cfg by simp
qed

lemma replicated_write_total: "\<exists>schedule r. replicated_write cl rs schedule shards n data w = Some r"
proof -
  obtain schedule results w' where
    "run_workers cl schedule (if rs_jobCount rs > n then n else rs_jobCount rs) (replicate n (0, data)) shards w = Some (results, w')"
    using run_workers_total by blast
  then have "\<exists>r. replicated_write cl rs schedule shards n data w = Some r"
    by (simp add: replicated_write_def Let_def)
  then show ?thesis by blast
qed

lemma repair_read_first:
  assumes "objs \<noteq> []" "\<forall>obj\<in>set objs. readable w obj data"
  shows "repair_read cl (length data) objs object valid w = (Some data, valid)"
  using assms get_shard get_stored by (cases objs) (auto simp: readable_def)

lemma repair_read_stored:
  assumes "repair_read cl n objs None valid w = (Some d, valid')"
  shows "\<exists>obj\<in>set objs. stored w (ShardID obj) (Key obj) = Some d"
proof -
  have "\<exists>obj\<in>set objs. stored w (ShardID obj) (Key obj) = Some d"
    if "repair_read cl n objs object valid w = (Some d, valid')" "object \<noteq> Some d" for object
    using that
  proof (induction objs arbitrary: object valid)
    case (Cons obj objs)
    show ?case
    proof (cases "cl_GetShard cl (ShardID obj) w = Ok () \<and> cl_GetObject cl (ShardID obj) (Key obj) w = Ok d")
      case True
      then show ?thesis using get_sound by auto
    next
      case False
      then obtain object' where "repair_read cl n objs object' (tl valid) w = (Some d, valid')" "object' \<noteq> Some d"
        using Cons.prems by (auto split: result.splits if_splits)
      from Cons.IH [OF this] show ?thesis by auto
    qed
  qed simp
  with assms show ?thesis by blast
qed

lemma repair_read_wrong_size:
  assumes "\<forall>obj\<in>set objs. \<exists>d. readable w obj d \<and> length d \<noteq> n" "objs \<noteq> [] \<or> object = Some x \<and> length x \<noteq> n"
  shows "\<exists>d. repair_read cl n objs object valid w = (Some d, drop (length objs) valid) \<and> length d \<noteq> n"
  using assms
proof (induction objs arbitrary: object valid x)
  case (Cons obj objs)
  then obtain d where d: "readable w obj d" "length d \<noteq> n" by auto
  then have "repair_read cl n (obj # objs) object valid w = repair_read cl n objs (Some d) (tl valid) w"
    using get_shard get_stored by (auto simp: readable_def)
  with Cons.IH [of "Some d" d "tl valid"] Cons.prems d show ?case by (simp add: drop_Suc)
qed simp

lemma splitObjects_valid:
  assumes "distinct arrival" "set arrival = {..<length objs}" "splitObjects cl arrival objs w = (valid, invalid)"
  shows "mset valid = filter_mset (\<lambda>obj. \<exists>d. readable w obj d) (mset objs)"
    and "set invalid \<subseteq> set objs"
proof -
  have "mset arrival = mset [0..<length objs]"
    using assms(1,2) by (metis atLeast_upt distinct_upt lessThan_atLeast0 set_eq_iff_mset_eq_distinct set_upt)
  then have "mset (map (\<lambda>i. objs ! i) arrival) = mset (map (\<lambda>i. objs ! i) [0..<length objs])"
    by (metis mset_map)
  then have perm: "mset (map (\<lambda>i. objs ! i) arrival) = mset objs" by (simp add: map_nth)
  from assms(3) have valid: "valid = filter (\<lambda>obj. \<exists>d. readable w obj d) (map (\<lambda>i. objs ! i) arrival)"
    and invalid: "set invalid \<subseteq> set (map (\<lambda>i. objs ! i) arrival)"
    by (auto simp: splitObjects_def Let_def split_valid_iff)
  show "mset valid = filter_mset (\<lambda>obj. \<exists>d. readable w obj d) (mset objs)"
    unfolding valid mset_filter perm ..
  show "set invalid \<subseteq> set objs" using invalid arg_cong [OF perm, of set_mset] by simp
qed

lemma RepairChunk_many:
  assumes "2 \<le> length (Objects cfg)" "splitObjects cl arrival (Objects cfg) w = (valid, invalid)" "valid \<noteq> []"
  shows "replicated_RepairChunk cl rs arrival schedule offer cfg w =
    (if rs_dataShardCount rs \<le> length valid then Some ((Some \<lparr>Size = Size cfg, Objects = valid\<rparr>, None), w)
     else case repair_read cl (Size cfg) valid None valid w of
       (None, _) \<Rightarrow> Some ((None, Some ErrShardsUnavailable), w)
     | (Some data, rest) \<Rightarrow>
         (case replicated_write cl rs schedule (offer (map ShardID invalid @ map ShardID rest)) (rs_dataShardCount rs - length rest) data w of
            None \<Rightarrow> None
          | Some ((outputCfg, Some e), w') \<Rightarrow> Some ((Some outputCfg, Some e), w')
          | Some ((outputCfg, None), w') \<Rightarrow>
              Some ((Some (outputCfg\<lparr>Objects := rest @ Objects outputCfg\<rparr>),
                     if length (Objects cfg) < rs_dataShardCount rs then Some ErrShardsUnavailable else None), w')))"
proof -
  from assms(1) have "length (Objects cfg) \<noteq> 0" "length (Objects cfg) \<noteq> 1" by linarith+
  with assms(2,3) show ?thesis
    by (simp add: replicated_RepairChunk_def Let_def split: option.splits prod.splits)
qed

lemma repair_spec:
  assumes run: "replicated_RepairChunk cl rs arrival schedule offer cfg w = Some ((out, err), w')"
    and arrival: "distinct arrival" "set arrival = {..<length (Objects cfg)}"
    and cfg: "Size cfg = length data" "data \<noteq> []" "2 \<le> length (Objects cfg)" "rs_dataShardCount rs \<le> length (Objects cfg)"
      "distinct (map ShardID (Objects cfg))"
    and same: "\<forall>obj\<in>set (Objects cfg). \<forall>d. readable w obj d \<longrightarrow> d = data"
    and one: "\<exists>obj\<in>set (Objects cfg). readable w obj data"
    and offer: "\<forall>e. set e \<subseteq> ShardID ` set (Objects cfg) \<longrightarrow> distinct (offer e) \<and> set (offer e) \<inter> set e = {} \<and>
      rs_dataShardCount rs \<le> length (filter (up w) (offer e)) + length (filter (object_valid cl w) (Objects cfg))"
    and jobs: "0 < rs_jobCount rs"
  shows "\<exists>cfg'. out = Some cfg' \<and> err = None \<and> Size cfg' = length data \<and> rs_dataShardCount rs \<le> length (Objects cfg') \<and>
    (\<forall>obj\<in>set (Objects cfg'). readable w' obj data) \<and> distinct (map ShardID (Objects cfg'))"
proof -
  obtain valid invalid where split: "splitObjects cl arrival (Objects cfg) w = (valid, invalid)" by fastforce
  note sv = splitObjects_valid [OF arrival split]
  have valid: "obj \<in> set (Objects cfg) \<and> readable w obj data" if "obj \<in> set valid" for obj
    using that same arg_cong [OF sv(1), of set_mset] by auto
  have "valid \<noteq> []" using one arg_cong [OF sv(1), of set_mset] by fastforce
  have "mset (map ShardID valid) \<subseteq># mset (map ShardID (Objects cfg))"
    using sv(1) by (simp add: image_mset_subseteq_mono)
  then have dv: "distinct (map ShardID valid)" using cfg(5) by (rule distinct_submset)
  have nv: "length valid = length (filter (object_valid cl w) (Objects cfg))"
    using arg_cong [OF sv(1), of size] unfolding object_valid_iff by (metis mset_filter size_mset)
  show ?thesis
  proof (cases "rs_dataShardCount rs \<le> length valid")
    case True
    have "out = Some \<lparr>Size = Size cfg, Objects = valid\<rparr>" "err = None" "w' = w"
      using run True unfolding RepairChunk_many [OF cfg(3) split \<open>valid \<noteq> []\<close>] by auto
    with True valid dv cfg(1) show ?thesis by auto
  next
    case False
    let ?except = "map ShardID invalid @ map ShardID valid" and ?n = "rs_dataShardCount rs - length valid"
    have read: "repair_read cl (Size cfg) valid None valid w = (Some data, valid)"
      using repair_read_first [OF \<open>valid \<noteq> []\<close>] valid cfg(1) by simp
    obtain wcfg werr where wr: "replicated_write cl rs schedule (offer ?except) ?n data w = Some ((wcfg, werr), w')"
      using run False read unfolding RepairChunk_many [OF cfg(3) split \<open>valid \<noteq> []\<close>]
      by (auto split: option.splits)
    have except_sub: "set ?except \<subseteq> ShardID ` set (Objects cfg)" using sv(2) valid by auto
    have offer_ok: "distinct (offer ?except)" "set (offer ?except) \<inter> set ?except = {}"
      "?n \<le> length (filter (up w) (offer ?except))"
      using offer [rule_format, OF except_sub] nv by (simp_all add: le_diff_conv)
    from replicated_write_succeeds [OF wr offer_ok(1,3) jobs cfg(2)]
    have ok: "werr = None" "length (Objects wcfg) = ?n" by auto
    note spec = replicated_write_spec [OF wr offer_ok(1)]
    have out: "out = Some (wcfg\<lparr>Objects := valid @ Objects wcfg\<rparr>)" "err = None"
      using run cfg(4) False read wr ok(1) unfolding RepairChunk_many [OF cfg(3) split \<open>valid \<noteq> []\<close>] by auto
    have keep: "readable w' obj data" if "obj \<in> set valid" for obj
    proof -
      have "ShardID obj \<notin> set (offer ?except)" using offer_ok(2) that by auto
      with valid [OF that] spec show ?thesis by (simp add: readable_def)
    qed
    have "distinct (map ShardID (valid @ Objects wcfg))"
      using dv spec offer_ok(2) by auto
    with out keep spec ok False show ?thesis by auto
  qed
qed

lemma repair_wrong_size:
  assumes run: "replicated_RepairChunk cl rs arrival schedule offer cfg w = Some ((out, err), w')"
    and arrival: "distinct arrival" "set arrival = {..<length (Objects cfg)}"
    and cfg: "2 \<le> length (Objects cfg)" "rs_dataShardCount rs \<le> length (Objects cfg)"
    and wrong: "\<forall>obj\<in>set (Objects cfg). \<forall>d. readable w obj d \<longrightarrow> length d \<noteq> Size cfg \<and> d \<noteq> []"
    and one: "\<exists>obj\<in>set (Objects cfg). \<exists>d. readable w obj d"
    and few: "length (filter (object_valid cl w) (Objects cfg)) < rs_dataShardCount rs"
    and offer: "\<forall>e. set e \<subseteq> ShardID ` set (Objects cfg) \<longrightarrow> distinct (offer e) \<and> rs_dataShardCount rs \<le> length (filter (up w) (offer e))"
    and jobs: "0 < rs_jobCount rs"
  shows "\<exists>cfg'. out = Some cfg' \<and> err = None \<and> Size cfg' \<noteq> Size cfg"
proof -
  obtain valid invalid where split: "splitObjects cl arrival (Objects cfg) w = (valid, invalid)" by fastforce
  note sv = splitObjects_valid [OF arrival split]
  have valid: "\<exists>d. readable w obj d \<and> length d \<noteq> Size cfg" if "obj \<in> set valid" for obj
    using that wrong arg_cong [OF sv(1), of set_mset] by fastforce
  have ne: "valid \<noteq> []" using one arg_cong [OF sv(1), of set_mset] by fastforce
  have nv: "length valid < rs_dataShardCount rs"
    using arg_cong [OF sv(1), of size] few unfolding object_valid_iff by (metis mset_filter size_mset)
  obtain d where read: "repair_read cl (Size cfg) valid None valid w = (Some d, [])" and d: "length d \<noteq> Size cfg"
    using repair_read_wrong_size [of valid w "Size cfg" None _ valid] valid ne by auto
  have "d \<noteq> []"
  proof -
    obtain obj where obj: "obj \<in> set valid" "stored w (ShardID obj) (Key obj) = Some d"
      using repair_read_stored [OF read] by blast
    then have "readable w obj d" "obj \<in> set (Objects cfg)"
      using arg_cong [OF sv(1), of set_mset] by (auto simp: readable_def)
    with wrong show ?thesis by blast
  qed
  obtain wcfg werr where wr: "replicated_write cl rs schedule (offer (map ShardID invalid)) (rs_dataShardCount rs) d w = Some ((wcfg, werr), w')"
    using run nv read unfolding RepairChunk_many [OF cfg(1) split ne] by (auto split: option.splits)
  have "set (map ShardID invalid) \<subseteq> ShardID ` set (Objects cfg)" using sv(2) by auto
  note off = offer [rule_format, OF this]
  from replicated_write_succeeds [OF wr] off jobs \<open>d \<noteq> []\<close> have "werr = None" by auto
  moreover have "Size wcfg = length d" using replicated_write_spec [OF wr] off by auto
  ultimately show ?thesis
    using run cfg(2) nv read wr d unfolding RepairChunk_many [OF cfg(1) split ne] by auto
qed

end

section \<open>Properties of the replicated storage\<close>

text \<open>
  The conditions on a cluster of zstordb servers, with \<open>readable\<close> written out: the object's shard is
  up and stores the data under the object's key.
\<close>

abbreviation zreadable :: "string \<Rightarrow> zworld \<Rightarrow> Object \<Rightarrow> bytes \<Rightarrow> bool" where
  "zreadable ns w obj data \<equiv> zw_up w (ShardID obj) \<and> zstored ns w (ShardID obj) (Key obj) = Some data"

lemma zreadable_iff: "zc.readable ns w obj data \<longleftrightarrow> zreadable ns w obj data"
  by (simp add: zc.readable_def)



definition demo_stored :: zworld where
  "demo_stored = demo_world\<lparr>zw_db := (\<lambda>_. memory_New\<lparr>mdb_m := [data_scope (ascii ''ns'') @ [8] \<mapsto> encoded [1]]\<rparr>)\<rparr>"

lemma demo_stored_simps:
  "zstored ''ns'' demo_stored s k = (if k = [8] then Some [1] else None)" "zw_up demo_stored s \<longleftrightarrow> s \<noteq> ''down''"
  by (simp_all add: demo_stored_def zstored_def objects_def DecodeObject_encoded demo_world_def)

lemma demo_valid:
  "object_valid (zcluster (\<lambda>_. []) ''ns'') demo_stored obj \<longleftrightarrow> ShardID obj \<noteq> ''down'' \<and> Key obj = [8]"
  unfolding zc.object_valid_iff zreadable_iff by (simp add: demo_stored_simps)

lemma demo_split:
  "splitObjects (zcluster (\<lambda>_. []) ''ns'') [0, 1] [\<lparr>Key = [8], ShardID = ''a''\<rparr>, \<lparr>Key = [7], ShardID = ''b''\<rparr>] demo_stored
     = ([\<lparr>Key = [8], ShardID = ''a''\<rparr>], [])"
proof -
  have "split_object (zcluster (\<lambda>_. []) ''ns'') demo_stored \<lparr>Key = [8], ShardID = ''a''\<rparr> = ValidObject"
    unfolding zc.split_valid_iff zreadable_iff by (simp add: demo_stored_simps)
  moreover have "split_object (zcluster (\<lambda>_. []) ''ns'') demo_stored \<lparr>Key = [7], ShardID = ''b''\<rparr> = NoResult"
    by (simp add: split_object_def zcluster_def zclient_status demo_stored_simps) (simp add: demo_stored_def data_scope_nth)
  ultimately show ?thesis by (simp add: splitObjects_def)
qed

text \<open>
  C16.  A replicated chunk is read back as long as one of its replicas can be read: replicas that are
  missing, corrupt or of another size, and shards that are down, are passed over.
\<close>

theorem replicated_read_survives:
  assumes "Size cfg = length data" "\<exists>obj\<in>set (Objects cfg). zreadable ns w obj data"
    and "\<forall>obj\<in>set (Objects cfg). \<forall>d. zstored ns w (ShardID obj) (Key obj) = Some d \<longrightarrow> d = data \<or> length d \<noteq> length data"
  shows "replicated_ReadChunk (zcluster order ns) cfg w = Ok data"
proof -
  have "Objects cfg \<noteq> []" using assms(2) by auto
  moreover have "read_first (zcluster order ns) (length data) (Objects cfg) w = Ok data"
    using zc.read_first_readable assms(2,3) unfolding zreadable_iff by blast
  ultimately show ?thesis using assms(1) by (simp add: replicated_ReadChunk_def)
qed

theorem replicated_read_survives_witness:
  "replicated_ReadChunk (zcluster (\<lambda>_. []) ''ns'')
     \<lparr>Size = 1, Objects = [\<lparr>Key = [7], ShardID = ''down''\<rparr>, \<lparr>Key = [8], ShardID = ''a''\<rparr>]\<rparr> demo_stored = Ok [1]"
  by (rule replicated_read_survives) (simp_all add: demo_stored_simps)

text \<open>
  C18.  Checking a replicated chunk: the full check reports optimal exactly when the required number of
  replicas can be read and invalid exactly when none can; the fast check reports invalid in exactly
  the same cases.
\<close>

theorem replicated_check_correct:
  assumes "Objects cfg \<noteq> []" "0 < rs_dataShardCount rs"
  shows "replicated_CheckChunk (zcluster order ns) rs cfg False w =
      Ok (let n = length (filter (\<lambda>obj. \<exists>d. zreadable ns w obj d) (Objects cfg)) in
          if rs_dataShardCount rs \<le> n then CheckStatusOptimal else if 0 < n then CheckStatusValid else CheckStatusInvalid) \<and>
    (replicated_CheckChunk (zcluster order ns) rs cfg True w = Ok CheckStatusInvalid \<longleftrightarrow>
      replicated_CheckChunk (zcluster order ns) rs cfg False w = Ok CheckStatusInvalid)"
proof -
  have v: "object_valid (zcluster order ns) w obj \<longleftrightarrow> (\<exists>d. zreadable ns w obj d)" for obj
    using zc.object_valid_iff unfolding zreadable_iff .
  have filt: "filter (object_valid (zcluster order ns) w) (Objects cfg) = filter (\<lambda>obj. \<exists>d. zreadable ns w obj d) (Objects cfg)"
    by (rule filter_cong [OF refl v])
  show ?thesis
    using assms unfolding replicated_CheckChunk_def Let_def filt
    by (simp add: count_valid_eq filter_empty_conv)
qed

theorem replicated_check_correct_witness:
  "replicated_CheckChunk (zcluster (\<lambda>_. []) ''ns'') \<lparr>rs_dataShardCount = 2, rs_jobCount = 2, rs_writeJobCount = 2\<rparr>
     \<lparr>Size = 1, Objects = [\<lparr>Key = [7], ShardID = ''a''\<rparr>]\<rparr> False demo_world = Ok CheckStatusInvalid"
  using replicated_check_correct [of "\<lparr>Size = 1, Objects = [\<lparr>Key = [7], ShardID = ''a''\<rparr>]\<rparr>"
      "\<lparr>rs_dataShardCount = 2, rs_jobCount = 2, rs_writeJobCount = 2\<rparr>" "\<lambda>_. []" "''ns''" demo_world]
  by (simp add: demo_world_def zstored_def objects_def memory_New_def)



text \<open>
  When every replica that can be read has a size other than the recorded one, repairing does not
  fail: it copies such an object to fresh shards and reports success with a configuration of a
  different size.
\<close>

lemma repair_accepts_wrong_size:
  assumes "replicated_RepairChunk (zcluster order ns) rs arrival schedule offer cfg w = Some ((out, err), w')"
    and "distinct arrival" "set arrival = {..<length (Objects cfg)}"
    and "2 \<le> length (Objects cfg)" "rs_dataShardCount rs \<le> length (Objects cfg)"
    and "\<forall>obj\<in>set (Objects cfg). \<forall>d. zreadable ns w obj d \<longrightarrow> length d \<noteq> Size cfg"
    and "\<exists>obj\<in>set (Objects cfg). \<exists>d. zreadable ns w obj d"
    and "length (filter (object_valid (zcluster order ns) w) (Objects cfg)) < rs_dataShardCount rs"
    and "\<forall>e. set e \<subseteq> ShardID ` set (Objects cfg) \<longrightarrow> distinct (offer e) \<and> rs_dataShardCount rs \<le> length (filter (zw_up w) (offer e))"
    and "0 < rs_jobCount rs"
  shows "\<exists>cfg'. out = Some cfg' \<and> err = None \<and> Size cfg' \<noteq> Size cfg"
proof -
  have "\<forall>obj\<in>set (Objects cfg). \<forall>d. zc.readable ns w obj d \<longrightarrow> length d \<noteq> Size cfg \<and> d \<noteq> []"
    using assms(6) objects_nonempty unfolding zreadable_iff zstored_def by blast
  from zc.repair_wrong_size [OF assms(1-5) this] assms(7-10) show ?thesis unfolding zreadable_iff by blast
qed

lemma repair_accepts_wrong_size_witness:
  "\<exists>schedule cfg' w'. replicated_RepairChunk (zcluster (\<lambda>_. []) ''ns'')
     \<lparr>rs_dataShardCount = 2, rs_jobCount = 1, rs_writeJobCount = 2\<rparr> [0, 1] schedule (\<lambda>e. [''c'', ''d''])
     \<lparr>Size = 5, Objects = [\<lparr>Key = [8], ShardID = ''a''\<rparr>, \<lparr>Key = [7], ShardID = ''b''\<rparr>]\<rparr> demo_stored = Some ((Some cfg', None), w') \<and>
     Size cfg' \<noteq> 5"
proof -
  let ?cl = "zcluster (\<lambda>_. []) ''ns''" and ?rs = "\<lparr>rs_dataShardCount = 2, rs_jobCount = 1, rs_writeJobCount = 2\<rparr>"
  let ?a = "\<lparr>Key = [8], ShardID = ''a''\<rparr>" and ?b = "\<lparr>Key = [7], ShardID = ''b''\<rparr>"
  let ?cfg = "\<lparr>Size = 5, Objects = [?a, ?b]\<rparr>"
  have split: "splitObjects ?cl [0, 1] (Objects ?cfg) demo_stored = ([?a], [])" using demo_split by simp
  have read: "repair_read ?cl 5 [?a] None [?a] demo_stored = (Some [1], [])"
    using zc.get_shard [of demo_stored "''a''"] zc.get_stored [of demo_stored "''a''" "''ns''" "[8]" "[1]"]
    by (simp add: demo_stored_simps)
  obtain schedule ocfg oerr w1 where wr: "replicated_write ?cl ?rs schedule [''c'', ''d''] 2 [1] demo_stored = Some ((ocfg, oerr), w1)"
    using zc.replicated_write_total by (metis prod.exhaust)
  have "\<exists>out err w'. replicated_RepairChunk ?cl ?rs [0, 1] schedule (\<lambda>e. [''c'', ''d'']) ?cfg demo_stored = Some ((out, err), w')"
    using read wr by (subst zc.RepairChunk_many [OF _ split]) (simp_all, cases oerr, simp_all)
  then obtain out err w' where run: "replicated_RepairChunk ?cl ?rs [0, 1] schedule (\<lambda>e. [''c'', ''d'']) ?cfg demo_stored = Some ((out, err), w')"
    by blast
  have "\<exists>cfg'. out = Some cfg' \<and> err = None \<and> Size cfg' \<noteq> Size ?cfg"
    by (rule repair_accepts_wrong_size [OF run]) (auto simp: demo_stored_simps demo_valid)
  with run show ?thesis by auto
qed

end
