(* ===== verification/Distributed_Storage.thy ===== *)
theory Distributed_Storage
  imports Replicated_Storage
begin

text \<open>
  The erasure-coded storage, \<open>client/datastor/pipeline/storage/distributed.go\<close>.  The Reed-Solomon
  library is third-party code: its encoder and its reconstruction are the arguments \<open>enc\<close> and \<open>rec\<close>,
  and \<open>erasure_code\<close> states what its documentation promises.  An absent part is an empty one.
\<close>

section \<open>The encoder-decoder\<close>

record ReedSolomonEncoderDecoder =
  dataShardCount :: nat
  parityShardCount :: nat
  shardCount :: nat

text \<open>\<open>reedsolomon.New\<close> is an argument: it refuses the counts or yields an encoder and a reconstruction.\<close>

type_synonym encoder = "bytes list \<Rightarrow> (storage_error, bytes list) result"
type_synonym reedsolomon_New = "nat \<Rightarrow> nat \<Rightarrow> (string, encoder \<times> encoder) result"

definition NewReedSolomonEncoderDecoder ::
  "reedsolomon_New \<Rightarrow> int \<Rightarrow> int \<Rightarrow> (string, ReedSolomonEncoderDecoder \<times> encoder \<times> encoder) result" where
  "NewReedSolomonEncoderDecoder lib k m =
     (if k < 1 then Err ''dataShardCount has to be at least 1''
      else if m < 1 then Err ''parityShardCount has to be at least 1''
      else rbind (lib (nat k) (nat m)) (\<lambda>er.
        Ok (\<lparr>dataShardCount = nat k, parityShardCount = nat m, shardCount = nat (k + m)\<rparr>, er)))"

definition padFactor :: nat where
  "padFactor = 256"

definition getPadLen :: "ReedSolomonEncoderDecoder \<Rightarrow> nat \<Rightarrow> nat" where
  "getPadLen rs dataLen =
     (let maxPadLen = dataShardCount rs * padFactor; md = dataLen mod maxPadLen in
      if md = 0 then 0 else maxPadLen - md)"

definition padIfNeeded :: "ReedSolomonEncoderDecoder \<Rightarrow> bytes \<Rightarrow> bytes" where
  "padIfNeeded rs data =
     (let padLen = getPadLen rs (length data) in
      if padLen = 0 then data else data @ replicate padLen 0)"

definition splitData :: "ReedSolomonEncoderDecoder \<Rightarrow> bytes \<Rightarrow> bytes list" where
  "splitData rs data =
     (let data = padIfNeeded rs data; chunkSize = length data div dataShardCount rs in
      map (\<lambda>i. take ((i + 1) * chunkSize - i * chunkSize) (drop (i * chunkSize) data)) [0..<dataShardCount rs])"

definition rs_Encode :: "encoder \<Rightarrow> ReedSolomonEncoderDecoder \<Rightarrow> bytes \<Rightarrow> (storage_error, bytes list) result" where
  "rs_Encode enc rs data =
     (if length data = 0 then Err (ErrCodec ''no data given to encode'')
      else let parts = splitData rs data;
               parities = replicate (parityShardCount rs) (replicate (length (parts ! 0)) 0)
           in enc (parts @ parities))"

text \<open>The copy loop of \<open>Decode\<close>: \<open>copy(data[offset:], part)\<close> panics past the end of \<open>data\<close>.\<close>

fun decode_copy :: "bytes list \<Rightarrow> nat \<Rightarrow> bytes \<Rightarrow> (storage_error, bytes) result" where
  "decode_copy [] offset data = Ok data"
| "decode_copy (part # parts) offset data =
     (if offset \<le> length data then
        let data = copy_at offset data part; offset = offset + length part in
        if offset \<ge> length data then Ok data else decode_copy parts offset data
      else Panic)"

definition rs_Decode ::
  "encoder \<Rightarrow> ReedSolomonEncoderDecoder \<Rightarrow> bytes list \<Rightarrow> nat \<Rightarrow> (storage_error, bytes) result" where
  "rs_Decode rec rs parts dataSize =
     (if length parts \<noteq> shardCount rs then Err (ErrCodec ''unexpected amount of parts given to decode'')
      else rbind (rec parts) (\<lambda>parts. decode_copy (take (dataShardCount rs) parts) 0 (replicate dataSize 0)))"

definition MinimumValidShardCount :: "ReedSolomonEncoderDecoder \<Rightarrow> nat" where
  "MinimumValidShardCount rs = dataShardCount rs"

definition RequiredShardCount :: "ReedSolomonEncoderDecoder \<Rightarrow> nat" where
  "RequiredShardCount rs = shardCount rs"

section \<open>The storage\<close>

record DistributedChunkStorage =
  ds_enc :: encoder
  ds_rec :: encoder
  ds_dec :: ReedSolomonEncoderDecoder
  ds_jobCount :: nat

definition NewDistributedChunkStorageWithEncoderDecoder ::
  "nat \<Rightarrow> ReedSolomonEncoderDecoder \<times> encoder \<times> encoder \<Rightarrow> int \<Rightarrow> DistributedChunkStorage" where
  "NewDistributedChunkStorageWithEncoderDecoder defaultJobCount dec jobCount =
     \<lparr>ds_enc = fst (snd dec), ds_rec = snd (snd dec), ds_dec = fst dec,
      ds_jobCount = (if jobCount < 1 then defaultJobCount else nat jobCount)\<rparr>"

definition NewDistributedChunkStorage ::
  "reedsolomon_New \<Rightarrow> nat \<Rightarrow> nat \<Rightarrow> int \<Rightarrow> int \<Rightarrow> int \<Rightarrow> (string, DistributedChunkStorage) result" where
  "NewDistributedChunkStorage lib defaultJobCount listedShardCount k m jobCount =
     (if int listedShardCount < k + m
      then Err ''DistributedChunkStorage requires at least dataShardCount+parityShardCount amount of listed datastor shards''
      else rbind (map_err (\<lambda>e. ''failed to create DistributedChunkStorage: '' @ e) (NewReedSolomonEncoderDecoder lib k m)) (\<lambda>dec.
        Ok (NewDistributedChunkStorageWithEncoderDecoder defaultJobCount dec jobCount)))"

definition no_object :: Object where
  "no_object = \<lparr>Key = [], ShardID = []\<rparr>"

text \<open>
  The collecting loops \<open>objects[result.Index] = result.Object\<close> and \<open>parts[result.Index] = result.Data\<close>.
\<close>

fun place_results :: "(nat \<times> 'a) list \<Rightarrow> 'a list \<Rightarrow> 'a list" where
  "place_results [] xs = xs"
| "place_results ((index, x) # results) xs = place_results results (xs[index := x])"

definition distributed_WriteChunk ::
  "'w Cluster \<Rightarrow> DistributedChunkStorage \<Rightarrow> choice list \<Rightarrow> (string list \<Rightarrow> string list) \<Rightarrow> bytes \<Rightarrow> 'w
     \<Rightarrow> ((ChunkConfig option \<times> storage_error option) \<times> 'w) option" where
  "distributed_WriteChunk cl ds schedule offer data w =
     (case rs_Encode (ds_enc ds) (ds_dec ds) data of
        Panic \<Rightarrow> None
      | Err e \<Rightarrow> Some ((None, Some e), w)
      | Ok parts \<Rightarrow>
          let partsCount = length parts;
              jobCount = (if ds_jobCount ds > partsCount then partsCount else ds_jobCount ds) in
          (case run_workers cl schedule jobCount (enumerate 0 parts) (offer []) w of
             None \<Rightarrow> None
           | Some (results, w') \<Rightarrow>
               let cfg = \<lparr>Size = length data, Objects = place_results results (replicate partsCount no_object)\<rparr> in
               if length results < partsCount then Some ((Some cfg, Some ErrShardsUnavailable), w')
               else Some ((Some cfg, None), w')))"

text \<open>
  What a reading worker gets for one object, and the parts that arrive: the answers come in the
  order \<open>arrival\<close>, and only the first \<open>MinimumValidShardCount\<close> of them are used.
\<close>

definition read_part :: "'w Cluster \<Rightarrow> Object \<Rightarrow> 'w \<Rightarrow> bytes option" where
  "read_part cl obj w =
     (case cl_GetShard cl (ShardID obj) w of
        Ok _ \<Rightarrow> (case cl_GetObject cl (ShardID obj) (Key obj) w of Ok data \<Rightarrow> Some data | _ \<Rightarrow> None)
      | _ \<Rightarrow> None)"

definition read_results :: "'w Cluster \<Rightarrow> nat list \<Rightarrow> Object list \<Rightarrow> 'w \<Rightarrow> (nat \<times> bytes) list" where
  "read_results cl arrival objs w =
     map (\<lambda>i. (i, the (read_part cl (objs ! i) w))) (filter (\<lambda>i. read_part cl (objs ! i) w \<noteq> None) arrival)"

definition distributed_ReadChunk ::
  "'w Cluster \<Rightarrow> DistributedChunkStorage \<Rightarrow> nat list \<Rightarrow> ChunkConfig \<Rightarrow> 'w \<Rightarrow> (storage_error, bytes) result" where
  "distributed_ReadChunk cl ds arrival cfg w =
     (let required = RequiredShardCount (ds_dec ds) in
      if required \<noteq> length (Objects cfg) then Err ErrUnexpectedObjectCount
      else let minimum = MinimumValidShardCount (ds_dec ds);
               results = take minimum (read_results cl arrival (Objects cfg) w);
               parts = place_results results (replicate required []) in
        if length results < minimum then Err ErrShardsUnavailable
        else rbind (rs_Decode (ds_rec ds) (ds_dec ds) parts (Size cfg)) (\<lambda>data.
          if length data \<noteq> Size cfg then Err ErrInvalidDataSize else Ok data))"

definition distributed_CheckChunk ::
  "'w Cluster \<Rightarrow> DistributedChunkStorage \<Rightarrow> ChunkConfig \<Rightarrow> bool \<Rightarrow> 'w \<Rightarrow> (storage_error, CheckStatus) result" where
  "distributed_CheckChunk cl ds cfg fast w =
     (let required = RequiredShardCount (ds_dec ds) in
      if required \<noteq> length (Objects cfg) then Err ErrUnexpectedObjectCount
      else let minimum = MinimumValidShardCount (ds_dec ds);
               search = (if fast then minimum else required);
               validObjectCount = length (take search (filter (object_valid cl w) (Objects cfg))) in
        if validObjectCount = required then Ok CheckStatusOptimal
        else if validObjectCount \<ge> minimum then Ok CheckStatusValid
        else Ok CheckStatusInvalid)"

definition distributed_RepairChunk ::
  "'w Cluster \<Rightarrow> DistributedChunkStorage \<Rightarrow> nat list \<Rightarrow> choice list \<Rightarrow> (string list \<Rightarrow> string list) \<Rightarrow> ChunkConfig \<Rightarrow> 'w
     \<Rightarrow> ((ChunkConfig option \<times> storage_error option) \<times> 'w) option" where
  "distributed_RepairChunk cl ds arrival schedule offer cfg w =
     (case distributed_ReadChunk cl ds arrival cfg w of
        Panic \<Rightarrow> None
      | Err e \<Rightarrow> Some ((None, Some e), w)
      | Ok obj \<Rightarrow> distributed_WriteChunk cl ds schedule offer obj w)"

definition distributed_DeleteChunk :: "'w Cluster \<Rightarrow> nat list \<Rightarrow> ChunkConfig \<Rightarrow> ('w, storage_error, unit) op" where
  "distributed_DeleteChunk cl order cfg w =
     (if length (Objects cfg) = 0 then (Err ErrUnexpectedObjectCount, w)
      else if length (Objects cfg) = 1 then delete_objects cl [Objects cfg ! 0] w
      else delete_objects cl (map (\<lambda>i. Objects cfg ! i) order) w)"

section \<open>What the Reed-Solomon library promises\<close>

text \<open>
  For \<open>k\<close> data parts of one size the encoder fills in \<open>m\<close> parity parts of that size, leaving the data
  parts as they are; from any \<open>k\<close> of the \<open>k + m\<close> parts, the others being absent, the reconstruction
  recovers the data parts.
\<close>

definition erasure_code :: "encoder \<Rightarrow> encoder \<Rightarrow> nat \<Rightarrow> nat \<Rightarrow> bool" where
  "erasure_code enc rec k m \<longleftrightarrow>
     (\<forall>dp n. length dp = k \<and> 0 < n \<and> (\<forall>p\<in>set dp. length p = n) \<longrightarrow>
        (\<exists>par. enc (dp @ replicate m (replicate n 0)) = Ok (dp @ par) \<and> length par = m \<and> (\<forall>p\<in>set par. length p = n) \<and>
          (\<forall>parts. length parts = k + m \<and> (\<forall>i<k + m. parts ! i = [] \<or> parts ! i = (dp @ par) ! i) \<and>
             k \<le> card {i. i < k + m \<and> parts ! i \<noteq> []} \<longrightarrow>
             (\<exists>rs. rec parts = Ok rs \<and> take k rs = dp))))"

section \<open>Splitting and joining\<close>

definition rs_ok :: "ReedSolomonEncoderDecoder \<Rightarrow> bool" where
  "rs_ok rs \<longleftrightarrow> 0 < dataShardCount rs \<and> shardCount rs = dataShardCount rs + parityShardCount rs"

lemma padded_length:
  assumes "0 < dataShardCount rs"
  shows "dataShardCount rs * padFactor dvd length (padIfNeeded rs data)" "length data \<le> length (padIfNeeded rs data)"
    "take (length data) (padIfNeeded rs data) = data"
proof -
  let ?M = "dataShardCount rs * padFactor"
  have M: "0 < ?M" using assms by (simp add: padFactor_def)
  have "length (padIfNeeded rs data) = length data + getPadLen rs (length data)"
    by (simp add: padIfNeeded_def Let_def)
  moreover have "?M dvd length data + getPadLen rs (length data)"
  proof (cases "length data mod ?M = 0")
    case True
    then show ?thesis by (simp add: getPadLen_def Let_def mod_eq_0_iff_dvd)
  next
    case False
    have "length data mod ?M < ?M" using M by (rule mod_less_divisor)
    moreover have "length data = length data div ?M * ?M + length data mod ?M" by (simp only: div_mult_mod_eq)
    ultimately have "length data + (?M - length data mod ?M) = length data div ?M * ?M + ?M" by linarith
    then have "?M dvd length data + (?M - length data mod ?M)" by (simp only: dvd_add_triv_right_iff dvd_triv_right)
    then show ?thesis using False by (simp add: getPadLen_def Let_def)
  qed
  ultimately show "?M dvd length (padIfNeeded rs data)" by simp
  show "length data \<le> length (padIfNeeded rs data)" "take (length data) (padIfNeeded rs data) = data"
    by (simp_all add: padIfNeeded_def Let_def)
qed

lemma concat_pieces: "concat (map (\<lambda>i. take c (drop (i * c) xs)) [0..<k]) = take (k * c) xs"
proof (induction k)
  case (Suc k)
  have "take (c + k * c) xs = take (k * c) xs @ take c (drop (k * c) xs)" by (metis add.commute take_add)
  with Suc show ?case by simp
qed simp

lemma splitData_spec:
  assumes k: "0 < dataShardCount rs" and ne: "data \<noteq> []"
  shows "length (splitData rs data) = dataShardCount rs \<and>
    (\<exists>n. 0 < n \<and> (\<forall>p\<in>set (splitData rs data). length p = n)) \<and>
    concat (splitData rs data) = padIfNeeded rs data"
proof -
  let ?k = "dataShardCount rs" and ?d = "padIfNeeded rs data"
  let ?c = "length ?d div ?k"
  note pad = padded_length [OF k, of data]
  have kc: "?k * ?c = length ?d" using pad(1) by (metis dvd_mult_div_cancel dvd_mult_left)
  have c: "0 < ?c"
  proof -
    have "0 < length ?d" using pad(2) ne by (cases data) auto
    then show ?thesis using kc by (metis gr0I mult_0_right)
  qed
  have parts: "splitData rs data = map (\<lambda>i. take ?c (drop (i * ?c) ?d)) [0..<?k]"
    by (simp add: splitData_def Let_def)
  have "length (take ?c (drop (i * ?c) ?d)) = ?c" if "i < ?k" for i
  proof -
    from that have "Suc i * ?c \<le> ?k * ?c" by (intro mult_le_mono1) simp
    with kc show ?thesis by simp
  qed
  then have "\<forall>p\<in>set (splitData rs data). length p = ?c" unfolding parts by auto
  moreover have "concat (splitData rs data) = ?d" unfolding parts concat_pieces kc by simp
  ultimately show ?thesis using c by (auto simp: parts)
qed

lemma decode_copy_spec:
  assumes "offset \<le> n" "length pre = offset" "n - offset \<le> length (concat parts)" "parts \<noteq> [] \<or> offset = n"
  shows "decode_copy parts offset (pre @ replicate (n - offset) 0) = Ok (pre @ take (n - offset) (concat parts))"
  using assms
proof (induction parts arbitrary: offset pre)
  case Nil
  then show ?case by simp
next
  case (Cons part parts)
  let ?z = "replicate (n - offset) (0 :: byte)"
  have copy: "copy_at offset (pre @ ?z) part = pre @ take (n - offset) part @ replicate (n - offset - length part) 0"
    using Cons.prems(2) by (simp add: copy_at_def go_copy_def)
  show ?case
  proof (cases "n \<le> offset + length part")
    case True
    with Cons.prems copy show ?thesis by (simp add: Let_def)
  next
    case False
    then have eq: "copy_at offset (pre @ ?z) part = (pre @ part) @ replicate (n - (offset + length part)) 0"
      using copy by simp
    have "parts \<noteq> []" using False Cons.prems(3) by auto
    then have "decode_copy parts (offset + length part) ((pre @ part) @ replicate (n - (offset + length part)) 0)
        = Ok ((pre @ part) @ take (n - (offset + length part)) (concat parts))"
      using False Cons.prems by (intro Cons.IH) auto
    moreover have "take (n - offset) (concat (part # parts)) = part @ take (n - (offset + length part)) (concat parts)"
      using False by simp
    ultimately show ?thesis using eq False Cons.prems by (simp add: Let_def)
  qed
qed

lemma decode_joined:
  assumes "length data \<le> length (concat parts)" "take (length data) (concat parts) = data" "parts \<noteq> []"
  shows "decode_copy parts 0 (replicate (length data) 0) = Ok data"
  using decode_copy_spec [of 0 "length data" "[]" parts] assms by simp

lemma encode_decode:
  assumes code: "erasure_code enc rec (dataShardCount rs) (parityShardCount rs)" and rs: "rs_ok rs" and ne: "data \<noteq> []"
  shows "\<exists>parts. rs_Encode enc rs data = Ok parts \<and> length parts = shardCount rs \<and> [] \<notin> set parts \<and>
    (\<forall>got. length got = shardCount rs \<and> (\<forall>i < shardCount rs. got ! i = [] \<or> got ! i = parts ! i) \<and>
       dataShardCount rs \<le> card {i. i < shardCount rs \<and> got ! i \<noteq> []} \<longrightarrow>
       rs_Decode rec rs got (length data) = Ok data)"
proof -
  let ?k = "dataShardCount rs" and ?m = "parityShardCount rs" and ?dp = "splitData rs data"
  have k: "0 < ?k" and sc: "shardCount rs = ?k + ?m" using rs by (simp_all add: rs_ok_def)
  from splitData_spec [OF k ne] obtain n where dp: "length ?dp = ?k" "0 < n" "\<forall>p\<in>set ?dp. length p = n"
    "concat ?dp = padIfNeeded rs data" by blast
  have "?dp \<noteq> []" using dp(1) k by auto
  then have "length (?dp ! 0) = n" using dp(3) by simp
  then have enc: "rs_Encode enc rs data = enc (?dp @ replicate ?m (replicate n 0))"
    using ne by (simp add: rs_Encode_def Let_def)
  from code [unfolded erasure_code_def, rule_format, OF conjI [OF dp(1) conjI [OF dp(2,3)]]]
  obtain par where par: "enc (?dp @ replicate ?m (replicate n 0)) = Ok (?dp @ par)" "length par = ?m"
    "\<forall>p\<in>set par. length p = n"
    and recon: "\<forall>parts. length parts = ?k + ?m \<and> (\<forall>i<?k + ?m. parts ! i = [] \<or> parts ! i = (?dp @ par) ! i) \<and>
      ?k \<le> card {i. i < ?k + ?m \<and> parts ! i \<noteq> []} \<longrightarrow> (\<exists>rs. rec parts = Ok rs \<and> take ?k rs = ?dp)"
    by (elim exE conjE)
  have join: "decode_copy ?dp 0 (replicate (length data) 0) = Ok data"
    using padded_length [OF k, of data] dp(4) \<open>?dp \<noteq> []\<close> by (intro decode_joined) simp_all
  show ?thesis
  proof (intro exI conjI allI impI)
    show "rs_Encode enc rs data = Ok (?dp @ par)" using enc par(1) by simp
    show "length (?dp @ par) = shardCount rs" using dp(1) par(2) sc by simp
    show "[] \<notin> set (?dp @ par)" using dp(2,3) par(3) by auto
  next
    fix got assume got: "length got = shardCount rs \<and> (\<forall>i < shardCount rs. got ! i = [] \<or> got ! i = (?dp @ par) ! i) \<and>
       ?k \<le> card {i. i < shardCount rs \<and> got ! i \<noteq> []}"
    from recon [rule_format, OF this [unfolded sc]] obtain out where "rec got = Ok out" "take ?k out = ?dp" by blast
    with join got show "rs_Decode rec rs got (length data) = Ok data" by (simp add: rs_Decode_def)
  qed
qed

section \<open>Writing and reading\<close>

lemma length_place [simp]: "length (place_results results xs) = length xs"
  by (induction results xs rule: place_results.induct) simp_all

lemma place_nth:
  "i < length xs \<Longrightarrow> distinct (map fst results) \<Longrightarrow>
     place_results results xs ! i = (case map_of results i of Some v \<Rightarrow> v | None \<Rightarrow> xs ! i)"
proof (induction results xs rule: place_results.induct)
  case (2 index x results xs)
  then have IH: "place_results results (xs[index := x]) ! i = (case map_of results i of Some v \<Rightarrow> v | None \<Rightarrow> xs[index := x] ! i)"
    by simp
  show ?case
  proof (cases "i = index")
    case True
    with 2 have "map_of results i = None" by (simp add: map_of_eq_None_iff)
    with IH True 2 show ?thesis by simp
  next
    case False
    with IH show ?thesis by (simp split: option.splits)
  qed
qed simp

context shard_cluster
begin

lemma distributed_write_spec:
  assumes run: "distributed_WriteChunk cl ds schedule offer data w = Some ((Some cfg, None), w')"
    and S: "distinct (offer [])"
  shows "\<exists>parts. rs_Encode (ds_enc ds) (ds_dec ds) data = Ok parts \<and> Size cfg = length data \<and>
    length (Objects cfg) = length parts \<and> (\<forall>i<length parts. readable w' (Objects cfg ! i) (parts ! i)) \<and>
    (\<forall>i<length parts. \<forall>j<length parts. ShardID (Objects cfg ! i) = ShardID (Objects cfg ! j) \<longrightarrow> i = j)"
proof -
  obtain parts jobs results where enc: "rs_Encode (ds_enc ds) (ds_dec ds) data = Ok parts"
    and rw: "run_workers cl schedule jobs (enumerate 0 parts) (offer []) w = Some (results, w')"
    and len: "length parts \<le> length results"
    and cfg: "cfg = \<lparr>Size = length data, Objects = place_results results (replicate (length parts) no_object)\<rparr>"
    using run by (auto simp: distributed_WriteChunk_def Let_def not_less split: result.splits option.splits if_splits)
  note d = run_workers_delivered [OF rw S]
  have idx: "mset (map fst (enumerate 0 parts)) = mset [0..<length parts]" by (simp del: mset_map)
  from d have sub: "mset (map fst results) \<subseteq># mset [0..<length parts]" unfolding idx by blast
  then have dist: "distinct (map fst results)" by (rule distinct_submset) simp
  have "mset (map fst results) = mset [0..<length parts]"
  proof (rule ccontr)
    assume "mset (map fst results) \<noteq> mset [0..<length parts]"
    with sub have "mset (map fst results) \<subset># mset [0..<length parts]" by (simp add: subset_mset.less_le)
    from mset_subset_size [OF this] len show False by simp
  qed
  then have all: "set (map fst results) = {..<length parts}"
    by (metis atLeast_upt set_mset_mset)
  have obj: "\<exists>r\<in>set results. fst r = i \<and> Objects cfg ! i = snd r" if "i < length parts" for i
  proof -
    from that all obtain r where r: "r \<in> set results" "fst r = i" by (metis imageE lessThan_iff list.set_map)
    then have "map_of results i = Some (snd r)" using dist by (metis map_of_eq_Some_iff prod.collapse)
    with that r dist show ?thesis by (auto simp: cfg place_nth)
  qed
  have read: "readable w' (Objects cfg ! i) (parts ! i)" if i: "i < length parts" for i
  proof -
    obtain r where r: "r \<in> set results" "fst r = i" "Objects cfg ! i = snd r" using obj [OF i] by blast
    with d have "delivered (enumerate 0 parts) w w' r" by blast
    then obtain x where "(i, x) \<in> set (enumerate 0 parts)" "stored w' (ShardID (snd r)) (Key (snd r)) = Some x" "up w (ShardID (snd r))"
      using r(2) by (auto simp: delivered_def)
    then show ?thesis using d r(3) by (auto simp: readable_def in_set_enumerate_eq)
  qed
  have "i = j" if i: "i < length parts" and j: "j < length parts" and eq: "ShardID (Objects cfg ! i) = ShardID (Objects cfg ! j)" for i j
  proof -
    obtain r q where "r \<in> set results" "fst r = i" "Objects cfg ! i = snd r" "q \<in> set results" "fst q = j" "Objects cfg ! j = snd q"
      using obj [OF i] obj [OF j] by blast
    moreover have "inj_on (\<lambda>r. ShardID (snd r)) (set results)" using d by (simp add: distinct_map)
    ultimately show ?thesis using eq by (metis inj_onD)
  qed
  with read enc show ?thesis by (auto simp: cfg)
qed

lemma read_part_stored: "read_part cl obj w = Some d \<Longrightarrow> stored w (ShardID obj) (Key obj) = Some d"
  using get_sound by (auto simp: read_part_def split: result.splits)

lemma read_part_readable: "readable w obj d \<Longrightarrow> read_part cl obj w = Some d"
  using get_shard get_stored by (simp add: read_part_def readable_def)

lemma distributed_read_spec:
  assumes code: "erasure_code (ds_enc ds) (ds_rec ds) (dataShardCount (ds_dec ds)) (parityShardCount (ds_dec ds))"
    and rs: "rs_ok (ds_dec ds)" and ne: "data \<noteq> []" and enc: "rs_Encode (ds_enc ds) (ds_dec ds) data = Ok parts"
    and cfg: "Size cfg = length data" "length (Objects cfg) = length parts"
    and same: "\<forall>i<length parts. \<forall>d. stored w (ShardID (Objects cfg ! i)) (Key (Objects cfg ! i)) = Some d \<longrightarrow> d = parts ! i"
    and enough: "dataShardCount (ds_dec ds) \<le> card {i. i < length parts \<and> (\<exists>d. readable w (Objects cfg ! i) d)}"
    and arrival: "distinct arrival" "set arrival = {..<length parts}"
  shows "distributed_ReadChunk cl ds arrival cfg w = Ok data"
proof -
  let ?rs = "ds_dec ds" and ?k = "dataShardCount (ds_dec ds)" and ?objs = "Objects cfg"
  from encode_decode [OF code rs ne] enc have n: "length parts = shardCount ?rs" and nonempty: "[] \<notin> set parts"
    and dec: "\<And>got. length got = shardCount ?rs \<Longrightarrow> (\<forall>i < shardCount ?rs. got ! i = [] \<or> got ! i = parts ! i) \<Longrightarrow>
       ?k \<le> card {i. i < shardCount ?rs \<and> got ! i \<noteq> []} \<Longrightarrow> rs_Decode (ds_rec ds) ?rs got (length data) = Ok data"
    by auto
  let ?ok = "filter (\<lambda>i. read_part cl (?objs ! i) w \<noteq> None) arrival"
  let ?res = "take ?k (read_results cl arrival ?objs w)"
  let ?got = "place_results ?res (replicate (shardCount ?rs) [])"
  have "{i. i < length parts \<and> (\<exists>d. readable w (?objs ! i) d)} \<subseteq> set ?ok"
    using read_part_readable arrival(2) by fastforce
  then have "?k \<le> card (set ?ok)" using enough card_mono [OF finite_set] by (meson order_trans)
  then have "?k \<le> length ?ok" using card_length order_trans by blast
  then have len: "length ?res = ?k" by (simp add: read_results_def)
  have fst_res: "map fst ?res = take ?k ?ok" by (simp add: read_results_def take_map [symmetric] comp_def)
  then have dist: "distinct (map fst ?res)" using arrival(1) by simp
  have res: "i < length parts \<and> d = parts ! i" if "(i, d) \<in> set ?res" for i d
  proof -
    from that have "i \<in> set arrival" "read_part cl (?objs ! i) w = Some d"
      by (auto simp: read_results_def dest!: in_set_takeD)
    then show ?thesis using same read_part_stored arrival(2) by auto
  qed
  have got: "?got ! i = (case map_of ?res i of Some v \<Rightarrow> v | None \<Rightarrow> [])" if "i < shardCount ?rs" for i
    using place_nth [OF _ dist, of i "replicate (shardCount ?rs) []"] that by (simp split: option.splits)
  have "{i. i < shardCount ?rs \<and> ?got ! i \<noteq> []} = fst ` set ?res"
  proof (intro set_eqI iffI)
    fix i assume "i \<in> {i. i < shardCount ?rs \<and> ?got ! i \<noteq> []}"
    then show "i \<in> fst ` set ?res" using got [of i] by (auto split: option.splits dest!: map_of_SomeD) force
  next
    fix i assume "i \<in> fst ` set ?res"
    then obtain d where d: "(i, d) \<in> set ?res" by auto
    with dist have "map_of ?res i = Some d" by simp
    moreover have "i < length parts" "d = parts ! i" using res [OF d] by auto
    ultimately show "i \<in> {i. i < shardCount ?rs \<and> ?got ! i \<noteq> []}" using got [of i] n nonempty by (metis (mono_tags) mem_Collect_eq nth_mem option.case(2))
  qed
  then have "card {i. i < shardCount ?rs \<and> ?got ! i \<noteq> []} = ?k" using dist len by (metis distinct_card length_map list.set_map)
  moreover have "\<forall>i < shardCount ?rs. ?got ! i = [] \<or> ?got ! i = parts ! i"
    using got res by (auto split: option.splits dest!: map_of_SomeD)
  ultimately have "rs_Decode (ds_rec ds) ?rs ?got (length data) = Ok data" by (intro dec) simp_all
  then show ?thesis
    using cfg n len by (simp add: distributed_ReadChunk_def RequiredShardCount_def MinimumValidShardCount_def Let_def)
qed

lemma distributed_write_total:
  assumes code: "erasure_code (ds_enc ds) (ds_rec ds) (dataShardCount (ds_dec ds)) (parityShardCount (ds_dec ds))"
    and rs: "rs_ok (ds_dec ds)" and ne: "data \<noteq> []"
  shows "\<exists>schedule r. distributed_WriteChunk cl ds schedule offer data w = Some r"
proof -
  obtain parts where "rs_Encode (ds_enc ds) (ds_dec ds) data = Ok parts" using encode_decode [OF code rs ne] by blast
  moreover obtain schedule results w' where "run_workers cl schedule (if ds_jobCount ds > length parts then length parts else ds_jobCount ds)
      (enumerate 0 parts) (offer []) w = Some (results, w')"
    using run_workers_total by blast
  ultimately have "\<exists>r. distributed_WriteChunk cl ds schedule offer data w = Some r"
    by (simp add: distributed_WriteChunk_def Let_def)
  then show ?thesis by blast
qed

lemma distributed_write_succeeds:
  assumes run: "distributed_WriteChunk cl ds schedule offer data w = Some ((out, err), w')"
    and code: "erasure_code (ds_enc ds) (ds_rec ds) (dataShardCount (ds_dec ds)) (parityShardCount (ds_dec ds))"
    and rs: "rs_ok (ds_dec ds)" and ne: "data \<noteq> []" and S: "distinct (offer [])"
    and enough: "shardCount (ds_dec ds) \<le> length (filter (up w) (offer []))" and jobs: "0 < ds_jobCount ds"
  shows "err = None \<and> (\<exists>cfg. out = Some cfg)"
proof -
  obtain parts where enc: "rs_Encode (ds_enc ds) (ds_dec ds) data = Ok parts" "length parts = shardCount (ds_dec ds)" "[] \<notin> set parts"
    using encode_decode [OF code rs ne] by blast
  let ?jobs = "if ds_jobCount ds > length parts then length parts else ds_jobCount ds"
  obtain results where rw: "run_workers cl schedule ?jobs (enumerate 0 parts) (offer []) w = Some (results, w')"
    using run enc(1) by (auto simp: distributed_WriteChunk_def Let_def split: option.splits if_splits)
  have "0 < length parts" using enc(2) rs by (simp add: rs_ok_def)
  then have n: "0 < ?jobs" using jobs by simp
  have "snd j \<in> set parts" if "j \<in> set (enumerate 0 parts)" for j
    using that nth_mem [of "fst j" parts] by (auto simp: in_set_enumerate_eq)
  then have "\<forall>j\<in>set (enumerate 0 parts). snd j \<noteq> []" using enc(3) by metis
  from run_workers_live [OF rw n S] enough enc(2) this
  have "mset (map fst results) = mset (map fst (enumerate 0 parts))" by simp
  from arg_cong [OF this, of size] have "length results = length parts" by simp
  then show ?thesis using run enc(1) rw by (auto simp: distributed_WriteChunk_def Let_def)
qed

end

section \<open>Properties of the distributed storage\<close>


text \<open>A code that keeps the promise, for two data shards and one parity shard: exclusive or.\<close>

definition xor_enc :: encoder where
  "xor_enc parts = Ok [parts ! 0, parts ! 1, map2 (XOR) (parts ! 0) (parts ! 1)]"

definition xor_rec :: encoder where
  "xor_rec parts =
     Ok (if parts ! 0 = [] then [map2 (XOR) (parts ! 2) (parts ! 1), parts ! 1, parts ! 2]
         else if parts ! 1 = [] then [parts ! 0, map2 (XOR) (parts ! 0) (parts ! 2), parts ! 2] else parts)"

lemma xor_cancel:
  assumes "length a = length (b :: bytes)"
  shows "map2 (XOR) a (map2 (XOR) a b) = b" "map2 (XOR) (map2 (XOR) a b) b = a"
  using assms by (induction a b rule: list_induct2) (auto simp: bit_eq_iff bit_simps)

lemma xor_erasure_code: "erasure_code xor_enc xor_rec 2 1"
  unfolding erasure_code_def
proof (intro allI impI)
  fix dp :: "bytes list" and n :: nat
  assume a: "length dp = 2 \<and> 0 < n \<and> (\<forall>p\<in>set dp. length p = n)"
  then obtain x y where dp: "dp = [x, y]" by (auto simp: numeral_2_eq_2 length_Suc_conv)
  with a have len: "length x = n" "length y = n" "0 < n" by simp_all
  let ?p = "map2 (XOR) x y"
  have "\<exists>rs. xor_rec parts = Ok rs \<and> take 2 rs = dp"
    if three: "length parts = 2 + 1" and same: "\<forall>i<2 + 1. parts ! i = [] \<or> parts ! i = (dp @ [?p]) ! i"
      and enough: "2 \<le> card {i. i < 2 + 1 \<and> parts ! i \<noteq> []}" for parts
  proof -
    obtain u v z where parts: "parts = [u, v, z]" using three by (auto simp: numeral_eq_Suc length_Suc_conv)
    have "{i. i < 2 + 1 \<and> parts ! i \<noteq> []} = set (filter (\<lambda>i. parts ! i \<noteq> []) [0, 1, 2])"
    proof -
      have "i < 2 + 1 \<longleftrightarrow> i \<in> set [0, 1, 2]" for i :: nat by (simp; arith)
      then show ?thesis by (simp only: set_filter)
    qed
    then have "2 \<le> length (filter (\<lambda>i. parts ! i \<noteq> []) [0, 1, 2])"
      using enough card_length [of "filter (\<lambda>i. parts ! i \<noteq> []) [0, 1, 2]"] by simp
    moreover have "u = [] \<or> u = x" "v = [] \<or> v = y" "z = [] \<or> z = ?p"
      using same [rule_format, of 0] same [rule_format, of 1] same [rule_format, of 2] by (simp_all add: parts dp)
    ultimately show ?thesis
      using xor_cancel [of x y] len by (auto simp: parts dp xor_rec_def numeral_2_eq_2 split: if_splits)
  qed
  then show "\<exists>par. xor_enc (dp @ replicate 1 (replicate n 0)) = Ok (dp @ par) \<and> length par = 1 \<and>
    (\<forall>p\<in>set par. length p = n) \<and> (\<forall>parts. length parts = 2 + 1 \<and> (\<forall>i<2 + 1. parts ! i = [] \<or> parts ! i = (dp @ par) ! i) \<and>
      2 \<le> card {i. i < 2 + 1 \<and> parts ! i \<noteq> []} \<longrightarrow> (\<exists>rs. xor_rec parts = Ok rs \<and> take 2 rs = dp))"
    using len by (intro exI [of _ "[?p]"] conjI) (simp_all add: dp xor_enc_def)
qed

definition demo_rs :: ReedSolomonEncoderDecoder where
  "demo_rs = \<lparr>dataShardCount = 2, parityShardCount = 1, shardCount = 3\<rparr>"

definition demo_ds :: DistributedChunkStorage where
  "demo_ds = \<lparr>ds_enc = xor_enc, ds_rec = xor_rec, ds_dec = demo_rs, ds_jobCount = 2\<rparr>"

lemma demo_code: "erasure_code (ds_enc demo_ds) (ds_rec demo_ds) (dataShardCount (ds_dec demo_ds)) (parityShardCount (ds_dec demo_ds))"
  "rs_ok (ds_dec demo_ds)"
  using xor_erasure_code by (simp_all add: demo_ds_def demo_rs_def rs_ok_def)

lemma demo_counts: "RequiredShardCount demo_rs = 3" "MinimumValidShardCount demo_rs = 2" "ds_dec demo_ds = demo_rs"
  "ds_enc demo_ds = xor_enc" "ds_rec demo_ds = xor_rec"
  by (simp_all add: RequiredShardCount_def MinimumValidShardCount_def demo_rs_def demo_ds_def)


text \<open>
  C6.  A distributed write to enough shards that are up succeeds under every schedule, and puts each
  part on a shard of its own.  The chunk can be read back from any later state in which no part has
  been replaced and as many objects as there are data shards can still be read, whichever they are
  and in whatever order the answers arrive.
\<close>

theorem distributed_survives_losses:
  assumes "erasure_code (ds_enc ds) (ds_rec ds) (dataShardCount (ds_dec ds)) (parityShardCount (ds_dec ds))"
    and "rs_ok (ds_dec ds)" "data \<noteq> []" "distinct (offer [])"
    and "shardCount (ds_dec ds) \<le> length (filter (zw_up w) (offer []))" "0 < ds_jobCount ds"
  shows "(\<exists>schedule r. distributed_WriteChunk (zcluster order ns) ds schedule offer data w = Some r) \<and>
    (\<forall>schedule out err w'. distributed_WriteChunk (zcluster order ns) ds schedule offer data w = Some ((out, err), w') \<longrightarrow>
      (\<exists>cfg. out = Some cfg \<and> err = None \<and> length (Objects cfg) = shardCount (ds_dec ds) \<and> distinct (map ShardID (Objects cfg)) \<and>
        (\<forall>arrival w''. distinct arrival \<and> set arrival = {..<length (Objects cfg)} \<and>
           (\<forall>obj\<in>set (Objects cfg). \<forall>d. zstored ns w'' (ShardID obj) (Key obj) = Some d \<longrightarrow> zstored ns w' (ShardID obj) (Key obj) = Some d) \<and>
           dataShardCount (ds_dec ds) \<le> card {i. i < length (Objects cfg) \<and> (\<exists>d. zreadable ns w'' (Objects cfg ! i) d)} \<longrightarrow>
           distributed_ReadChunk (zcluster order ns) ds arrival cfg w'' = Ok data)))"
proof (intro conjI allI impI)
  show "\<exists>schedule r. distributed_WriteChunk (zcluster order ns) ds schedule offer data w = Some r"
    using zc.distributed_write_total [OF assms(1-3)] .
next
  fix schedule out err w'
  assume run: "distributed_WriteChunk (zcluster order ns) ds schedule offer data w = Some ((out, err), w')"
  from zc.distributed_write_succeeds [OF run assms] obtain cfg where cfg: "out = Some cfg" "err = None" by blast
  obtain parts where p: "rs_Encode (ds_enc ds) (ds_dec ds) data = Ok parts" "Size cfg = length data"
    "length (Objects cfg) = length parts" "\<forall>i<length parts. zreadable ns w' (Objects cfg ! i) (parts ! i)"
    "\<forall>i<length parts. \<forall>j<length parts. ShardID (Objects cfg ! i) = ShardID (Objects cfg ! j) \<longrightarrow> i = j"
    using zc.distributed_write_spec [OF run [unfolded cfg] assms(4)] unfolding zreadable_iff by blast
  have n: "length parts = shardCount (ds_dec ds)" using encode_decode [OF assms(1-3)] p(1) by auto
  have dist: "distinct (map ShardID (Objects cfg))" using p(3,5) by (auto simp: distinct_conv_nth)
  have "distributed_ReadChunk (zcluster order ns) ds arrival cfg w'' = Ok data"
    if h: "distinct arrival \<and> set arrival = {..<length (Objects cfg)} \<and>
       (\<forall>obj\<in>set (Objects cfg). \<forall>d. zstored ns w'' (ShardID obj) (Key obj) = Some d \<longrightarrow> zstored ns w' (ShardID obj) (Key obj) = Some d) \<and>
       dataShardCount (ds_dec ds) \<le> card {i. i < length (Objects cfg) \<and> (\<exists>d. zreadable ns w'' (Objects cfg ! i) d)}" for arrival w''
  proof (rule zc.distributed_read_spec [OF assms(1-3) p(1,2,3)])
    show "\<forall>i<length parts. \<forall>d. zstored ns w'' (ShardID (Objects cfg ! i)) (Key (Objects cfg ! i)) = Some d \<longrightarrow> d = parts ! i"
    proof (intro allI impI)
      fix i d assume i: "i < length parts" and d: "zstored ns w'' (ShardID (Objects cfg ! i)) (Key (Objects cfg ! i)) = Some d"
      have "Objects cfg ! i \<in> set (Objects cfg)" using i p(3) by simp
      with h d have "zstored ns w' (ShardID (Objects cfg ! i)) (Key (Objects cfg ! i)) = Some d" by blast
      with p(4) i show "d = parts ! i" by simp
    qed
  qed (use h p(3) in \<open>simp_all add: zreadable_iff\<close>)
  with cfg p(3) n dist show "\<exists>cfg. out = Some cfg \<and> err = None \<and> length (Objects cfg) = shardCount (ds_dec ds) \<and> distinct (map ShardID (Objects cfg)) \<and>
        (\<forall>arrival w''. distinct arrival \<and> set arrival = {..<length (Objects cfg)} \<and>
           (\<forall>obj\<in>set (Objects cfg). \<forall>d. zstored ns w'' (ShardID obj) (Key obj) = Some d \<longrightarrow> zstored ns w' (ShardID obj) (Key obj) = Some d) \<and>
           dataShardCount (ds_dec ds) \<le> card {i. i < length (Objects cfg) \<and> (\<exists>d. zreadable ns w'' (Objects cfg ! i) d)} \<longrightarrow>
           distributed_ReadChunk (zcluster order ns) ds arrival cfg w'' = Ok data)" by auto
qed

theorem distributed_survives_losses_witness:
  "\<exists>schedule cfg w'. distributed_WriteChunk (zcluster (\<lambda>_. []) ''ns'') demo_ds schedule (\<lambda>_. [''a'', ''b'', ''down'', ''c'']) [1] demo_world
     = Some ((Some cfg, None), w') \<and> length (Objects cfg) = 3"
proof -
  have up: "shardCount (ds_dec demo_ds) \<le> length (filter (zw_up demo_world) [''a'', ''b'', ''down'', ''c''])" "0 < ds_jobCount demo_ds"
    by (simp_all add: demo_world_def demo_ds_def demo_rs_def)
  have ne: "[1 :: byte] \<noteq> []" by simp
  have dist: "distinct ((\<lambda>_ :: string list. [''a'', ''b'', ''down'', ''c'']) [])" by simp
  note dsl = distributed_survives_losses [where offer = "\<lambda>_. [''a'', ''b'', ''down'', ''c'']",
      OF demo_code ne dist up, of "\<lambda>_. []" "''ns''"]
  obtain schedule r where r: "distributed_WriteChunk (zcluster (\<lambda>_. []) ''ns'') demo_ds schedule (\<lambda>_. [''a'', ''b'', ''down'', ''c'']) [1] demo_world = Some r"
    using dsl [THEN conjunct1] by blast
  obtain out err w' where rr: "r = ((out, err), w')" by (cases r) auto
  obtain cfg where "out = Some cfg" "err = None" "length (Objects cfg) = shardCount (ds_dec demo_ds)"
    using dsl [THEN conjunct2, rule_format, OF r [unfolded rr]] by blast
  moreover have "shardCount (ds_dec demo_ds) = 3" by (simp add: demo_ds_def demo_rs_def)
  ultimately show ?thesis using r rr by metis
qed

end
