(* ===== verification/Storage_Contracts.thy ===== *)
theory Storage_Contracts
  imports Pipelines Distributed_Storage
begin

text \<open>
  The chunk storages keep the contract of the pipelines.  What is needed of the cluster beyond
  \<open>shard_cluster\<close> is that keys are not reused while there is room (\<open>fresh_cluster\<close>), which holds for the
  world of zstordb servers as long as the sequences of the namespace do not wrap around.
\<close>

section \<open>Clusters that do not reuse keys\<close>

locale fresh_cluster = shard_cluster cl stored up
  for cl :: "'w Cluster" and stored :: "'w \<Rightarrow> string \<Rightarrow> bytes \<rightharpoonup> bytes" and up :: "'w \<Rightarrow> string \<Rightarrow> bool" +
  fixes room :: "'w \<Rightarrow> string \<Rightarrow> nat"
  assumes create_new: "0 < room w s \<Longrightarrow> cl_CreateObject cl s d w = (Ok key, w') \<Longrightarrow>
      stored w s key = None \<and> room w' = (room w)(s := room w s - 1)"
    and create_err_room: "cl_CreateObject cl s d w = (Err e, w') \<Longrightarrow> room w' = room w"
begin

definition keeps :: "'w \<Rightarrow> 'w \<Rightarrow> bool" where
  "keeps w w' \<longleftrightarrow> up w' = up w \<and> (\<forall>s k d. stored w s k = Some d \<longrightarrow> stored w' s k = Some d)"

lemma keeps_refl: "keeps w w"
  by (simp add: keeps_def)

lemma keeps_trans: "keeps w w' \<Longrightarrow> keeps w' w'' \<Longrightarrow> keeps w w''"
  by (simp add: keeps_def)

lemma keeps_readable: "keeps w w' \<Longrightarrow> readable w obj d \<Longrightarrow> readable w' obj d"
  by (simp add: keeps_def readable_def)

lemma create_keeps:
  assumes "cl_CreateObject cl s d w = (Ok key, w')" "0 < room w s"
  shows "keeps w w'"
  using create_ok [OF assms(1)] create_new [OF assms(2,1)] by (auto simp: keeps_def)

lemma random_write_fresh:
  assumes "\<exists>s\<in>set shards. up w s" "d \<noteq> []" "\<And>s. up w s \<Longrightarrow> Suc n \<le> room w s"
  shows "\<exists>obj w'. random_WriteChunk cl shards d w = (Ok \<lparr>Size = length d, Objects = [obj]\<rparr>, w') \<and>
    readable w' obj d \<and> keeps w w' \<and> (\<forall>s. up w s \<longrightarrow> n \<le> room w' s)"
  using assms
proof (induction shards arbitrary: w)
  case (Cons s shards)
  show ?case
  proof (cases "up w s")
    case True
    then obtain key w' where create: "cl_CreateObject cl s d w = (Ok key, w')" using create_total Cons.prems(2) by blast
    have room: "0 < room w s" using Cons.prems(3) [OF True] by simp
    have "readable w' \<lparr>Key = key, ShardID = s\<rparr> d" using create_ok [OF create] True by (simp add: readable_def)
    moreover have "n \<le> room w' s'" if "up w s'" for s'
      using create_new [OF room create] Cons.prems(3) [OF that] by (cases "s' = s") simp_all
    ultimately show ?thesis using create create_keeps [OF create room] by auto
  next
    case False
    obtain r w1 where create: "cl_CreateObject cl s d w = (r, w1)" by fastforce
    with False have "\<exists>e. r = Err e" using create_ok [of s d w] no_panic(4) [of s d w] by (cases r) auto
    then obtain e where e: "cl_CreateObject cl s d w = (Err e, w1)" using create by blast
    note same = create_err [OF e] create_err_room [OF e]
    have "\<exists>s\<in>set shards. up w1 s" using Cons.prems(1) False same by auto
    moreover have "\<And>s. up w1 s \<Longrightarrow> Suc n \<le> room w1 s" using Cons.prems(3) same by simp
    ultimately obtain obj w' where "random_WriteChunk cl shards d w1 = (Ok \<lparr>Size = length d, Objects = [obj]\<rparr>, w')"
      "readable w' obj d" "keeps w1 w'" "\<forall>s. up w1 s \<longrightarrow> n \<le> room w' s" using Cons.IH [of w1] Cons.prems(2) by blast
    with e same show ?thesis by (auto simp: keeps_def)
  qed
qed simp

text \<open>
  The workers write at most once to each shard they are offered: a shard that is still to be written
  to has room for one object more than is needed afterwards.
\<close>

fun writing_shard :: "worker \<Rightarrow> string multiset" where
  "writing_shard (Writing job shard) = {#shard#}"
| "writing_shard wk = {#}"

definition pending :: "'w wstate \<Rightarrow> string multiset" where
  "pending st = mset (ws_shards st) + (\<Sum>wk\<in>#mset (ws_workers st). writing_shard wk)"

definition roomy :: "nat \<Rightarrow> 'w \<Rightarrow> 'w wstate \<Rightarrow> bool" where
  "roomy n w0 st \<longleftrightarrow> keeps w0 (ws_world st) \<and> (\<forall>s. count (pending st) s \<le> 1) \<and>
     (\<forall>s. up w0 s \<longrightarrow> n + count (pending st) s \<le> room (ws_world st) s)"

lemma roomy_le:
  assumes "roomy n w0 st" "pending st' \<subseteq># pending st" "keeps w0 (ws_world st')" "room (ws_world st') = room (ws_world st)"
  shows "roomy n w0 st'"
  using assms mset_subset_eq_count [OF assms(2)] unfolding roomy_def by (metis add_le_cancel_left order_trans)

lemma roomy_step:
  assumes inv: "roomy n w0 st" and step: "write_step cl c st = Some st'"
  shows "roomy n w0 st'"
  using step
proof (cases rule: write_step_cases)
  case (move i wk st1)
  obtain rest where rest: "mset (ws_workers st) = add_mset (ws_workers st ! i) rest"
    "\<And>y. mset ((ws_workers st)[i := y]) = add_mset y rest" using mset_split_at [OF move(1)] by blast
  note [simp] = roomy_def pending_def set_worker_def move(3) rest
  from move(2) show ?thesis
  proof (cases rule: move.cases)
    case (created shard job key w)
    have up: "up (ws_world st) shard" using create_ok [OF created(4)] by blast
    have "up w0 = up (ws_world st)" using inv by (simp add: keeps_def)
    then have "n + count (pending st) shard \<le> room (ws_world st) shard" using inv up by simp
    then have room: "Suc n \<le> room (ws_world st) shard" using created by simp
    then have "room w = (room (ws_world st))(shard := room (ws_world st) shard - 1)"
      using create_new [OF _ created(4)] by simp
    moreover have "keeps w0 w" using inv create_keeps [OF created(4)] room keeps_trans [of w0 "ws_world st" w] by simp
    moreover have "count (pending st) s = count (pending st') s + (if s = shard then 1 else 0)" for s using created by simp
    then have "count (pending st') s \<le> 1" "up w0 s \<Longrightarrow> n + (count (pending st') s + (if s = shard then 1 else 0)) \<le> room (ws_world st) s" for s
      using inv unfolding roomy_def by (metis add_leD1, metis)
    ultimately show ?thesis using created by (fastforce simp del: pending_def split: if_splits)
  next
    case (refused shard job e w)
    have "keeps w0 w" using inv create_err [OF refused(4)] by (simp add: keeps_def)
    then show ?thesis using refused create_err_room [OF refused(4)] by (intro roomy_le [OF inv]) auto
  qed (use inv in \<open>auto\<close>)
qed (use inv in \<open>auto simp: pending_def roomy_def [of n w0 st] intro!: roomy_le [OF inv]\<close>)

lemma roomy_run: "run_choices cl cs st = Some st' \<Longrightarrow> roomy n w0 st \<Longrightarrow> roomy n w0 st'"
  by (induction cs arbitrary: st) (auto split: option.splits intro: roomy_step)

lemma run_workers_fresh:
  assumes run: "run_workers cl schedule j J S w = Some (results, w')" and S: "distinct S"
    and room: "\<And>s. up w s \<Longrightarrow> Suc n \<le> room w s"
  shows "keeps w w' \<and> (\<forall>s. up w s \<longrightarrow> n \<le> room w' s)"
proof -
  from run obtain st where st: "run_choices cl schedule (start_workers j J S w) = Some st" "w' = ws_world st"
    by (auto simp: run_workers_def split: option.splits if_splits)
  have "(\<Sum>wk\<in>#mset (replicate j Idle). writing_shard wk) = {#}" by (induction j) simp_all
  then have p: "pending (start_workers j J S w) = mset S" by (simp add: pending_def start_workers_def)
  have "count (mset S) s \<le> 1" for s using S by (simp add: distinct_count_atmost_1)
  then have "roomy n w (start_workers j J S w)"
    using room unfolding roomy_def p by (auto simp: start_workers_def keeps_refl intro: order_trans [of _ "Suc n"])
  from roomy_run [OF st(1) this] show ?thesis using st(2) by (auto simp: roomy_def dest: add_leD1)
qed

end

section \<open>The storages behind one interface\<close>

text \<open>
  What the calls of a storage depend on beside their arguments: the shards the random iterator offers,
  the schedule of the workers and the order in which answers arrive, each a function of the number of
  writes and repairs made so far, which is kept beside the world.
\<close>

datatype storage_kind =
    RandomChunkStorage
  | ReplicatedStorage ReplicatedChunkStorage
  | DistributedStorage DistributedChunkStorage

record 'w environment =
  env_offer :: "nat \<Rightarrow> string list \<Rightarrow> string list"
  env_schedule :: "nat \<Rightarrow> bytes \<Rightarrow> 'w \<Rightarrow> choice list"
  env_arrival :: "nat \<Rightarrow> nat list"

fun storage_write ::
  "'w Cluster \<Rightarrow> 'w environment \<Rightarrow> storage_kind \<Rightarrow> nat \<Rightarrow> bytes \<Rightarrow> 'w \<Rightarrow> ((ChunkConfig option \<times> storage_error option) \<times> 'w) option" where
  "storage_write cl env RandomChunkStorage k d w =
     (case random_WriteChunk cl (env_offer env k []) d w of
        (Ok cfg, w') \<Rightarrow> Some ((Some cfg, None), w')
      | (Err e, w') \<Rightarrow> Some ((None, Some e), w')
      | (Panic, w') \<Rightarrow> None)"
| "storage_write cl env (ReplicatedStorage rs) k d w =
     map_option (apfst (apfst Some)) (replicated_WriteChunk cl rs (env_schedule env k d w) (env_offer env k) d w)"
| "storage_write cl env (DistributedStorage ds) k d w =
     distributed_WriteChunk cl ds (env_schedule env k d w) (env_offer env k) d w"

fun storage_read :: "'w Cluster \<Rightarrow> 'w environment \<Rightarrow> storage_kind \<Rightarrow> ChunkConfig \<Rightarrow> 'w \<Rightarrow> (storage_error, bytes) result" where
  "storage_read cl env RandomChunkStorage cfg w = random_ReadChunk cl cfg w"
| "storage_read cl env (ReplicatedStorage rs) cfg w = replicated_ReadChunk cl cfg w"
| "storage_read cl env (DistributedStorage ds) cfg w = distributed_ReadChunk cl ds (env_arrival env (length (Objects cfg))) cfg w"

fun storage_check :: "'w Cluster \<Rightarrow> storage_kind \<Rightarrow> ChunkConfig \<Rightarrow> bool \<Rightarrow> 'w \<Rightarrow> (storage_error, CheckStatus) result" where
  "storage_check cl RandomChunkStorage cfg fast w = random_CheckChunk cl cfg fast w"
| "storage_check cl (ReplicatedStorage rs) cfg fast w = replicated_CheckChunk cl rs cfg fast w"
| "storage_check cl (DistributedStorage ds) cfg fast w = distributed_CheckChunk cl ds cfg fast w"

fun storage_repair ::
  "'w Cluster \<Rightarrow> 'w environment \<Rightarrow> storage_kind \<Rightarrow> nat \<Rightarrow> ChunkConfig \<Rightarrow> 'w \<Rightarrow> ((ChunkConfig option \<times> storage_error option) \<times> 'w) option" where
  "storage_repair cl env RandomChunkStorage k cfg w =
     (case random_RepairChunk cfg of Ok c \<Rightarrow> Some ((Some c, None), w) | Err e \<Rightarrow> Some ((None, Some e), w) | Panic \<Rightarrow> None)"
| "storage_repair cl env (ReplicatedStorage rs) k cfg w =
     replicated_RepairChunk cl rs (env_arrival env (length (Objects cfg))) (env_schedule env k [] w) (env_offer env k) cfg w"
| "storage_repair cl env (DistributedStorage ds) k cfg w =
     distributed_RepairChunk cl ds (env_arrival env (length (Objects cfg))) (env_schedule env k [] w) (env_offer env k) cfg w"

fun storage_delete :: "'w Cluster \<Rightarrow> 'w environment \<Rightarrow> storage_kind \<Rightarrow> ChunkConfig \<Rightarrow> ('w, storage_error, unit) op" where
  "storage_delete cl env RandomChunkStorage cfg w = random_DeleteChunk cl cfg w"
| "storage_delete cl env (ReplicatedStorage rs) cfg w = replicated_DeleteChunk cl (env_arrival env (length (Objects cfg))) cfg w"
| "storage_delete cl env (DistributedStorage ds) cfg w = distributed_DeleteChunk cl (env_arrival env (length (Objects cfg))) cfg w"

text \<open>
  The callers look at the error first and use the configuration only when there is none.  A schedule
  that is no complete run describes no call; such environments are excluded where results are stated.
\<close>

definition outcome ::
  "nat \<Rightarrow> ((ChunkConfig option \<times> storage_error option) \<times> 'w) option \<Rightarrow> 'w \<Rightarrow> (storage_error, ChunkConfig) result \<times> 'w \<times> nat" where
  "outcome k r w =
     (case r of
        Some ((Some cfg, None), w') \<Rightarrow> (Ok cfg, (w', Suc k))
      | Some ((_, Some e), w') \<Rightarrow> (Err e, (w', Suc k))
      | Some ((None, None), w') \<Rightarrow> (Panic, (w', Suc k))
      | None \<Rightarrow> (Panic, (w, Suc k)))"

definition storage_ops :: "'w Cluster \<Rightarrow> 'w environment \<Rightarrow> storage_kind \<Rightarrow> ('w \<times> nat) ChunkStorage" where
  "storage_ops cl env kind = \<lparr>
     cs_WriteChunk = (\<lambda>d (w, k). outcome k (storage_write cl env kind k d w) w),
     cs_ReadChunk = (\<lambda>cfg (w, k). storage_read cl env kind cfg w),
     cs_CheckChunk = (\<lambda>cfg fast (w, k). storage_check cl kind cfg fast w),
     cs_RepairChunk = (\<lambda>cfg (w, k). outcome k (storage_repair cl env kind k cfg w) w),
     cs_DeleteChunk = (\<lambda>cfg (w, k). case storage_delete cl env kind cfg w of (r, w') \<Rightarrow> (r, (w', k)))\<rparr>"

section \<open>They keep the contract of the pipelines\<close>

fun required_shards :: "storage_kind \<Rightarrow> nat" where
  "required_shards RandomChunkStorage = 1"
| "required_shards (ReplicatedStorage rs) = rs_dataShardCount rs"
| "required_shards (DistributedStorage ds) = shardCount (ds_dec ds)"

fun kind_ok :: "storage_kind \<Rightarrow> bool" where
  "kind_ok RandomChunkStorage \<longleftrightarrow> True"
| "kind_ok (ReplicatedStorage rs) \<longleftrightarrow> 0 < rs_dataShardCount rs \<and> 0 < rs_jobCount rs"
| "kind_ok (DistributedStorage ds) \<longleftrightarrow> rs_ok (ds_dec ds) \<and> 0 < ds_jobCount ds \<and>
     erasure_code (ds_enc ds) (ds_rec ds) (dataShardCount (ds_dec ds)) (parityShardCount (ds_dec ds))"

definition complete_runs :: "'w Cluster \<Rightarrow> 'w environment \<Rightarrow> storage_kind \<Rightarrow> bool" where
  "complete_runs cl env kind \<longleftrightarrow> (\<forall>k d w. d \<noteq> [] \<longrightarrow> storage_write cl env kind k d w \<noteq> None)"

definition arrivals_ok :: "'w environment \<Rightarrow> bool" where
  "arrivals_ok env \<longleftrightarrow> (\<forall>n. distinct (env_arrival env n) \<and> set (env_arrival env n) = {..<n})"

context fresh_cluster
begin

fun holds_chunk :: "storage_kind \<Rightarrow> 'w \<Rightarrow> Object list \<Rightarrow> bytes \<Rightarrow> bool" where
  "holds_chunk RandomChunkStorage w objs d \<longleftrightarrow> (\<exists>obj. objs = [obj] \<and> readable w obj d)"
| "holds_chunk (ReplicatedStorage rs) w objs d \<longleftrightarrow> objs \<noteq> [] \<and> (\<forall>obj\<in>set objs. readable w obj d)"
| "holds_chunk (DistributedStorage ds) w objs d \<longleftrightarrow> d \<noteq> [] \<and>
     (\<exists>parts. rs_Encode (ds_enc ds) (ds_dec ds) d = Ok parts \<and> length objs = length parts \<and> length parts = shardCount (ds_dec ds) \<and>
       (\<forall>i<length parts. readable w (objs ! i) (parts ! i)))"

definition holds :: "'w environment \<Rightarrow> storage_kind \<Rightarrow> 'w \<times> nat \<Rightarrow> ChunkConfig \<Rightarrow> bytes \<Rightarrow> bool" where
  "holds env kind st cfg d \<longleftrightarrow> kind_ok kind \<and> arrivals_ok env \<and> Size cfg = length d \<and> holds_chunk kind (fst st) (Objects cfg) d"

definition ready :: "'w environment \<Rightarrow> storage_kind \<Rightarrow> nat \<Rightarrow> 'w \<times> nat \<Rightarrow> bool" where
  "ready env kind n st \<longleftrightarrow> kind_ok kind \<and> arrivals_ok env \<and> complete_runs cl env kind \<and>
     (\<forall>k. distinct (env_offer env k []) \<and> required_shards kind \<le> length (filter (up (fst st)) (env_offer env k []))) \<and>
     (\<forall>s. up (fst st) s \<longrightarrow> n \<le> room (fst st) s)"

lemma keeps_holds: "keeps w w' \<Longrightarrow> holds_chunk kind w objs d \<Longrightarrow> holds_chunk kind w' objs d"
  using keeps_readable [of w w'] by (cases kind) auto

lemma replicated_fresh:
  assumes run: "replicated_WriteChunk cl rs schedule offer d w = Some (r, w')" and S: "distinct (offer [])"
    and room: "\<And>s. up w s \<Longrightarrow> Suc n \<le> room w s"
  shows "keeps w w' \<and> (\<forall>s. up w s \<longrightarrow> n \<le> room w' s)"
  using run run_workers_fresh [OF _ S room]
  by (auto simp: replicated_WriteChunk_def replicated_write_def Let_def split: option.splits if_splits)

lemma distributed_fresh:
  assumes run: "distributed_WriteChunk cl ds schedule offer d w = Some (r, w')" and S: "distinct (offer [])"
    and room: "\<And>s. up w s \<Longrightarrow> Suc n \<le> room w s"
  shows "keeps w w' \<and> (\<forall>s. up w s \<longrightarrow> n \<le> room w' s)"
  using run run_workers_fresh [OF _ S room] order_trans [OF _ room]
  by (auto simp: distributed_WriteChunk_def Let_def keeps_refl split: option.splits if_splits result.splits dest: Suc_leD)

lemma storage_write_spec:
  assumes ready: "ready env kind (Suc n) (w, k)" and d: "d \<noteq> []"
  shows "\<exists>cfg w'. storage_write cl env kind k d w = Some ((Some cfg, None), w') \<and> Size cfg = length d \<and>
    holds_chunk kind w' (Objects cfg) d \<and> keeps w w' \<and> (\<forall>s. up w s \<longrightarrow> n \<le> room w' s)"
proof -
  from ready have ok: "kind_ok kind" "distinct (env_offer env k [])"
    and enough: "required_shards kind \<le> length (filter (up w) (env_offer env k []))"
    and room: "\<And>s. up w s \<Longrightarrow> Suc n \<le> room w s" and run: "storage_write cl env kind k d w \<noteq> None"
    using d by (auto simp: ready_def complete_runs_def)
  show ?thesis
  proof (cases kind)
    case RandomChunkStorage
    have "\<exists>s\<in>set (env_offer env k []). up w s" using enough RandomChunkStorage by (auto simp: Suc_le_eq filter_empty_conv)
    then show ?thesis using random_write_fresh [of "env_offer env k []" w d n] d room RandomChunkStorage by force
  next
    case (ReplicatedStorage rs)
    then obtain cfg err w' where r: "replicated_WriteChunk cl rs (env_schedule env k d w) (env_offer env k) d w = Some ((cfg, err), w')"
      using run by auto
    note spec = replicated_write_spec [OF r [unfolded replicated_WriteChunk_def] ok(2)]
    have "err = None \<and> length (Objects cfg) = rs_dataShardCount rs"
      using replicated_write_succeeds [OF r [unfolded replicated_WriteChunk_def] ok(2)] enough ok(1) d ReplicatedStorage by simp
    with spec r replicated_fresh [OF r ok(2) room] ok(1) ReplicatedStorage show ?thesis by auto
  next
    case (DistributedStorage ds)
    then obtain out err w' where r: "distributed_WriteChunk cl ds (env_schedule env k d w) (env_offer env k) d w = Some ((out, err), w')"
      using run by auto
    then obtain cfg where cfg: "out = Some cfg" "err = None"
      using distributed_write_succeeds [OF r] ok enough d DistributedStorage by auto
    obtain parts where parts: "rs_Encode (ds_enc ds) (ds_dec ds) d = Ok parts" "length parts = shardCount (ds_dec ds)"
      using encode_decode [of "ds_enc ds" "ds_rec ds" "ds_dec ds" d] ok(1) d DistributedStorage by auto
    with distributed_write_spec [OF r [unfolded cfg] ok(2)] have "Size cfg = length d" "holds_chunk kind w' (Objects cfg) d"
      using d DistributedStorage by auto
    with r cfg distributed_fresh [OF r ok(2) room] DistributedStorage show ?thesis by auto
  qed
qed

lemma storage_read_spec:
  assumes "holds env kind (w, k) cfg d"
  shows "storage_read cl env kind cfg w = Ok d"
proof (cases kind)
  case RandomChunkStorage
  then show ?thesis using assms random_read_readable by (auto simp: holds_def)
next
  case (ReplicatedStorage rs)
  have "read_first cl (length d) (Objects cfg) w = Ok d"
    using assms ReplicatedStorage by (intro read_first_readable) (auto simp: holds_def readable_def neq_Nil_conv)
  then show ?thesis using assms ReplicatedStorage by (simp add: replicated_ReadChunk_def holds_def)
next
  case (DistributedStorage ds)
  then obtain parts where parts: "rs_Encode (ds_enc ds) (ds_dec ds) d = Ok parts" "length (Objects cfg) = length parts"
      "length parts = shardCount (ds_dec ds)" "\<forall>i<length parts. readable w (Objects cfg ! i) (parts ! i)" "d \<noteq> []"
    using assms by (auto simp: holds_def)
  then have "{i. i < length parts \<and> (\<exists>x. readable w (Objects cfg ! i) x)} = {..<length parts}" by auto
  moreover have "\<forall>i<length parts. \<forall>x. stored w (ShardID (Objects cfg ! i)) (Key (Objects cfg ! i)) = Some x \<longrightarrow> x = parts ! i"
    using parts(4) by (simp add: readable_def)
  ultimately show ?thesis using assms parts DistributedStorage unfolding DistributedStorage storage_read.simps
    by (intro distributed_read_spec) (auto simp: holds_def arrivals_ok_def rs_ok_def)
qed

lemma storage_check_spec:
  assumes "holds env kind (w, k) cfg d"
  shows "\<exists>s. storage_check cl kind cfg fast w = Ok s \<and> s \<noteq> CheckStatusInvalid"
proof (cases kind)
  case RandomChunkStorage
  then show ?thesis using assms random_check_readable by (auto simp: holds_def)
next
  case (ReplicatedStorage rs)
  with assms have valid: "filter (object_valid cl w) (Objects cfg) = Objects cfg" "Objects cfg \<noteq> []"
    by (auto simp: holds_def object_valid_iff filter_id_conv)
  have "0 < rs_dataShardCount rs" using assms ReplicatedStorage by (simp add: holds_def)
  then show ?thesis using valid ReplicatedStorage by (simp add: replicated_CheckChunk_def count_valid_eq Let_def)
next
  case (DistributedStorage ds)
  with assms have "filter (object_valid cl w) (Objects cfg) = Objects cfg" "length (Objects cfg) = shardCount (ds_dec ds)"
    by (force simp: holds_def object_valid_iff filter_id_conv in_set_conv_nth)+
  moreover have "dataShardCount (ds_dec ds) \<le> shardCount (ds_dec ds)" using assms DistributedStorage by (simp add: holds_def rs_ok_def)
  ultimately show ?thesis using DistributedStorage
    by (simp add: distributed_CheckChunk_def RequiredShardCount_def MinimumValidShardCount_def Let_def)
qed

end

sublocale fresh_cluster \<subseteq> run: chunk_storage "storage_ops cl env kind" "holds env kind" "ready env kind" for env kind
proof unfold_locales
  fix n st and d :: bytes assume a: "ready env kind (Suc n) st" "d \<noteq> []"
  obtain w k where st: "st = (w, k)" by fastforce
  obtain cfg w' where w: "storage_write cl env kind k d w = Some ((Some cfg, None), w')" "Size cfg = length d"
      "holds_chunk kind w' (Objects cfg) d" "keeps w w'" "\<forall>s. up w s \<longrightarrow> n \<le> room w' s"
    using storage_write_spec [of env kind n w k d] a st by blast
  have "ready env kind n (w', Suc k)" using a(1) w(4,5) by (simp add: ready_def keeps_def st)
  moreover have "holds env kind (w', Suc k) cfg d" using a(1) w by (simp add: holds_def ready_def)
  moreover have "\<forall>cfg' d'. holds env kind st cfg' d' \<longrightarrow> holds env kind (w', Suc k) cfg' d'"
    using keeps_holds [OF w(4)] by (auto simp: holds_def st)
  moreover have "cs_WriteChunk (storage_ops cl env kind) d st = (Ok cfg, (w', Suc k))"
    using w(1) by (simp add: storage_ops_def outcome_def st)
  ultimately show "\<exists>cfg w'. cs_WriteChunk (storage_ops cl env kind) d st = (Ok cfg, w') \<and> holds env kind w' cfg d \<and>
      ready env kind n w' \<and> (\<forall>cfg' d'. holds env kind st cfg' d' \<longrightarrow> holds env kind w' cfg' d')" by blast
next
  fix st cfg d assume "holds env kind st cfg d"
  then show "cs_ReadChunk (storage_ops cl env kind) cfg st = Ok d"
    using storage_read_spec by (auto simp: storage_ops_def split: prod.split)
next
  fix st cfg d fast assume "holds env kind st cfg d"
  then show "\<exists>s. cs_CheckChunk (storage_ops cl env kind) cfg fast st = Ok s \<and> s \<noteq> CheckStatusInvalid"
    using storage_check_spec by (auto simp: storage_ops_def split: prod.split)
qed

section \<open>The world of zstordb servers has fresh keys\<close>

definition zroom :: "string \<Rightarrow> zworld \<Rightarrow> string \<Rightarrow> nat" where
  "zroom ns w s = memory_room (zw_db w s) (data_scope (ascii ns))"

lemma CreateObject_room:
  assumes "request_label ctx = Some l" "CreateObject_mem ctx d st = (Ok key, st')" "0 < memory_room st (data_scope (ascii l))"
  shows "mdb_m st (data_scope (ascii l) @ key) = None"
    "memory_room st' (data_scope (ascii l)) = memory_room st (data_scope (ascii l)) - 1"
proof -
  have d: "d \<noteq> []" using assms(1,2) by (auto simp: handler_defs)
  have scoped: "db_SetScoped memory_DB_ops (Some (data_scope (ascii l))) (encoded d) st = (Ok (data_scope (ascii l) @ key), st')"
    using assms(1,2) d mem.scoped_ok [of "data_scope (ascii l)" "encoded d" st]
    by (auto simp: handler_defs EncodeObject_encoded slice_from_def)
  from mem.scoped_new [OF assms(3) scoped] show "mdb_m st (data_scope (ascii l) @ key) = None" by auto
  from mem.scoped_room [OF assms(3) scoped] show "memory_room st' (data_scope (ascii l)) = memory_room st (data_scope (ascii l)) - 1"
    by simp
qed

interpretation zf: fresh_cluster "zcluster order ns" "zstored ns" zw_up "zroom ns"
proof unfold_locales
  fix w s d key w' assume room: "0 < zroom ns w s" and create: "cl_CreateObject (zcluster order ns) s d w = (Ok key, w')"
  then obtain db where run: "CreateObject_mem (Some [MetaLabelKey \<mapsto> [ns]]) d (zw_db w s) = (Ok key, db)"
    and w': "w' = w\<lparr>zw_db := (zw_db w)(s := db)\<rparr>"
    by (auto simp: zcluster_def zclient_create map_err_eq_Ok split: if_splits prod.splits)
  note new = CreateObject_room [OF ns_label run room [unfolded zroom_def]]
  have "zstored ns w s key = None" using new(1) by (simp add: zstored_def objects_def)
  moreover have "zroom ns w' = (zroom ns w)(s := zroom ns w s - 1)" using new(2) by (auto simp: zroom_def w')
  ultimately show "zstored ns w s key = None \<and> zroom ns w' = (zroom ns w)(s := zroom ns w s - 1)" by blast
next
  fix s d w e w' assume create: "cl_CreateObject (zcluster order ns) s d w = (Err e, w')"
  have "w' = w \<or> w' = w\<lparr>zw_db := (zw_db w)(s := zw_db w s)\<rparr>"
  proof (cases "zw_up w s \<and> d \<noteq> []")
    case True
    then show ?thesis using create mem.CreateObject_spec [OF ns_label, of d ns "zw_db w s"] by (auto simp: zcluster_def zclient_create)
  next
    case False
    with create show ?thesis by (auto simp: zcluster_def zclient_create handler_defs split: if_splits)
  qed
  then show "zroom ns w' = zroom ns w" by (auto simp: zroom_def)
qed

end
