(* ===== verification/Pipeline_Config.thy ===== *)
theory Pipeline_Config
  imports Storage_Contracts
begin

text \<open>
  Pipelines made from a configuration (\<open>pipeline/config.go\<close>) and what they promise: whatever a
  configured pipeline has written to a cluster of zstordb servers it reads back unchanged.
\<close>

section \<open>Definitions\<close>

record ObjectDistributionConfig =
  DataShardCount :: int
  ParityShardCount :: int

record Config =
  cfg_BlockSize :: int
  cfg_Hashing :: HashingConfig
  cfg_Compression :: CompressionConfig
  cfg_Encryption :: EncryptionConfig
  cfg_Distribution :: ObjectDistributionConfig

definition DefaultJobCount :: "nat \<Rightarrow> nat" where
  "DefaultJobCount numCPU = numCPU * 2"

text \<open>The cluster is given by the number of its nShards shards, a nil cluster is \<open>None\<close>.\<close>

definition NewChunkStorage ::
  "reedsolomon_New \<Rightarrow> nat \<Rightarrow> ObjectDistributionConfig \<Rightarrow> nat option \<Rightarrow> int \<Rightarrow> (string, storage_kind) result" where
  "NewChunkStorage lib numCPU cfg cluster jobCount =
     (case cluster of
        None \<Rightarrow> Panic
      | Some nShards \<Rightarrow>
          let jobCount = (if jobCount \<le> 0 then int (DefaultJobCount numCPU) else jobCount) in
          if DataShardCount cfg \<le> 0 then
            if ParityShardCount cfg > 0 then Err ''illegal distribution: parity shard count defined, while data shard count is undefined''
            else rbind (NewRandomChunkStorage nShards) (\<lambda>_. Ok RandomChunkStorage)
          else if ParityShardCount cfg \<le> 0 then
            if DataShardCount cfg = 1 then rbind (NewRandomChunkStorage nShards) (\<lambda>_. Ok RandomChunkStorage)
            else rbind (NewReplicatedChunkStorage (DefaultJobCount numCPU) nShards (DataShardCount cfg) jobCount) (\<lambda>rs. Ok (ReplicatedStorage rs))
          else rbind (NewDistributedChunkStorage lib (DefaultJobCount numCPU) nShards (DataShardCount cfg) (ParityShardCount cfg) jobCount)
            (\<lambda>ds. Ok (DistributedStorage ds)))"

datatype 'w Pipeline = SingleObject "'w SingleObjectPipeline" | AsyncSplitter "'w AsyncSplitterPipeline"

definition NewPipeline ::
  "reedsolomon_New \<Rightarrow> nat \<Rightarrow> 'w Cluster \<Rightarrow> 'w environment \<Rightarrow> Config \<Rightarrow> nat option \<Rightarrow> int \<Rightarrow>
   (pipeline_error, ('w \<times> nat) Pipeline) result" where
  "NewPipeline lib numCPU cl env cfg cluster jobCount =
     (let pc = NewProcessorConstructor (cfg_Compression cfg) (cfg_Encryption cfg) in
      rbind (map_err ErrConstructor (fst (pc []))) (\<lambda>_.
      let jobCount = (if jobCount \<le> 0 then int (DefaultJobCount numCPU) else jobCount) in
      rbind (map_err ErrConstructor (NewChunkStorage lib numCPU (cfg_Distribution cfg) cluster jobCount)) (\<lambda>kind.
      let hashing = (if hash_PrivateKey (cfg_Hashing cfg) = [] then (cfg_Hashing cfg)\<lparr>hash_PrivateKey := enc_PrivateKey (cfg_Encryption cfg)\<rparr>
            else cfg_Hashing cfg);
          hc = NewHasherConstructor hashing in
      rbind (map_err ErrHasher hc) (\<lambda>_.
      if cfg_BlockSize cfg \<le> 0
      then rbind (map_err ErrConstructor (NewSingleObjectPipeline (Some (storage_ops cl env kind)) (Some pc) (Some hc))) (\<lambda>p. Ok (SingleObject p))
      else rbind (map_err ErrConstructor (NewAsyncSplitterPipeline (DefaultJobCount numCPU) (Some (storage_ops cl env kind)) (cfg_BlockSize cfg)
        (Some pc) (Some hc) jobCount)) (\<lambda>p. Ok (AsyncSplitter p))))))"

text \<open>The methods of the interface.  The single-object pipeline draws from the randomness of the schedule.\<close>

fun pipeline_Write ::
  "codecs \<Rightarrow> digest \<Rightarrow> 'w Pipeline \<Rightarrow> schedule \<Rightarrow> reads option \<Rightarrow> 'w \<Rightarrow> (pipeline_error, Chunk list \<times> 'w) result option" where
  "pipeline_Write lib dg (SingleObject sop) sch r w =
     map_option (\<lambda>(res, w'). rbind res (\<lambda>chunks. Ok (chunks, w'))) (sop_Write lib dg sop (concat (map snd (sch_workers sch))) r w)"
| "pipeline_Write lib dg (AsyncSplitter asp) sch r w = asp_Write lib dg asp sch r w"

fun pipeline_Read ::
  "codecs \<Rightarrow> digest \<Rightarrow> 'w Pipeline \<Rightarrow> schedule \<Rightarrow> Chunk list \<Rightarrow> 'o writer option \<Rightarrow> 'w \<Rightarrow> 'o \<Rightarrow> (pipeline_error, 'o) result" where
  "pipeline_Read lib dg (SingleObject sop) sch chunks wr w out =
     (case sop_Read lib dg sop chunks wr w out of (r, out') \<Rightarrow> rbind r (\<lambda>_. Ok out'))"
| "pipeline_Read lib dg (AsyncSplitter asp) sch chunks wr w out = asp_Read lib dg asp sch chunks wr w out"

fun pipeline_Check :: "'w Pipeline \<Rightarrow> nat list \<Rightarrow> Chunk list \<Rightarrow> bool \<Rightarrow> 'w \<Rightarrow> (pipeline_error, CheckStatus) result" where
  "pipeline_Check (SingleObject sop) order chunks fast w = sop_Check sop chunks fast w"
| "pipeline_Check (AsyncSplitter asp) order chunks fast w = asp_Check asp order chunks fast w"

fun pipeline_Repair :: "'w Pipeline \<Rightarrow> nat list \<Rightarrow> Chunk list \<Rightarrow> ('w, pipeline_error, Chunk list) op" where
  "pipeline_Repair (SingleObject sop) order chunks w = sop_Repair sop chunks w"
| "pipeline_Repair (AsyncSplitter asp) order chunks w = asp_Repair asp order chunks w"

fun pipeline_Delete :: "'w Pipeline \<Rightarrow> nat list \<Rightarrow> Chunk list \<Rightarrow> ('w, pipeline_error, unit) op" where
  "pipeline_Delete (SingleObject sop) order chunks w = sop_Delete sop chunks w"
| "pipeline_Delete (AsyncSplitter asp) order chunks w = asp_Delete asp order chunks w"

section \<open>Which configurations are accepted\<close>

definition reedsolomon_ok :: "reedsolomon_New \<Rightarrow> bool" where
  "reedsolomon_ok lib \<longleftrightarrow> (\<forall>k m enc rec. lib k m = Ok (enc, rec) \<longrightarrow> erasure_code enc rec k m)"

definition shards_needed :: "ObjectDistributionConfig \<Rightarrow> int" where
  "shards_needed cfg =
     (if DataShardCount cfg \<le> 0 then 1
      else if ParityShardCount cfg \<le> 0 then DataShardCount cfg else DataShardCount cfg + ParityShardCount cfg)"

lemma NewChunkStorage_ok:
  assumes "NewChunkStorage lib numCPU cfg (Some nShards) jobCount = Ok kind" "reedsolomon_ok lib" "0 < numCPU"
  shows "kind_ok kind \<and> int (required_shards kind) = shards_needed cfg \<and> required_shards kind \<le> nShards"
  using assms
  by (cases "NewReplicatedChunkStorage (DefaultJobCount numCPU) nShards (DataShardCount cfg) jobCount")
    (auto simp: NewChunkStorage_def Let_def rbind_eq_Ok map_err_eq_Ok NewRandomChunkStorage_def NewReplicatedChunkStorage_def
      NewDistributedChunkStorage_def NewReedSolomonEncoderDecoder_def NewDistributedChunkStorageWithEncoderDecoder_def DefaultJobCount_def
      shards_needed_def rs_ok_def reedsolomon_ok_def nat_add_distrib split: if_splits)

section \<open>Reading and writing streams\<close>

text \<open>A reader that hands out the pieces one after another and then its end; a writer that appends.\<close>

definition reads_of :: "bytes list \<Rightarrow> reads" where
  "reads_of pieces = map (\<lambda>b. (b, None)) pieces @ [([], Some EOF)]"

definition appending :: "bytes writer" where
  "appending d out = (Ok (), out @ d)"

lemma reads_of_split [simp]: "newAsyncDataSplitter (reads_of pieces) = Some (Ok pieces)"
  by (induction pieces) (simp_all add: reads_of_def)

lemma reads_of_all [simp]: "ReadAll (reads_of pieces) = Some (Ok (concat pieces))"
  by (induction pieces) (simp_all add: reads_of_def)

lemma write_all_appending [simp]: "write_all appending ds out = (Ok (), out @ concat ds)"
  by (induction ds arbitrary: out) (simp_all add: appending_def)

lemma schedule_randomness:
  assumes "schedule_ok 1 sch" "enough_randomness sch"
  shows "gcm_NonceSize \<le> length (concat (map snd (sch_workers sch)))"
proof -
  have "0 \<in> set (concat (map fst (sch_workers sch)))" using assms(1) by (simp add: schedule_ok_def permutes_upto_def del: set_concat)
  then obtain idx rand where wk: "(idx, rand) \<in> set (sch_workers sch)" "idx \<noteq> []" by fastforce
  then have "gcm_NonceSize * length idx \<le> length rand" using assms(2) by (auto simp: enough_randomness_def)
  moreover have "1 \<le> length idx" using wk(2) by (cases idx) simp_all
  ultimately have "gcm_NonceSize \<le> length rand" by (metis le_trans mult.commute mult_le_mono1 nat_mult_1)
  moreover have "length rand \<le> sum_list (map length (map snd (sch_workers sch)))"
    using wk(1) by (intro member_le_sum_list) (simp_all, force)
  ultimately show ?thesis by (simp add: length_concat)
qed

section \<open>What is written can be read\<close>

definition cluster_ready :: "(memory_DB \<Rightarrow> bytes list) \<Rightarrow> string \<Rightarrow> zworld environment \<Rightarrow> storage_kind \<Rightarrow> nat \<Rightarrow> zworld \<Rightarrow> bool" where
  "cluster_ready order ns env kind n w \<longleftrightarrow> complete_runs (zcluster order ns) env kind \<and> arrivals_ok env \<and>
     (\<forall>k. distinct (env_offer env k []) \<and> required_shards kind \<le> length (filter (zw_up w) (env_offer env k []))) \<and>
     (\<forall>s. zw_up w s \<longrightarrow> n \<le> zroom ns w s)"

lemma cluster_ready_less: "cluster_ready order ns env kind n w \<Longrightarrow> m \<le> n \<Longrightarrow> cluster_ready order ns env kind m w"
  by (fastforce simp: cluster_ready_def)

lemma ready_iff: "zf.ready order ns env kind n (w, k) \<longleftrightarrow> kind_ok kind \<and> cluster_ready order ns env kind n w"
  by (auto simp: zf.ready_def cluster_ready_def)

lemma NewPipeline_ok:
  assumes "NewPipeline lib numCPU cl env cfg (Some nShards) jobCount = Ok p"
    and "NewChunkStorage lib numCPU (cfg_Distribution cfg) (Some nShards) jobCount = Ok kind" and "0 < numCPU"
  shows "\<exists>q m h. (\<exists>sop. cfg_BlockSize cfg \<le> 0 \<and> p = SingleObject sop \<and> sop_storage sop = storage_ops cl env kind \<and>
        constructors_ok q m h (sop_processor sop) (sop_hasher sop)) \<or>
     (\<exists>asp. 0 < cfg_BlockSize cfg \<and> p = AsyncSplitter asp \<and> asp_storage asp = storage_ops cl env kind \<and> 0 < asp_storageJobCount asp \<and>
        asp_chunkSize asp = nat (cfg_BlockSize cfg) \<and> constructors_ok q m h (asp_processor asp) (asp_hasher asp))"
proof -
  let ?pc = "NewProcessorConstructor (cfg_Compression cfg) (cfg_Encryption cfg)"
  let ?D = "int (DefaultJobCount numCPU)"
  have "(if (if jobCount \<le> 0 then ?D else jobCount) \<le> 0 then ?D else if jobCount \<le> 0 then ?D else jobCount) = (if jobCount \<le> 0 then ?D else jobCount)"
    using assms(3) by (simp add: DefaultJobCount_def)
  then have same: "NewChunkStorage lib numCPU (cfg_Distribution cfg) (Some nShards) (if jobCount \<le> 0 then ?D else jobCount) = Ok kind"
    using assms(2) unfolding NewChunkStorage_def Let_def option.case by presburger
  obtain q m where q: "?pc [] = (Ok q, m)"
    using assms(1) by (cases "?pc []", cases "fst (?pc [])") (auto simp: NewPipeline_def Let_def)
  with constructed [of "cfg_Compression cfg" "cfg_Encryption cfg"] have "faithful q" "buffers_ok (owned q) m" by blast+
  with q same assms(1,3) show ?thesis
    by (intro exI [of _ q] exI [of _ m])
      (auto simp: NewPipeline_def Let_def rbind_eq_Ok map_err_eq_Ok constructors_ok_def NewSingleObjectPipeline_def NewAsyncSplitterPipeline_def
        DefaultJobCount_def split: if_splits)
qed

text \<open>What a pipeline stores of the pieces it reads, and the pipelines in terms of the contract of their storage.\<close>

fun inputs_of :: "'w Pipeline \<Rightarrow> bytes list \<Rightarrow> bytes list" where
  "inputs_of (SingleObject sop) pieces = [concat pieces]"
| "inputs_of (AsyncSplitter asp) pieces = pieces"

fun made_of :: "processor \<Rightarrow> memory \<Rightarrow> hash_Hash \<Rightarrow> 'w ChunkStorage \<Rightarrow> 'w Pipeline \<Rightarrow> bool" where
  "made_of q m h cs (SingleObject sop) \<longleftrightarrow> sop_storage sop = cs \<and> constructors_ok q m h (sop_processor sop) (sop_hasher sop)"
| "made_of q m h cs (AsyncSplitter asp) \<longleftrightarrow> asp_storage asp = cs \<and> 0 < asp_storageJobCount asp \<and>
     constructors_ok q m h (asp_processor asp) (asp_hasher asp)"

lemma NewPipeline_made:
  assumes "NewPipeline lib numCPU cl env cfg (Some nShards) jobCount = Ok p"
    and "NewChunkStorage lib numCPU (cfg_Distribution cfg) (Some nShards) jobCount = Ok kind" and "0 < numCPU"
  shows "\<exists>q m h. made_of q m h (storage_ops cl env kind) p"
    "inputs_of p pieces = (if cfg_BlockSize cfg \<le> 0 then [concat pieces] else pieces)"
  using NewPipeline_ok [OF assms] by (auto, blast+)

context chunk_storage
begin

lemma pipeline_write_spec:
  assumes p: "made_of q m h cs p" and lib: "codecs_ok lib" "\<forall>c x. \<exists>y. compress lib c x = Ok y"
    and pieces: "pieces \<noteq> []" "[] \<notin> set pieces"
    and sch: "schedule_ok (length (inputs_of p pieces)) sch" "enough_randomness sch" and w: "ready (length (inputs_of p pieces) + k) w"
  shows "\<exists>chunks w'. pipeline_Write lib dg p sch (Some (reads_of pieces)) w = Some (Ok (chunks, w')) \<and>
    written lib dg q h (inputs_of p pieces) chunks w' \<and> (\<forall>cfg d. holds w cfg d \<longrightarrow> holds w' cfg d) \<and> ready k w'"
proof (cases p)
  case (SingleObject sop)
  have ne: "concat pieces \<noteq> []" using pieces by (cases pieces) auto
  have rand: "gcm_NonceSize \<le> length (concat (map snd (sch_workers sch)))" using schedule_randomness sch SingleObject by simp
  have w1: "ready (Suc k) w" using w SingleObject by simp
  have c: "constructors_ok q m h (sop_processor sop) (sop_hasher sop)" "sop_storage sop = cs" using p SingleObject by simp_all
  from sop_write_spec [OF c(1) lib c(2) reads_of_all ne rand w1, of dg] show ?thesis
    unfolding SingleObject by (elim exE conjE) (intro exI conjI, simp_all)
next
  case (AsyncSplitter asp)
  have ne: "\<forall>x\<in>set pieces. x \<noteq> []" using pieces(2) by metis
  have c: "constructors_ok q m h (asp_processor asp) (asp_hasher asp)" "asp_storage asp = cs" "0 < asp_storageJobCount asp"
    using p AsyncSplitter by simp_all
  have s: "schedule_ok (length pieces) sch" "ready (length pieces + k) w" using sch w AsyncSplitter by simp_all
  from write_spec [OF c(1) lib c(2,3) reads_of_split ne s(1) sch(2) s(2), of dg] show ?thesis unfolding AsyncSplitter by simp
qed

lemma pipeline_read_spec:
  assumes p: "made_of q m h cs p" and lib: "codecs_ok lib"
    and wrt: "written lib dg q h (inputs_of p pieces) chunks w" and "pieces \<noteq> []" and sch: "schedule_ok (length (inputs_of p pieces)) sch"
  shows "pipeline_Read lib dg p sch chunks (Some appending) w out = Ok (out @ concat pieces)"
proof (cases p)
  case (SingleObject sop)
  then show ?thesis using sop_read_spec [OF _ lib, of q m h sop dg "concat pieces" chunks w appending out] p wrt by (simp add: appending_def)
next
  case (AsyncSplitter asp)
  then show ?thesis using read_spec [OF _ lib, of q m h asp dg pieces chunks w sch appending out] assms by simp
qed

lemma pipeline_check_spec:
  assumes p: "made_of q m h cs p" and wrt: "written lib dg q h (inputs_of p pieces) chunks w" and "pieces \<noteq> []"
    and order: "set order \<subseteq> {..<length (inputs_of p pieces)}"
  shows "\<exists>s. pipeline_Check p order chunks fast w = Ok s \<and> s \<noteq> CheckStatusInvalid"
proof (cases p)
  case (SingleObject sop)
  then show ?thesis using sop_check_spec [of sop lib dg q h "concat pieces" chunks w fast] p wrt by simp
next
  case (AsyncSplitter asp)
  then show ?thesis using check_spec [of asp lib dg q h pieces chunks w order fast] assms by simp
qed

end


text \<open>For every storage there is an environment whose runs are complete.\<close>

lemma random_no_panic: "fst (random_WriteChunk (zcluster order ns) shards d w) \<noteq> Panic"
proof (induction shards arbitrary: w)
  case (Cons s shards)
  show ?case using Cons zc.no_panic(4) [of order ns s d w] by (auto split: prod.splits result.splits)
qed simp

lemma complete_environment:
  assumes "kind_ok kind"
  shows "\<exists>env. complete_runs (zcluster order ns) env kind \<and> arrivals_ok env \<and> env_offer env = offer"
proof -
  let ?env = "\<lambda>f. \<lparr>env_offer = offer, env_schedule = f, env_arrival = (\<lambda>n. [0..<n])\<rparr>"
  have "\<exists>c. storage_write (zcluster order ns) (?env (\<lambda>k d w. c)) kind k d w \<noteq> None" if "d \<noteq> []" for k d w
  proof (cases kind)
    case RandomChunkStorage
    then show ?thesis using random_no_panic [of order ns "offer k []" d w] by (auto split: prod.splits result.splits)
  next
    case (ReplicatedStorage rs)
    then show ?thesis using zc.replicated_write_total [of order ns rs "offer k []" "rs_dataShardCount rs" d w]
      by (auto simp: replicated_WriteChunk_def)
  next
    case (DistributedStorage ds)
    then show ?thesis using zc.distributed_write_total [of ds d order ns "offer k" w] assms that by auto
  qed
  note c = someI_ex [OF this]
  define f where "f k d w = (SOME c. storage_write (zcluster order ns) (?env (\<lambda>k d w. c)) kind k d w \<noteq> None)" for k d w
  have f: "storage_write (zcluster order ns) (?env (\<lambda>k' d' w'. f k d w)) kind k d w \<noteq> None" if "d \<noteq> []" for k d w
    unfolding f_def by (rule c [OF that])
  have "storage_write (zcluster order ns) (?env f) kind k d w = storage_write (zcluster order ns) (?env (\<lambda>k' d' w'. f k d w)) kind k d w" for k d w
    by (cases kind) simp_all
  with f have "complete_runs (zcluster order ns) (?env f) kind" by (simp add: complete_runs_def)
  moreover have "arrivals_ok (?env f)" by (auto simp: arrivals_ok_def)
  ultimately show ?thesis by (intro exI [of _ "?env f"]) simp
qed

definition demo_config :: Config where
  "demo_config = \<lparr>cfg_BlockSize = 2, cfg_Hashing = \<lparr>hash_Type = HashTypeSHA256, hash_PrivateKey = []\<rparr>,
     cfg_Compression = \<lparr>comp_Mode = CompressionModeDefault, comp_Type = CompressionTypeLZ4\<rparr>,
     cfg_Encryption = \<lparr>enc_PrivateKey = ''0123456789abcdef'', enc_Type = EncryptionTypeAES\<rparr>,
     cfg_Distribution = \<lparr>DataShardCount = 2, ParityShardCount = 1\<rparr>\<rparr>"

definition demo_reedsolomon :: reedsolomon_New where
  "demo_reedsolomon k m = (if k = 2 \<and> m = 1 then Ok (xor_enc, xor_rec) else Err ''unsupported'')"

definition demo_schedule :: schedule where
  "demo_schedule = \<lparr>sch_workers = [([1], replicate 12 7), ([0], replicate 12 8)], sch_storage = [1, 0], sch_output = [1, 0]\<rparr>"

lemma demo_storage:
  "\<exists>kind. NewChunkStorage demo_reedsolomon 1 (cfg_Distribution demo_config) (Some 3) 0 = Ok kind \<and>
     NewChunkStorage demo_reedsolomon 1 (cfg_Distribution demo_config) (Some 3) 2 = Ok kind \<and> kind_ok kind \<and> required_shards kind = 3"
  using xor_erasure_code
  by (simp add: NewChunkStorage_def demo_config_def NewDistributedChunkStorage_def NewReedSolomonEncoderDecoder_def demo_reedsolomon_def
      NewDistributedChunkStorageWithEncoderDecoder_def DefaultJobCount_def rs_ok_def)

lemma demo_pipeline: "\<exists>p. NewPipeline demo_reedsolomon 1 cl env demo_config (Some 3) 0 = Ok p"
proof -
  have "\<exists>q m. NewProcessorConstructor (cfg_Compression demo_config) (cfg_Encryption demo_config) [] = (Ok q, m)"
    by (simp add: NewProcessorConstructor_def NewCompressorDecompressor_def NewEncrypterDecrypter_def compression_types_def demo_config_def
        encryption_types_def standard_registries type_constants NewLZ4CompressorDecompressor_def new_compressor_def
        NewAESEncrypterDecrypter_def NewProcessorChain_def)
  moreover have "\<exists>h. NewHasherConstructor \<lparr>hash_Type = HashTypeSHA256, hash_PrivateKey = key\<rparr> = Ok h" for key
    by (simp add: NewHasherConstructor_def NewHasher_def hash_types_lookup type_constants NewSHA256Hasher_def hash_New_def)
  from this [of "''0123456789abcdef''"] have
    "\<exists>h. NewHasherConstructor ((cfg_Hashing demo_config)\<lparr>hash_PrivateKey := enc_PrivateKey (cfg_Encryption demo_config)\<rparr>) = Ok h"
    by (simp add: demo_config_def)
  moreover obtain kind where "NewChunkStorage demo_reedsolomon 1 (cfg_Distribution demo_config) (Some 3) 2 = Ok kind" using demo_storage by blast
  moreover have "hash_PrivateKey (cfg_Hashing demo_config) = []" "cfg_BlockSize demo_config = 2" by (simp_all add: demo_config_def)
  ultimately show ?thesis
    by (auto simp: NewPipeline_def DefaultJobCount_def NewAsyncSplitterPipeline_def Let_def)
qed


section \<open>Accepted distributions, and content without chunks\<close>

lemma distribution_accepted:
  "(\<exists>kind. NewChunkStorage lib numCPU cfg (Some nShards) jobCount = Ok kind) \<longleftrightarrow>
     (0 < ParityShardCount cfg \<longrightarrow> 0 < DataShardCount cfg \<and> (\<exists>er. lib (nat (DataShardCount cfg)) (nat (ParityShardCount cfg)) = Ok er)) \<and>
     shards_needed cfg \<le> int nShards"
  by (auto simp: NewChunkStorage_def Let_def rbind_eq_Ok map_err_eq_Ok NewRandomChunkStorage_def NewReplicatedChunkStorage_def
      NewDistributedChunkStorage_def NewReedSolomonEncoderDecoder_def shards_needed_def)

text \<open>
  The asynchronous pipeline drops what a reader returns together with its end: it then has written no
  chunk, and what it returns cannot be read.
\<close>

lemma join_results_nil: "(\<And>x. x \<in> set xs \<Longrightarrow> f x = Ok []) \<Longrightarrow> join_results (map f xs) = Ok []"
  by (induction xs) simp_all

lemma eof_data_dropped:
  assumes "constructors_ok p m h (asp_processor asp) (asp_hasher asp)" "schedule_ok 0 sch" "0 < asp_storageJobCount asp"
  shows "asp_Write lib dg asp sch (Some [(data, Some EOF)]) w = Some (Ok ([], w))"
    and "asp_Read lib dg asp sch' [] wr w out = Err ErrNoChunks"
proof -
  have idx: "fst worker = []" if "worker \<in> set (sch_workers sch)" for worker
    using assms(2) that by (fastforce simp: schedule_ok_def permutes_upto_def)
  then have "write_worker lib dg asp [] worker = Ok []" if "worker \<in> set (sch_workers sch)" for worker
    using assms(1) that by (simp add: write_worker_def constructors_ok_def Let_def write_loop_def)
  then have "join_results (map (write_worker lib dg asp []) (sch_workers sch)) = Ok []"
    using join_results_nil by blast
  moreover have "sch_storage sch = []" "sch_output sch = []" using assms(2) by (simp_all add: schedule_ok_def permutes_upto_def)
  ultimately show "asp_Write lib dg asp sch (Some [(data, Some EOF)]) w = Some (Ok ([], w))"
    using assms(3) by (simp add: asp_Write_def in_order_def collect_chunks_def new_collector_def slice_to_def)
qed (simp add: asp_Read_def)

end
