(* ===== verification/Zstor_Client.thy ===== *)
theory Zstor_Client
  imports Metastor_Client Pipeline_Config
begin

text \<open>
  The 0-stor client (\<open>client/client.go\<close>): data goes through the pipeline to the zstordb servers, the
  chunks that describe it go to the metadata store under the key the caller has chosen.

  The state is the metadata database and the rest of the program's state: the data servers, the clock
  (a stream of readings), the schedules of the pipeline's goroutines, the randomness, and the
  variables that the callbacks of \<open>UpdateMetadata\<close> share with the method that made them.  A call that
  fails yields its error alone, since a failed pipeline leaves the servers in a state that is not stated.
\<close>

section \<open>State\<close>

record 'w client_world = meta_world +
  cw_data :: 'w
  cw_clock :: "nat \<Rightarrow> int"
  cw_sched :: "nat \<Rightarrow> schedule"
  cw_order :: "nat \<Rightarrow> nat list"
  cw_meta :: "Metadata option"
  cw_repairedChunks :: "Chunk list"
  cw_totalSize :: int64
  cw_repairEpoch :: int

datatype zstor_err =
    ErrNilKeyGiven | ErrRepairSupport | ErrPipeline pipeline_error | ErrMeta "zstor_err meta_error"
  | ErrInvalidTraverseIterator | ErrInvalidEpochRange

record ('s, 'w) zstor_Client =
  dataPipeline :: "'w Pipeline"
  metastorClient :: "('s, 'w client_world, zstor_err) metastor_Client"

fun flat_err :: "zstor_err meta_error \<Rightarrow> zstor_err" where
  "flat_err (MetaCallback e) = e"
| "flat_err e = ErrMeta e"

definition EpochNow :: "'w client_world \<Rightarrow> int \<times> 'w client_world" where
  "EpochNow x = (cw_clock x 0, x\<lparr>cw_clock := (\<lambda>n. cw_clock x (Suc n))\<rparr>)"

definition total_size :: "Chunk list \<Rightarrow> int64" where
  "total_size chunks = fold (\<lambda>chunk n. n + of_nat (ch_Size chunk)) chunks 0"

text \<open>One write of the pipeline: it takes the next schedule.  The value is \<open>None\<close> while the reader has not come to an end.\<close>

definition run_write ::
  "codecs \<Rightarrow> digest \<Rightarrow> ('s, 'w) zstor_Client \<Rightarrow> reads option \<Rightarrow> 'w client_world \<Rightarrow> (zstor_err, Chunk list \<times> 'w client_world) result option" where
  "run_write lib dg c r x =
     map_option (\<lambda>res. rbind (map_err ErrPipeline res) (\<lambda>(chunks, data). Ok (chunks, x\<lparr>cw_data := data, cw_sched := (\<lambda>n. cw_sched x (Suc n))\<rparr>)))
       (pipeline_Write lib dg (dataPipeline c) (cw_sched x 0) r (cw_data x))"

section \<open>Methods\<close>

definition client_Write ::
  "codecs \<Rightarrow> digest \<Rightarrow> ('s, 'w) zstor_Client \<Rightarrow> bytes \<Rightarrow> reads option \<Rightarrow> 's \<times> 'w client_world \<Rightarrow>
   (zstor_err, Metadata \<times> 's \<times> 'w client_world) result option" where
  "client_Write lib dg c key r st =
     (if length key = 0 then Some (Err ErrNilKeyGiven)
      else map_option (\<lambda>res. rbind res (\<lambda>(chunks, x).
        case EpochNow x of
          (now, x) \<Rightarrow>
            let md = \<lparr>md_Key = key, md_Size = total_size chunks, md_CreationEpoch = now, md_LastWriteEpoch = now,
                  md_Chunks = chunks, md_PreviousKey = None, md_NextKey = None\<rparr> in
            (case SetMetadata (metastorClient c) md (fst st, x) of
               (Ok _, st) \<Rightarrow> Ok (md, st)
             | (Err e, _) \<Rightarrow> Err (flat_err e)
             | (Panic, _) \<Rightarrow> Panic)))
        (run_write lib dg c r (snd st)))"

definition client_ReadWithMeta ::
  "codecs \<Rightarrow> digest \<Rightarrow> ('s, 'w) zstor_Client \<Rightarrow> Metadata \<Rightarrow> 'o writer option \<Rightarrow> 'w client_world \<Rightarrow> 'o \<Rightarrow> (zstor_err, 'o) result" where
  "client_ReadWithMeta lib dg c meta wr x out =
     map_err ErrPipeline (pipeline_Read lib dg (dataPipeline c) (cw_sched x 0) (md_Chunks meta) wr (cw_data x) out)"

definition client_Read ::
  "codecs \<Rightarrow> digest \<Rightarrow> ('s, 'w) zstor_Client \<Rightarrow> bytes \<Rightarrow> 'o writer option \<Rightarrow> 's \<times> 'w client_world \<Rightarrow> 'o \<Rightarrow> (zstor_err, 'o) result" where
  "client_Read lib dg c key wr st out =
     (if length key = 0 then Err ErrNilKeyGiven
      else rbind (map_err flat_err (GetMetadata (metastorClient c) key (fst st))) (\<lambda>meta.
        client_ReadWithMeta lib dg c meta wr (snd st) out))"

definition client_DeleteWithMeta ::
  "('s, 'w) zstor_Client \<Rightarrow> Metadata \<Rightarrow> 's \<times> 'w client_world \<Rightarrow> (zstor_err, 's \<times> 'w client_world) result" where
  "client_DeleteWithMeta c meta st =
     (case pipeline_Delete (dataPipeline c) (cw_order (snd st) (length (md_Chunks meta))) (md_Chunks meta) (cw_data (snd st)) of
        (Ok _, data) \<Rightarrow>
          (case DeleteMetadata (metastorClient c) (md_Key meta) (fst st) of
             (Ok _, s) \<Rightarrow> Ok (s, (snd st)\<lparr>cw_data := data\<rparr>)
           | (Err e, _) \<Rightarrow> Err (flat_err e)
           | (Panic, _) \<Rightarrow> Panic)
      | (Err e, _) \<Rightarrow> Err (ErrPipeline e)
      | (Panic, _) \<Rightarrow> Panic)"

definition client_Delete :: "('s, 'w) zstor_Client \<Rightarrow> bytes \<Rightarrow> 's \<times> 'w client_world \<Rightarrow> (zstor_err, 's \<times> 'w client_world) result" where
  "client_Delete c key st =
     (if length key = 0 then Err ErrNilKeyGiven
      else rbind (map_err flat_err (GetMetadata (metastorClient c) key (fst st))) (\<lambda>meta. client_DeleteWithMeta c meta st))"

definition client_CheckWithMeta :: "('s, 'w) zstor_Client \<Rightarrow> Metadata \<Rightarrow> bool \<Rightarrow> 'w client_world \<Rightarrow> (zstor_err, CheckStatus) result" where
  "client_CheckWithMeta c meta fast x =
     map_err ErrPipeline (pipeline_Check (dataPipeline c) (cw_order x (length (md_Chunks meta))) (md_Chunks meta) fast (cw_data x))"

definition client_Check :: "('s, 'w) zstor_Client \<Rightarrow> bytes \<Rightarrow> bool \<Rightarrow> 's \<times> 'w client_world \<Rightarrow> (zstor_err, CheckStatus) result" where
  "client_Check c key fast st =
     (if length key = 0 then Err ErrNilKeyGiven
      else rbind (map_err flat_err (GetMetadata (metastorClient c) key (fst st))) (\<lambda>meta. client_CheckWithMeta c meta fast (snd st)))"

text \<open>The callback of \<open>Repair\<close>: it repairs once, however often it is called.\<close>

definition repair_callback :: "('s, 'w) zstor_Client \<Rightarrow> Metadata \<Rightarrow> ('s \<times> 'w client_world, zstor_err, Metadata) op" where
  "repair_callback c meta st =
     obind (if cw_repairEpoch (snd st) = 0 then
         (case pipeline_Repair (dataPipeline c) (cw_order (snd st) (length (md_Chunks meta))) (md_Chunks meta) (cw_data (snd st)) of
            (Ok chunks, data) \<Rightarrow>
              (case EpochNow ((snd st)\<lparr>cw_data := data\<rparr>) of
                 (now, x) \<Rightarrow> (Ok (), (fst st, x\<lparr>cw_repairedChunks := chunks, cw_repairEpoch := now,
                   cw_totalSize := fold (\<lambda>chunk n. n + of_nat (ch_Size chunk)) chunks (cw_totalSize x)\<rparr>)))
          | (Err e, data) \<Rightarrow> (Err (if e = ErrStorage ErrNotSupported then ErrRepairSupport else ErrPipeline e), st)
          | (Panic, data) \<Rightarrow> (Panic, st))
       else (Ok (), st)) (\<lambda>_ st.
         (Ok (meta\<lparr>md_Chunks := cw_repairedChunks (snd st), md_Size := cw_totalSize (snd st), md_LastWriteEpoch := cw_repairEpoch (snd st)\<rparr>), st))"

definition finish_update :: "(zstor_err meta_error, 'a) result \<times> 's \<times> 'w client_world \<Rightarrow> (zstor_err, 'a \<times> 's \<times> 'w client_world) result" where
  "finish_update r = (case r of (Ok a, st) \<Rightarrow> Ok (a, st) | (Err e, _) \<Rightarrow> Err (flat_err e) | (Panic, _) \<Rightarrow> Panic)"

definition client_Repair ::
  "('s, 'w) zstor_Client \<Rightarrow> bytes \<Rightarrow> 's \<times> 'w client_world \<Rightarrow> (zstor_err, Metadata \<times> 's \<times> 'w client_world) result option" where
  "client_Repair c key st =
     (if length key = 0 then Some (Err ErrNilKeyGiven)
      else map_option finish_update
        (UpdateMetadata (metastorClient c) key (repair_callback c)
          (fst st, (snd st)\<lparr>cw_repairedChunks := [], cw_totalSize := 0, cw_repairEpoch := 0\<rparr>)))"

section \<open>The client is a map from keys to contents\<close>

text \<open>A client made from a configuration, over zstordb servers and the in-memory metadata database.\<close>

definition zstor_configured ::
  "reedsolomon_New \<Rightarrow> nat \<Rightarrow> (memory_DB \<Rightarrow> bytes list) \<Rightarrow> string \<Rightarrow> zworld environment \<Rightarrow> Config \<Rightarrow> nat \<Rightarrow> int \<Rightarrow> storage_kind \<Rightarrow>
   pb_codec \<Rightarrow> codecs \<Rightarrow> (CompressionConfig \<times> EncryptionConfig) option \<Rightarrow> (metastor_DB, zworld \<times> nat) zstor_Client \<Rightarrow> bool" where
  "zstor_configured lib numCPU order ns env cfg nShards jobCount kind pb cdc mcfg c \<longleftrightarrow>
     NewPipeline lib numCPU (zcluster order ns) env cfg (Some nShards) jobCount = Ok (dataPipeline c) \<and>
     NewChunkStorage lib numCPU (cfg_Distribution cfg) (Some nShards) jobCount = Ok kind \<and>
     configured_metastor pb cdc mcfg = Ok (metastorClient c) \<and>
     (\<forall>cc ec. mcfg = Some (cc, ec) \<longrightarrow> (\<exists>p m. NewProcessorConstructor cc ec [] = (Ok p, m))) \<and>
     reedsolomon_ok lib \<and> codecs_ok cdc \<and> (\<forall>c x. \<exists>y. compress cdc c x = Ok y) \<and> pb_ok pb \<and> 0 < numCPU"

fun client_writes ::
  "codecs \<Rightarrow> digest \<Rightarrow> ('s, 'w) zstor_Client \<Rightarrow> (bytes \<times> bytes list) list \<Rightarrow> 's \<times> 'w client_world \<Rightarrow> (zstor_err, 's \<times> 'w client_world) result option" where
  "client_writes lib dg c [] st = Some (Ok st)"
| "client_writes lib dg c ((key, pieces) # ws) st =
     (case client_Write lib dg c key (Some (reads_of pieces)) st of
        None \<Rightarrow> None
      | Some (Ok (md, st')) \<Rightarrow> client_writes lib dg c ws st'
      | Some (Err e) \<Rightarrow> Some (Err e)
      | Some Panic \<Rightarrow> Some Panic)"

definition writable :: "'w Pipeline \<Rightarrow> bytes \<times> bytes list \<Rightarrow> schedule \<Rightarrow> bool" where
  "writable p wr sch \<longleftrightarrow> fst wr \<noteq> [] \<and> snd wr \<noteq> [] \<and> [] \<notin> set (snd wr) \<and>
     schedule_ok (length (inputs_of p (snd wr))) sch \<and> enough_randomness sch"

definition describes ::
  "string \<Rightarrow> zworld environment \<Rightarrow> storage_kind \<Rightarrow> codecs \<Rightarrow> digest \<Rightarrow> processor \<Rightarrow> hash_Hash \<Rightarrow> (metastor_DB, zworld \<times> nat) zstor_Client \<Rightarrow>
   metastor_DB \<Rightarrow> zworld \<times> nat \<Rightarrow> bytes \<Rightarrow> bytes list \<Rightarrow> bool" where
  "describes ns env kind cdc dg q h c s data key pieces \<longleftrightarrow>
     (\<exists>md. msd.entries (metastorClient c) s key = Some md \<and>
        zf.run.written ns env kind cdc dg q h (inputs_of (dataPipeline c) pieces) (md_Chunks md) data)"

text \<open>What a configured client is made of, and what is promised of its parts.\<close>

lemma configured_parts:
  assumes c: "zstor_configured lib numCPU order ns env cfg nShards jobCount kind pb cdc mcfg c"
  shows "\<exists>q m h. made_of q m h (storage_ops (zcluster order ns) env kind) (dataPipeline c) \<and>
    codec_ok 12 (metastorClient c) \<and> mc_db (metastorClient c) = lone_DB \<and>
    (cluster_ready order ns env kind n (fst (cw_data x)) \<longrightarrow> zf.ready order ns env kind n (cw_data x))"
proof -
  from c have cdc: "codecs_ok cdc" "\<forall>c x. \<exists>y. compress cdc c x = Ok y" and lib: "reedsolomon_ok lib" "0 < numCPU"
    and p: "NewPipeline lib numCPU (zcluster order ns) env cfg (Some nShards) jobCount = Ok (dataPipeline c)"
      "NewChunkStorage lib numCPU (cfg_Distribution cfg) (Some nShards) jobCount = Ok kind"
    and mc: "configured_metastor pb cdc mcfg = Ok (metastorClient c)" "pb_ok pb"
      "\<forall>cc ec. mcfg = Some (cc, ec) \<longrightarrow> (\<exists>p m. NewProcessorConstructor cc ec [] = (Ok p, m))"
    by (simp_all add: zstor_configured_def)
  have "zf.ready order ns env kind n (cw_data x)" if "cluster_ready order ns env kind n (fst (cw_data x))"
    using that NewChunkStorage_ok [OF p(2) lib] by (cases "cw_data x") (simp add: ready_iff)
  then show ?thesis using NewPipeline_made(1) [OF p lib(2)] configured_codec_ok [OF mc(1,2) cdc mc(3)] by blast
qed

lemma client_Write_spec:
  assumes made: "made_of q m h (storage_ops (zcluster order ns) env kind) (dataPipeline c)"
    and cdc: "codecs_ok cdc" "\<forall>c x. \<exists>y. compress cdc c x = Ok y"
    and meta: "codec_ok 12 (metastorClient c)" "mc_db (metastorClient c) = lone_DB" "12 \<le> length (mw_rand x)"
    and wr: "writable (dataPipeline c) (key, pieces) (cw_sched x 0)"
    and ready: "zf.ready order ns env kind (length (inputs_of (dataPipeline c) pieces) + n) (cw_data x)"
  shows "\<exists>md s' x'. client_Write cdc dg c key (Some (reads_of pieces)) (s, x) = Some (Ok (md, s', x')) \<and>
    describes ns env kind cdc dg q h c s' (cw_data x') key pieces \<and>
    (\<forall>k' p'. k' \<noteq> key \<longrightarrow> describes ns env kind cdc dg q h c s (cw_data x) k' p' \<longrightarrow> describes ns env kind cdc dg q h c s' (cw_data x') k' p') \<and>
    zf.ready order ns env kind n (cw_data x') \<and> dom (msd_md s') = insert key (dom (msd_md s)) \<and>
    length (mw_rand x) \<le> length (mw_rand x') + 12 \<and> cw_sched x' = (\<lambda>i. cw_sched x (Suc i)) \<and>
    zf.run.written ns env kind cdc dg q h (inputs_of (dataPipeline c) pieces) (md_Chunks md) (cw_data x')"
proof -
  from wr have key: "key \<noteq> []" and pieces: "pieces \<noteq> []" "[] \<notin> set pieces"
    and sch: "schedule_ok (length (inputs_of (dataPipeline c) pieces)) (cw_sched x 0)" "enough_randomness (cw_sched x 0)"
    by (simp_all add: writable_def)
  from zf.run.pipeline_write_spec [OF made cdc pieces sch ready, of dg] obtain chunks data where
    w: "pipeline_Write cdc dg (dataPipeline c) (cw_sched x 0) (Some (reads_of pieces)) (cw_data x) = Some (Ok (chunks, data))"
      "zf.run.written ns env kind cdc dg q h (inputs_of (dataPipeline c) pieces) chunks data"
      "\<forall>cfg d. zf.holds ns env kind (cw_data x) cfg d \<longrightarrow> zf.holds ns env kind data cfg d" "zf.ready order ns env kind n data"
    by blast
  let ?md = "\<lparr>md_Key = key, md_Size = total_size chunks, md_CreationEpoch = cw_clock x 0, md_LastWriteEpoch = cw_clock x 0,
      md_Chunks = chunks, md_PreviousKey = None, md_NextKey = None\<rparr>"
  let ?x = "x\<lparr>cw_data := data, cw_sched := (\<lambda>n. cw_sched x (Suc n)), cw_clock := (\<lambda>n. cw_clock x (Suc n))\<rparr>"
  have pre: "md_Key ?md \<noteq> []" "12 \<le> length (mw_rand ?x)" using key meta(3) by simp_all
  from lone_SetMetadata [OF meta(2,1) pre, of s] obtain s' rand' where
    s: "SetMetadata (metastorClient c) ?md (s, ?x) = (Ok (), s', ?x\<lparr>mw_rand := rand'\<rparr>)" "length (mw_rand x) \<le> length rand' + 12"
      "msd.entries (metastorClient c) s' = (msd.entries (metastorClient c) s)(key \<mapsto> normal ?md)"
      "dom (msd_md s') = insert key (dom (msd_md s))" by auto
  have "client_Write cdc dg c key (Some (reads_of pieces)) (s, x) = Some (Ok (?md, s', ?x\<lparr>mw_rand := rand'\<rparr>))"
    using w(1) s(1) key by (simp add: client_Write_def run_write_def EpochNow_def)
  moreover have "describes ns env kind cdc dg q h c s' data key pieces"
    using w(2) s(3) by (simp add: describes_def normal_def)
  moreover have "describes ns env kind cdc dg q h c s' data k' p'"
    if "k' \<noteq> key" "describes ns env kind cdc dg q h c s (cw_data x) k' p'" for k' p'
    using that s(3) zf.run.written_mono [OF _ w(3)] by (auto simp: describes_def)
  ultimately show ?thesis using s(2,4) w(2,4)
    by (intro exI [of _ ?md] exI [of _ s'] exI [of _ "?x\<lparr>mw_rand := rand'\<rparr>"]) simp
qed

lemma client_Read_spec:
  assumes made: "made_of q m h (storage_ops (zcluster order ns) env kind) (dataPipeline c)" and cdc: "codecs_ok cdc"
    and meta: "mc_db (metastorClient c) = lone_DB" and key: "key \<noteq> []" "pieces \<noteq> []"
    and desc: "describes ns env kind cdc dg q h c s (cw_data x) key pieces"
    and sch: "schedule_ok (length (inputs_of (dataPipeline c) pieces)) (cw_sched x 0)"
  shows "client_Read cdc dg c key (Some appending) (s, x) out = Ok (out @ concat pieces)"
proof -
  from desc obtain md where md: "msd.entries (metastorClient c) s key = Some md"
    "zf.run.written ns env kind cdc dg q h (inputs_of (dataPipeline c) pieces) (md_Chunks md) (cw_data x)" by (auto simp: describes_def)
  have "GetMetadata (metastorClient c) key s = Ok md" by (rule lone_GetMetadata(1) [OF meta key(1) md(1)])
  with zf.run.pipeline_read_spec [OF made cdc md(2) key(2) sch] key(1) show ?thesis
    by (simp add: client_Read_def client_ReadWithMeta_def)
qed

lemma client_writes_spec:
  assumes made: "made_of q m h (storage_ops (zcluster order ns) env kind) (dataPipeline c)"
    and cdc: "codecs_ok cdc" "\<forall>c x. \<exists>y. compress cdc c x = Ok y"
    and meta: "codec_ok 12 (metastorClient c)" "mc_db (metastorClient c) = lone_DB"
  shows "12 * length ws \<le> length (mw_rand x) \<Longrightarrow> \<forall>i < length ws. writable (dataPipeline c) (ws ! i) (cw_sched x i) \<Longrightarrow>
    zf.ready order ns env kind (sum_list (map (\<lambda>wr. length (inputs_of (dataPipeline c) (snd wr))) ws)) (cw_data x) \<Longrightarrow>
    \<exists>s' x'. client_writes cdc dg c ws (s, x) = Some (Ok (s', x')) \<and> dom (msd_md s') = fst ` set ws \<union> dom (msd_md s) \<and>
      (\<forall>key pieces. map_of (rev ws) key = Some pieces \<longrightarrow> describes ns env kind cdc dg q h c s' (cw_data x') key pieces) \<and>
      (\<forall>key pieces. key \<notin> fst ` set ws \<longrightarrow> describes ns env kind cdc dg q h c s (cw_data x) key pieces \<longrightarrow>
         describes ns env kind cdc dg q h c s' (cw_data x') key pieces)"
proof (induction ws arbitrary: s x)
  case Nil
  then show ?case by simp
next
  case (Cons wr ws)
  obtain key pieces where wr: "wr = (key, pieces)" by fastforce
  let ?total = "sum_list (map (\<lambda>wr. length (inputs_of (dataPipeline c) (snd wr))) ws)"
  have first: "writable (dataPipeline c) (key, pieces) (cw_sched x 0)" using Cons.prems(2) [rule_format, of 0] wr by simp
  have rand: "12 \<le> length (mw_rand x)" using Cons.prems(1) by simp
  have ready: "zf.ready order ns env kind (length (inputs_of (dataPipeline c) pieces) + ?total) (cw_data x)" using Cons.prems(3) wr by simp
  obtain md s1 x1 where w: "client_Write cdc dg c key (Some (reads_of pieces)) (s, x) = Some (Ok (md, s1, x1))"
      "describes ns env kind cdc dg q h c s1 (cw_data x1) key pieces"
      "\<And>k' p'. k' \<noteq> key \<Longrightarrow> describes ns env kind cdc dg q h c s (cw_data x) k' p' \<Longrightarrow> describes ns env kind cdc dg q h c s1 (cw_data x1) k' p'"
      "zf.ready order ns env kind ?total (cw_data x1)" "dom (msd_md s1) = insert key (dom (msd_md s))"
      "length (mw_rand x) \<le> length (mw_rand x1) + 12" "cw_sched x1 = (\<lambda>i. cw_sched x (Suc i))"
    using client_Write_spec [OF made cdc meta rand first ready, of dg s] by (elim exE conjE) (rule that, assumption+, blast, assumption+)
  have rand1: "12 * length ws \<le> length (mw_rand x1)" using Cons.prems(1) w(6) by simp
  have rest: "\<forall>i < length ws. writable (dataPipeline c) (ws ! i) (cw_sched x1 i)" using Cons.prems(2) w(7) by auto
  obtain s' x' where r: "client_writes cdc dg c ws (s1, x1) = Some (Ok (s', x'))" "dom (msd_md s') = fst ` set ws \<union> dom (msd_md s1)"
      "\<And>key pieces. map_of (rev ws) key = Some pieces \<Longrightarrow> describes ns env kind cdc dg q h c s' (cw_data x') key pieces"
      "\<And>key pieces. key \<notin> fst ` set ws \<Longrightarrow> describes ns env kind cdc dg q h c s1 (cw_data x1) key pieces \<Longrightarrow>
         describes ns env kind cdc dg q h c s' (cw_data x') key pieces"
    using Cons.IH [OF rand1 rest w(4), of s1] by (elim exE conjE) (rule that, assumption+, blast, blast)
  have "describes ns env kind cdc dg q h c s' (cw_data x') k p" if m: "map_of (rev (wr # ws)) k = Some p" for k p
  proof (cases "map_of (rev ws) k")
    case None
    then have k: "k \<notin> fst ` set ws" by (simp add: map_of_eq_None_iff)
    from m None have "k = key" "p = pieces" by (auto simp: wr map_add_def split: if_splits option.splits)
    with w(2) r(4) [OF k] show ?thesis by simp
  next
    case (Some a)
    with m r(3) show ?thesis by (simp add: wr map_add_def)
  qed
  moreover have "describes ns env kind cdc dg q h c s' (cw_data x') k p"
    if "k \<notin> fst ` set (wr # ws)" "describes ns env kind cdc dg q h c s (cw_data x) k p" for k p
    using that w(3) r(4) by (simp add: wr)
  moreover have "client_writes cdc dg c (wr # ws) (s, x) = Some (Ok (s', x'))" using w(1) r(1) by (simp add: wr)
  ultimately show ?case using r(2) w(5) by (intro exI [of _ s'] exI [of _ x'] conjI allI impI) (simp_all add: wr insert_commute Un_commute)
qed


text \<open>The client of a configuration with splitting, compression, encryption and erasure coding.\<close>

definition demo_client_world :: "(zworld \<times> nat) client_world" where
  "demo_client_world = \<lparr>mw_rand = replicate 24 0, mw_metadata = new_Metadata, cw_data = (demo_world, 0), cw_clock = int,
     cw_sched = (\<lambda>_. demo_schedule), cw_order = (\<lambda>n. [0..<n]), cw_meta = None, cw_repairedChunks = [], cw_totalSize = 0, cw_repairEpoch = 0\<rparr>"

lemma demo_schedule_ok: "schedule_ok 2 demo_schedule" "enough_randomness demo_schedule"
  by (auto simp: schedule_ok_def permutes_upto_def demo_schedule_def enough_randomness_def gcm_NonceSize_def)

lemma demo_client:
  "\<exists>env kind c. zstor_configured demo_reedsolomon 1 (\<lambda>_. []) ''ns'' env demo_config 3 0 kind demo_pb demo_codecs None c \<and>
     cluster_ready (\<lambda>_. []) ''ns'' env kind 4 demo_world \<and> (\<forall>pieces. inputs_of (dataPipeline c) pieces = pieces)"
proof -
  obtain kind where kind: "NewChunkStorage demo_reedsolomon 1 (cfg_Distribution demo_config) (Some 3) 0 = Ok kind" "kind_ok kind" "required_shards kind = 3"
    using demo_storage by blast
  obtain env where env: "complete_runs (zcluster (\<lambda>_. []) ''ns'') env kind" "arrivals_ok env" "env_offer env = (\<lambda>k except. [''a'', ''b'', ''c''])"
    using complete_environment [OF kind(2)] by blast
  obtain p where p: "NewPipeline demo_reedsolomon 1 (zcluster (\<lambda>_. []) ''ns'') env demo_config (Some 3) 0 = Ok p" using demo_pipeline by blast
  obtain mc where mc: "(configured_metastor demo_pb demo_codecs None :: (string, (metastor_DB, (zworld \<times> nat) client_world, zstor_err) metastor_Client) result) = Ok mc"
    by (simp add: configured_metastor_on_def metastor_NewClient_def)
  have "cluster_ready (\<lambda>_. []) ''ns'' env kind 4 demo_world"
    using env kind(3) by (simp add: cluster_ready_def demo_world_def zroom_def memory_room_def memory_New_def counter_def)
  moreover have "reedsolomon_ok demo_reedsolomon" using xor_erasure_code by (simp add: reedsolomon_ok_def demo_reedsolomon_def)
  moreover have "inputs_of p pieces = pieces" for pieces using NewPipeline_made(2) [OF p kind(1)] by (simp add: demo_config_def)
  moreover have "\<forall>c x. \<exists>y. compress demo_codecs c x = Ok y" by (simp add: demo_codecs_def)
  ultimately show ?thesis using p kind(1) mc demo_codecs_ok demo_pb_ok
    by (intro exI [of _ env] exI [of _ kind] exI [of _ "\<lparr>dataPipeline = p, metastorClient = mc\<rparr>"]) (simp add: zstor_configured_def)
qed


end

