(* ===== verification/Linked_Data.thy ===== *)
theory Linked_Data
  imports Zstor_Client
begin

text \<open>
  Linked data (\<open>client/client_linked_data.go\<close>): metadata nodes that point to the previous and to the
  next one, written with \<open>WriteLinked\<close> and visited with two traverse iterators.
\<close>

section \<open>Writing\<close>

text \<open>
  The callback of \<open>WriteLinked\<close> writes the data once, however often it is called.  A reader that never
  ends makes it never return; the value there is not used.
\<close>

definition linked_callback ::
  "codecs \<Rightarrow> digest \<Rightarrow> ('s, 'w) zstor_Client \<Rightarrow> bytes \<Rightarrow> bytes \<Rightarrow> reads option \<Rightarrow> Metadata \<Rightarrow> ('s \<times> 'w client_world, zstor_err, Metadata) op" where
  "linked_callback lib dg c key prevKey r prevMetadata st =
     obind (case cw_meta (snd st) of
         Some _ \<Rightarrow> (Ok (), st)
       | None \<Rightarrow>
           (case run_write lib dg c r (snd st) of
              Some (Ok (chunks, x)) \<Rightarrow>
                (case EpochNow x of
                   (now, x) \<Rightarrow>
                     let meta = \<lparr>md_Key = key, md_Size = total_size chunks, md_CreationEpoch = now, md_LastWriteEpoch = now,
                           md_Chunks = chunks, md_PreviousKey = Some prevKey, md_NextKey = None\<rparr> in
                     omap_err flat_err (SetMetadata (metastorClient c) meta (fst st, x\<lparr>cw_meta := Some meta\<rparr>)))
            | Some (Err e) \<Rightarrow> (Err e, st)
            | _ \<Rightarrow> (Panic, st))) (\<lambda>_ st.
       (Ok (prevMetadata\<lparr>md_NextKey := Some key\<rparr>), st))"

definition client_WriteLinked ::
  "codecs \<Rightarrow> digest \<Rightarrow> ('s, 'w) zstor_Client \<Rightarrow> bytes \<Rightarrow> bytes \<Rightarrow> reads option \<Rightarrow> 's \<times> 'w client_world \<Rightarrow>
   (zstor_err, (Metadata option \<times> Metadata) \<times> 's \<times> 'w client_world) result option" where
  "client_WriteLinked lib dg c key prevKey r st =
     (if length key = 0 then Some (Err ErrNilKeyGiven)
      else if length prevKey = 0 then Some (Err ErrNilKeyGiven)
      else map_option (\<lambda>res. rbind (finish_update res) (\<lambda>(prevMeta, st). Ok ((cw_meta (snd st), prevMeta), st)))
        (UpdateMetadata (metastorClient c) prevKey (linked_callback lib dg c key prevKey r) (fst st, (snd st)\<lparr>cw_meta := None\<rparr>)))"

section \<open>Traversing\<close>

record traverse_iterator =
  it_md :: "Metadata option"
  it_key :: slice
  it_fromEpoch :: int
  it_toEpoch :: int

definition new_iterator :: "bytes \<Rightarrow> int \<Rightarrow> int \<Rightarrow> traverse_iterator" where
  "new_iterator startKey fromEpoch toEpoch = \<lparr>it_md = None, it_key = Some startKey, it_fromEpoch = fromEpoch, it_toEpoch = toEpoch\<rparr>"

definition client_Traverse :: "bytes \<Rightarrow> int \<Rightarrow> int \<Rightarrow> (zstor_err, traverse_iterator) result" where
  "client_Traverse startKey fromEpoch toEpoch =
     (if length startKey = 0 then Err ErrNilKeyGiven
      else let fromEpoch = (if fromEpoch \<le> 0 then -1 else fromEpoch); toEpoch = (if toEpoch \<le> 0 then -1 else toEpoch) in
        if toEpoch \<noteq> -1 \<and> fromEpoch > toEpoch then Err ErrInvalidEpochRange
        else Ok (new_iterator startKey fromEpoch toEpoch))"

definition client_TraversePostOrder :: "bytes \<Rightarrow> int \<Rightarrow> int \<Rightarrow> (zstor_err, traverse_iterator) result" where
  "client_TraversePostOrder startKey fromEpoch toEpoch =
     (if length startKey = 0 then Err ErrNilKeyGiven
      else let fromEpoch = (if fromEpoch \<le> 0 then -1 else fromEpoch); toEpoch = (if toEpoch \<le> 0 then -1 else toEpoch) in
        if fromEpoch \<noteq> -1 \<and> toEpoch > fromEpoch then Err ErrInvalidEpochRange
        else Ok (new_iterator startKey fromEpoch toEpoch))"

text \<open>
  The loop of both \<open>Next\<close> methods: what they differ in is the link they follow and the metadata at
  which they stop and which they skip.  A value \<open>None\<close> is a call that does not return.
\<close>

partial_function (option) next_loop ::
  "(Metadata \<Rightarrow> slice) \<Rightarrow> (Metadata \<Rightarrow> bool) \<Rightarrow> (Metadata \<Rightarrow> bool) \<Rightarrow> ('s, 'x, 'e) metastor_Client \<Rightarrow> 's \<Rightarrow> traverse_iterator \<Rightarrow>
   (unit, bool \<times> traverse_iterator) result option" where
  "next_loop link stop skip mc s it =
     (case it_key it of
        None \<Rightarrow> Some (Ok (False, it))
      | Some key \<Rightarrow>
          (case GetMetadata mc key s of
             Err e \<Rightarrow> Some (Ok (False, it))
           | Panic \<Rightarrow> Some Panic
           | Ok md \<Rightarrow>
               if stop md then Some (Ok (False, it\<lparr>it_key := None\<rparr>))
               else if skip md then next_loop link stop skip mc s (it\<lparr>it_key := link md\<rparr>)
               else Some (Ok (True, it\<lparr>it_key := link md, it_md := Some md\<rparr>))))"

definition forward_Next :: "('s, 'x, 'e) metastor_Client \<Rightarrow> 's \<Rightarrow> traverse_iterator \<Rightarrow> (unit, bool \<times> traverse_iterator) result option" where
  "forward_Next mc s it = next_loop md_NextKey
     (\<lambda>md. it_toEpoch it \<noteq> -1 \<and> md_CreationEpoch md > it_toEpoch it)
     (\<lambda>md. it_fromEpoch it \<noteq> -1 \<and> md_CreationEpoch md < it_fromEpoch it) mc s it"

definition backward_Next :: "('s, 'x, 'e) metastor_Client \<Rightarrow> 's \<Rightarrow> traverse_iterator \<Rightarrow> (unit, bool \<times> traverse_iterator) result option" where
  "backward_Next mc s it = next_loop md_PreviousKey
     (\<lambda>md. it_toEpoch it \<noteq> -1 \<and> md_CreationEpoch md < it_toEpoch it)
     (\<lambda>md. it_fromEpoch it \<noteq> -1 \<and> md_CreationEpoch md > it_fromEpoch it) mc s it"

definition PeekNextKey :: "traverse_iterator \<Rightarrow> slice \<times> bool" where
  "PeekNextKey it = (case it_key it of None \<Rightarrow> (None, False) | Some key \<Rightarrow> (Some key, True))"

definition it_GetMetadata :: "traverse_iterator \<Rightarrow> (zstor_err, Metadata) result" where
  "it_GetMetadata it = (case it_md it of None \<Rightarrow> Err ErrInvalidTraverseIterator | Some md \<Rightarrow> Ok md)"

definition it_ReadData ::
  "codecs \<Rightarrow> digest \<Rightarrow> ('s, 'w) zstor_Client \<Rightarrow> traverse_iterator \<Rightarrow> 'o writer option \<Rightarrow> 'w client_world \<Rightarrow> 'o \<Rightarrow> (zstor_err, 'o) result" where
  "it_ReadData lib dg c it wr x out =
     (case wr of
        None \<Rightarrow> Panic
      | Some _ \<Rightarrow>
          (case it_md it of
             None \<Rightarrow> Err ErrInvalidTraverseIterator
           | Some md \<Rightarrow> map_err ErrPipeline (pipeline_Read lib dg (dataPipeline c) (cw_sched x 0) (md_Chunks md) wr (cw_data x) out)))"

text \<open>A caller that visits everything: \<open>for it.Next() { md := it.GetMetadata() ... }\<close>.\<close>

partial_function (option) visit_all ::
  "(traverse_iterator \<Rightarrow> (unit, bool \<times> traverse_iterator) result option) \<Rightarrow> traverse_iterator \<Rightarrow> (unit, Metadata list) result option" where
  "visit_all step it =
     (case step it of
        None \<Rightarrow> None
      | Some Panic \<Rightarrow> Some Panic
      | Some (Err e) \<Rightarrow> Some (Err e)
      | Some (Ok (found, it')) \<Rightarrow>
          if \<not> found then Some (Ok [])
          else Option.bind (visit_all step it') (\<lambda>r. Some (rbind r (\<lambda>mds. Ok (the (it_md it') # mds)))))"

section \<open>Chains\<close>

fun linked :: "(bytes \<rightharpoonup> Metadata) \<Rightarrow> slice \<Rightarrow> bytes list \<Rightarrow> bool" where
  "linked e prev [] \<longleftrightarrow> True"
| "linked e prev [k] \<longleftrightarrow> (\<exists>md. e k = Some md \<and> md_PreviousKey md = prev \<and> md_NextKey md = None)"
| "linked e prev (k # k' # ks) \<longleftrightarrow>
     (\<exists>md. e k = Some md \<and> md_PreviousKey md = prev \<and> md_NextKey md = Some k') \<and> linked e (Some k) (k' # ks)"

definition chain :: "(bytes \<rightharpoonup> Metadata) \<Rightarrow> bytes list \<Rightarrow> bool" where
  "chain e ks \<longleftrightarrow> ks \<noteq> [] \<and> distinct ks \<and> [] \<notin> set ks \<and> linked e None ks"

text \<open>A chain followed along one kind of link.\<close>

fun path :: "(Metadata \<Rightarrow> slice) \<Rightarrow> (bytes \<rightharpoonup> Metadata) \<Rightarrow> slice \<Rightarrow> bytes list \<Rightarrow> bool" where
  "path link e from [] \<longleftrightarrow> from = None"
| "path link e from (k # ks) \<longleftrightarrow> from = Some k \<and> k \<noteq> [] \<and> (\<exists>md. e k = Some md \<and> path link e (link md) ks)"

lemma path_forward:
  "linked e prev ks \<Longrightarrow> [] \<notin> set ks \<Longrightarrow> path md_NextKey e (case ks of [] \<Rightarrow> None | k # _ \<Rightarrow> Some k) ks"
  by (induction e prev ks rule: linked.induct) auto

lemma path_backward:
  "linked e prev ks \<Longrightarrow> [] \<notin> set ks \<Longrightarrow> ks \<noteq> [] \<Longrightarrow> path md_PreviousKey e prev rest \<Longrightarrow>
     path md_PreviousKey e (Some (last ks)) (rev ks @ rest)"
proof (induction e prev ks arbitrary: rest rule: linked.induct)
  case (3 e prev k k' ks)
  then have "path md_PreviousKey e (Some k) (k # rest)" by auto
  with 3 show ?case by simp
qed auto

lemma linked_mono: "linked e prev ks \<Longrightarrow> (\<And>k. k \<in> set ks \<Longrightarrow> e' k = e k) \<Longrightarrow> linked e' prev ks"
  by (induction e prev ks rule: linked.induct) auto

lemma linked_snoc:
  assumes "linked e prev ks" "distinct ks" "ks \<noteq> []" "e (last ks) = Some md" "key \<notin> set ks"
    and "md_PreviousKey new = Some (last ks)" "md_NextKey new = None"
  shows "linked (e(key \<mapsto> new, last ks \<mapsto> md\<lparr>md_NextKey := Some key\<rparr>)) prev (ks @ [key])"
  using assms
proof (induction e prev ks rule: linked.induct)
  case (3 e prev k k' ks)
  then have "last (k' # ks) \<noteq> k" by (metis distinct.simps(2) last_in_set list.discI)
  with 3 show ?case by auto
qed auto

section \<open>Visiting a chain\<close>

lemma visit_path:
  assumes step: "\<And>it. step it = next_loop link (stop (it_toEpoch it)) (skip (it_fromEpoch it)) mc s it"
    and e: "\<And>k md. k \<noteq> [] \<Longrightarrow> e k = Some md \<Longrightarrow> GetMetadata mc k s = Ok md"
  shows "path link e (it_key it) ks \<Longrightarrow>
    visit_all step it = Some (Ok (filter (\<lambda>md. \<not> skip (it_fromEpoch it) md) (takeWhile (\<lambda>md. \<not> stop (it_toEpoch it) md) (map (\<lambda>k. the (e k)) ks))))"
proof (induction ks arbitrary: it)
  case Nil
  then show ?case by (subst visit_all.simps) (simp add: step next_loop.simps)
next
  case (Cons k ks)
  then obtain md where md: "it_key it = Some k" "k \<noteq> []" "e k = Some md" "path link e (link md) ks" by auto
  have once: "step it = (if stop (it_toEpoch it) md then Some (Ok (False, it\<lparr>it_key := None\<rparr>))
      else if skip (it_fromEpoch it) md then step (it\<lparr>it_key := link md\<rparr>)
      else Some (Ok (True, it\<lparr>it_key := link md, it_md := Some md\<rparr>)))"
    using e [OF md(2,3)] md(1) unfolding step by (subst next_loop.simps) simp
  consider "stop (it_toEpoch it) md" | "\<not> stop (it_toEpoch it) md" "skip (it_fromEpoch it) md"
    | "\<not> stop (it_toEpoch it) md" "\<not> skip (it_fromEpoch it) md" by blast
  then show ?case
  proof cases
    case 1
    then show ?thesis using md(3) by (subst visit_all.simps) (simp add: once)
  next
    case 2
    then have "visit_all step it = visit_all step (it\<lparr>it_key := link md\<rparr>)"
      by (subst (1 2) visit_all.simps) (simp add: once)
    with 2 md(3) Cons.IH [of "it\<lparr>it_key := link md\<rparr>"] md(4) show ?thesis by simp
  next
    case 3
    with md(3) Cons.IH [of "it\<lparr>it_key := link md, it_md := Some md\<rparr>"] md(4) show ?thesis
      by (subst visit_all.simps) (simp add: once)
  qed
qed

lemma takeWhile_upward:
  "sorted_wrt (\<lambda>x y. stop x \<longrightarrow> stop y) xs \<Longrightarrow> takeWhile (\<lambda>x. \<not> stop x) xs = filter (\<lambda>x. \<not> stop x) xs"
proof (induction xs)
  case (Cons a xs)
  then show ?case by (cases "stop a") (auto simp: filter_empty_conv)
qed simp

lemma chain_start: "chain e ks \<Longrightarrow> path md_NextKey e (Some (hd ks)) ks" "chain e ks \<Longrightarrow> path md_PreviousKey e (Some (last ks)) (rev ks)"
  using path_forward [of e None ks] path_backward [of e None ks "[]"] by (auto simp: chain_def split: list.splits)


text \<open>A chain of two nodes, in a metadata store without processing.\<close>

definition demo_node :: "byte \<Rightarrow> slice \<Rightarrow> slice \<Rightarrow> Metadata" where
  "demo_node k prev nxt = \<lparr>md_Key = [k], md_Size = 0, md_CreationEpoch = 3 * uint k, md_LastWriteEpoch = 3 * uint k,
     md_Chunks = [], md_PreviousKey = prev, md_NextKey = nxt\<rparr>"

lemma demo_store:
  assumes "codec_ok 12 mc" "mc_db mc = lone_DB"
  shows "\<exists>s. metadata_of mc s [1] = Some (normal (demo_node 1 None nxt)) \<and> metadata_of mc s [2] = Some (normal (demo_node 2 prev None))"
proof -
  let ?x = "(meta_world.extend \<lparr>mw_rand = replicate 12 0, mw_metadata = new_Metadata\<rparr> undefined)"
  have x: "12 \<le> length (mw_rand ?x)" by (simp add: meta_world.defs)
  have keys: "md_Key (demo_node 1 None nxt) = [1]" "md_Key (demo_node 2 prev None) = [2]" by (simp_all add: demo_node_def)
  have first: "md_Key (demo_node 1 None nxt) \<noteq> []" and second: "md_Key (demo_node 2 prev None) \<noteq> []" by (simp_all add: keys)
  obtain s1 where "msd.entries mc s1 = (msd.entries mc metastor_New)([1] \<mapsto> normal (demo_node 1 None nxt))"
    using lone_SetMetadata [OF assms(2,1) first x, of metastor_New] unfolding keys by metis
  moreover obtain s2 where "msd.entries mc s2 = (msd.entries mc s1)([2] \<mapsto> normal (demo_node 2 prev None))"
    using lone_SetMetadata [OF assms(2,1) second x, of s1] unfolding keys by metis
  ultimately have "msd.entries mc s2 [1] = Some (normal (demo_node 1 None nxt))" "msd.entries mc s2 [2] = Some (normal (demo_node 2 prev None))" by simp_all
  then show ?thesis by (intro exI [of _ s2]) (simp add: metadata_of_entries [OF assms(2)])
qed


section \<open>Writing extends a chain\<close>

lemma chain_last:
  assumes "chain e ks"
  obtains md where "e (last ks) = Some md" "md_PreviousKey md \<noteq> Some []" "md_NextKey md = None"
proof -
  have "\<exists>md. e (last ks) = Some md \<and> md_NextKey md = None" if "linked e prev ks" "ks \<noteq> []" for prev
    using that by (induction e prev ks rule: linked.induct) auto
  then obtain md where md: "e (last ks) = Some md" "md_NextKey md = None" using assms by (auto simp: chain_def)
  have "ks \<noteq> []" using assms by (simp add: chain_def)
  then obtain ks' where "rev ks = last ks # ks'" by (cases ks rule: rev_cases) auto
  with chain_start(2) [OF assms] md(1) have "path md_PreviousKey e (md_PreviousKey md) ks'" by auto
  then have "md_PreviousKey md \<noteq> Some []" by (cases ks') auto
  with md that show thesis by blast
qed

lemma WriteLinked_spec:
  assumes made: "made_of q m h (storage_ops (zcluster order ns) env kind) (dataPipeline c)"
    and cdc: "codecs_ok cdc" "\<forall>c x. \<exists>y. compress cdc c x = Ok y"
    and meta: "codec_ok 12 (metastorClient c)" "mc_db (metastorClient c) = lone_DB" "24 \<le> length (mw_rand x)"
    and wr: "writable (dataPipeline c) (key, pieces) (cw_sched x 0)"
    and ready: "zf.ready order ns env kind (length (inputs_of (dataPipeline c) pieces) + n) (cw_data x)"
    and prev: "prevKey \<noteq> []" "prevKey \<noteq> key" "msd.entries (metastorClient c) s prevKey = Some prevMeta"
  shows "\<exists>meta s' x'. client_WriteLinked cdc dg c key prevKey (Some (reads_of pieces)) (s, x) =
      Some (Ok ((Some meta, prevMeta\<lparr>md_NextKey := Some key\<rparr>), s', x')) \<and>
    md_Key meta = key \<and> md_PreviousKey meta = Some prevKey \<and> md_NextKey meta = None \<and> md_CreationEpoch meta = cw_clock x 0 \<and>
    msd.entries (metastorClient c) s' =
      (msd.entries (metastorClient c) s)(key \<mapsto> normal meta, prevKey \<mapsto> normal (prevMeta\<lparr>md_NextKey := Some key\<rparr>)) \<and>
    zf.run.written ns env kind cdc dg q h (inputs_of (dataPipeline c) pieces) (md_Chunks meta) (cw_data x') \<and>
    (\<forall>cfg d. zf.holds ns env kind (cw_data x) cfg d \<longrightarrow> zf.holds ns env kind (cw_data x') cfg d)"
proof -
  from wr have key: "key \<noteq> []" and pieces: "pieces \<noteq> []" "[] \<notin> set pieces"
    and sch: "schedule_ok (length (inputs_of (dataPipeline c) pieces)) (cw_sched x 0)" "enough_randomness (cw_sched x 0)"
    by (simp_all add: writable_def)
  from zf.run.pipeline_write_spec [OF made cdc pieces sch ready, of dg] obtain chunks data where
    w: "pipeline_Write cdc dg (dataPipeline c) (cw_sched x 0) (Some (reads_of pieces)) (cw_data x) = Some (Ok (chunks, data))"
      "zf.run.written ns env kind cdc dg q h (inputs_of (dataPipeline c) pieces) chunks data"
      "\<forall>cfg d. zf.holds ns env kind (cw_data x) cfg d \<longrightarrow> zf.holds ns env kind data cfg d"
    by blast
  let ?meta = "\<lparr>md_Key = key, md_Size = total_size chunks, md_CreationEpoch = cw_clock x 0, md_LastWriteEpoch = cw_clock x 0,
      md_Chunks = chunks, md_PreviousKey = Some prevKey, md_NextKey = None\<rparr>"
  let ?prev = "prevMeta\<lparr>md_NextKey := Some key\<rparr>" and ?start = "x\<lparr>cw_meta := None\<rparr>"
  let ?x = "x\<lparr>mw_metadata := prevMeta, cw_data := data, cw_sched := (\<lambda>n. cw_sched x (Suc n)), cw_clock := (\<lambda>n. cw_clock x (Suc n)), cw_meta := Some ?meta\<rparr>"
  have pre: "md_Key ?meta \<noteq> []" "12 \<le> length (mw_rand ?x)" using key meta(3) by simp_all
  from lone_SetMetadata [OF meta(2,1) pre, of s] obtain s1 rand1 where
    s1: "SetMetadata (metastorClient c) ?meta (s, ?x) = (Ok (), s1, ?x\<lparr>mw_rand := rand1\<rparr>)" "length (mw_rand x) \<le> length rand1 + 12"
      "msd.entries (metastorClient c) s1 = (msd.entries (metastorClient c) s)(key \<mapsto> normal ?meta)"
      "msd_md s1 prevKey = msd_md s prevKey \<and> version s1 prevKey = version s prevKey" using prev(2) by auto
  have cb: "linked_callback cdc dg c key prevKey (Some (reads_of pieces)) prevMeta (s, ?start\<lparr>mw_metadata := prevMeta\<rparr>) = (Ok ?prev, s1, ?x\<lparr>mw_rand := rand1\<rparr>)"
    using w(1) s1(1) by (simp add: linked_callback_def run_write_def EpochNow_def Let_def)
  have rand: "12 \<le> length (mw_rand (?x\<lparr>mw_rand := rand1\<rparr>))" using s1(2) meta(3) by simp
  from lone_UpdateMetadata [where cb = "linked_callback cdc dg c key prevKey (Some (reads_of pieces))" and x = ?start and md' = ?prev and x' = "?x\<lparr>mw_rand := rand1\<rparr>", OF meta(2,1) prev(1,3) cb s1(4) rand] obtain s2 rand2 where
    s2: "UpdateMetadata (metastorClient c) prevKey (linked_callback cdc dg c key prevKey (Some (reads_of pieces))) (s, ?start) =
        Some (Ok ?prev, s2, ?x\<lparr>mw_rand := rand1, mw_metadata := ?prev, mw_rand := rand2\<rparr>)"
      "msd.entries (metastorClient c) s2 = (msd.entries (metastorClient c) s1)(prevKey \<mapsto> normal ?prev)" by blast
  have "client_WriteLinked cdc dg c key prevKey (Some (reads_of pieces)) (s, x) =
      Some (Ok ((Some ?meta, ?prev), s2, ?x\<lparr>mw_rand := rand1, mw_metadata := ?prev, mw_rand := rand2\<rparr>))"
    using s2(1) key prev(1) by (simp add: client_WriteLinked_def finish_update_def)
  then show ?thesis using s1(3) s2(2) w(2,3) by (intro exI conjI) (assumption | simp)+
qed



section \<open>Cycles\<close>

text \<open>
  A node that is linked to itself, which \<open>WriteLinked\<close> makes when it is called with one key twice, and
  that is to be skipped: \<open>Next\<close> does not return.
\<close>

lemma next_loop_self:
  assumes "GetMetadata mc key s = Ok md" "link md = Some key" "\<not> stop md" "skip md"
  shows "it_key it = Some key \<Longrightarrow> next_loop link stop skip mc s it = None"
proof -
  let ?P = "\<lambda>l st sk m t i (_ :: (unit, bool \<times> traverse_iterator) result).
    l = link \<and> st = stop \<and> sk = skip \<and> m = mc \<and> t = s \<longrightarrow> it_key i \<noteq> Some key"
  have step: "?P l st sk m t i y"
    if "\<And>l st sk m t i y. f l st sk m t i = Some y \<Longrightarrow> ?P l st sk m t i y"
      "(case it_key i of None \<Rightarrow> Some (Ok (False, i)) | Some key \<Rightarrow> (case GetMetadata m key t of Err e \<Rightarrow> Some (Ok (False, i)) | Panic \<Rightarrow> Some Panic
        | Ok md \<Rightarrow> if st md then Some (Ok (False, i\<lparr>it_key := None\<rparr>)) else if sk md then f l st sk m t (i\<lparr>it_key := l md\<rparr>)
            else Some (Ok (True, i\<lparr>it_key := l md, it_md := Some md\<rparr>)))) = Some y" for f l st sk m t i y
    using that(2) that(1) [of link stop skip mc s "i\<lparr>it_key := Some key\<rparr>" y] assms by (auto split: option.splits)
  have "it_key it \<noteq> Some key" if "next_loop link stop skip mc s it = Some y" for y
  proof -
    have "?P link stop skip mc s it y" by (rule next_loop.raw_induct [where P = ?P, OF _ that]) (erule step [rotated], blast)
    then show ?thesis by simp
  qed
  then show "it_key it = Some key \<Longrightarrow> next_loop link stop skip mc s it = None" by (cases "next_loop link stop skip mc s it") auto
qed

end
