(* ===== verification/Go_Net.thy ===== *)
theory Go_Net
  imports Go_Strings
begin

text \<open>
  The functions of Go's package \<open>net\<close> that the flags of the tools use: \<open>SplitHostPort\<close>, and \<open>ParseIP\<close> as far as
  it tells whether a text is an address.
\<close>

section \<open>SplitHostPort\<close>

definition addrErr :: "string \<Rightarrow> string \<Rightarrow> (string, 'a) result" where
  "addrErr addr why = Err (''address '' @ addr @ '': '' @ why)"

definition missingPort :: string where "missingPort = ''missing port in address''"
definition tooManyColons :: string where "tooManyColons = ''too many colons in address''"

text \<open>No bracket may occur from the positions \<open>j\<close> and \<open>k\<close> on.\<close>

definition check_brackets :: "string \<Rightarrow> string \<Rightarrow> nat \<Rightarrow> nat \<Rightarrow> nat \<Rightarrow> (string, string \<times> string) result" where
  "check_brackets hostport host i j k =
     (if IndexByte (drop j hostport) (CHR ''['') \<noteq> None then addrErr hostport (''unexpected '' @ [CHR 0x27] @ ''['' @ [CHR 0x27] @ '' in address'')
      else if IndexByte (drop k hostport) (CHR '']'') \<noteq> None then addrErr hostport (''unexpected '' @ [CHR 0x27] @ '']'' @ [CHR 0x27] @ '' in address'')
      else Ok (host, drop (i + 1) hostport))"

definition SplitHostPort :: "string \<Rightarrow> (string, string \<times> string) result" where
  "SplitHostPort hostport =
     (case LastIndexByte hostport (CHR '':'') of
        None \<Rightarrow> addrErr hostport missingPort
      | Some i \<Rightarrow>
          if hostport ! 0 = CHR ''[''
          then (case IndexByte hostport (CHR '']'') of
                  None \<Rightarrow> addrErr hostport (''missing '' @ [CHR 0x27] @ '']'' @ [CHR 0x27] @ '' in address'')
                | Some e \<Rightarrow>
                    if e + 1 = length hostport then addrErr hostport missingPort
                    else if e + 1 = i then check_brackets hostport (take (e - 1) (drop 1 hostport)) i 1 (e + 1)
                    else if hostport ! (e + 1) = CHR '':'' then addrErr hostport tooManyColons
                    else addrErr hostport missingPort)
          else let host = take i hostport in
               if IndexByte host (CHR '':'') \<noteq> None then addrErr hostport tooManyColons
               else check_brackets hostport host i 0 0)"

section \<open>ParseIP\<close>

text \<open>
  \<open>dtoi\<close> and \<open>xtoi\<close>: the number at the start of the text and how many bytes it takes; a number that is
  missing or too big is \<open>None\<close>.
\<close>

definition big :: nat where "big = 0xFFFFFF"

fun scan_number :: "nat \<Rightarrow> (char \<Rightarrow> nat option) \<Rightarrow> nat \<Rightarrow> nat \<Rightarrow> string \<Rightarrow> (nat \<times> nat) option" where
  "scan_number base digit n i [] = (if i = 0 then None else Some (n, i))"
| "scan_number base digit n i (c # s) =
     (case digit c of
        None \<Rightarrow> if i = 0 then None else Some (n, i)
      | Some d \<Rightarrow> let n = n * base + d in if n \<ge> big then None else scan_number base digit n (Suc i) s)"

definition decimal_digit :: "char \<Rightarrow> nat option" where
  "decimal_digit c = (if 48 \<le> (of_char c :: nat) \<and> of_char c \<le> (57 :: nat) then Some (of_char c - 48) else None)"

definition hex_digit :: "char \<Rightarrow> nat option" where
  "hex_digit c =
     (if 48 \<le> (of_char c :: nat) \<and> of_char c \<le> (57 :: nat) then Some (of_char c - 48)
      else if 97 \<le> (of_char c :: nat) \<and> of_char c \<le> (102 :: nat) then Some (of_char c - 87)
      else if 65 \<le> (of_char c :: nat) \<and> of_char c \<le> (70 :: nat) then Some (of_char c - 55)
      else None)"

definition dtoi :: "string \<Rightarrow> (nat \<times> nat) option" where "dtoi = scan_number 10 decimal_digit 0 0"
definition xtoi :: "string \<Rightarrow> (nat \<times> nat) option" where "xtoi = scan_number 16 hex_digit 0 0"

text \<open>The octets of an address that are still missing; all but the first follow a dot.\<close>

fun parse_octets :: "bool \<Rightarrow> nat \<Rightarrow> string \<Rightarrow> bool" where
  "parse_octets dot 0 s \<longleftrightarrow> s = []"
| "parse_octets dot (Suc k) s \<longleftrightarrow>
     s \<noteq> [] \<and> (dot \<longrightarrow> hd s = CHR ''.'') \<and>
     (let s = (if dot then tl s else s) in
      case dtoi s of None \<Rightarrow> False | Some (n, c) \<Rightarrow> n \<le> 0xFF \<and> parse_octets True k (drop c s))"

definition parseIPv4 :: "string \<Rightarrow> bool" where
  "parseIPv4 s = parse_octets False 4 s"

text \<open>
  The groups of an address of 16 bytes from byte \<open>i\<close> on, with the place of the ellipsis when there has been
  one: how far they reach, and what of the text is left.
\<close>

function parse_groups :: "nat \<Rightarrow> nat option \<Rightarrow> string \<Rightarrow> (nat \<times> nat option \<times> string) option" where
  "parse_groups i ellipsis s =
     (if i \<ge> 16 then Some (i, ellipsis, s)
      else case xtoi s of
        None \<Rightarrow> None
      | Some (n, c) \<Rightarrow>
          if n > 0xFFFF then None
          else if c < length s \<and> s ! c = CHR ''.''
          then (if ellipsis = None \<and> i \<noteq> 12 then None else if i + 4 > 16 then None
                else if \<not> parseIPv4 s then None else Some (i + 4, ellipsis, []))
          else let s = drop c s in
            if s = [] then Some (i + 2, ellipsis, s)
            else if hd s \<noteq> CHR '':'' \<or> length s = 1 then None
            else let s = tl s in
              if hd s = CHR '':''
              then (if ellipsis \<noteq> None then None
                    else let s = tl s in if s = [] then Some (i + 2, Some (i + 2), s) else parse_groups (i + 2) (Some (i + 2)) s)
              else parse_groups (i + 2) ellipsis s)"
  by pat_completeness auto

termination
  by (relation "measure (\<lambda>(i, _, _). 16 - i)") auto

definition parseIPv6 :: "string \<Rightarrow> bool" where
  "parseIPv6 s =
     (let lead = (length s \<ge> 2 \<and> s ! 0 = CHR '':'' \<and> s ! 1 = CHR '':''); s = (if lead then drop 2 s else s) in
      lead \<and> s = [] \<or>
      (case parse_groups 0 (if lead then Some 0 else None) s of
         None \<Rightarrow> False
       | Some (i, ellipsis, s) \<Rightarrow> s = [] \<and> (if i < 16 then ellipsis \<noteq> None else ellipsis = None)))"

fun ip_version :: "string \<Rightarrow> nat" where
  "ip_version [] = 0"
| "ip_version (c # s) = (if c = CHR ''.'' then 4 else if c = CHR '':'' then 6 else ip_version s)"

definition ParseIP :: "string \<Rightarrow> bool" where
  "ParseIP s = (if ip_version s = 4 then parseIPv4 s else if ip_version s = 6 then parseIPv6 s else False)"

end
