(* ===== verification/Cmd_Flags.thy ===== *)
theory Cmd_Flags
  imports Go_Net
begin

text \<open>
  The types of the command line flags (\<open>cmd/flag.go\<close>).  A flag is a value with a method \<open>Set\<close> that parses a
  text into it and a method \<open>String\<close> that prints it.
\<close>

section \<open>Strings\<close>

type_synonym Strings = "string list"

definition Strings_String :: "Strings \<Rightarrow> string" where
  "Strings_String s = (if length s = 0 then [] else Join '','' s)"

definition Strings_Strings :: "Strings \<Rightarrow> string list" where
  "Strings_Strings s = s"

definition Strings_Set :: "string \<Rightarrow> (Strings, string, unit) op" where
  "Strings_Set str s = (Ok (), if length str = 0 then [] else Split (CHR '','') str)"

definition Strings_Type :: string where "Strings_Type = ''strings''"

section \<open>Listen addresses\<close>

type_synonym netProto = byte

record ListenAddress =
  la_addr :: string
  la_proto :: netProto

definition defaultTCPListenAddress :: string where "defaultTCPListenAddress = '':8080''"

definition netProtoTCP :: netProto where "netProtoTCP = 0"
definition netProtoUnix :: netProto where "netProtoUnix = 1"

definition ListenAddress_String :: "ListenAddress \<Rightarrow> string" where
  "ListenAddress_String b =
     (if la_proto b = netProtoUnix then la_addr b
      else if length (la_addr b) = 0 then defaultTCPListenAddress else la_addr b)"

definition ListenAddress_Set :: "string \<Rightarrow> (ListenAddress, string, unit) op" where
  "ListenAddress_Set str b =
     (if length str = 0 then (Ok (), \<lparr>la_addr = defaultTCPListenAddress, la_proto = netProtoTCP\<rparr>)
      else if (case IndexAny str ''/:'' of None \<Rightarrow> True | Some i \<Rightarrow> str ! i = CHR ''/'')
      then (Ok (), \<lparr>la_addr = str, la_proto = netProtoUnix\<rparr>)
      else (case SplitHostPort str of
              Err e \<Rightarrow> (Err e, b)
            | Panic \<Rightarrow> (Panic, b)
            | Ok (host, _) \<Rightarrow>
                if host \<noteq> [] \<and> \<not> ParseIP host then (Err ''host not valid'', b)
                else (Ok (), \<lparr>la_addr = str, la_proto = netProtoTCP\<rparr>)))"

definition ListenAddress_Description :: string where
  "ListenAddress_Description = ''Bind the server to the given unix socket path or tcp address.'' @
     '' Format has to be either host:port, with host optional, or a valid unix (socket) path.''"

definition ListenAddress_Type :: string where "ListenAddress_Type = ''listenAddress''"

definition NetworkProtocol :: "ListenAddress \<Rightarrow> string" where
  "NetworkProtocol b = (if la_proto b = netProtoTCP then ''tcp'' else if la_proto b = netProtoUnix then ''unix'' else [])"

section \<open>Profile modes\<close>

type_synonym ProfileMode = byte

definition ProfileModeDisabled :: ProfileMode where "ProfileModeDisabled = 0"
definition ProfileModeCPU :: ProfileMode where "ProfileModeCPU = 1"
definition ProfileModeMem :: ProfileMode where "ProfileModeMem = 2"
definition ProfileModeBlock :: ProfileMode where "ProfileModeBlock = 3"
definition ProfileModeTrace :: ProfileMode where "ProfileModeTrace = 4"
definition MinProfileMode :: ProfileMode where "MinProfileMode = ProfileModeCPU"
definition MaxProfileMode :: ProfileMode where "MaxProfileMode = ProfileModeTrace"

definition ProfileModeStrings :: "string list" where
  "ProfileModeStrings = ['''', ''cpu'', ''mem'', ''block'', ''trace'']"

text \<open>The index of the first of the names that is the text.\<close>

fun name_index :: "string \<Rightarrow> string list \<Rightarrow> nat option" where
  "name_index str [] = None"
| "name_index str (name # names) = (if name = str then Some 0 else map_option Suc (name_index str names))"

definition ProfileMode_String :: "ProfileMode \<Rightarrow> string" where
  "ProfileMode_String p = (if p > MaxProfileMode then [] else ProfileModeStrings ! unat p)"

definition ProfileMode_Set :: "string \<Rightarrow> (ProfileMode, string, unit) op" where
  "ProfileMode_Set str p =
     (case name_index str ProfileModeStrings of
        Some index \<Rightarrow> (Ok (), of_nat index)
      | None \<Rightarrow> (Err (''profile mode '' @ str @ '' not recognized or supported''), p))"

definition ProfileMode_Type :: string where "ProfileMode_Type = ''profileMode''"

definition ProfileMode_Description :: "ProfileMode \<Rightarrow> string" where
  "ProfileMode_Description p =
     (let lo = unat MinProfileMode; hi = unat (MinProfileMode + MaxProfileMode);
          modes = Join '', '' (take (hi - lo) (drop lo ProfileModeStrings)); str = ProfileMode_String p in
      if str \<noteq> [] then ''Enable profiling mode, one of ['' @ modes @ ''] (default '' @ str @ '')''
      else ''Enable profiling mode, one of ['' @ modes @ '']'')"

section \<open>TLS versions\<close>

type_synonym cmd_TLSVersion = byte

definition TLSVersion12 :: cmd_TLSVersion where "TLSVersion12 = 0"
definition TLSVersion11 :: cmd_TLSVersion where "TLSVersion11 = 1"
definition TLSVersion10 :: cmd_TLSVersion where "TLSVersion10 = 2"
definition cmd_MaxTLSVersion :: cmd_TLSVersion where "cmd_MaxTLSVersion = TLSVersion10"

definition cmd_TLSVersionStrings :: "string list" where
  "cmd_TLSVersionStrings = [''TLS12'', ''TLS11'', ''TLS10'']"

definition cmd_TlsVersionValues :: "16 word list" where
  "cmd_TlsVersionValues = [0x0303, 0x0302, 0x0301]"

definition cmd_TLSVersion_String :: "cmd_TLSVersion \<Rightarrow> string" where
  "cmd_TLSVersion_String v = (if v > cmd_MaxTLSVersion then [] else cmd_TLSVersionStrings ! unat v)"

definition cmd_TLSVersion_Set :: "string \<Rightarrow> (cmd_TLSVersion, string, unit) op" where
  "cmd_TLSVersion_Set str v =
     (let str = ToUpper str in
      case name_index str cmd_TLSVersionStrings of
        Some index \<Rightarrow> (Ok (), of_nat index)
      | None \<Rightarrow> (Err (''TLS version '' @ str @ '' not recognized or supported''), v))"

definition cmd_TLSVersion_Type :: string where "cmd_TLSVersion_Type = ''TLSVersion''"

definition cmd_TLSVersion_Description :: "string \<Rightarrow> string" where
  "cmd_TLSVersion_Description desc = desc @ '', one of ['' @ Join '', '' cmd_TLSVersionStrings @ ''].''"

definition VersionTLS :: "cmd_TLSVersion \<Rightarrow> ('e, 16 word) result" where
  "VersionTLS v = (if v > cmd_MaxTLSVersion then Panic else Ok (cmd_TlsVersionValues ! unat v))"

section \<open>Values of flags\<close>

text \<open>A path has no colon before its first slash; a TCP address has an IP address or nothing for its host.\<close>

definition is_path :: "string \<Rightarrow> bool" where
  "is_path str \<longleftrightarrow> (case IndexAny str ''/:'' of None \<Rightarrow> True | Some i \<Rightarrow> str ! i = CHR ''/'')"

definition is_tcp :: "string \<Rightarrow> bool" where
  "is_tcp str \<longleftrightarrow> (case SplitHostPort str of Ok (host, _) \<Rightarrow> host = [] \<or> ParseIP host | _ \<Rightarrow> False)"

definition listen_ok :: "ListenAddress \<Rightarrow> bool" where
  "listen_ok b \<longleftrightarrow> la_addr b \<noteq> [] \<and>
     (la_proto b = netProtoUnix \<and> is_path (la_addr b) \<or> la_proto b = netProtoTCP \<and> \<not> is_path (la_addr b) \<and> is_tcp (la_addr b))"

lemma default_address: "\<not> is_path '':8080''" "is_tcp '':8080''"
  by code_simp+

lemma SplitHostPort_no_panic: "SplitHostPort s \<noteq> Panic"
  by (simp add: SplitHostPort_def check_brackets_def addrErr_def Let_def split: option.splits)

lemma ListenAddress_Set_eq:
  "ListenAddress_Set str b =
     (if str = [] then (Ok (), \<lparr>la_addr = '':8080'', la_proto = netProtoTCP\<rparr>)
      else if is_path str then (Ok (), \<lparr>la_addr = str, la_proto = netProtoUnix\<rparr>)
      else if is_tcp str then (Ok (), \<lparr>la_addr = str, la_proto = netProtoTCP\<rparr>)
      else (case SplitHostPort str of Err e \<Rightarrow> (Err e, b) | _ \<Rightarrow> (Err ''host not valid'', b)))"
  using SplitHostPort_no_panic [of str]
  by (auto simp: ListenAddress_Set_def is_path_def [symmetric] is_tcp_def defaultTCPListenAddress_def split: result.splits)

lemma ListenAddress_Set_ok:
  "ListenAddress_Set str b = (Ok (), b') \<Longrightarrow> listen_ok b' \<and> ListenAddress_String b' = (if str = [] then '':8080'' else str)"
  by (auto simp: ListenAddress_Set_eq listen_ok_def ListenAddress_String_def netProtoUnix_def netProtoTCP_def default_address split: if_splits result.splits)

lemma ListenAddress_Set_err: "ListenAddress_Set str b = (Err e, b') \<Longrightarrow> b' = b" "fst (ListenAddress_Set str b) \<noteq> Panic"
  by (auto simp: ListenAddress_Set_eq split: if_splits result.splits)

lemma ListenAddress_roundtrip: "listen_ok b \<Longrightarrow> ListenAddress_Set (ListenAddress_String b) b' = (Ok (), b)"
  by (cases b) (auto simp: listen_ok_def ListenAddress_Set_eq ListenAddress_String_def netProtoUnix_def netProtoTCP_def)

lemma name_index_Some: "name_index str names = Some i \<Longrightarrow> i < length names \<and> names ! i = str"
  by (induction names arbitrary: i) (auto split: if_splits)

lemma name_index_nth: "distinct names \<Longrightarrow> i < length names \<Longrightarrow> name_index (names ! i) names = Some i"
  by (induction names arbitrary: i) (auto simp: nth_Cons' nth_mem split: if_splits)

lemma Strings_roundtrip:
  assumes "\<forall>w\<in>set s. CHR '','' \<notin> set w" "s \<noteq> [[]]"
  shows "Strings_Set (Strings_String s) s' = (Ok (), s)"
proof -
  have "Join '','' s \<noteq> []" if "s \<noteq> []" using that assms(2) by (induction "'',''" s rule: Join.induct) auto
  then show ?thesis using Split_Join [OF _ assms(1)] by (auto simp: Strings_Set_def Strings_String_def)
qed

lemma ProfileMode_Set_ok: "ProfileMode_Set str p = (Ok (), p') \<Longrightarrow> p' \<le> MaxProfileMode \<and> ProfileMode_String p' = str"
proof -
  assume "ProfileMode_Set str p = (Ok (), p')"
  then obtain i where i: "name_index str ProfileModeStrings = Some i" "p' = of_nat i"
    by (auto simp: ProfileMode_Set_def split: option.splits)
  have names: "length ProfileModeStrings = 5" by (simp add: ProfileModeStrings_def)
  from name_index_Some [OF i(1)] names have "i < 5" "ProfileModeStrings ! i = str" by simp_all
  moreover from this have "unat (of_nat i :: byte) = i" by (simp add: unat_of_nat)
  ultimately show ?thesis using i(2)
    by (simp add: ProfileMode_String_def MaxProfileMode_def ProfileModeTrace_def word_le_nat_alt word_less_nat_alt)
qed

lemma ProfileMode_roundtrip:
  assumes "p \<le> MaxProfileMode"
  shows "ProfileMode_Set (ProfileMode_String p) p' = (Ok (), p)"
proof -
  have "unat p < length ProfileModeStrings" "distinct ProfileModeStrings"
    using assms by (simp_all add: word_le_nat_alt MaxProfileMode_def ProfileModeTrace_def ProfileModeStrings_def)
  then have "name_index (ProfileModeStrings ! unat p) ProfileModeStrings = Some (unat p)" by (rule name_index_nth [rotated])
  then show ?thesis using leD [OF assms] by (simp add: ProfileMode_Set_def ProfileMode_String_def)
qed

lemma TLSVersion_Set_ok: "cmd_TLSVersion_Set str v = (Ok (), v') \<Longrightarrow> v' \<le> cmd_MaxTLSVersion \<and> cmd_TLSVersion_String v' = ToUpper str"
proof -
  assume "cmd_TLSVersion_Set str v = (Ok (), v')"
  then obtain i where i: "name_index (ToUpper str) cmd_TLSVersionStrings = Some i" "v' = of_nat i"
    by (auto simp: cmd_TLSVersion_Set_def Let_def split: option.splits)
  have names: "length cmd_TLSVersionStrings = 3" by (simp add: cmd_TLSVersionStrings_def)
  from name_index_Some [OF i(1)] names have "i < 3" "cmd_TLSVersionStrings ! i = ToUpper str" by simp_all
  moreover from this have "unat (of_nat i :: byte) = i" by (simp add: unat_of_nat)
  ultimately show ?thesis using i(2)
    by (simp add: cmd_TLSVersion_String_def cmd_MaxTLSVersion_def TLSVersion10_def word_le_nat_alt word_less_nat_alt)
qed

lemma VersionTLS_ok: "v \<le> cmd_MaxTLSVersion \<Longrightarrow> \<exists>w. VersionTLS v = Ok w"
  by (simp add: VersionTLS_def not_less)

lemma flag_Set_err:
  "ProfileMode_Set str p = (Err e, p') \<Longrightarrow> p' = p" "cmd_TLSVersion_Set str v = (Err e, v') \<Longrightarrow> v' = v"
  by (auto simp: ProfileMode_Set_def cmd_TLSVersion_Set_def Let_def split: option.splits)

end
