(* ===== verification/Go_Regexp.thy ===== *)
theory Go_Regexp
  imports Zstor_Prelude
begin

text \<open>
  The part of Go's package \<open>regexp\<close> that the sources use: expressions anchored at both ends, matched
  leftmost-first, that is in the order in which a backtracking search would try the alternatives.  A
  match is given by the text it takes and the rest of the input.
\<close>

datatype re = Empty | Chars "char \<Rightarrow> bool" | Dot | Then re re | Alt re re

text \<open>A dot takes one rune, which is one byte unless a valid multi-byte encoding starts there.\<close>

definition byte_in :: "nat \<Rightarrow> nat \<Rightarrow> char \<Rightarrow> bool" where
  "byte_in lo hi c \<longleftrightarrow> lo \<le> of_char c \<and> of_char c \<le> hi"

fun rune_length :: "string \<Rightarrow> nat" where
  "rune_length (a # b # c # d # s) =
     (if byte_in 0xC2 0xDF a \<and> byte_in 0x80 0xBF b then 2
      else if byte_in 0xE0 0xEF a \<and> byte_in (if a = CHR 0xE0 then 0xA0 else 0x80) (if a = CHR 0xED then 0x9F else 0xBF) b \<and> byte_in 0x80 0xBF c then 3
      else if byte_in 0xF0 0xF4 a \<and> byte_in (if a = CHR 0xF0 then 0x90 else 0x80) (if a = CHR 0xF4 then 0x8F else 0xBF) b \<and>
        byte_in 0x80 0xBF c \<and> byte_in 0x80 0xBF d then 4
      else 1)"
| "rune_length [a, b, c] =
     (if byte_in 0xC2 0xDF a \<and> byte_in 0x80 0xBF b then 2
      else if byte_in 0xE0 0xEF a \<and> byte_in (if a = CHR 0xE0 then 0xA0 else 0x80) (if a = CHR 0xED then 0x9F else 0xBF) b \<and> byte_in 0x80 0xBF c then 3
      else 1)"
| "rune_length [a, b] = (if byte_in 0xC2 0xDF a \<and> byte_in 0x80 0xBF b then 2 else 1)"
| "rune_length s = 1"

fun re_matches :: "re \<Rightarrow> string \<Rightarrow> (string \<times> string) list" where
  "re_matches Empty s = [([], s)]"
| "re_matches (Chars P) s = (case s of [] \<Rightarrow> [] | c # r \<Rightarrow> if P c then [([c], r)] else [])"
| "re_matches Dot s = (if s = [] \<or> hd s = CHR 0x0A then [] else [(take (rune_length s) s, drop (rune_length s) s)])"
| "re_matches (Then p q) s = concat (map (\<lambda>(a, r). map (\<lambda>(b, r'). (a @ b, r')) (re_matches q r)) (re_matches p s))"
| "re_matches (Alt p q) s = re_matches p s @ re_matches q s"

abbreviation Optional :: "re \<Rightarrow> re" where
  "Optional p \<equiv> Alt p Empty"

text \<open>Up to \<open>n\<close> repetitions, as many as possible first.\<close>

fun Upto :: "nat \<Rightarrow> re \<Rightarrow> re" where
  "Upto 0 p = Empty"
| "Upto (Suc n) p = Optional (Then p (Upto n p))"

section \<open>Matches and the language\<close>

fun re_lang :: "re \<Rightarrow> string \<Rightarrow> bool" where
  "re_lang Empty m \<longleftrightarrow> m = []"
| "re_lang (Chars P) m \<longleftrightarrow> (\<exists>c. m = [c] \<and> P c)"
| "re_lang Dot m \<longleftrightarrow> False"
| "re_lang (Then p q) m \<longleftrightarrow> (\<exists>a b. m = a @ b \<and> re_lang p a \<and> re_lang q b)"
| "re_lang (Alt p q) m \<longleftrightarrow> re_lang p m \<or> re_lang q m"

fun dot_free :: "re \<Rightarrow> bool" where
  "dot_free Dot \<longleftrightarrow> False"
| "dot_free (Then p q) \<longleftrightarrow> dot_free p \<and> dot_free q"
| "dot_free (Alt p q) \<longleftrightarrow> dot_free p \<and> dot_free q"
| "dot_free _ \<longleftrightarrow> True"

lemma re_matches_iff: "dot_free p \<Longrightarrow> (m, r) \<in> set (re_matches p s) \<longleftrightarrow> s = m @ r \<and> re_lang p m"
proof (induction p arbitrary: m r s)
  case (Then p q)
  have "(m, r) \<in> set (re_matches (Then p q) s) \<longleftrightarrow>
      (\<exists>a r' b. (a, r') \<in> set (re_matches p s) \<and> (b, r) \<in> set (re_matches q r') \<and> m = a @ b)"
    by (auto simp: image_iff) (metis case_prod_conv)
  also have "\<dots> \<longleftrightarrow> (\<exists>a b. s = a @ b @ r \<and> re_lang p a \<and> re_lang q b \<and> m = a @ b)" using Then by auto
  also have "\<dots> \<longleftrightarrow> s = m @ r \<and> re_lang (Then p q) m" by (metis append.assoc re_lang.simps(4))
  finally show ?case .
qed (auto split: list.splits)

lemma rune_length_pos: "0 < rune_length s"
  by (cases s rule: rune_length.cases) simp_all

lemma Dot_split: "(m, r) \<in> set (re_matches Dot s) \<Longrightarrow> s = m @ r \<and> m \<noteq> []"
  using rune_length_pos [of s] by (auto split: if_splits)

lemma ascii_rune: "of_char c < (0x80 :: nat) \<Longrightarrow> rune_length (c # s) = 1"
  by (cases "c # s" rule: rune_length.cases) (simp_all add: byte_in_def)

lemma Dot_ascii: "of_char c < (0x80 :: nat) \<Longrightarrow> c \<noteq> CHR 0x0A \<Longrightarrow> re_matches Dot (c # s) = [([c], s)]"
  by (simp add: ascii_rune)

lemma dot_free_Upto [simp]: "dot_free p \<Longrightarrow> dot_free (Upto n p)"
  by (induction n) simp_all

lemma Upto_lang: "re_lang (Upto n (Chars P)) m \<longleftrightarrow> length m \<le> n \<and> list_all P m"
proof (induction n arbitrary: m)
  case (Suc n)
  show ?case
  proof (cases m)
    case (Cons c m')
    have "re_lang (Upto (Suc n) (Chars P)) m \<longleftrightarrow> P c \<and> re_lang (Upto n (Chars P)) m'"
      unfolding Cons by (auto simp: append_eq_Cons_conv intro: exI [of _ "[c]"])
    then show ?thesis unfolding Suc.IH by (auto simp: Cons)
  qed simp
qed auto

lemma Then_Chars_lang [simp]:
  "re_lang (Then (Chars P) q) m \<longleftrightarrow> (case m of [] \<Rightarrow> False | c # m \<Rightarrow> P c \<and> re_lang q m)"
  by (auto split: list.splits intro: exI [of _ "[hd m]"])

lemma Then_Optional_lang [simp]: "re_lang (Then (Optional p) q) m \<longleftrightarrow> re_lang (Then p q) m \<or> re_lang q m"
  by auto

declare re_lang.simps(4) [simp del]

end
