(* ===== verification/Cmd_Version.thy ===== *)
theory Cmd_Version
  imports Type_Registry Go_Regexp
begin

unbundle bit_operations_syntax

text \<open>
  The versions of the tools (\<open>cmd/version.go\<close>): a number of three bytes with an optional label, its text
  form and its parser.  The version of the Go runtime and the name of the operating system are
  arguments of the printed text.
\<close>

section \<open>Definitions\<close>

type_synonym VersionNumber = uint32
type_synonym VersionLabel = bytes

record Version =
  Number :: VersionNumber
  Label :: "VersionLabel option"

definition versionLabel :: "string \<Rightarrow> VersionLabel" where
  "versionLabel str = go_copy (replicate 8 0) (ascii str)"

definition NewVersion :: "byte \<Rightarrow> byte \<Rightarrow> byte \<Rightarrow> VersionLabel option \<Rightarrow> Version" where
  "NewVersion major minor patch label =
     \<lparr>Number = (push_bit 16 (ucast major) OR push_bit 8 (ucast minor)) OR ucast patch, Label = label\<rparr>"

definition CurrentVersion :: Version where
  "CurrentVersion = NewVersion 1 1 0 (Some (versionLabel ''beta-3''))"

definition NilVersion :: Version where
  "NilVersion = \<lparr>Number = 0, Label = None\<rparr>"

definition DefaultVersion :: Version where
  "DefaultVersion = NewVersion 1 1 0 None"

definition VersionFromUInt32 :: "uint32 \<Rightarrow> Version" where
  "VersionFromUInt32 v = \<lparr>Number = v, Label = None\<rparr>"

definition Version_Major :: "VersionNumber \<Rightarrow> byte" where "Version_Major n = ucast (drop_bit 16 n)"
definition Version_Minor :: "VersionNumber \<Rightarrow> byte" where "Version_Minor n = ucast (drop_bit 8 n)"
definition Version_Patch :: "VersionNumber \<Rightarrow> byte" where "Version_Patch n = ucast n"

text \<open>\<open>bytes.Trim\<close> takes the zero bytes off both ends.\<close>

definition VersionLabel_String :: "VersionLabel \<Rightarrow> string" where
  "VersionLabel_String l = bytes_string (rev (dropWhile (\<lambda>b. b = 0) (rev (dropWhile (\<lambda>b. b = 0) l))))"

definition Version_Compare :: "Version \<Rightarrow> Version \<Rightarrow> int" where
  "Version_Compare v other = (if Number v < Number other then - 1 else if Number v > Number other then 1 else 0)"

definition Version_UInt32 :: "Version \<Rightarrow> uint32" where
  "Version_UInt32 v = Number v"

definition Version_String :: "Version \<Rightarrow> string" where
  "Version_String v =
     (let str = decimal (unat (Version_Major (Number v))) @ ''.'' @ decimal (unat (Version_Minor (Number v))) @ ''.'' @
                decimal (unat (Version_Patch (Number v))) in
      case Label v of None \<Rightarrow> str | Some l \<Rightarrow> str @ ''-'' @ VersionLabel_String l)"

definition Version_MarshalText :: "Version \<Rightarrow> (string, bytes) result" where
  "Version_MarshalText v = Ok (ascii (Version_String v))"

text \<open>The expression \<open>verRegex\<close>: its three numbers, and the label behind a hyphen.\<close>

abbreviation is_digit :: "char \<Rightarrow> bool" where
  "is_digit \<equiv> byte_in 48 57"

definition number_re :: re where
  "number_re =
     Alt (Then (Optional (Chars (byte_in 48 49))) (Then (Optional (Chars is_digit)) (Chars is_digit)))
    (Alt (Then (Chars (\<lambda>c. c = CHR ''2'')) (Then (Chars (byte_in 48 52)) (Chars is_digit)))
         (Then (Chars (\<lambda>c. c = CHR ''2'')) (Then (Chars (\<lambda>c. c = CHR ''5'')) (Chars (byte_in 48 53)))))"

definition label_char :: "char \<Rightarrow> bool" where
  "label_char c \<longleftrightarrow> byte_in 65 90 c \<or> byte_in 97 122 c \<or> is_digit c \<or> c = CHR ''-''"

definition label_re :: re where
  "label_re = Then (Chars label_char) (Upto 7 (Chars label_char))"

definition label_matches :: "string \<Rightarrow> (string \<times> string) list" where
  "label_matches s = concat (map (\<lambda>(_, r). re_matches label_re r) (re_matches (Chars (\<lambda>c. c = CHR ''-'')) s)) @ [([], s)]"

definition verRegex :: "string \<Rightarrow> (string \<times> string \<times> string \<times> string) list" where
  "verRegex s =
     [(a, b, c, l). (a, s) \<leftarrow> re_matches number_re s, (_, s) \<leftarrow> re_matches Dot s, (b, s) \<leftarrow> re_matches number_re s,
        (_, s) \<leftarrow> re_matches Dot s, (c, s) \<leftarrow> re_matches number_re s, (l, s) \<leftarrow> label_matches s, s = []]"

text \<open>\<open>ParseUint\<close> of a text of digits, into eight bits; its error is not looked at.\<close>

definition digits_value :: "string \<Rightarrow> nat" where
  "digits_value s = foldl (\<lambda>n c. 10 * n + (of_char c - 48)) 0 s"

definition ParseUint8 :: "string \<Rightarrow> byte" where
  "ParseUint8 s = (if digits_value s > 255 then 255 else of_nat (digits_value s))"

definition VersionFromString :: "string \<Rightarrow> (string, Version) result" where
  "VersionFromString ver =
     (if ver = [] then Ok DefaultVersion
      else (case verRegex ver of
              [] \<Rightarrow> Err (''not a valid version format '' @ [CHR 0x27] @ ver @ [CHR 0x27])
            | (a, b, c, l) # _ \<Rightarrow>
                Ok (NewVersion (ParseUint8 a) (ParseUint8 b) (ParseUint8 c) (if length l \<noteq> 0 then Some (versionLabel l) else None))))"

text \<open>The receiver is overwritten also when the text is not a version.\<close>

definition Version_UnmarshalText :: "bytes \<Rightarrow> (Version, string, unit) op" where
  "Version_UnmarshalText b v =
     (case VersionFromString (bytes_string b) of Ok v' \<Rightarrow> (Ok (), v') | Err e \<Rightarrow> (Err e, NilVersion) | Panic \<Rightarrow> (Panic, v))"

definition PrintVersion :: "string \<Rightarrow> string \<Rightarrow> string \<Rightarrow> string \<Rightarrow> string" where
  "PrintVersion CommitHash BuildDate runtime_Version GOOS =
     (let crlf = [CHR 0x0D, CHR 0x0A];
          version = ''Version: '' @ Version_String CurrentVersion;
          version = (if CommitHash \<noteq> [] then version @ crlf @ ''Build: '' @ CommitHash @ (if BuildDate \<noteq> [] then '' '' @ BuildDate else []) else version)
      in version @ crlf @ ''Runtime: '' @ runtime_Version @ '' '' @ GOOS @ crlf)"

text \<open>The lines that are logged.\<close>

definition LogVersion :: "string \<Rightarrow> string \<Rightarrow> string list" where
  "LogVersion CommitHash BuildDate =
     (''Version: '' @ Version_String CurrentVersion) #
     (if CommitHash \<noteq> [] then [''Build: '' @ CommitHash @ (if BuildDate \<noteq> [] then '' '' @ BuildDate else [])] else [])"

section \<open>Numbers and labels\<close>

lemma NewVersion_parts [simp]:
  "Version_Major (Number (NewVersion a b c l)) = a" "Version_Minor (Number (NewVersion a b c l)) = b"
  "Version_Patch (Number (NewVersion a b c l)) = c" "Label (NewVersion a b c l) = l"
  unfolding NewVersion_def Version_Major_def Version_Minor_def Version_Patch_def
  by (auto intro!: bit_eqI simp: bit_simps not_le)

text \<open>A label that can be written: at most eight letters, digits and hyphens.\<close>

definition valid_label :: "VersionLabel option \<Rightarrow> bool" where
  "valid_label label \<longleftrightarrow> (case label of None \<Rightarrow> True | Some l \<Rightarrow> \<exists>str. l = versionLabel str \<and> str \<noteq> [] \<and> length str \<le> 8 \<and> list_all label_char str)"

lemma dropWhile_id: "xs = [] \<or> \<not> P (hd xs) \<Longrightarrow> dropWhile P xs = xs"
  by (cases xs) auto

lemma label_byte: "label_char c \<Longrightarrow> (of_char c :: byte) \<noteq> 0"
  using unat_of_char [of c] by (auto simp: label_char_def byte_in_def)

lemma label_text:
  assumes "length str \<le> 8" "list_all label_char str"
  shows "VersionLabel_String (versionLabel str) = str"
proof -
  let ?a = "ascii str" and ?z = "replicate (8 - length str) (0 :: byte)"
  have nz: "(0 :: byte) \<notin> set (ascii str)" using assms(2) label_byte by (auto simp: ascii_def list_all_iff)
  have padded: "versionLabel str = ?a @ ?z" using assms(1) by (simp add: versionLabel_def go_copy_prefix ascii_def)
  have "dropWhile (\<lambda>b. b = 0) (?a @ ?z) = (if str = [] then [] else ?a @ ?z)"
    using nz by (cases str) (auto simp: ascii_def)
  moreover have "dropWhile (\<lambda>b. b = 0) (rev (?a @ ?z)) = rev ?a"
    using nz dropWhile_id [of "rev ?a" "\<lambda>b. b = 0"] by (cases "rev ?a") (auto simp: dropWhile_append dest: arg_cong [where f = set])
  ultimately have "VersionLabel_String (versionLabel str) = bytes_string (rev (rev ?a))"
    unfolding VersionLabel_String_def padded by (auto simp: ascii_def)
  then show ?thesis by simp
qed

section \<open>Decimal texts\<close>

lemma decimal_cases:
  "n < 10 \<Longrightarrow> decimal n = [char_of (48 + n)]"
  "10 \<le> n \<Longrightarrow> n < 100 \<Longrightarrow> decimal n = [char_of (48 + n div 10), char_of (48 + n mod 10)]"
  "100 \<le> n \<Longrightarrow> n < 1000 \<Longrightarrow> decimal n = [char_of (48 + n div 100), char_of (48 + n div 10 mod 10), char_of (48 + n mod 10)]"
proof -
  show one: "n < 10 \<Longrightarrow> decimal n = [char_of (48 + n)]" for n by (subst decimal.simps) simp
  show two: "10 \<le> n \<Longrightarrow> n < 100 \<Longrightarrow> decimal n = [char_of (48 + n div 10), char_of (48 + n mod 10)]" for n
    by (subst decimal.simps) (simp add: one div_less)
  show "100 \<le> n \<Longrightarrow> n < 1000 \<Longrightarrow> decimal n = [char_of (48 + n div 100), char_of (48 + n div 10 mod 10), char_of (48 + n mod 10)]"
    by (subst decimal.simps) (simp add: two div_mult2_eq [symmetric])
qed

lemma digit_char: "d < 10 \<Longrightarrow> of_char (char_of (48 + d :: nat) :: char) = (48 + d :: nat)"
  by (simp add: of_char_of)

lemma decimal_value:
  assumes "n < 256"
  shows "digits_value (decimal n) = n"
proof -
  consider "n < 10" | "10 \<le> n" "n < 100" | "100 \<le> n" "n < 1000" using assms by linarith
  then show ?thesis
  proof cases
    case 3
    have "n div 10 div 10 = n div 100" by (simp add: div_mult2_eq [symmetric])
    then have "100 * (n div 100) + 10 * (n div 10 mod 10) + n mod 10 = n"
      using div_mult_mod_eq [of n 10] div_mult_mod_eq [of "n div 10" 10] by linarith
    with 3 show ?thesis by (simp add: decimal_cases digits_value_def digit_char)
  qed (simp_all add: decimal_cases digits_value_def digit_char)
qed

lemma two_five: "char_of (50 :: nat) = CHR ''2''" "char_of (53 :: nat) = CHR ''5''"
  by code_simp+

lemma number_texts:
  fixes x y z :: nat
  assumes "x < 10" "y < 10" "z < 10"
  shows "re_lang number_re [char_of (48 + z)]" "re_lang number_re [char_of (48 + y), char_of (48 + z)]"
    and "x \<le> 1 \<or> x = 2 \<and> (y \<le> 4 \<or> y = 5 \<and> z \<le> 5) \<Longrightarrow> re_lang number_re [char_of (48 + x), char_of (48 + y), char_of (48 + z)]"
  using assms by (auto simp: number_re_def byte_in_def digit_char two_five)

lemma decimal_lang:
  assumes "n < 256"
  shows "re_lang number_re (decimal n)"
proof -
  have m: "k mod 10 < 10" for k :: nat by simp
  consider "n < 10" | "10 \<le> n" "n < 100" | "100 \<le> n" using assms by linarith
  then show ?thesis
  proof cases
    case 3
    have "n div 100 \<le> 1 \<or> n div 100 = 2 \<and> (n div 10 mod 10 \<le> 4 \<or> n div 10 mod 10 = 5 \<and> n mod 10 \<le> 5)"
    proof -
      define m x y z where "m = n div 10" and "x = n div 100" and "y = n div 10 mod 10" and "z = n mod 10"
      then have "n = 10 * m + z" "m = 10 * x + y" by (simp_all add: div_mult2_eq [of n 10 10, simplified])
      then have "x \<le> 1 \<or> x = 2 \<and> (y \<le> 4 \<or> y = 5 \<and> z \<le> 5)" using assms by linarith
      then show ?thesis by (simp add: x_def y_def z_def)
    qed
    moreover have "n div 100 < 10" using assms by simp
    ultimately show ?thesis using number_texts(3) [OF _ m m] assms 3 by (simp add: decimal_cases(3))
  next
    case 2
    then show ?thesis using number_texts(2) [of 0 "n div 10", OF _ _ m] by (simp add: decimal_cases(2))
  qed (use number_texts(1) [of 0 0 n] in \<open>simp add: decimal_cases(1)\<close>)
qed

lemma number_digits: "re_lang number_re m \<Longrightarrow> list_all is_digit m \<and> m \<noteq> []"
  by (auto simp: number_re_def byte_in_def split: list.splits)

section \<open>Parsing\<close>

lemma label_lang: "re_lang label_re l \<longleftrightarrow> l \<noteq> [] \<and> length l \<le> 8 \<and> list_all label_char l"
  by (auto simp: label_re_def Upto_lang split: list.splits)

lemma label_matches_iff:
  "(l, r) \<in> set (label_matches s) \<longleftrightarrow> (l = [] \<and> r = s) \<or> (s = CHR ''-'' # l @ r \<and> l \<noteq> [] \<and> length l \<le> 8 \<and> list_all label_char l)"
proof -
  have "dot_free label_re" by (simp add: label_re_def)
  then show ?thesis by (auto simp: label_matches_def re_matches_iff label_lang split: list.splits if_splits)
qed

lemma number_matches_iff: "(m, r) \<in> set (re_matches number_re s) \<longleftrightarrow> s = m @ r \<and> re_lang number_re m"
  by (rule re_matches_iff) (simp add: number_re_def)

text \<open>Between the numbers of a match there is one rune each.\<close>

lemma verRegex_sound:
  assumes "(a, b, c, l) \<in> set (verRegex s)"
  shows "\<exists>x y r. s = a @ x @ b @ y @ c @ r \<and> (x, b @ y @ c @ r) \<in> set (re_matches Dot (x @ b @ y @ c @ r)) \<and>
    (y, c @ r) \<in> set (re_matches Dot (y @ c @ r)) \<and> re_lang number_re a \<and> re_lang number_re b \<and> re_lang number_re c \<and>
    (l, []) \<in> set (label_matches r)"
proof -
  from assms obtain r1 r2 r3 r4 r5 x y where m: "(a, r1) \<in> set (re_matches number_re s)" "(x, r2) \<in> set (re_matches Dot r1)"
      "(b, r3) \<in> set (re_matches number_re r2)" "(y, r4) \<in> set (re_matches Dot r3)" "(c, r5) \<in> set (re_matches number_re r4)"
      "(l, []) \<in> set (label_matches r5)"
    unfolding verRegex_def by (clarsimp simp del: re_matches.simps split: if_splits)
  then show ?thesis using Dot_split [OF m(2)] Dot_split [OF m(4)]
    by (intro exI [of _ x] exI [of _ y] exI [of _ r5]) (simp add: number_matches_iff del: re_matches.simps)
qed

lemma in_bind: "x \<in> set xs \<Longrightarrow> y \<in> set (f x) \<Longrightarrow> y \<in> set (concat (map f xs))"
  by auto

lemma verRegex_complete:
  assumes "re_lang number_re a" "re_lang number_re b" "re_lang number_re c" "(l, []) \<in> set (label_matches r)"
  shows "(a, b, c, l) \<in> set (verRegex (a @ CHR ''.'' # b @ CHR ''.'' # c @ r))"
proof -
  have dot: "([CHR ''.''], t) \<in> set (re_matches Dot (CHR ''.'' # t))" for t by (subst Dot_ascii) simp_all
  have "(a, CHR ''.'' # b @ CHR ''.'' # c @ r) \<in> set (re_matches number_re (a @ CHR ''.'' # b @ CHR ''.'' # c @ r))"
       "(b, CHR ''.'' # c @ r) \<in> set (re_matches number_re (b @ CHR ''.'' # c @ r))" "(c, r) \<in> set (re_matches number_re (c @ r))"
    using assms by (simp_all add: number_matches_iff del: re_matches.simps)
  note numbers = this
  show ?thesis unfolding verRegex_def
    by (rule in_bind [OF numbers(1)], simp only: prod.case, rule in_bind [OF dot], simp only: prod.case, rule in_bind [OF numbers(2)],
        simp only: prod.case, rule in_bind [OF dot], simp only: prod.case, rule in_bind [OF numbers(3)], simp only: prod.case,
        rule in_bind [OF assms(4)]) simp
qed

text \<open>A text of three numbers and a label is matched in one way only: the dots must be its dots.\<close>

lemma no_dot: "list_all is_digit m \<Longrightarrow> CHR ''.'' \<notin> set m" "list_all label_char m \<Longrightarrow> CHR ''.'' \<notin> set m"
  by (auto simp: list_all_iff byte_in_def label_char_def)

lemma label_part:
  assumes "(l, []) \<in> set (label_matches r)"
  shows "CHR ''.'' \<notin> set r" "takeWhile is_digit r = []" "r = (if l = [] then [] else CHR ''-'' # l)"
  using assms no_dot(2) [of l] by (auto simp: label_matches_iff byte_in_def)

definition ascii_text :: "string \<Rightarrow> bool" where
  "ascii_text s \<longleftrightarrow> list_all (\<lambda>c. of_char c < (0x80 :: nat)) s"

lemma ascii_parts: "list_all is_digit m \<Longrightarrow> ascii_text m" "list_all label_char m \<Longrightarrow> ascii_text m"
  by (auto simp: ascii_text_def list_all_iff byte_in_def label_char_def)

lemma Dot_char:
  assumes "(x, r) \<in> set (re_matches Dot (x @ r))" "ascii_text (x @ r)"
  obtains c where "x = [c]"
proof -
  from Dot_split [OF assms(1)] obtain c x' where x: "x = c # x'" by (auto simp: neq_Nil_conv)
  then have "c \<noteq> CHR 0x0A" "of_char c < (0x80 :: nat)" using assms by (auto simp: ascii_text_def split: if_splits)
  with assms(1) show thesis using that unfolding x by (simp add: ascii_rune)
qed

lemma verRegex_unique:
  assumes m: "(a', b', c', l') \<in> set (verRegex (a @ CHR ''.'' # b @ CHR ''.'' # c @ r))"
    and d: "list_all is_digit a" "list_all is_digit b" "list_all is_digit c" and l: "(l, []) \<in> set (label_matches r)"
  shows "(a', b', c', l') = (a, b, c, l)"
proof -
  let ?s = "a @ CHR ''.'' # b @ CHR ''.'' # c @ r" and ?dots = "\<lambda>t. count_list t (CHR ''.'')"
  from verRegex_sound [OF m] obtain x y r' where s: "?s = a' @ x @ b' @ y @ c' @ r'"
    and xy: "(x, b' @ y @ c' @ r') \<in> set (re_matches Dot (x @ b' @ y @ c' @ r'))" "(y, c' @ r') \<in> set (re_matches Dot (y @ c' @ r'))"
    and lang: "re_lang number_re a'" "re_lang number_re b'" "re_lang number_re c'" and l': "(l', []) \<in> set (label_matches r')" by blast
  note d' = number_digits [OF lang(1), THEN conjunct1] number_digits [OF lang(2), THEN conjunct1] number_digits [OF lang(3), THEN conjunct1]
  note dots = no_dot(1) [OF d(1)] no_dot(1) [OF d(2)] no_dot(1) [OF d(3)] label_part(1) [OF l]
    no_dot(1) [OF d'(1)] no_dot(1) [OF d'(2)] no_dot(1) [OF d'(3)] label_part(1) [OF l']
  have "ascii_text r" using l label_part(3) [OF l] by (auto simp: label_matches_iff ascii_text_def dest: ascii_parts(2) split: if_splits)
  then have "ascii_text ?s" using d by (auto simp: ascii_text_def dest: ascii_parts(1))
  then have "ascii_text (x @ b' @ y @ c' @ r')" "ascii_text (y @ c' @ r')" unfolding s by (simp_all add: ascii_text_def)
  with xy obtain p q where pq: "x = [p]" "y = [q]" using Dot_char by metis
  have "?dots ?s = 2" using dots(1-4) by simp
  then have "p = CHR ''.''" "q = CHR ''.''" using dots(5-8) unfolding s pq by (auto split: if_splits)
  then have "a @ CHR ''.'' # b @ CHR ''.'' # c @ r = a' @ CHR ''.'' # b' @ CHR ''.'' # c' @ r'" using s by (simp add: pq)
  then have ab: "a' = a" "b' = b" "c @ r = c' @ r'" using cut_at [OF dots(1,5)] cut_at [OF dots(2,6)] by auto
  have "takeWhile is_digit (c @ r) = c" "takeWhile is_digit (c' @ r') = c'"
    using d(3) d'(3) label_part(2) [OF l] label_part(2) [OF l'] by (auto simp: list_all_iff takeWhile_append)
  with ab have c: "c' = c" "r' = r" by auto
  then have "l' = l" using label_part(3) [OF l] label_part(3) [OF l'] by (auto split: if_splits)
  with ab c show ?thesis by simp
qed

text \<open>
  C38.  The text of a version is read back as that version, for every number and every label that the
  parser admits; so its number is read back, too, from its integral form.
\<close>

theorem version_roundtrip:
  assumes "valid_label label"
  shows "VersionFromString (Version_String (NewVersion major minor patch label)) = Ok (NewVersion major minor patch label) \<and>
    Version_UnmarshalText (ascii (Version_String (NewVersion major minor patch label))) v = (Ok (), NewVersion major minor patch label) \<and>
    VersionFromUInt32 (Version_UInt32 (NewVersion major minor patch label)) = NewVersion major minor patch None"
proof -
  define l where "l = (case label of None \<Rightarrow> [] | Some b \<Rightarrow> VersionLabel_String b)"
  let ?r = "if l = [] then [] else CHR ''-'' # l" and ?d = "\<lambda>n. decimal (unat (n :: byte))"
  have l: "label = (if l \<noteq> [] then Some (versionLabel l) else None)" "(l, []) \<in> set (label_matches ?r)"
    using assms label_text by (auto simp: l_def valid_label_def label_matches_iff split: option.splits)
  have printed: "Version_String (NewVersion major minor patch label) = ?d major @ CHR ''.'' # ?d minor @ CHR ''.'' # ?d patch @ ?r"
    using l(1) by (auto simp: Version_String_def Let_def l_def split: option.splits if_splits)
  have small: "unat n < 256" for n :: byte using unsigned_less [of n, where 'a = nat] by simp
  have range: "\<not> 255 < unat n" for n :: byte using small [of n] by linarith
  have lang: "re_lang number_re (?d n)" for n by (rule decimal_lang [OF small])
  have byte: "ParseUint8 (?d n) = n" for n using decimal_value [OF small] by (simp add: ParseUint8_def range)
  have "set (verRegex (?d major @ CHR ''.'' # ?d minor @ CHR ''.'' # ?d patch @ ?r)) = {(?d major, ?d minor, ?d patch, l)}"
    using verRegex_complete [OF lang lang lang l(2), of major minor patch]
      verRegex_unique [OF _ number_digits [OF lang, THEN conjunct1] number_digits [OF lang, THEN conjunct1] number_digits [OF lang, THEN conjunct1] l(2)]
    by fast
  then obtain ms where "verRegex (?d major @ CHR ''.'' # ?d minor @ CHR ''.'' # ?d patch @ ?r) = (?d major, ?d minor, ?d patch, l) # ms"
    by (metis insertI1 list.set_intros(1) list.exhaust empty_iff empty_set singletonD)
  with l(1) have "VersionFromString (Version_String (NewVersion major minor patch label)) = Ok (NewVersion major minor patch label)"
    unfolding printed by (simp add: VersionFromString_def byte)
  then show ?thesis by (simp add: Version_UnmarshalText_def VersionFromUInt32_def Version_UInt32_def NewVersion_def)
qed

theorem version_roundtrip_witness:
  "Version_String CurrentVersion = ''1.1.0-beta-3'' \<and> VersionFromString ''1.1.0-beta-3'' = Ok CurrentVersion"
proof -
  have valid: "valid_label (Some (versionLabel ''beta-3''))"
    unfolding valid_label_def by (auto simp: label_char_def byte_in_def intro!: exI [of _ "''beta-3''"])
  have "VersionLabel_String (versionLabel ''beta-3'') = ''beta-3''" by (rule label_text) (simp_all add: label_char_def byte_in_def)
  moreover have "decimal 1 = ''1''" "decimal 0 = ''0''" by (subst decimal.simps, code_simp)+
  ultimately have "Version_String CurrentVersion = ''1.1.0-beta-3''" by (simp add: CurrentVersion_def Version_String_def)
  then show ?thesis using version_roundtrip [OF valid, of 1 1 0] unfolding CurrentVersion_def by simp
qed

text \<open>The dots of the expression are not escaped: any rune passes for one.\<close>

lemma version_any_separator: "VersionFromString ''1x1y0'' = Ok DefaultVersion"
  by code_simp

text \<open>Versions are ordered by their numbers; labels do not count.\<close>

lemma Version_Compare_order:
  "Version_Compare v w = - Version_Compare w v" "Version_Compare v w = 0 \<longleftrightarrow> Number v = Number w"
  "Version_Compare u v \<le> 0 \<Longrightarrow> Version_Compare v w \<le> 0 \<Longrightarrow> Version_Compare u w \<le> 0"
  by (auto simp: Version_Compare_def split: if_splits)

end
