(* ===== verification/Lru_Cache.thy ===== *)
theory Lru_Cache
  imports Zstor_Prelude
begin

text \<open>
  The fixed-size cache \<open>simplelru.LRU\<close> (\<open>vendor/github.com/hashicorp/golang-lru/simplelru/lru.go\<close>)
  that two components use: the token cache of the client and the sequence cache of the server's badger
  database.

  The cache is a list of entries, most recently used first; its map leads from a key to the entry of
  that key in the list, so a lookup in the map is a lookup in the list.  An operation that evicts an
  entry returns it, and its caller runs the eviction callback on it.  The interface that both users
  rely on is the locale \<open>bounded_cache\<close>.
\<close>

section \<open>The cache\<close>

record ('k, 'v) LRU =
  lru_size :: nat
  evictList :: "('k \<times> 'v) list"

definition NewLRU :: "int \<Rightarrow> (string, ('k, 'v) LRU) result" where
  "NewLRU n = (if n \<le> 0 then Err ''Must provide a positive size'' else Ok \<lparr>lru_size = nat n, evictList = []\<rparr>)"

definition removed :: "'k \<Rightarrow> ('k \<times> 'v) list \<Rightarrow> ('k \<times> 'v) list" where
  "removed key es = filter (\<lambda>e. fst e \<noteq> key) es"

definition lru_Peek :: "'k \<Rightarrow> ('k, 'v) LRU \<Rightarrow> 'v option" where
  "lru_Peek key c = map_of (evictList c) key"

definition lru_Get :: "'k \<Rightarrow> ('k, 'v) LRU \<Rightarrow> 'v option \<times> ('k, 'v) LRU" where
  "lru_Get key c =
     (case map_of (evictList c) key of
        None \<Rightarrow> (None, c)
      | Some v \<Rightarrow> (Some v, c\<lparr>evictList := (key, v) # removed key (evictList c)\<rparr>))"

definition lru_Add :: "'k \<Rightarrow> 'v \<Rightarrow> ('k, 'v) LRU \<Rightarrow> ('k \<times> 'v) option \<times> ('k, 'v) LRU" where
  "lru_Add key v c =
     (case map_of (evictList c) key of
        Some _ \<Rightarrow> (None, c\<lparr>evictList := (key, v) # removed key (evictList c)\<rparr>)
      | None \<Rightarrow>
          let es = (key, v) # evictList c in
          if length es > lru_size c then (Some (last es), c\<lparr>evictList := butlast es\<rparr>)
          else (None, c\<lparr>evictList := es\<rparr>))"

definition lru_Remove :: "'k \<Rightarrow> ('k, 'v) LRU \<Rightarrow> bool \<times> ('k, 'v) LRU" where
  "lru_Remove key c =
     (case map_of (evictList c) key of
        None \<Rightarrow> (False, c)
      | Some _ \<Rightarrow> (True, c\<lparr>evictList := removed key (evictList c)\<rparr>))"

text \<open>\<open>Purge\<close> hands every entry to the eviction callback and empties the cache.\<close>

definition lru_Purge :: "('k, 'v) LRU \<Rightarrow> ('k \<times> 'v) list \<times> ('k, 'v) LRU" where
  "lru_Purge c = (evictList c, c\<lparr>evictList := []\<rparr>)"

text \<open>The effect of changing the object that an entry points to.\<close>

definition lru_modify :: "'k \<Rightarrow> 'v \<Rightarrow> ('k, 'v) LRU \<Rightarrow> ('k, 'v) LRU" where
  "lru_modify key v c = c\<lparr>evictList := map (\<lambda>e. if fst e = key then (key, v) else e) (evictList c)\<rparr>"

section \<open>What its users rely on\<close>

text \<open>
  A cache is a partial map that forgets: an entry that was added is found, as long as it is neither
  removed nor evicted to make room, and at most one entry goes at a time.
\<close>

locale bounded_cache =
  fixes inv :: "'c \<Rightarrow> bool" and peek :: "'k \<Rightarrow> 'c \<Rightarrow> 'v option" and get :: "'k \<Rightarrow> 'c \<Rightarrow> 'v option \<times> 'c"
    and add :: "'k \<Rightarrow> 'v \<Rightarrow> 'c \<Rightarrow> ('k \<times> 'v) option \<times> 'c" and remove :: "'k \<Rightarrow> 'c \<Rightarrow> bool \<times> 'c"
    and capacity :: "'c \<Rightarrow> nat"
  assumes get_same: "inv c \<Longrightarrow> get k c = (found, c') \<Longrightarrow> inv c' \<and> found = peek k c \<and> (\<forall>x. peek x c' = peek x c) \<and> capacity c' = capacity c"
    and add_new: "inv c \<Longrightarrow> add k v c = (out, c') \<Longrightarrow> inv c' \<and> capacity c' = capacity c \<and>
      (case out of
         None \<Rightarrow> \<forall>x. peek x c' = (if x = k then Some v else peek x c)
       | Some (old, w) \<Rightarrow> peek k c = None \<and> old \<noteq> k \<and> peek old c = Some w \<and>
           (\<forall>x. peek x c' = (if x = k then Some v else if x = old then None else peek x c)))"
    and remove_gone: "inv c \<Longrightarrow> remove k c = (b, c') \<Longrightarrow> inv c' \<and> capacity c' = capacity c \<and>
      b = (peek k c \<noteq> None) \<and> (\<forall>x. peek x c' = (if x = k then None else peek x c))"
    and bounded: "inv c \<Longrightarrow> finite {x. peek x c \<noteq> None} \<and> card {x. peek x c \<noteq> None} \<le> capacity c"
begin

lemma peek_after_add:
  assumes "inv c" "add k v c = (out, c')" "peek x c' = Some w"
  shows "x = k \<and> w = v \<or> peek x c = Some w"
proof (cases out)
  case None
  then have "peek x c' = (if x = k then Some v else peek x c)" using add_new [OF assms(1,2)] by simp
  with assms(3) show ?thesis by (simp split: if_splits)
next
  case (Some kv)
  then have "peek x c' = (if x = k then Some v else if x = fst kv then None else peek x c)" using add_new [OF assms(1,2)] by (cases kv) simp
  with assms(3) show ?thesis by (simp split: if_splits)
qed

lemma get_after_add:
  assumes "inv c" "add k v c = (out, c')"
  shows "fst (get k c') = Some v"
proof -
  have "inv c'" "peek k c' = Some v" using add_new [OF assms] by (auto split: option.splits prod.splits)
  then show ?thesis using get_same [of c' k] by (cases "get k c'") auto
qed

end

definition lru_ok :: "('k, 'v) LRU \<Rightarrow> bool" where
  "lru_ok c \<longleftrightarrow> distinct (map fst (evictList c)) \<and> length (evictList c) \<le> lru_size c \<and> 0 < lru_size c"

lemma map_of_removed: "map_of (removed k es) x = (if x = k then None else map_of es x)"
  by (induction es) (auto simp: removed_def)

lemma removed_keys: "distinct (map fst es) \<Longrightarrow> distinct (map fst (removed k es))" "k \<notin> fst ` set (removed k es)"
  by (induction es) (auto simp: removed_def)

lemma removed_length: "length (removed k es) \<le> length es" "map_of es k = Some v \<Longrightarrow> length (removed k es) < length es"
  by (induction es) (auto simp: removed_def le_SucI less_SucI less_Suc_eq_le split: if_splits)

lemma lru_moved:
  assumes "lru_ok c" "map_of (evictList c) k = Some w"
  shows "lru_ok (c\<lparr>evictList := (k, v) # removed k (evictList c)\<rparr>)"
  using assms removed_keys(1) [of "evictList c" k] removed_keys(2) [of k "evictList c"] removed_length(2) [OF assms(2)] by (simp add: lru_ok_def)

lemma lru_evicts:
  assumes ok: "lru_ok c" and miss: "map_of (evictList c) k = None" and full: "lru_size c < length ((k, v) # evictList c)"
    and out: "last ((k, v) # evictList c) = (old, w)"
  shows "lru_ok (c\<lparr>evictList := butlast ((k, v) # evictList c)\<rparr>)" "old \<noteq> k" "map_of (evictList c) old = Some w"
    "map_of (butlast ((k, v) # evictList c)) x = (if x = k then Some v else if x = old then None else map_of (evictList c) x)"
proof -
  have "evictList c \<noteq> []" using ok full by (auto simp: lru_ok_def)
  with out obtain es where es: "evictList c = es @ [(old, w)]" by (metis append_butlast_last_id last_ConsR)
  have k: "k \<notin> fst ` set (evictList c)" using miss by (simp add: map_of_eq_None_iff)
  have d: "distinct (map fst es)" "old \<notin> fst ` set es" using ok by (auto simp: lru_ok_def es)
  show "lru_ok (c\<lparr>evictList := butlast ((k, v) # evictList c)\<rparr>)" using ok k by (simp add: lru_ok_def es)
  show "old \<noteq> k" using k by (auto simp: es)
  have none: "map_of es old = None" using d(2) by (simp add: map_of_eq_None_iff)
  then show "map_of (evictList c) old = Some w" by (simp add: es map_add_def)
  show "map_of (butlast ((k, v) # evictList c)) x = (if x = k then Some v else if x = old then None else map_of (evictList c) x)"
    using none by (auto simp: es butlast_append map_add_def split: option.splits)
qed

interpretation lru: bounded_cache lru_ok lru_Peek lru_Get lru_Add lru_Remove lru_size
proof unfold_locales
  fix c c' :: "('k, 'v) LRU" and k v
  assume "lru_ok c" "lru_Get k c = (v, c')"
  then show "lru_ok c' \<and> v = lru_Peek k c \<and> (\<forall>x. lru_Peek x c' = lru_Peek x c) \<and> lru_size c' = lru_size c"
    using lru_moved [of c k] by (auto simp: lru_Get_def lru_Peek_def map_of_removed split: option.splits)
next
  fix c c' :: "('k, 'v) LRU" and k v out
  assume ok: "lru_ok c" and run: "lru_Add k v c = (out, c')"
  show "lru_ok c' \<and> lru_size c' = lru_size c \<and>
      (case out of
         None \<Rightarrow> \<forall>x. lru_Peek x c' = (if x = k then Some v else lru_Peek x c)
       | Some (old, w) \<Rightarrow> lru_Peek k c = None \<and> old \<noteq> k \<and> lru_Peek old c = Some w \<and>
           (\<forall>x. lru_Peek x c' = (if x = k then Some v else if x = old then None else lru_Peek x c)))"
  proof (cases "map_of (evictList c) k")
    case (Some w)
    with run lru_moved [OF ok Some, of v] show ?thesis by (auto simp: lru_Add_def lru_Peek_def map_of_removed)
  next
    case None
    obtain old w where last: "last ((k, v) # evictList c) = (old, w)" by fastforce
    show ?thesis
    proof (cases "lru_size c < length ((k, v) # evictList c)")
      case True
      with run None last have "out = Some (old, w)" "c' = c\<lparr>evictList := butlast ((k, v) # evictList c)\<rparr>"
        by (auto simp: lru_Add_def Let_def)
      with lru_evicts [OF ok None True last] None show ?thesis by (simp add: lru_Peek_def)
    next
      case False
      with run None have "out = None" "c' = c\<lparr>evictList := (k, v) # evictList c\<rparr>" by (auto simp: lru_Add_def Let_def)
      with False ok None show ?thesis by (auto simp: lru_Peek_def lru_ok_def map_of_eq_None_iff)
    qed
  qed
next
  fix c c' :: "('k, 'v) LRU" and k b
  assume "lru_ok c" "lru_Remove k c = (b, c')"
  then show "lru_ok c' \<and> lru_size c' = lru_size c \<and> b = (lru_Peek k c \<noteq> None) \<and>
      (\<forall>x. lru_Peek x c' = (if x = k then None else lru_Peek x c))"
    using removed_keys(1) [of "evictList c" k] removed_length(1) [of k "evictList c"]
    by (auto simp: lru_Remove_def lru_Peek_def map_of_removed lru_ok_def split: option.splits)
next
  fix c :: "('k, 'v) LRU" assume ok: "lru_ok c"
  have keys: "{x. lru_Peek x c \<noteq> None} = set (map fst (evictList c))" by (auto simp: lru_Peek_def map_of_eq_None_iff)
  have "finite {x. lru_Peek x c \<noteq> None}" unfolding keys by simp
  moreover have "card {x. lru_Peek x c \<noteq> None} \<le> lru_size c"
    unfolding keys using ok card_length [of "map fst (evictList c)"] by (simp add: lru_ok_def)
  ultimately show "finite {x. lru_Peek x c \<noteq> None} \<and> card {x. lru_Peek x c \<noteq> None} \<le> lru_size c" by blast
qed

lemma lru_modify_Peek: "lru_Peek x (lru_modify k v c) = (if x = k then map_option (\<lambda>_. v) (lru_Peek k c) else lru_Peek x c)"
proof -
  have "map_of (map (\<lambda>e. if fst e = k then (k, v) else e) es) x = (if x = k then map_option (\<lambda>_. v) (map_of es k) else map_of es x)" for es
    by (induction es) auto
  then show ?thesis by (simp add: lru_Peek_def lru_modify_def)
qed

lemma lru_modify_ok: "lru_ok c \<Longrightarrow> lru_ok (lru_modify k v c)" "lru_size (lru_modify k v c) = lru_size c"
proof -
  have "map (fst \<circ> (\<lambda>e. if fst e = k then (k, v) else e)) es = map fst es" for es by (rule map_cong) auto
  note same = this [of "evictList c"]
  show "lru_ok c \<Longrightarrow> lru_ok (lru_modify k v c)" by (simp add: lru_ok_def lru_modify_def same del: map_eq_conv)
qed (simp add: lru_modify_def)

end
