(* ===== verification/Badger_Db.thy ===== *)
theory Badger_Db
  imports Lru_Cache Server_Db Crc32 "HOL-Library.List_Lexorder"
begin

text \<open>
  The persistent database of a zstordb server: \<open>server/db/badger/badger.go\<close> and the cache of key
  sequences \<open>server/db/badger/cache.go\<close>, with the sequences of the badger library
  (\<open>vendor/github.com/dgraph-io/badger/db.go\<close>).

  The store of the library is an argument: what a transaction sees of it, and what comes of
  committing one, which may fail.  A call that keeps retrying and does not return is \<open>None\<close>.
\<close>

section \<open>The badger library\<close>

datatype badger_err = ErrKeyNotFound | ErrTxnConflict | ErrEmptyKey | ErrZeroBandwidth | BadgerError string

text \<open>
  \<open>bg_snapshot\<close> is what a transaction that starts now reads, \<open>bg_commit\<close> makes the writes of a
  transaction take effect.  Keys and values that are too long are refused.
\<close>

record 'b badger =
  bg_snapshot :: "'b \<Rightarrow> bytes \<rightharpoonup> bytes"
  bg_commit :: "(bytes \<rightharpoonup> bytes) \<Rightarrow> ('b, badger_err, unit) op"
  bg_maxKeySize :: nat
  bg_ValueLogFileSize :: nat
  bg_Close :: "('b, badger_err, unit) op"

definition txn_Get :: "bytes \<Rightarrow> (bytes \<rightharpoonup> bytes) \<Rightarrow> (badger_err, bytes) result" where
  "txn_Get key m = (if key = [] then Err ErrEmptyKey else case m key of None \<Rightarrow> Err ErrKeyNotFound | Some val \<Rightarrow> Ok val)"

definition txn_Set :: "'b badger \<Rightarrow> bytes \<Rightarrow> bytes \<Rightarrow> (bytes \<rightharpoonup> bytes, badger_err, unit) op" where
  "txn_Set bg key val m =
     (if length key = 0 then (Err ErrEmptyKey, m)
      else if length key > bg_maxKeySize bg then (Err (BadgerError ''Key exceeded max size''), m)
      else if length val > bg_ValueLogFileSize bg then (Err (BadgerError ''Value exceeded max size''), m)
      else (Ok (), m(key \<mapsto> val)))"

definition txn_Delete :: "'b badger \<Rightarrow> bytes \<Rightarrow> (bytes \<rightharpoonup> bytes, badger_err, unit) op" where
  "txn_Delete bg key m =
     (if length key = 0 then (Err ErrEmptyKey, m)
      else if length key > bg_maxKeySize bg then (Err (BadgerError ''Key exceeded max size''), m)
      else (Ok (), m(key := None)))"

definition badger_Update :: "'b badger \<Rightarrow> (bytes \<rightharpoonup> bytes, badger_err, unit) op \<Rightarrow> ('b, badger_err, unit) op" where
  "badger_Update bg txn b =
     (case txn (bg_snapshot bg b) of
        (Ok _, m) \<Rightarrow> bg_commit bg m b
      | (Err e, _) \<Rightarrow> (Err e, b)
      | (Panic, _) \<Rightarrow> (Panic, b))"

text \<open>Sequences: numbers handed out from a lease that is stored under the sequence's key.\<close>

record Sequence =
  seq_key :: bytes
  seq_next :: uint64
  seq_leased :: uint64
  seq_bandwidth :: uint64

definition be_bytes :: "uint64 \<Rightarrow> bytes" where
  "be_bytes w = rev (le_bytes 8 w)"

definition BigEndian_Uint64 :: "bytes \<Rightarrow> ('e, uint64) result" where
  "BigEndian_Uint64 b = (if length b < 8 then Panic else Ok (le_word (rev (take 8 b))))"

text \<open>
  The transaction of \<open>updateLease\<close> changes the sequence object while it runs, so the object keeps the
  change when the commit fails.
\<close>

definition updateLease :: "'b badger \<Rightarrow> Sequence \<times> 'b \<Rightarrow> (badger_err, unit) result \<times> Sequence \<times> 'b" where
  "updateLease bg = (\<lambda>(s, b).
     let m = bg_snapshot bg b;
         start = (case txn_Get (seq_key s) m of
             Err e \<Rightarrow> if e = ErrKeyNotFound then Ok 0 else Err e
           | Panic \<Rightarrow> Panic
           | Ok val \<Rightarrow> BigEndian_Uint64 val) in
     (case start of
        Err e \<Rightarrow> (Err e, s, b)
      | Panic \<Rightarrow> (Panic, s, b)
      | Ok num \<Rightarrow>
          let s = s\<lparr>seq_next := num\<rparr>; lease = seq_next s + seq_bandwidth s in
          (case txn_Set bg (seq_key s) (be_bytes lease) m of
             (Err e, _) \<Rightarrow> (Err e, s, b)
           | (Panic, _) \<Rightarrow> (Panic, s, b)
           | (Ok _, m) \<Rightarrow>
               let s = s\<lparr>seq_leased := lease\<rparr> in
               (case bg_commit bg m b of (r, b) \<Rightarrow> (r, s, b)))))"

definition seq_Next :: "'b badger \<Rightarrow> (Sequence \<times> 'b, badger_err, uint64) op" where
  "seq_Next bg st =
     obind (if seq_next (fst st) \<ge> seq_leased (fst st) then updateLease bg st else (Ok (), st)) (\<lambda>_ (s, b).
       (Ok (seq_next s), s\<lparr>seq_next := seq_next s + 1\<rparr>, b))"

definition seq_Release :: "'b badger \<Rightarrow> Sequence \<Rightarrow> ('b, badger_err, unit) op" where
  "seq_Release bg s = badger_Update bg (txn_Set bg (seq_key s) (be_bytes (seq_next s)))"

definition GetSequence :: "'b badger \<Rightarrow> bytes \<Rightarrow> uint64 \<Rightarrow> ('b, badger_err, Sequence) op" where
  "GetSequence bg key bandwidth b =
     (if length key = 0 then (Err ErrEmptyKey, b)
      else if bandwidth = 0 then (Err ErrZeroBandwidth, b)
      else (case updateLease bg (\<lparr>seq_key = key, seq_next = 0, seq_leased = 0, seq_bandwidth = bandwidth\<rparr>, b) of
              (Ok _, s, b) \<Rightarrow> (Ok s, b)
            | (Err e, _, b) \<Rightarrow> (Err e, b)
            | (Panic, _, b) \<Rightarrow> (Panic, b)))"

section \<open>The sequence cache (server/db/badger/cache.go)\<close>

definition sequenceCacheBucketCount :: nat where "sequenceCacheBucketCount = 16"
definition sequenceCacheBucketSize :: int where "sequenceCacheBucketSize = 64"
definition sequenceBandwidth :: uint64 where "sequenceBandwidth = 512"

type_synonym sequenceCacheBucket = "(bytes, Sequence) LRU"

text \<open>
  The error of a failed release is logged with the key as a byte slice, while the keys of the cache
  are strings: the assertion panics.
\<close>

definition onEvict :: "'b badger \<Rightarrow> bytes \<times> Sequence \<Rightarrow> ('b, badger_err, unit) op" where
  "onEvict bg kv b = (case seq_Release bg (snd kv) b of (Ok _, b) \<Rightarrow> (Ok (), b) | (_, b) \<Rightarrow> (Panic, b))"

definition newSequenceCacheBucket :: sequenceCacheBucket where
  "newSequenceCacheBucket = (case NewLRU sequenceCacheBucketSize of Ok lru \<Rightarrow> lru | _ \<Rightarrow> \<lparr>lru_size = 0, evictList = []\<rparr>)"

definition newSequenceCache :: "sequenceCacheBucket list" where
  "newSequenceCache = replicate sequenceCacheBucketCount newSequenceCacheBucket"

partial_function (option) get_sequence :: "'b badger \<Rightarrow> bytes \<Rightarrow> 'b \<Rightarrow> ((badger_err, Sequence) result \<times> 'b) option" where
  "get_sequence bg seqKey b =
     (case GetSequence bg seqKey sequenceBandwidth b of
        (Ok s, b) \<Rightarrow> Some (Ok s, b)
      | (Err e, b) \<Rightarrow> if e = ErrTxnConflict then get_sequence bg seqKey b else Some (Err e, b)
      | (Panic, b) \<Rightarrow> Some (Panic, b))"

partial_function (option) draw :: "'b badger \<Rightarrow> Sequence \<times> 'b \<Rightarrow> ((badger_err, uint64) result \<times> Sequence \<times> 'b) option" where
  "draw bg st =
     (case seq_Next bg st of
        (Ok x, st) \<Rightarrow> Some (Ok x, st)
      | (Err e, st) \<Rightarrow> if e = ErrTxnConflict then draw bg st else Some (Err e, st)
      | (Panic, st) \<Rightarrow> Some (Panic, st))"

text \<open>The sequence of a scope, fetched and put into the cache when it is not there.\<close>

definition cached_sequence ::
  "'b badger \<Rightarrow> bytes \<Rightarrow> sequenceCacheBucket \<times> 'b \<Rightarrow> ((badger_err, Sequence) result \<times> sequenceCacheBucket \<times> 'b) option" where
  "cached_sequence bg scopeKey = (\<lambda>(lru, b).
     (case lru_Get scopeKey lru of
        (Some s, lru) \<Rightarrow> Some (Ok s, lru, b)
      | (None, lru) \<Rightarrow>
          (case UnlistedKey (Some scopeKey) of
             Ok seqKey \<Rightarrow>
               map_option (\<lambda>(r, b).
                 case r of
                   Ok s \<Rightarrow>
                     (case lru_Add scopeKey s lru of
                        (None, lru) \<Rightarrow> (Ok s, lru, b)
                      | (Some kv, lru) \<Rightarrow>
                          (case onEvict bg kv b of
                             (Ok _, b) \<Rightarrow> (Ok s, lru, b)
                           | (Err e, b) \<Rightarrow> (Err e, lru, b)
                           | (Panic, b) \<Rightarrow> (Panic, lru, b)))
                 | Err e \<Rightarrow> (Err e, lru, b)
                 | Panic \<Rightarrow> (Panic, lru, b)) (get_sequence bg seqKey b)
           | Err e \<Rightarrow> Some (Err e, lru, b)
           | Panic \<Rightarrow> Some (Panic, lru, b))))"

definition bucket_IncrementKey ::
  "'b badger \<Rightarrow> bytes \<Rightarrow> sequenceCacheBucket \<times> 'b \<Rightarrow> ((badger_err, uint64) result \<times> sequenceCacheBucket \<times> 'b) option" where
  "bucket_IncrementKey bg scopeKey st =
     Option.bind (cached_sequence bg scopeKey st) (\<lambda>(r, lru, b).
       (case r of
          Ok s \<Rightarrow> map_option (\<lambda>(x, s, b). (x, lru_modify scopeKey s lru, b)) (draw bg (s, b))
        | Err e \<Rightarrow> Some (Err e, lru, b)
        | Panic \<Rightarrow> Some (Panic, lru, b)))"

fun badger_text :: "badger_err \<Rightarrow> string" where
  "badger_text ErrKeyNotFound = ''Key not found''"
| "badger_text ErrTxnConflict = ''Transaction Conflict. Please retry''"
| "badger_text ErrEmptyKey = ''Key cannot be empty''"
| "badger_text ErrZeroBandwidth = ''Bandwidth must be greater than zero''"
| "badger_text (BadgerError e) = e"

record 'b badger_DB =
  bdb_db :: 'b
  bdb_seqCache :: "sequenceCacheBucket list"

definition bucket_index :: "bytes \<Rightarrow> nat" where
  "bucket_index scopeKey = unat (ChecksumIEEE scopeKey mod of_nat sequenceCacheBucketCount)"

definition IncrementKey :: "'b badger \<Rightarrow> bytes \<Rightarrow> 'b badger_DB \<Rightarrow> ((db_error, bytes) result \<times> 'b badger_DB) option" where
  "IncrementKey bg scopeKey bdb =
     (let index = bucket_index scopeKey in
      map_option (\<lambda>(r, lru, b).
        let bdb = bdb\<lparr>bdb_db := b, bdb_seqCache := (bdb_seqCache bdb)[index := lru]\<rparr> in
        (rbind (map_err (ErrBackend \<circ> badger_text) r) (\<lambda>seqIndex. ScopedSequenceKey (Some scopeKey) seqIndex), bdb))
        (bucket_IncrementKey bg scopeKey (bdb_seqCache bdb ! index, bdb_db bdb)))"

fun release_all :: "'b badger \<Rightarrow> (bytes \<times> Sequence) list \<Rightarrow> ('b, badger_err, unit) op" where
  "release_all bg [] b = (Ok (), b)"
| "release_all bg (kv # kvs) b = obind (onEvict bg kv b) (\<lambda>_ b. release_all bg kvs b)"

definition sequenceCache_Purge :: "'b badger \<Rightarrow> ('b badger_DB, badger_err, unit) op" where
  "sequenceCache_Purge bg bdb =
     (case release_all bg (concat (map (fst \<circ> lru_Purge) (bdb_seqCache bdb))) (bdb_db bdb) of
        (r, b) \<Rightarrow> (r, bdb\<lparr>bdb_db := b, bdb_seqCache := map (snd \<circ> lru_Purge) (bdb_seqCache bdb)\<rparr>))"

section \<open>The database (server/db/badger/badger.go)\<close>

text \<open>\<open>NewWithOpts\<close>, once the library has opened the store.\<close>

definition badger_New :: "'b \<Rightarrow> 'b badger_DB" where
  "badger_New b = \<lparr>bdb_db = b, bdb_seqCache = newSequenceCache\<rparr>"

fun mapBadgerError :: "badger_err \<Rightarrow> db_error" where
  "mapBadgerError ErrKeyNotFound = ErrNotFound"
| "mapBadgerError ErrTxnConflict = ErrConflict"
| "mapBadgerError ErrEmptyKey = ErrNilKey"
| "mapBadgerError e = ErrBackend (badger_text e)"

definition on_store :: "('b, badger_err, 'a) op \<Rightarrow> ('b badger_DB, db_error, 'a) op" where
  "on_store run bdb = (case run (bdb_db bdb) of (r, b) \<Rightarrow> (map_err mapBadgerError r, bdb\<lparr>bdb_db := b\<rparr>))"

definition badger_Set :: "'b badger \<Rightarrow> slice \<Rightarrow> bytes \<Rightarrow> ('b badger_DB, db_error, unit) op" where
  "badger_Set bg key data bdb =
     (case key of
        None \<Rightarrow> (Err ErrNilKey, bdb)
      | Some k \<Rightarrow> on_store (badger_Update bg (txn_Set bg k data)) bdb)"

definition badger_SetScoped :: "'b badger \<Rightarrow> slice \<Rightarrow> bytes \<Rightarrow> 'b badger_DB \<Rightarrow> ((db_error, bytes) result \<times> 'b badger_DB) option" where
  "badger_SetScoped bg scopeKey data bdb =
     (case scopeKey of
        None \<Rightarrow> Some (Err ErrNilKey, bdb)
      | Some sk \<Rightarrow>
          map_option (\<lambda>r. obind r (\<lambda>key bdb.
            obind (on_store (badger_Update bg (txn_Set bg key data)) bdb) (\<lambda>_ bdb. (Ok key, bdb))))
            (IncrementKey bg sk bdb))"

definition badger_Get :: "'b badger \<Rightarrow> slice \<Rightarrow> ('b badger_DB, db_error, bytes) op" where
  "badger_Get bg key bdb =
     (case key of
        None \<Rightarrow> (Err ErrNilKey, bdb)
      | Some k \<Rightarrow>
          (rbind (map_err mapBadgerError (txn_Get k (bg_snapshot bg (bdb_db bdb)))) (\<lambda>v. Ok (go_copy (replicate (length v) 0) v)), bdb))"

definition badger_Exists :: "'b badger \<Rightarrow> slice \<Rightarrow> ('b badger_DB, db_error, bool) op" where
  "badger_Exists bg key bdb =
     (case key of
        None \<Rightarrow> (Err ErrNilKey, bdb)
      | Some k \<Rightarrow>
          (case txn_Get k (bg_snapshot bg (bdb_db bdb)) of
             Ok _ \<Rightarrow> (Ok True, bdb)
           | Err e \<Rightarrow> if e = ErrKeyNotFound then (Ok False, bdb) else (Err (mapBadgerError e), bdb)
           | Panic \<Rightarrow> (Panic, bdb)))"

definition badger_Delete :: "'b badger \<Rightarrow> slice \<Rightarrow> ('b badger_DB, db_error, unit) op" where
  "badger_Delete bg key bdb =
     (case key of
        None \<Rightarrow> (Err ErrNilKey, bdb)
      | Some k \<Rightarrow> on_store (badger_Update bg (txn_Delete bg k)) bdb)"

text \<open>
  An iterator visits the keys of the store in byte order, \<open>order\<close>: \<open>Seek\<close> goes to the first key that
  is not less than the prefix, and the loop ends at the first key that has not got the prefix.
\<close>

definition badger_items :: "'b badger \<Rightarrow> bytes list \<Rightarrow> slice \<Rightarrow> 'b badger_DB \<Rightarrow> (bytes \<times> bytes) list" where
  "badger_items bg order pre bdb = map (\<lambda>k. (k, the (bg_snapshot bg (bdb_db bdb) k)))
     (case pre of None \<Rightarrow> order | Some p \<Rightarrow> takeWhile (\<lambda>k. prefix p k) (dropWhile (\<lambda>k. k < p) order))"

definition badger_Close :: "'b badger \<Rightarrow> ('b badger_DB, db_error, unit) op" where
  "badger_Close bg bdb =
     (case sequenceCache_Purge bg bdb of
        (Panic, bdb) \<Rightarrow> (Panic, bdb)
      | (_, bdb) \<Rightarrow> on_store (bg_Close bg) bdb)"

text \<open>A call of \<open>SetScoped\<close> that does not return is given the outcome of a panic: no answer.\<close>

definition badger_DB_ops :: "'b badger \<Rightarrow> 'b badger_DB DB" where
  "badger_DB_ops bg = \<lparr>db_Set = badger_Set bg,
     db_SetScoped = (\<lambda>sk d bdb. case badger_SetScoped bg sk d bdb of None \<Rightarrow> (Panic, bdb) | Some r \<Rightarrow> r),
     db_Get = badger_Get bg, db_Exists = badger_Exists bg, db_Delete = badger_Delete bg,
     db_ListItems = badger_items bg, db_Close = badger_Close bg\<rparr>"

section \<open>A store that keeps its promises\<close>

text \<open>
  The laws of the library: a commit that succeeds makes exactly the transaction's writes visible, a
  commit that fails changes nothing.  On a reliable store every commit succeeds.
\<close>

definition badger_ok :: "'b badger \<Rightarrow> bool" where
  "badger_ok bg \<longleftrightarrow>
     (\<forall>m b b'. bg_commit bg m b = (Ok (), b') \<longrightarrow> bg_snapshot bg b' = m) \<and>
     (\<forall>m b e b'. bg_commit bg m b = (Err e, b') \<longrightarrow> bg_snapshot bg b' = bg_snapshot bg b)"

definition reliable :: "'b badger \<Rightarrow> bool" where
  "reliable bg \<longleftrightarrow> badger_ok bg \<and> (\<forall>m b. fst (bg_commit bg m b) = Ok ()) \<and> 8 \<le> bg_ValueLogFileSize bg"

lemma reliable_commit:
  assumes "reliable bg"
  obtains b' where "bg_commit bg m b = (Ok (), b')" "bg_snapshot bg b' = m"
proof -
  obtain r b' where run: "bg_commit bg m b = (r, b')" by fastforce
  have "fst (bg_commit bg m b) = Ok ()" using assms by (simp add: reliable_def)
  with run have ok: "bg_commit bg m b = (Ok (), b')" by simp
  moreover have "bg_snapshot bg b' = m" using assms ok unfolding reliable_def badger_ok_def by blast
  ultimately show thesis by (rule that)
qed

lemma length_be_bytes [simp]: "length (be_bytes n) = 8"
  by (simp add: be_bytes_def)

lemma rev_be_bytes [simp]: "rev (be_bytes n) = le_bytes 8 n"
  by (simp add: be_bytes_def)

lemma le_word_uint64 [simp]: "le_word (le_bytes 8 n) = (n :: uint64)"
  by (rule le_word_le_bytes) simp

lemma be_bytes_read [simp]: "BigEndian_Uint64 (be_bytes n) = Ok n"
  by (simp add: BigEndian_Uint64_def)

section \<open>Sequences\<close>

definition lease_key :: "bytes \<Rightarrow> bytes" where
  "lease_key sk = ascii ''__'' @ sk"

definition internal :: "bytes \<Rightarrow> bool" where
  "internal k \<longleftrightarrow> prefix (ascii ''__'') k"

definition stored_lease :: "(bytes \<rightharpoonup> bytes) \<Rightarrow> bytes \<Rightarrow> uint64" where
  "stored_lease m sk = (case m (lease_key sk) of None \<Rightarrow> 0 | Some v \<Rightarrow> le_word (rev v))"

definition lease_wf :: "(bytes \<rightharpoonup> bytes) \<Rightarrow> bytes \<Rightarrow> bool" where
  "lease_wf m sk \<longleftrightarrow> m (lease_key sk) = None \<or> (\<exists>n. m (lease_key sk) = Some (be_bytes n))"

definition seq_ok :: "(bytes \<rightharpoonup> bytes) \<Rightarrow> bytes \<Rightarrow> Sequence \<Rightarrow> bool" where
  "seq_ok m sk s \<longleftrightarrow> seq_key s = lease_key sk \<and> seq_bandwidth s = sequenceBandwidth \<and> seq_next s \<le> seq_leased s \<and>
     m (lease_key sk) = Some (be_bytes (seq_leased s))"

definition cached :: "sequenceCacheBucket list \<Rightarrow> bytes \<Rightarrow> Sequence option" where
  "cached cache sk = lru_Peek sk (cache ! bucket_index sk)"

definition buckets_ok :: "sequenceCacheBucket list \<Rightarrow> bool" where
  "buckets_ok cache \<longleftrightarrow> length cache = sequenceCacheBucketCount \<and>
     (\<forall>i < sequenceCacheBucketCount. lru_ok (cache ! i) \<and> (\<forall>k. lru_Peek k (cache ! i) \<noteq> None \<longrightarrow> bucket_index k = i))"

definition seqs_ok :: "sequenceCacheBucket list \<Rightarrow> (bytes \<rightharpoonup> bytes) \<Rightarrow> bool" where
  "seqs_ok cache m \<longleftrightarrow> buckets_ok cache \<and>
     (\<forall>sk. case cached cache sk of None \<Rightarrow> lease_wf m sk | Some s \<Rightarrow> seq_ok m sk s)"

text \<open>The number that a scope hands out next.\<close>

definition position :: "sequenceCacheBucket list \<Rightarrow> (bytes \<rightharpoonup> bytes) \<Rightarrow> bytes \<Rightarrow> uint64" where
  "position cache m sk = (case cached cache sk of None \<Rightarrow> stored_lease m sk | Some s \<Rightarrow> seq_next s)"

lemma lease_key_inj [simp]: "lease_key a = lease_key b \<longleftrightarrow> a = b"
  by (simp add: lease_key_def)

lemma lease_key_internal [simp]: "internal (lease_key sk)" "lease_key sk \<noteq> []"
  by (simp_all add: internal_def lease_key_def)

lemma stored_lease_be [simp]: "m (lease_key sk) = Some (be_bytes n) \<Longrightarrow> stored_lease m sk = n"
  by (simp add: stored_lease_def)

lemma bucket_index_less: "bucket_index sk < sequenceCacheBucketCount"
proof -
  have "unat (x mod 16 :: uint32) < 16" for x by (simp add: unat_mod)
  then show ?thesis by (simp add: bucket_index_def sequenceCacheBucketCount_def)
qed

lemma cached_update:
  "buckets_ok cache \<Longrightarrow> bucket_index sk = i \<Longrightarrow>
     cached (cache[i := lru]) x = (if bucket_index x = i then lru_Peek x lru else cached cache x)"
  using bucket_index_less [of sk] by (auto simp: cached_def buckets_ok_def)

lemma buckets_ok_update:
  assumes "buckets_ok cache" "lru_ok lru" "\<And>k. lru_Peek k lru \<noteq> None \<Longrightarrow> bucket_index k = i"
  shows "buckets_ok (cache[i := lru])"
  using assms by (cases "i < length cache") (auto simp: buckets_ok_def nth_list_update)

lemma updateLease_ok:
  assumes bg: "reliable bg" "length (lease_key sk) \<le> bg_maxKeySize bg" and wf: "lease_wf (bg_snapshot bg b) sk" and s: "seq_key s = lease_key sk"
  shows "\<exists>b'. updateLease bg (s, b) = (Ok (), s\<lparr>seq_next := stored_lease (bg_snapshot bg b) sk,
      seq_leased := stored_lease (bg_snapshot bg b) sk + seq_bandwidth s\<rparr>, b') \<and>
    bg_snapshot bg b' = (bg_snapshot bg b)(lease_key sk \<mapsto> be_bytes (stored_lease (bg_snapshot bg b) sk + seq_bandwidth s))"
proof -
  let ?m = "bg_snapshot bg b" and ?n = "stored_lease (bg_snapshot bg b) sk"
  obtain b' where b': "bg_commit bg (?m(lease_key sk \<mapsto> be_bytes (?n + seq_bandwidth s))) b = (Ok (), b')"
    "bg_snapshot bg b' = ?m(lease_key sk \<mapsto> be_bytes (?n + seq_bandwidth s))" using reliable_commit [OF bg(1)] by blast
  have size: "8 \<le> bg_ValueLogFileSize bg" using bg(1) by (simp add: reliable_def)
  have start: "(case txn_Get (lease_key sk) ?m of Err e \<Rightarrow> if e = ErrKeyNotFound then Ok 0 else Err e | Panic \<Rightarrow> Panic | Ok val \<Rightarrow> BigEndian_Uint64 val) = Ok ?n"
    using wf by (auto simp: lease_wf_def stored_lease_def txn_Get_def)
  have set: "txn_Set bg (lease_key sk) v ?m = (Ok (), ?m(lease_key sk \<mapsto> v))" if "length v = 8" for v
    using that size bg(2) by (simp add: txn_Set_def)
  show ?thesis by (intro exI [of _ b']) (simp add: updateLease_def start Let_def s set b')
qed

lemma get_sequence_ok:
  assumes bg: "reliable bg" "length (lease_key sk) \<le> bg_maxKeySize bg" and wf: "lease_wf (bg_snapshot bg b) sk"
    and room: "unat (stored_lease (bg_snapshot bg b) sk) + 512 < 2 ^ 64"
  shows "\<exists>s b'. get_sequence bg (lease_key sk) b = Some (Ok s, b') \<and> seq_ok (bg_snapshot bg b') sk s \<and>
    seq_next s = stored_lease (bg_snapshot bg b) sk \<and> unat (seq_leased s) = unat (seq_next s) + 512 \<and>
    bg_snapshot bg b' = (bg_snapshot bg b)(lease_key sk \<mapsto> be_bytes (seq_leased s))"
proof -
  let ?n = "stored_lease (bg_snapshot bg b) sk"
  let ?s = "\<lparr>seq_key = lease_key sk, seq_next = 0, seq_leased = 0, seq_bandwidth = sequenceBandwidth\<rparr>"
  have sum: "unat (?n + sequenceBandwidth) = unat ?n + 512" using room by (simp add: sequenceBandwidth_def unat_word_ariths)
  then have le: "?n \<le> ?n + sequenceBandwidth" by (simp add: word_le_nat_alt)
  from updateLease_ok [OF bg wf, of ?s] obtain b' where
    u: "updateLease bg (?s, b) = (Ok (), ?s\<lparr>seq_next := ?n, seq_leased := ?n + sequenceBandwidth\<rparr>, b')"
      "bg_snapshot bg b' = (bg_snapshot bg b)(lease_key sk \<mapsto> be_bytes (?n + sequenceBandwidth))" by auto
  then have "get_sequence bg (lease_key sk) b = Some (Ok (?s\<lparr>seq_next := ?n, seq_leased := ?n + sequenceBandwidth\<rparr>), b')"
    by (subst get_sequence.simps) (simp add: GetSequence_def sequenceBandwidth_def)
  with u(2) le sum show ?thesis by (auto simp: seq_ok_def)
qed

lemma onEvict_ok:
  assumes bg: "reliable bg" "length (lease_key sk) \<le> bg_maxKeySize bg" and s: "seq_key s = lease_key sk"
  shows "\<exists>b'. onEvict bg (sk, s) b = (Ok (), b') \<and> bg_snapshot bg b' = (bg_snapshot bg b)(lease_key sk \<mapsto> be_bytes (seq_next s))"
proof -
  obtain b' where "bg_commit bg ((bg_snapshot bg b)(lease_key sk \<mapsto> be_bytes (seq_next s))) b = (Ok (), b')"
    "bg_snapshot bg b' = (bg_snapshot bg b)(lease_key sk \<mapsto> be_bytes (seq_next s))" using reliable_commit [OF bg(1)] by blast
  moreover have "8 \<le> bg_ValueLogFileSize bg" using bg(1) by (simp add: reliable_def)
  ultimately show ?thesis using bg(2) s by (simp add: onEvict_def seq_Release_def badger_Update_def txn_Set_def)
qed

lemma draw_ok:
  assumes bg: "reliable bg" "length (lease_key sk) \<le> bg_maxKeySize bg" and s: "seq_ok (bg_snapshot bg b) sk s"
    and room: "unat (seq_next s) + 512 < 2 ^ 64"
  shows "\<exists>s' b'. draw bg (s, b) = Some (Ok (seq_next s), s', b') \<and> seq_ok (bg_snapshot bg b') sk s' \<and> seq_next s' = seq_next s + 1 \<and>
    unat (seq_leased s') \<le> unat (seq_leased s) + 512 \<and>
    bg_snapshot bg b' = (bg_snapshot bg b)(lease_key sk \<mapsto> be_bytes (seq_leased s'))"
proof (cases "seq_leased s \<le> seq_next s")
  case True
  with s have eq: "seq_leased s = seq_next s" "stored_lease (bg_snapshot bg b) sk = seq_next s" "seq_key s = lease_key sk"
    "lease_wf (bg_snapshot bg b) sk" "seq_bandwidth s = 512"
    by (auto simp: seq_ok_def lease_wf_def sequenceBandwidth_def)
  have sum: "unat (seq_next s + 512) = unat (seq_next s) + 512" using room by (simp add: unat_word_ariths)
  then have le: "seq_next s + 1 \<le> seq_next s + 512" using room by (simp add: word_le_nat_alt unat_word_ariths)
  from updateLease_ok [OF bg eq(4,3)] obtain b' where
    "updateLease bg (s, b) = (Ok (), s\<lparr>seq_next := seq_next s, seq_leased := seq_next s + 512\<rparr>, b')"
    "bg_snapshot bg b' = (bg_snapshot bg b)(lease_key sk \<mapsto> be_bytes (seq_next s + 512))" unfolding eq(2,5) by blast
  with True le sum eq show ?thesis by (subst draw.simps) (auto simp: seq_Next_def seq_ok_def sequenceBandwidth_def)
next
  case False
  then have less: "seq_next s < seq_leased s" by simp
  then have "seq_next s + 1 \<le> seq_leased s" using room by (simp add: word_le_nat_alt word_less_nat_alt unat_word_ariths)
  with s less have "seq_ok (bg_snapshot bg b) sk (s\<lparr>seq_next := seq_next s + 1\<rparr>)" by (simp add: seq_ok_def)
  moreover have "(bg_snapshot bg b)(lease_key sk \<mapsto> be_bytes (seq_leased s)) = bg_snapshot bg b"
    using s by (auto simp: seq_ok_def)
  ultimately show ?thesis using False by (subst draw.simps) (auto simp: seq_Next_def)
qed

section \<open>The cache keeps the sequences\<close>

lemma seqs_okD:
  "seqs_ok cache m \<Longrightarrow> cached cache sk = Some s \<Longrightarrow> seq_ok m sk s"
  "seqs_ok cache m \<Longrightarrow> cached cache sk = None \<Longrightarrow> lease_wf m sk"
  by (auto simp: seqs_ok_def split: option.splits dest!: spec [of _ sk])

lemma bucket_ok: "seqs_ok cache m \<Longrightarrow> lru_ok (cache ! bucket_index sk)"
  "seqs_ok cache m \<Longrightarrow> lru_Peek k (cache ! bucket_index sk) \<noteq> None \<Longrightarrow> bucket_index k = bucket_index sk"
  using bucket_index_less [of sk] by (auto simp: seqs_ok_def buckets_ok_def)

text \<open>A step that changes the cached sequences and leases of some scopes only, to consistent ones.\<close>

lemma seqs_ok_step:
  assumes ok: "seqs_ok cache m" and lru: "lru_ok lru" "\<forall>k. lru_Peek k lru \<noteq> None \<longrightarrow> bucket_index k = bucket_index sk"
    and changed: "\<forall>x\<in>S. bucket_index x = bucket_index sk \<and> (case lru_Peek x lru of None \<Rightarrow> lease_wf m' x | Some s \<Rightarrow> seq_ok m' x s)"
    and others: "\<forall>x. x \<notin> S \<longrightarrow> m' (lease_key x) = m (lease_key x) \<and> (bucket_index x = bucket_index sk \<longrightarrow> lru_Peek x lru = cached cache x)"
  shows "seqs_ok (cache[bucket_index sk := lru]) m'"
    "x \<notin> S \<Longrightarrow> position (cache[bucket_index sk := lru]) m' x = position cache m x"
    "x \<in> S \<Longrightarrow> position (cache[bucket_index sk := lru]) m' x = (case lru_Peek x lru of None \<Rightarrow> stored_lease m' x | Some s \<Rightarrow> seq_next s)"
proof -
  have b: "buckets_ok cache" using ok by (simp add: seqs_ok_def)
  note upd = cached_update [OF b refl, of sk lru]
  have same: "cached (cache[bucket_index sk := lru]) x = cached cache x" if "x \<notin> S" for x using others that upd by simp
  have inside: "cached (cache[bucket_index sk := lru]) x = lru_Peek x lru" if "x \<in> S" for x using changed that upd by simp
  have "case cached (cache[bucket_index sk := lru]) x of None \<Rightarrow> lease_wf m' x | Some s \<Rightarrow> seq_ok m' x s" for x
  proof (cases "x \<in> S")
    case True
    then show ?thesis using changed inside [OF True] by simp
  next
    case False
    then show ?thesis using seqs_okD [OF ok, of x] others [rule_format, OF False]
      by (auto simp: same [OF False] lease_wf_def seq_ok_def split: option.splits)
  qed
  with buckets_ok_update [OF b lru(1)] lru(2) show "seqs_ok (cache[bucket_index sk := lru]) m'" by (simp add: seqs_ok_def)
  show "x \<notin> S \<Longrightarrow> position (cache[bucket_index sk := lru]) m' x = position cache m x"
    using same [of x] others [rule_format, of x] by (simp add: position_def stored_lease_def split: option.splits)
  show "x \<in> S \<Longrightarrow> position (cache[bucket_index sk := lru]) m' x = (case lru_Peek x lru of None \<Rightarrow> stored_lease m' x | Some s \<Rightarrow> seq_next s)"
    using inside by (simp add: position_def)
qed

definition same_data :: "(bytes \<rightharpoonup> bytes) \<Rightarrow> (bytes \<rightharpoonup> bytes) \<Rightarrow> bool" where
  "same_data m m' \<longleftrightarrow> (\<forall>k. \<not> internal k \<longrightarrow> m' k = m k)"

lemma same_data_lease: "same_data m (m(lease_key sk \<mapsto> v))" "same_data m m' \<Longrightarrow> same_data m' m'' \<Longrightarrow> same_data m m''"
  by (auto simp: same_data_def)

text \<open>
  The bucket \<open>lru\<close> and the leases \<open>m'\<close> after the sequence \<open>s\<close> of a scope was looked up: no scope has
  moved, and no other sequence has entered the cache.
\<close>

definition fetched :: "sequenceCacheBucket list \<Rightarrow> bytes \<Rightarrow> (bytes \<rightharpoonup> bytes) \<Rightarrow> Sequence \<Rightarrow> sequenceCacheBucket \<Rightarrow> (bytes \<rightharpoonup> bytes) \<Rightarrow> bool" where
  "fetched cache sk m s lru m' \<longleftrightarrow> seqs_ok (cache[bucket_index sk := lru]) m' \<and> lru_Peek sk lru = Some s \<and>
     (\<forall>x. position (cache[bucket_index sk := lru]) m' x = position cache m x) \<and>
     (\<forall>x. lru_Peek x lru \<noteq> None \<longrightarrow> x = sk \<or> cached cache x \<noteq> None) \<and> same_data m m' \<and>
     (\<forall>x. unat (stored_lease m' x) \<le> unat (stored_lease m x) + 512)"

lemma position_le: "seqs_ok cache m \<Longrightarrow> position cache m x \<le> stored_lease m x"
  using seqs_okD(1) [of cache m x] by (auto simp: position_def seq_ok_def split: option.splits)

lemma fetchedI:
  assumes ok: "seqs_ok cache m" and lru: "lru_ok lru" "lru_Peek sk lru = Some s" "seq_ok m' sk s" "seq_next s = position cache m sk"
    and peek: "\<forall>x. x \<noteq> sk \<longrightarrow> lru_Peek x lru = (if x = old then None else lru_Peek x (cache ! bucket_index sk))"
    and old: "old \<noteq> sk \<longrightarrow> bucket_index old = bucket_index sk \<and> lease_wf m' old \<and> stored_lease m' old = position cache m old"
    and same: "\<forall>x. x \<noteq> sk \<and> x \<noteq> old \<longrightarrow> m' (lease_key x) = m (lease_key x)" and data: "same_data m m'"
    and lease: "unat (stored_lease m' sk) \<le> unat (stored_lease m sk) + 512"
  shows "fetched cache sk m s lru m'"
proof -
  let ?i = "bucket_index sk" and ?S = "{sk, old}"
  have here: "lru_Peek x lru = (if x = old then None else cached cache x)" if "bucket_index x = ?i" "x \<noteq> sk" for x
    using that peek by (simp add: cached_def)
  have home: "bucket_index x = ?i" if "lru_Peek x lru \<noteq> None" for x
    using that peek bucket_ok(2) [OF ok, of x sk] by (cases "x = sk") (auto split: if_splits)
  have in_S: "\<forall>x\<in>?S. bucket_index x = ?i \<and> (case lru_Peek x lru of None \<Rightarrow> lease_wf m' x | Some s \<Rightarrow> seq_ok m' x s)"
    using lru(2,3) old here [of old] by (cases "old = sk") simp_all
  have out_S: "\<forall>x. x \<notin> ?S \<longrightarrow> m' (lease_key x) = m (lease_key x) \<and> (bucket_index x = ?i \<longrightarrow> lru_Peek x lru = cached cache x)"
    using same here by simp
  have homes: "\<forall>x. lru_Peek x lru \<noteq> None \<longrightarrow> bucket_index x = ?i" using home by blast
  note step = seqs_ok_step [OF ok lru(1) homes in_S out_S]
  have "position (cache[?i := lru]) m' x = position cache m x" for x
  proof (cases "x \<in> ?S")
    case True
    then show ?thesis using step(3) [OF True] lru(2,4) old here [of old] by (cases "x = sk") auto
  next
    case False
    then show ?thesis by (rule step(2))
  qed
  moreover have "x = sk \<or> cached cache x \<noteq> None" if "lru_Peek x lru \<noteq> None" for x
    using that home [OF that] here [of x] by (cases "x = sk") (auto split: if_splits)
  moreover have "unat (stored_lease m' x) \<le> unat (stored_lease m x) + 512" for x
  proof (cases "x \<in> ?S")
    case True
    then show ?thesis using lease old position_le [OF ok, of x] by (cases "x = sk") (auto simp: word_le_nat_alt)
  next
    case False
    then show ?thesis using same by (simp add: stored_lease_def)
  qed
  ultimately show ?thesis using step(1) lru(2) data by (simp add: fetched_def)
qed

text \<open>The sequence is not in the cache: it is leased, and added with or without evicting another one.\<close>

lemma added_sequence_ok:
  assumes bg: "reliable bg" and keys: "\<forall>k. cached cache k \<noteq> None \<longrightarrow> length (lease_key k) \<le> bg_maxKeySize bg"
    and ok: "seqs_ok cache m" and lru: "lru_ok lru" "\<forall>x. lru_Peek x lru = lru_Peek x (cache ! bucket_index sk)"
    and s: "seq_ok (bg_snapshot bg b) sk s" "seq_next s = position cache m sk" "bg_snapshot bg b = m(lease_key sk \<mapsto> be_bytes (seq_leased s))"
      "unat (seq_leased s) \<le> unat (stored_lease m sk) + 512"
    and add: "lru_Add sk s lru = (out, lru')"
  shows "\<exists>b'. (case out of None \<Rightarrow> (Ok (), b) | Some kv \<Rightarrow> onEvict bg kv b) = (Ok (), b') \<and> fetched cache sk m s lru' (bg_snapshot bg b')"
proof (cases out)
  case None
  note a = lru.add_new [OF lru(1) add]
  have "fetched cache sk m s lru' (bg_snapshot bg b)"
  proof (rule fetchedI [where old = sk, OF ok _ _ s(1,2)])
    show "same_data m (bg_snapshot bg b)" unfolding s(3) by (rule same_data_lease)
  qed (use a None lru(2) s(3,4) in simp_all)
  with None show ?thesis by simp
next
  case (Some kv)
  obtain old w where kv: "kv = (old, w)" by fastforce
  have a: "lru_ok lru'" "old \<noteq> sk" "lru_Peek old lru = Some w"
      "\<forall>x. lru_Peek x lru' = (if x = sk then Some s else if x = old then None else lru_Peek x lru)"
    using lru.add_new [OF lru(1) add] by (simp_all add: Some kv)
  have home: "bucket_index old = bucket_index sk" using bucket_ok(2) [OF ok, of old sk] a(3) lru(2) by simp
  then have c: "cached cache old = Some w" using a(3) lru(2) by (simp add: cached_def)
  then have w: "seq_key w = lease_key old" "length (lease_key old) \<le> bg_maxKeySize bg"
    using seqs_okD(1) [OF ok c] keys by (simp_all add: seq_ok_def)
  obtain b' where b': "onEvict bg (old, w) b = (Ok (), b')" "bg_snapshot bg b' = (bg_snapshot bg b)(lease_key old \<mapsto> be_bytes (seq_next w))"
    using onEvict_ok [OF bg w(2,1)] by blast
  have good: "seq_ok (bg_snapshot bg b') sk s" using s(1) a(2) by (simp add: b'(2) seq_ok_def)
  have "fetched cache sk m s lru' (bg_snapshot bg b')"
  proof (rule fetchedI [where old = old, OF ok a(1) _ good s(2)])
    show "same_data m (bg_snapshot bg b')" unfolding b'(2) s(3) by (rule same_data_lease(2) [OF same_data_lease(1) same_data_lease(1)])
    show "old \<noteq> sk \<longrightarrow> bucket_index old = bucket_index sk \<and> lease_wf (bg_snapshot bg b') old \<and>
        stored_lease (bg_snapshot bg b') old = position cache m old"
      using home c by (auto simp: lease_wf_def b'(2) position_def)
  qed (use a lru(2) s(3,4) b'(2) in simp_all)
  with b'(1) Some kv show ?thesis by simp
qed

lemma cached_sequence_ok:
  assumes bg: "reliable bg" "length (lease_key sk) \<le> bg_maxKeySize bg"
    and keys: "\<forall>k. cached cache k \<noteq> None \<longrightarrow> length (lease_key k) \<le> bg_maxKeySize bg"
    and ok: "seqs_ok cache (bg_snapshot bg b)" and room: "unat (position cache (bg_snapshot bg b) sk) + 512 < 2 ^ 64"
  shows "\<exists>s lru b'. cached_sequence bg sk (cache ! bucket_index sk, b) = Some (Ok s, lru, b') \<and>
    fetched cache sk (bg_snapshot bg b) s lru (bg_snapshot bg b')"
proof -
  let ?i = "bucket_index sk" and ?m = "bg_snapshot bg b"
  obtain found lru1 where get: "lru_Get sk (cache ! ?i) = (found, lru1)" by fastforce
  have l1: "lru_ok lru1" "found = cached cache sk" "\<forall>x. lru_Peek x lru1 = lru_Peek x (cache ! ?i)"
    using lru.get_same [OF bucket_ok(1) [OF ok] get] by (simp_all add: cached_def)
  show ?thesis
  proof (cases "cached cache sk")
    case (Some s)
    have "fetched cache sk ?m s lru1 ?m"
      by (rule fetchedI [where old = sk, OF ok l1(1) _ seqs_okD(1) [OF ok Some]])
        (use Some l1(3) in \<open>simp_all add: position_def same_data_def cached_def\<close>)
    with Some get l1(2) show ?thesis by (auto simp: cached_sequence_def)
  next
    case None
    then have wf: "lease_wf ?m sk" "unat (stored_lease ?m sk) + 512 < 2 ^ 64"
      using seqs_okD(2) [OF ok None] room by (simp_all add: position_def)
    obtain s b1 where s: "get_sequence bg (lease_key sk) b = Some (Ok s, b1)" "seq_ok (bg_snapshot bg b1) sk s"
      "seq_next s = position cache ?m sk" "bg_snapshot bg b1 = ?m(lease_key sk \<mapsto> be_bytes (seq_leased s))"
      "unat (seq_leased s) \<le> unat (stored_lease ?m sk) + 512"
      using get_sequence_ok [OF bg wf] None by (auto simp: position_def)
    obtain out lru2 where add: "lru_Add sk s lru1 = (out, lru2)" by fastforce
    have start: "lru_Get sk (cache ! ?i) = (None, lru1)" "UnlistedKey (Some sk) = (Ok (lease_key sk) :: (badger_err, bytes) result)"
      using get l1(2) None by (simp_all add: UnlistedKey_eq lease_key_def)
    obtain b' where b': "(case out of None \<Rightarrow> (Ok (), b1) | Some kv \<Rightarrow> onEvict bg kv b1) = (Ok (), b')" "fetched cache sk ?m s lru2 (bg_snapshot bg b')"
      using added_sequence_ok [OF bg(1) keys ok l1(1,3) s(2,3,4,5) add] by blast
    then have "cached_sequence bg sk (cache ! ?i, b) = Some (Ok s, lru2, b')"
      using start add s(1) by (cases out) (simp_all add: cached_sequence_def)
    with b'(2) show ?thesis by blast
  qed
qed

definition well :: "'b badger \<Rightarrow> 'b badger_DB \<Rightarrow> bool" where
  "well bg bdb \<longleftrightarrow> seqs_ok (bdb_seqCache bdb) (bg_snapshot bg (bdb_db bdb)) \<and>
     (\<forall>k. cached (bdb_seqCache bdb) k \<noteq> None \<longrightarrow> length (lease_key k) \<le> bg_maxKeySize bg)"

definition upcoming :: "'b badger \<Rightarrow> 'b badger_DB \<Rightarrow> bytes \<Rightarrow> uint64" where
  "upcoming bg bdb = position (bdb_seqCache bdb) (bg_snapshot bg (bdb_db bdb))"

definition store :: "'b badger \<Rightarrow> 'b badger_DB \<Rightarrow> bytes \<rightharpoonup> bytes" where
  "store bg bdb = bg_snapshot bg (bdb_db bdb)"

text \<open>A cached sequence moves on.\<close>

lemma modified_ok:
  assumes ok: "seqs_ok cache m" and s: "cached cache sk = Some s" "seq_ok m' sk s'" and m': "m' = m(lease_key sk \<mapsto> v)"
  defines "cache' \<equiv> cache[bucket_index sk := lru_modify sk s' (cache ! bucket_index sk)]"
  shows "seqs_ok cache' m'" "position cache' m' x = (if x = sk then seq_next s' else position cache m x)"
    "cached cache' x \<noteq> None \<longleftrightarrow> cached cache x \<noteq> None"
proof -
  let ?i = "bucket_index sk" and ?lru = "lru_modify sk s' (cache ! bucket_index sk)"
  have p: "lru_Peek y ?lru = (if y = sk then Some s' else lru_Peek y (cache ! ?i))" for y
    using s(1) by (simp add: lru_modify_Peek cached_def)
  have h1: "\<forall>k. lru_Peek k ?lru \<noteq> None \<longrightarrow> bucket_index k = ?i" using bucket_ok(2) [OF ok, of _ sk] by (simp add: p)
  have h2: "\<forall>y\<in>{sk}. bucket_index y = ?i \<and> (case lru_Peek y ?lru of None \<Rightarrow> lease_wf m' y | Some s \<Rightarrow> seq_ok m' y s)"
    using s(2) by (simp add: p)
  have h3: "\<forall>y. y \<notin> {sk} \<longrightarrow> m' (lease_key y) = m (lease_key y) \<and> (bucket_index y = ?i \<longrightarrow> lru_Peek y ?lru = cached cache y)"
    by (simp add: m' p cached_def)
  note step = seqs_ok_step [OF ok lru_modify_ok(1) [OF bucket_ok(1) [OF ok]] h1 h2 h3]
  show "seqs_ok cache' m'" unfolding cache'_def by (rule step(1))
  show "position cache' m' x = (if x = sk then seq_next s' else position cache m x)"
    unfolding cache'_def using step(2,3) [of x] by (simp add: p)
  show "cached cache' x \<noteq> None \<longleftrightarrow> cached cache x \<noteq> None"
    using cached_update [of cache sk ?i ?lru x] ok s(1) by (auto simp: cache'_def seqs_ok_def p cached_def)
qed

lemma IncrementKey_ok:
  assumes bg: "reliable bg" "length (lease_key sk) \<le> bg_maxKeySize bg" and ok: "well bg bdb"
    and room: "unat (upcoming bg bdb sk) + 512 < 2 ^ 64"
  shows "\<exists>bdb'. IncrementKey bg sk bdb = Some (Ok (sk @ le_bytes 8 (upcoming bg bdb sk)), bdb') \<and> well bg bdb' \<and>
    upcoming bg bdb' = (upcoming bg bdb)(sk := upcoming bg bdb sk + 1) \<and> same_data (store bg bdb) (store bg bdb') \<and>
    (\<forall>x. unat (stored_lease (store bg bdb') x) \<le> unat (stored_lease (store bg bdb) x) + 1024)"
proof -
  let ?i = "bucket_index sk" and ?c = "bdb_seqCache bdb" and ?m = "bg_snapshot bg (bdb_db bdb)"
  have w: "seqs_ok ?c ?m" "\<forall>k. cached ?c k \<noteq> None \<longrightarrow> length (lease_key k) \<le> bg_maxKeySize bg" using ok by (simp_all add: well_def)
  have room': "unat (position ?c ?m sk) + 512 < 2 ^ 64" using room by (simp add: upcoming_def)
  obtain s lru b1 where f: "cached_sequence bg sk (?c ! ?i, bdb_db bdb) = Some (Ok s, lru, b1)" "fetched ?c sk ?m s lru (bg_snapshot bg b1)"
    using cached_sequence_ok [OF bg w(2,1) room'] by blast
  let ?c1 = "?c[?i := lru]"
  have c1: "seqs_ok ?c1 (bg_snapshot bg b1)" and pos: "\<And>x. position ?c1 (bg_snapshot bg b1) x = position ?c ?m x"
    using f(2) by (simp_all add: fetched_def)
  have at: "?c1 ! ?i = lru" using w(1) bucket_index_less [of sk] by (simp add: seqs_ok_def buckets_ok_def)
  have s1: "cached ?c1 sk = Some s" using at f(2) by (simp add: cached_def fetched_def)
  have sn: "seq_next s = position ?c ?m sk" using pos [of sk] s1 by (simp add: position_def)
  obtain s' b2 where d: "draw bg (s, b1) = Some (Ok (seq_next s), s', b2)" "seq_ok (bg_snapshot bg b2) sk s'" "seq_next s' = seq_next s + 1"
    "bg_snapshot bg b2 = (bg_snapshot bg b1)(lease_key sk \<mapsto> be_bytes (seq_leased s'))"
    "unat (seq_leased s') \<le> unat (seq_leased s) + 512"
    using draw_ok [OF bg seqs_okD(1) [OF c1 s1]] room' sn by metis
  let ?bdb = "bdb\<lparr>bdb_db := b2, bdb_seqCache := ?c[?i := lru_modify sk s' lru]\<rparr>"
  note step = modified_ok [OF c1 s1 d(2,4), unfolded at list_update_overwrite]
  have run: "IncrementKey bg sk bdb = Some (Ok (sk @ le_bytes 8 (upcoming bg bdb sk)), ?bdb)"
    using f(1) d(1) sn by (simp add: IncrementKey_def bucket_IncrementKey_def ScopedSequenceKey_eq upcoming_def Let_def)
  have "cached ?c1 k \<noteq> None \<Longrightarrow> length (lease_key k) \<le> bg_maxKeySize bg" for k
    using cached_update [of ?c sk ?i lru k] w f(2) bg(2) by (auto simp: seqs_ok_def fetched_def split: if_splits)
  then have "well bg ?bdb" using step(1,3) by (simp add: well_def)
  moreover have "upcoming bg ?bdb = (upcoming bg bdb)(sk := upcoming bg bdb sk + 1)"
    using step(2) pos d(3) sn by (simp add: fun_eq_iff upcoming_def)
  moreover have "same_data (store bg bdb) (store bg ?bdb)"
    using f(2) by (auto simp: fetched_def store_def d(4) intro: same_data_lease)
  moreover have "unat (stored_lease (store bg ?bdb) x) \<le> unat (stored_lease (store bg bdb) x) + 1024" for x
  proof -
    have "unat (stored_lease (bg_snapshot bg b1) x) \<le> unat (stored_lease ?m x) + 512" using f(2) by (simp add: fetched_def)
    moreover have "unat (stored_lease (bg_snapshot bg b2) x) \<le> unat (stored_lease (bg_snapshot bg b1) x) + 512"
      using d(4,5) seqs_okD(1) [OF c1 s1] by (cases "x = sk") (auto simp: seq_ok_def stored_lease_def)
    ultimately show ?thesis by (simp add: store_def)
  qed
  ultimately show ?thesis using run by blast
qed

lemma on_store_ok:
  assumes "reliable bg" "txn (bg_snapshot bg (bdb_db bdb)) = (Ok (), m)"
  shows "\<exists>b. on_store (badger_Update bg txn) bdb = (Ok (), bdb\<lparr>bdb_db := b\<rparr>) \<and> bg_snapshot bg b = m"
proof -
  obtain b where "bg_commit bg m (bdb_db bdb) = (Ok (), b)" "bg_snapshot bg b = m" using reliable_commit [OF assms(1)] by blast
  then show ?thesis using assms(2) by (intro exI [of _ b]) (simp add: on_store_def badger_Update_def)
qed

lemma well_data:
  assumes "well bg bdb" "\<forall>k. internal k \<longrightarrow> bg_snapshot bg b k = store bg bdb k"
  shows "well bg (bdb\<lparr>bdb_db := b\<rparr>)" "upcoming bg (bdb\<lparr>bdb_db := b\<rparr>) = upcoming bg bdb"
proof -
  have same: "bg_snapshot bg b (lease_key x) = bg_snapshot bg (bdb_db bdb) (lease_key x)" for x using assms(2) by (simp add: store_def)
  then show "well bg (bdb\<lparr>bdb_db := b\<rparr>)" using assms(1)
    by (simp add: well_def seqs_ok_def lease_wf_def seq_ok_def cong: option.case_cong)
  show "upcoming bg (bdb\<lparr>bdb_db := b\<rparr>) = upcoming bg bdb"
    by (simp add: fun_eq_iff upcoming_def position_def stored_lease_def same cong: option.case_cong)
qed

lemma badger_SetScoped_ok:
  assumes bg: "reliable bg" and fits: "length sk + 8 \<le> bg_maxKeySize bg" "length d \<le> bg_ValueLogFileSize bg"
    and sk: "\<not> internal (sk @ le_bytes 8 (upcoming bg bdb sk))" and ok: "well bg bdb" and room: "unat (upcoming bg bdb sk) + 512 < 2 ^ 64"
  shows "\<exists>bdb' m. badger_SetScoped bg (Some sk) d bdb = Some (Ok (sk @ le_bytes 8 (upcoming bg bdb sk)), bdb') \<and> well bg bdb' \<and>
    upcoming bg bdb' = (upcoming bg bdb)(sk := upcoming bg bdb sk + 1) \<and>
    same_data (store bg bdb) m \<and> store bg bdb' = m(sk @ le_bytes 8 (upcoming bg bdb sk) \<mapsto> d) \<and>
    (\<forall>x. unat (stored_lease (store bg bdb') x) \<le> unat (stored_lease (store bg bdb) x) + 1024)"
proof -
  let ?key = "sk @ le_bytes 8 (upcoming bg bdb sk)"
  have lk: "length (lease_key sk) \<le> bg_maxKeySize bg" using fits(1) by (simp add: lease_key_def)
  obtain bdb1 where i: "IncrementKey bg sk bdb = Some (Ok ?key, bdb1)" "well bg bdb1"
    "upcoming bg bdb1 = (upcoming bg bdb)(sk := upcoming bg bdb sk + 1)" "same_data (store bg bdb) (store bg bdb1)"
    "\<forall>x. unat (stored_lease (store bg bdb1) x) \<le> unat (stored_lease (store bg bdb) x) + 1024"
    using IncrementKey_ok [OF bg lk ok room] by blast
  have "?key \<noteq> []" by (metis append_is_Nil_conv length_le_bytes list.size(3) zero_neq_numeral)
  then have "txn_Set bg ?key d (bg_snapshot bg (bdb_db bdb1)) = (Ok (), (store bg bdb1)(?key \<mapsto> d))"
    using fits by (simp add: txn_Set_def store_def)
  then obtain b where b: "on_store (badger_Update bg (txn_Set bg ?key d)) bdb1 = (Ok (), bdb1\<lparr>bdb_db := b\<rparr>)" "bg_snapshot bg b = (store bg bdb1)(?key \<mapsto> d)"
    using on_store_ok [OF bg] by blast
  have "\<forall>k. internal k \<longrightarrow> bg_snapshot bg b k = store bg bdb1 k" using sk by (auto simp: b(2))
  note w = well_data [OF i(2) this]
  have "badger_SetScoped bg (Some sk) d bdb = Some (Ok ?key, bdb1\<lparr>bdb_db := b\<rparr>)" using i(1) b(1) by (simp add: badger_SetScoped_def)
  moreover have "stored_lease (bg_snapshot bg b) x = stored_lease (store bg bdb1) x" for x
    using sk lease_key_internal(1) [of x] by (auto simp: stored_lease_def b(2) simp del: lease_key_internal)
  ultimately show ?thesis using w i(3,4,5) b(2) by (intro exI [of _ "bdb1\<lparr>bdb_db := b\<rparr>"] exI [of _ "store bg bdb1"]) (simp add: store_def)
qed

lemma badger_Delete_ok:
  assumes bg: "reliable bg" and k: "k \<noteq> []" "length k \<le> bg_maxKeySize bg" "\<not> internal k" and ok: "well bg bdb"
  shows "\<exists>bdb'. badger_Delete bg (Some k) bdb = (Ok (), bdb') \<and> well bg bdb' \<and> upcoming bg bdb' = upcoming bg bdb \<and>
    store bg bdb' = (store bg bdb)(k := None)"
proof -
  have "txn_Delete bg k (bg_snapshot bg (bdb_db bdb)) = (Ok (), (store bg bdb)(k := None))" using k by (simp add: txn_Delete_def store_def)
  then obtain b where b: "on_store (badger_Update bg (txn_Delete bg k)) bdb = (Ok (), bdb\<lparr>bdb_db := b\<rparr>)" "bg_snapshot bg b = (store bg bdb)(k := None)"
    using on_store_ok [OF bg] by blast
  have "\<forall>x. internal x \<longrightarrow> bg_snapshot bg b x = store bg bdb x" using k(3) by (auto simp: b(2))
  from well_data [OF ok this] b show ?thesis
    by (intro exI [of _ "bdb\<lparr>bdb_db := b\<rparr>"]) (simp add: badger_Delete_def store_def)
qed

section \<open>Starting\<close>

lemma newSequenceCache_ok: "buckets_ok newSequenceCache" "cached newSequenceCache sk = None"
  using bucket_index_less [of sk]
  by (simp_all add: buckets_ok_def newSequenceCache_def newSequenceCacheBucket_def NewLRU_def sequenceCacheBucketSize_def
      lru_ok_def lru_Peek_def cached_def)

text \<open>A server that starts, or starts again, continues from the stored leases.\<close>

lemma badger_New_ok:
  assumes "\<forall>sk. lease_wf (bg_snapshot bg b) sk"
  shows "well bg (badger_New b)" "upcoming bg (badger_New b) sk = stored_lease (bg_snapshot bg b) sk" "store bg (badger_New b) = bg_snapshot bg b"
  using assms newSequenceCache_ok by (simp_all add: well_def upcoming_def store_def position_def badger_New_def seqs_ok_def)

lemma well_lease: "well bg bdb \<Longrightarrow> lease_wf (store bg bdb) sk" "well bg bdb \<Longrightarrow> upcoming bg bdb sk \<le> stored_lease (store bg bdb) sk"
proof -
  assume "well bg bdb"
  then have ok: "seqs_ok (bdb_seqCache bdb) (store bg bdb)" by (simp add: well_def store_def)
  then show "lease_wf (store bg bdb) sk"
    using seqs_okD [OF ok, of sk] by (cases "cached (bdb_seqCache bdb) sk") (auto simp: seq_ok_def lease_wf_def)
  show "upcoming bg bdb sk \<le> stored_lease (store bg bdb) sk" using position_le [OF ok] by (simp add: upcoming_def store_def)
qed

section \<open>Keys are never handed out twice\<close>

datatype badger_event = is_Scoped: Scoped bytes bytes | Removed bytes | Crashed

text \<open>A run of the database: the keys it has handed out, and the state at the end.  A crash loses the cache.\<close>

fun badger_run :: "'b badger \<Rightarrow> badger_event list \<Rightarrow> 'b badger_DB \<Rightarrow> (bytes list \<times> 'b badger_DB) option" where
  "badger_run bg [] bdb = Some ([], bdb)"
| "badger_run bg (Scoped sk d # es) bdb =
     (case badger_SetScoped bg (Some sk) d bdb of
        Some (Ok key, bdb) \<Rightarrow> map_option (\<lambda>(keys, bdb). (key # keys, bdb)) (badger_run bg es bdb)
      | Some (_, bdb) \<Rightarrow> badger_run bg es bdb
      | None \<Rightarrow> None)"
| "badger_run bg (Removed k # es) bdb = badger_run bg es (snd (badger_Delete bg (Some k) bdb))"
| "badger_run bg (Crashed # es) bdb = badger_run bg es (badger_New (bdb_db bdb))"

fun event_fits :: "'b badger \<Rightarrow> badger_event \<Rightarrow> bool" where
  "event_fits bg (Scoped sk d) \<longleftrightarrow> prefix (ascii ''d:'') sk \<and> length sk + 8 \<le> bg_maxKeySize bg \<and> length d \<le> bg_ValueLogFileSize bg"
| "event_fits bg (Removed k) \<longleftrightarrow> prefix (ascii ''d:'') k \<and> length k \<le> bg_maxKeySize bg"
| "event_fits bg Crashed \<longleftrightarrow> True"

lemma data_not_internal: "prefix (ascii ''d:'') k \<Longrightarrow> \<not> internal (k @ x)" "prefix (ascii ''d:'') k \<Longrightarrow> k \<noteq> [] \<and> \<not> internal k"
  by (auto simp: internal_def prefix_def)

text \<open>The keys of a scope that were handed out are below the one that comes next.\<close>

definition spent :: "(bytes \<Rightarrow> uint64) \<Rightarrow> bytes set \<Rightarrow> bool" where
  "spent nxt keys \<longleftrightarrow> (\<forall>sk n. sk @ le_bytes 8 (n :: uint64) \<in> keys \<longrightarrow> n < nxt sk)"

lemma spent_mono: "spent nxt keys \<Longrightarrow> (\<And>sk. nxt sk \<le> nxt' sk) \<Longrightarrow> spent nxt' keys"
  unfolding spent_def using order_less_le_trans by blast

lemma spent_next:
  assumes "spent nxt keys" "unat (nxt sk) + 1 < 2 ^ 64"
  shows "spent (nxt(sk := nxt sk + 1)) (insert (sk @ le_bytes 8 (nxt sk)) keys)" "sk @ le_bytes 8 (nxt sk) \<notin> keys"
proof -
  have "unat (nxt sk + 1) = unat (nxt sk) + 1" using assms(2) by (simp add: unat_word_ariths)
  then have "nxt sk < nxt sk + 1" by (simp add: word_less_nat_alt)
  moreover from this have "n < nxt sk + 1" if "n < nxt sk" for n using that by (rule order_less_trans [rotated])
  ultimately show "spent (nxt(sk := nxt sk + 1)) (insert (sk @ le_bytes 8 (nxt sk)) keys)"
    using assms(1) by (auto simp: spent_def scoped_key_inj)
  show "sk @ le_bytes 8 (nxt sk) \<notin> keys" using assms(1) by (auto simp: spent_def)
qed

lemma badger_run_fresh:
  assumes bg: "reliable bg"
  shows "\<forall>e\<in>set es. event_fits bg e \<Longrightarrow> well bg bdb \<Longrightarrow> \<forall>sk. unat (stored_lease (store bg bdb) sk) + 1024 * length es + 512 < 2 ^ 64 \<Longrightarrow>
    spent (upcoming bg bdb) used \<Longrightarrow>
    \<exists>keys bdb'. badger_run bg es bdb = Some (keys, bdb') \<and> distinct keys \<and> set keys \<inter> used = {} \<and> length keys = length (filter is_Scoped es)"
proof (induction es arbitrary: bdb used)
  case (Cons e es)
  have fits: "event_fits bg e" "\<forall>e\<in>set es. event_fits bg e" using Cons.prems(1) by simp_all
  have room: "unat (stored_lease (store bg bdb) sk) + 1024 * length es + 1024 + 512 < 2 ^ 64" for sk using Cons.prems(3) by (simp add: algebra_simps)
  have less: "\<forall>sk. unat (stored_lease (store bg bdb) sk) + 1024 * length es + 512 < 2 ^ 64" 
  proof
    fix sk show "unat (stored_lease (store bg bdb) sk) + 1024 * length es + 512 < 2 ^ 64" using room [of sk] by linarith
  qed
  show ?case
  proof (cases e)
    case (Scoped sk d)
    have up: "unat (upcoming bg bdb sk) + 512 < 2 ^ 64"
      using room [of sk] well_lease(2) [OF Cons.prems(2), of sk] by (simp add: word_le_nat_alt)
    let ?key = "sk @ le_bytes 8 (upcoming bg bdb sk)"
    obtain bdb1 where s: "badger_SetScoped bg (Some sk) d bdb = Some (Ok ?key, bdb1)" "well bg bdb1"
      "upcoming bg bdb1 = (upcoming bg bdb)(sk := upcoming bg bdb sk + 1)"
      "\<forall>x. unat (stored_lease (store bg bdb1) x) \<le> unat (stored_lease (store bg bdb) x) + 1024"
      using badger_SetScoped_ok [OF bg _ _ _ Cons.prems(2) up, of d] fits(1) Scoped data_not_internal(1) by auto
    have sp: "spent (upcoming bg bdb1) (insert ?key used)" "?key \<notin> used" using spent_next [OF Cons.prems(4), of sk] up by (simp_all add: s(3))
    have room1: "\<forall>x. unat (stored_lease (store bg bdb1) x) + 1024 * length es + 512 < 2 ^ 64"
    proof
      fix x show "unat (stored_lease (store bg bdb1) x) + 1024 * length es + 512 < 2 ^ 64" using s(4) [rule_format, of x] room [of x] by linarith
    qed
    from Cons.IH [OF fits(2) s(2) room1 sp(1)] s(1) sp(2) Scoped show ?thesis by auto
  next
    case (Removed k)
    obtain bdb1 where "badger_Delete bg (Some k) bdb = (Ok (), bdb1)" "well bg bdb1" "upcoming bg bdb1 = upcoming bg bdb" "store bg bdb1 = (store bg bdb)(k := None)"
      using badger_Delete_ok [OF bg _ _ _ Cons.prems(2), of k] fits(1) Removed data_not_internal(2) by auto
    moreover have "stored_lease ((store bg bdb)(k := None)) x = stored_lease (store bg bdb) x" for x
      using data_not_internal(2) [of k] fits(1) Removed lease_key_internal(1) [of x] by (auto simp: stored_lease_def simp del: lease_key_internal)
    ultimately show ?thesis using Cons.IH [OF fits(2), of bdb1 used] less Cons.prems(4) Removed by (simp del: fun_upd_apply)
  next
    case Crashed
    have wf: "\<forall>sk. lease_wf (bg_snapshot bg (bdb_db bdb)) sk" using well_lease(1) [OF Cons.prems(2)] by (simp add: store_def)
    note n = badger_New_ok [OF wf]
    have "spent (upcoming bg (badger_New (bdb_db bdb))) used"
      using spent_mono [OF Cons.prems(4)] well_lease(2) [OF Cons.prems(2)] n(2) by (simp add: store_def)
    then show ?thesis using Cons.IH [OF fits(2) n(1), of used] less Crashed n(3) by (simp add: store_def)
  qed
qed simp


text \<open>A store in memory, with badger's limits.\<close>

definition plain_badger :: "(bytes \<rightharpoonup> bytes) badger" where
  "plain_badger = \<lparr>bg_snapshot = id, bg_commit = (\<lambda>m _. (Ok (), m)), bg_maxKeySize = 65000, bg_ValueLogFileSize = 2 ^ 30, bg_Close = (\<lambda>m. (Ok (), m))\<rparr>"

lemma plain_badger_reliable: "reliable plain_badger" "bg_snapshot plain_badger Map.empty = Map.empty"
  by (simp_all add: plain_badger_def reliable_def badger_ok_def)


section \<open>A commit that fails\<close>

text \<open>
  When the commit of a new lease fails with a conflict, the sequence object has the lease although
  the store has not: the retry hands out a number that a restarted server will hand out again.
\<close>

lemma conflict_loses_lease:
  assumes bg: "badger_ok bg" "bg_commit bg m b = (Err ErrTxnConflict, b')" "m = (bg_snapshot bg b)(lease_key sk \<mapsto> be_bytes (seq_next s + seq_bandwidth s))"
    and fits: "length (lease_key sk) \<le> bg_maxKeySize bg" "8 \<le> bg_ValueLogFileSize bg"
    and s: "seq_key s = lease_key sk" "seq_leased s = seq_next s" "bg_snapshot bg b (lease_key sk) = Some (be_bytes (seq_next s))"
      "seq_next s < seq_next s + seq_bandwidth s"
  shows "\<exists>s'. draw bg (s, b) = Some (Ok (seq_next s), s', b') \<and> stored_lease (bg_snapshot bg b') sk = seq_next s"
proof -
  let ?s = "s\<lparr>seq_leased := seq_next s + seq_bandwidth s\<rparr>"
  have fail: "seq_Next bg (s, b) = (Err ErrTxnConflict, ?s, b')"
    using assms by (simp add: seq_Next_def updateLease_def txn_Get_def txn_Set_def Let_def)
  have "seq_Next bg (?s, b') = (Ok (seq_next s), ?s\<lparr>seq_next := seq_next s + 1\<rparr>, b')" using s(4) by (simp add: seq_Next_def linorder_not_le [symmetric])
  then have again: "draw bg (?s, b') = Some (Ok (seq_next s), ?s\<lparr>seq_next := seq_next s + 1\<rparr>, b')" by (subst draw.simps) simp
  have "draw bg (s, b) = draw bg (?s, b')" by (subst draw.simps) (simp add: fail)
  moreover have "bg_snapshot bg b' = bg_snapshot bg b" using bg(1,2) unfolding badger_ok_def by blast
  ultimately show ?thesis using again s(3) by simp
qed

end
