(* ===== verification/Cmd_Zstordb.thy ===== *)
theory Cmd_Zstordb
  imports Cmd_Flags Cmd_Version Namespace_Api Badger_Db
begin

text \<open>
  The server command (\<open>cmd/zstordb/commands/root.go\<close>): its flags, its TLS certificates, and how it puts
  the server together, with the opening of the database (\<open>NewWithOpts\<close> of \<open>server/db/badger/badger.go\<close>) and the
  end of serving (\<open>server/api/grpc/server.go\<close>).

  Arguments: the file system, opening the store of the badger library, listening on an address, and the
  cryptographic library that reads keys and certificates.
\<close>

section \<open>The configuration and its flags\<close>

record root_cfg =
  DebugLog :: bool
  ListenAddr :: ListenAddress
  ProfileAddress :: string
  Profile :: ProfileMode
  ProfileOutput :: string
  AuthDisabled :: bool
  rc_MaxMsgSize :: int
  SyncWrite :: bool
  rc_JobCount :: int
  Dirs_Meta :: string
  Dirs_Data :: string
  CertFile :: string
  KeyFile :: string
  KeyPassphrase :: string
  tls_Min :: cmd_TLSVersion
  tls_Max :: cmd_TLSVersion
  CertLiveReload :: bool

definition root_init :: "int \<Rightarrow> root_cfg" where
  "root_init DefaultJobCount =
     \<lparr>DebugLog = False, ListenAddr = \<lparr>la_addr = [], la_proto = netProtoTCP\<rparr>, ProfileAddress = [], Profile = ProfileModeDisabled,
      ProfileOutput = ''.'', AuthDisabled = False, rc_MaxMsgSize = 32, SyncWrite = False, rc_JobCount = DefaultJobCount,
      Dirs_Meta = ''.db/meta'', Dirs_Data = ''.db/data'', CertFile = [], KeyFile = [], KeyPassphrase = [],
      tls_Min = TLSVersion11, tls_Max = TLSVersion12, CertLiveReload = False\<rparr>"

text \<open>A flag with its value; the values that the program parses itself are texts.\<close>

datatype root_flag =
    FlagDebug bool | FlagListen string | FlagDataDir string | FlagMetaDir string | FlagProfileAddr string
  | FlagProfileMode string | FlagProfileOutput string | FlagNoAuth bool | FlagMaxMsgSize int | FlagSyncWrite bool
  | FlagJobs int | FlagTlsCert string | FlagTlsKey string | FlagTlsKeyPass string | FlagTlsMin string | FlagTlsMax string
  | FlagTlsLiveReload bool

definition set_field :: "('a, string, unit) op \<Rightarrow> ('s \<Rightarrow> 'a) \<Rightarrow> ('a \<Rightarrow> 's \<Rightarrow> 's) \<Rightarrow> ('s, string, unit) op" where
  "set_field setter get upd s = (case setter (get s) of (r, a) \<Rightarrow> (r, upd a s))"

fun set_flag :: "root_flag \<Rightarrow> (root_cfg, string, unit) op" where
  "set_flag (FlagDebug b) cfg = (Ok (), cfg\<lparr>DebugLog := b\<rparr>)"
| "set_flag (FlagListen str) cfg = set_field (ListenAddress_Set str) ListenAddr (\<lambda>a. ListenAddr_update (\<lambda>_. a)) cfg"
| "set_flag (FlagDataDir str) cfg = (Ok (), cfg\<lparr>Dirs_Data := str\<rparr>)"
| "set_flag (FlagMetaDir str) cfg = (Ok (), cfg\<lparr>Dirs_Meta := str\<rparr>)"
| "set_flag (FlagProfileAddr str) cfg = (Ok (), cfg\<lparr>ProfileAddress := str\<rparr>)"
| "set_flag (FlagProfileMode str) cfg = set_field (ProfileMode_Set str) Profile (\<lambda>a. Profile_update (\<lambda>_. a)) cfg"
| "set_flag (FlagProfileOutput str) cfg = (Ok (), cfg\<lparr>ProfileOutput := str\<rparr>)"
| "set_flag (FlagNoAuth b) cfg = (Ok (), cfg\<lparr>AuthDisabled := b\<rparr>)"
| "set_flag (FlagMaxMsgSize n) cfg = (Ok (), cfg\<lparr>rc_MaxMsgSize := n\<rparr>)"
| "set_flag (FlagSyncWrite b) cfg = (Ok (), cfg\<lparr>SyncWrite := b\<rparr>)"
| "set_flag (FlagJobs n) cfg = (Ok (), cfg\<lparr>rc_JobCount := n\<rparr>)"
| "set_flag (FlagTlsCert str) cfg = (Ok (), cfg\<lparr>CertFile := str\<rparr>)"
| "set_flag (FlagTlsKey str) cfg = (Ok (), cfg\<lparr>KeyFile := str\<rparr>)"
| "set_flag (FlagTlsKeyPass str) cfg = (Ok (), cfg\<lparr>KeyPassphrase := str\<rparr>)"
| "set_flag (FlagTlsMin str) cfg = set_field (cmd_TLSVersion_Set str) tls_Min (\<lambda>a. tls_Min_update (\<lambda>_. a)) cfg"
| "set_flag (FlagTlsMax str) cfg = set_field (cmd_TLSVersion_Set str) tls_Max (\<lambda>a. tls_Max_update (\<lambda>_. a)) cfg"
| "set_flag (FlagTlsLiveReload b) cfg = (Ok (), cfg\<lparr>CertLiveReload := b\<rparr>)"

text \<open>The flags of a command line are set in order, up to the first that is refused.\<close>

fun set_flags :: "root_flag list \<Rightarrow> (root_cfg, string, unit) op" where
  "set_flags [] cfg = (Ok (), cfg)"
| "set_flags (f # fs) cfg = obind (set_flag f cfg) (\<lambda>_. set_flags fs)"

section \<open>Certificates\<close>

record ('k, 'r, 'c) pem_lib =
  pem_Decode :: "bytes \<Rightarrow> 'k option"
  pem_EncodeToMemory :: "'k \<Rightarrow> bytes"
  pem_Block :: "string \<Rightarrow> bytes \<Rightarrow> 'k"
  IsEncryptedPEMBlock :: "'k \<Rightarrow> bool"
  DecryptPEMBlock :: "'k \<Rightarrow> bytes \<Rightarrow> (string, bytes) result"
  ParsePKCS1PrivateKey :: "bytes \<Rightarrow> (string, 'r) result"
  MarshalPKCS1PrivateKey :: "'r \<Rightarrow> bytes"
  X509KeyPair :: "bytes \<Rightarrow> bytes \<Rightarrow> (string, 'c) result"

definition key_of_block :: "('k, 'r, 'c) pem_lib \<Rightarrow> string \<Rightarrow> 'k \<Rightarrow> (string, bytes) result" where
  "key_of_block lib passphrase block =
     (if IsEncryptedPEMBlock lib block
      then rbind (DecryptPEMBlock lib block (ascii passphrase)) (\<lambda>decryptKey.
           rbind (ParsePKCS1PrivateKey lib decryptKey) (\<lambda>privKey.
             Ok (pem_EncodeToMemory lib (pem_Block lib ''RSA PRIVATE KEY'' (MarshalPKCS1PrivateKey lib privKey)))))
      else Ok (pem_EncodeToMemory lib block))"

definition parseCertificate :: "('k, 'r, 'c) pem_lib \<Rightarrow> (string \<Rightarrow> (string, bytes) result) \<Rightarrow> root_cfg \<Rightarrow> (string, 'c) result" where
  "parseCertificate lib readFile cfg =
     rbind (readFile (KeyFile cfg)) (\<lambda>keyFile.
     rbind (case pem_Decode lib keyFile of Some block \<Rightarrow> key_of_block lib (KeyPassphrase cfg) block | None \<Rightarrow> Err ''Invalid Cert Key'') (\<lambda>certKey.
     rbind (readFile (CertFile cfg)) (\<lambda>certFile.
       X509KeyPair lib certFile certKey)))"

text \<open>The getter holds what the last reading of the files gave.\<close>

record 'c tlsCertificateGetter =
  tg_last :: "(string, 'c) result"

definition newTLSCertificateGetter ::
  "('k, 'r, 'c) pem_lib \<Rightarrow> (string \<Rightarrow> (string, bytes) result) \<Rightarrow> root_cfg \<Rightarrow> (string, 'c tlsCertificateGetter) result" where
  "newTLSCertificateGetter lib readFile cfg = rbind (parseCertificate lib readFile cfg) (\<lambda>cert. Ok \<lparr>tg_last = Ok cert\<rparr>)"

definition GetCertificate :: "'c tlsCertificateGetter \<Rightarrow> (string, 'c) result" where
  "GetCertificate getter = tg_last getter"

text \<open>What \<open>background\<close> does on a hang-up signal.\<close>

definition reload :: "('k, 'r, 'c) pem_lib \<Rightarrow> (string \<Rightarrow> (string, bytes) result) \<Rightarrow> root_cfg \<Rightarrow> 'c tlsCertificateGetter \<Rightarrow> 'c tlsCertificateGetter" where
  "reload lib readFile cfg getter = getter\<lparr>tg_last := parseCertificate lib readFile cfg\<rparr>"

section \<open>The database and the server\<close>

datatype stat_error = IsNotExist string | StatError string

fun stat_text :: "stat_error \<Rightarrow> string" where
  "stat_text (IsNotExist e) = e"
| "stat_text (StatError e) = e"

record badger_Options =
  bo_SyncWrites :: bool
  bo_Dir :: string
  bo_ValueDir :: string

datatype 'c cert_source = StaticCertificate 'c | ReloadedCertificate "'c tlsCertificateGetter"

record 'c tls_server =
  ts_MinVersion :: "16 word"
  ts_MaxVersion :: "16 word"
  ts_cert :: "'c cert_source"

record ('w, 'b, 'c, 'l) host =
  os_MkdirAll :: "string \<Rightarrow> nat \<Rightarrow> ('w, string, unit) op"
  os_Stat :: "string \<Rightarrow> 'w \<Rightarrow> (stat_error, bool) result"
  os_ReadFile :: "'w \<Rightarrow> string \<Rightarrow> (string, bytes) result"
  badgerdb_Open :: "badger_Options \<Rightarrow> ('w, string, 'b) op"
  os_Listen :: "string \<Rightarrow> string \<Rightarrow> 'c tls_server option \<Rightarrow> ('w, string, 'l) op"

definition NewWithOpts :: "('w, 'b, 'c, 'l) host \<Rightarrow> badger_Options \<Rightarrow> ('w, string, 'b badger_DB) op" where
  "NewWithOpts os opts w =
     obind (os_MkdirAll os (bo_Dir opts) 508 w) (\<lambda>_ w.
     obind (os_MkdirAll os (bo_ValueDir opts) 508 w) (\<lambda>_ w.
     obind (badgerdb_Open os opts w) (\<lambda>b w.
       (Ok (badger_New b), w))))"

definition badger_NewIn :: "('w, 'b, 'c, 'l) host \<Rightarrow> string \<Rightarrow> string \<Rightarrow> ('w, string, 'b badger_DB) op" where
  "badger_NewIn os data meta w =
     (if length data = 0 \<or> length meta = 0 then (Panic, w)
      else NewWithOpts os \<lparr>bo_SyncWrites = True, bo_Dir = meta, bo_ValueDir = data\<rparr> w)"

text \<open>
  The information about a directory that does not exist is nil: the directory is made, and then asked
  whether it is one.
\<close>

definition profile_directory :: "('w, 'b, 'c, 'l) host \<Rightarrow> root_cfg \<Rightarrow> ('w, string, unit) op" where
  "profile_directory os cfg w =
     (case os_Stat os (ProfileOutput cfg) w of
        Ok isDir \<Rightarrow> (if \<not> isDir then Err (''profile-output ('' @ ProfileOutput cfg @ '') is not a directory'') else Ok (), w)
      | Panic \<Rightarrow> (Panic, w)
      | Err (StatError e) \<Rightarrow> (Err e, w)
      | Err (IsNotExist _) \<Rightarrow>
          (case os_MkdirAll os (ProfileOutput cfg) 432 w of
             (Err e, w) \<Rightarrow> (Err (''fail to create profile output directory: '' @ e), w)
           | (_, w) \<Rightarrow> (Panic, w)))"

definition listen :: "('w, 'b, 'c, 'l) host \<Rightarrow> ('k, 'r, 'c) pem_lib \<Rightarrow> root_cfg \<Rightarrow> ('w, string, 'l) op" where
  "listen os lib cfg w =
     (let proto = NetworkProtocol (ListenAddr cfg); addr = ListenAddress_String (ListenAddr cfg) in
      if CertFile cfg = [] \<and> KeyFile cfg = [] then os_Listen os proto addr None w
      else
        obind (VersionTLS (tls_Min cfg), w) (\<lambda>lo w.
        obind (VersionTLS (tls_Max cfg), w) (\<lambda>hi w.
        obind (if CertLiveReload cfg then rbind (newTLSCertificateGetter lib (os_ReadFile os w) cfg) (\<lambda>g. Ok (ReloadedCertificate g))
               else rbind (parseCertificate lib (os_ReadFile os w) cfg) (\<lambda>c. Ok (StaticCertificate c)), w) (\<lambda>cert w.
          os_Listen os proto addr (Some \<lparr>ts_MinVersion = lo, ts_MaxVersion = hi, ts_cert = cert\<rparr>) w))))"

record ('v, 'b, 'l) running =
  rn_config :: "'v ServerConfig"
  rn_db :: "'b badger_DB"
  rn_listener :: 'l
  rn_profile :: "ProfileMode option"

text \<open>The command up to the point where the server serves.\<close>

definition zstordb_start ::
  "('w, 'b, 'c, 'l) host \<Rightarrow> ('k, 'r, 'c) pem_lib \<Rightarrow> 'v verifier \<Rightarrow> int \<Rightarrow> root_cfg \<Rightarrow> ('w, string, ('v, 'b, 'l) running) op" where
  "zstordb_start os lib DefaultVerifier DefaultJobCount cfg w =
     obind (NewWithOpts os \<lparr>bo_SyncWrites = SyncWrite cfg, bo_Dir = Dirs_Meta cfg, bo_ValueDir = Dirs_Data cfg\<rparr> w) (\<lambda>db w.
     let serverConfig = \<lparr>MaxMsgSize = rc_MaxMsgSize cfg, JobCount = rc_JobCount cfg, Verifier = None\<rparr>;
         serverConfig = (if \<not> AuthDisabled cfg then serverConfig\<lparr>Verifier := Some DefaultVerifier\<rparr> else serverConfig);
         profiled = ProfileMode_String (Profile cfg) \<noteq> [] in
     obind (if profiled then profile_directory os cfg w else (Ok (), w)) (\<lambda>_ w.
     obind (listen os lib cfg w) (\<lambda>listener w.
       (Ok \<lparr>rn_config = sanitize DefaultJobCount serverConfig, rn_db = db, rn_listener = listener,
          rn_profile = (if profiled then Some (Profile cfg) else None)\<rparr>, w))))"

definition server_isClosedConnError :: "string \<Rightarrow> bool" where
  "server_isClosedConnError err \<longleftrightarrow> err = ''grpc: the server has been stopped'' \<or> sublist ''closed'' err"

definition server_Serve :: "string option \<Rightarrow> (string, unit) result" where
  "server_Serve err = (case err of None \<Rightarrow> Ok () | Some e \<Rightarrow> if server_isClosedConnError e then Ok () else Err e)"

text \<open>The command ends when serving ends, with its error if there is one, or on an interrupt, when the server is closed.\<close>

datatype stop = ServeEnded "string option" | Interrupted

definition zstordb_end :: "'b badger \<Rightarrow> stop \<Rightarrow> ('v, 'b, 'l) running \<Rightarrow> (string + db_error, unit) result \<times> 'b badger_DB" where
  "zstordb_end bg ev srv =
     (case ev of
        ServeEnded err \<Rightarrow> (map_err Inl (server_Serve err), rn_db srv)
      | Interrupted \<Rightarrow> omap_err Inr (badger_Close bg (rn_db srv)))"

definition rootFunc ::
  "('w, 'b, 'c, 'l) host \<Rightarrow> ('k, 'r, 'c) pem_lib \<Rightarrow> 'v verifier \<Rightarrow> int \<Rightarrow> 'b badger \<Rightarrow> root_cfg \<Rightarrow> stop \<Rightarrow> ('w, string + db_error, unit) op" where
  "rootFunc os lib DefaultVerifier DefaultJobCount bg cfg ev w =
     obind (omap_err Inl (zstordb_start os lib DefaultVerifier DefaultJobCount cfg w)) (\<lambda>srv w. (fst (zstordb_end bg ev srv), w))"

section \<open>Flags keep the configuration well-formed\<close>

definition cfg_ok :: "root_cfg \<Rightarrow> bool" where
  "cfg_ok cfg \<longleftrightarrow> (listen_ok (ListenAddr cfg) \<or> ListenAddr cfg = \<lparr>la_addr = [], la_proto = netProtoTCP\<rparr>) \<and>
     Profile cfg \<le> MaxProfileMode \<and> tls_Min cfg \<le> cmd_MaxTLSVersion \<and> tls_Max cfg \<le> cmd_MaxTLSVersion"

lemma set_field_cases:
  assumes "set_field setter get upd s = (r, s')"
  obtains a where "setter (get s) = (r, a)" "s' = upd a s"
  using assms by (auto simp: set_field_def split: prod.splits)

lemma cfg_ok_init: "cfg_ok (root_init jobs)"
  by (simp add: cfg_ok_def root_init_def ProfileModeDisabled_def TLSVersion11_def TLSVersion12_def cmd_MaxTLSVersion_def TLSVersion10_def)

lemma set_flag_ok:
  assumes "cfg_ok cfg" "set_flag f cfg = (r, cfg')"
  shows "cfg_ok cfg' \<and> r \<noteq> Panic"
proof (cases f)
  case (FlagListen str)
  then obtain a where a: "ListenAddress_Set str (ListenAddr cfg) = (r, a)" "cfg' = cfg\<lparr>ListenAddr := a\<rparr>" using assms(2) by (auto elim: set_field_cases)
  then show ?thesis using assms(1) ListenAddress_Set_ok [of str "ListenAddr cfg" a] ListenAddress_Set_err [of str "ListenAddr cfg"]
    by (cases r) (auto simp: cfg_ok_def)
next
  case (FlagProfileMode str)
  then obtain a where a: "ProfileMode_Set str (Profile cfg) = (r, a)" "cfg' = cfg\<lparr>Profile := a\<rparr>" using assms(2) by (auto elim: set_field_cases)
  then have "r \<noteq> Panic" by (auto simp: ProfileMode_Set_def split: option.splits)
  with a show ?thesis using assms(1) ProfileMode_Set_ok [of str "Profile cfg" a] flag_Set_err(1) [of str "Profile cfg"] by (cases r) (auto simp: cfg_ok_def)
next
  case (FlagTlsMin str)
  then obtain a where a: "cmd_TLSVersion_Set str (tls_Min cfg) = (r, a)" "cfg' = cfg\<lparr>tls_Min := a\<rparr>" using assms(2) by (auto elim: set_field_cases)
  then have "r \<noteq> Panic" by (auto simp: cmd_TLSVersion_Set_def Let_def split: option.splits)
  with a show ?thesis using assms(1) TLSVersion_Set_ok [of str "tls_Min cfg" a] flag_Set_err(2) [of str "tls_Min cfg"] by (cases r) (auto simp: cfg_ok_def)
next
  case (FlagTlsMax str)
  then obtain a where a: "cmd_TLSVersion_Set str (tls_Max cfg) = (r, a)" "cfg' = cfg\<lparr>tls_Max := a\<rparr>" using assms(2) by (auto elim: set_field_cases)
  then have "r \<noteq> Panic" by (auto simp: cmd_TLSVersion_Set_def Let_def split: option.splits)
  with a show ?thesis using assms(1) TLSVersion_Set_ok [of str "tls_Max cfg" a] flag_Set_err(2) [of str "tls_Max cfg"] by (cases r) (auto simp: cfg_ok_def)
qed (use assms in \<open>auto simp: cfg_ok_def\<close>)

lemma set_flags_ok: "cfg_ok cfg \<Longrightarrow> set_flags fs cfg = (r, cfg') \<Longrightarrow> cfg_ok cfg' \<and> r \<noteq> Panic"
proof (induction fs arbitrary: cfg)
  case (Cons f fs)
  obtain q c where f: "set_flag f cfg = (q, c)" by fastforce
  with Cons set_flag_ok [OF Cons.prems(1) f] show ?case by (cases q) auto
qed auto

text \<open>
  C37.  Whatever flags a server is started with, accepted or refused, its configuration is well-formed:
  the protocol is TCP or a Unix socket, the address is not empty, a TCP address has an IP address or
  nothing for its host, the profile mode has a name or is off, and both TLS versions exist.
\<close>

theorem zstordb_flags_well_formed:
  assumes "set_flags flags (root_init jobs) = (r, cfg)"
  shows "r \<noteq> Panic \<and> NetworkProtocol (ListenAddr cfg) \<in> {''tcp'', ''unix''} \<and> ListenAddress_String (ListenAddr cfg) \<noteq> [] \<and>
    (NetworkProtocol (ListenAddr cfg) = ''tcp'' \<longrightarrow> is_tcp (ListenAddress_String (ListenAddr cfg))) \<and>
    (Profile cfg = ProfileModeDisabled \<or> ProfileMode_String (Profile cfg) \<in> {''cpu'', ''mem'', ''block'', ''trace''}) \<and>
    (\<exists>lo hi. VersionTLS (tls_Min cfg) = Ok lo \<and> VersionTLS (tls_Max cfg) = Ok hi)"
proof -
  have ok: "cfg_ok cfg" "r \<noteq> Panic" using set_flags_ok [OF cfg_ok_init assms] by simp_all
  have "ListenAddress_String (ListenAddr cfg) \<noteq> [] \<and> NetworkProtocol (ListenAddr cfg) \<in> {''tcp'', ''unix''} \<and>
      (NetworkProtocol (ListenAddr cfg) = ''tcp'' \<longrightarrow> is_tcp (ListenAddress_String (ListenAddr cfg)))"
    using ok(1) default_address
    by (auto simp: cfg_ok_def listen_ok_def ListenAddress_String_def NetworkProtocol_def netProtoTCP_def netProtoUnix_def defaultTCPListenAddress_def)
  moreover have "Profile cfg = ProfileModeDisabled \<or> ProfileMode_String (Profile cfg) \<in> {''cpu'', ''mem'', ''block'', ''trace''}"
  proof -
    have le: "unat (Profile cfg) \<le> 4" using ok(1) by (simp add: cfg_ok_def word_le_nat_alt MaxProfileMode_def ProfileModeTrace_def)
    then consider "unat (Profile cfg) = 0" | "unat (Profile cfg) \<in> {1, 2, 3, 4}" by fastforce
    then show ?thesis
    proof cases
      case 1
      then show ?thesis by (simp add: ProfileModeDisabled_def unat_eq_0)
    next
      case 2
      have "\<not> Profile cfg > MaxProfileMode" using ok(1) by (simp add: cfg_ok_def not_less)
      with 2 show ?thesis by (auto simp: ProfileMode_String_def ProfileModeStrings_def)
    qed
  qed
  moreover have "\<exists>lo. VersionTLS (tls_Min cfg) = Ok lo" "\<exists>hi. VersionTLS (tls_Max cfg) = Ok hi"
    using ok(1) by (simp_all add: cfg_ok_def VersionTLS_ok)
  ultimately show ?thesis using ok(2) by blast
qed

theorem zstordb_flags_well_formed_witness:
  "\<exists>cfg. set_flags [FlagListen '':80'', FlagNoAuth True] (root_init 4) = (Ok (), cfg) \<and>
     NetworkProtocol (ListenAddr cfg) = ''tcp'' \<and> is_tcp (ListenAddress_String (ListenAddr cfg)) \<and> (\<exists>lo. VersionTLS (tls_Min cfg) = Ok lo)"
proof -
  have addr: "\<not> is_path '':80''" "is_tcp '':80''" by code_simp+
  let ?cfg = "(root_init 4)\<lparr>ListenAddr := \<lparr>la_addr = '':80'', la_proto = netProtoTCP\<rparr>, AuthDisabled := True\<rparr>"
  have run: "set_flags [FlagListen '':80'', FlagNoAuth True] (root_init 4) = (Ok (), ?cfg)"
    by (simp only: set_flags.simps set_flag.simps set_field_def ListenAddress_Set_eq addr if_True if_False list.distinct prod.case obind.simps)
  have "NetworkProtocol (ListenAddr ?cfg) = ''tcp''" by (simp add: NetworkProtocol_def)
  with run zstordb_flags_well_formed [OF run] show ?thesis by blast
qed

section \<open>A server checks tokens unless it is told not to\<close>

lemma set_flags_auth:
  "set_flags fs cfg = (Ok (), cfg') \<Longrightarrow> FlagNoAuth True \<notin> set fs \<Longrightarrow> \<not> AuthDisabled cfg \<Longrightarrow> \<not> AuthDisabled cfg'"
proof (induction fs arbitrary: cfg)
  case (Cons f fs)
  from Cons.prems(1) obtain c where c: "set_flag f cfg = (Ok (), c)" "set_flags fs c = (Ok (), cfg')" by (auto simp: obind_eq_Ok)
  have "\<not> AuthDisabled c" using c(1) Cons.prems(2,3) by (cases f) (auto elim: set_field_cases)
  with Cons c(2) show ?case by simp
qed simp

lemma zstordb_start_config:
  assumes "zstordb_start os lib verify jobs cfg w = (Ok srv, w')"
  shows "Verifier (rn_config srv) = (if AuthDisabled cfg then None else Some verify)"
  using assms by (auto simp: zstordb_start_def obind_eq_Ok Let_def sanitize_def split: if_splits)

text \<open>
  C24.  A server that has been started without \<open>--no-auth\<close> serves a request only when the verifier has
  accepted its token for the method and the label: otherwise the reply is an error, and neither the
  database nor the statistics change.
\<close>

theorem zstordb_requires_tokens:
  assumes flags: "set_flags flags (root_init jobs) = (Ok (), cfg)" "FlagNoAuth True \<notin> set flags"
    and start: "zstordb_start os lib verify jobs cfg w = (Ok srv, w')"
    and call: "serve (rn_config srv) ctx fullMethod handler (v, g, s) = (r, v', g', s')"
  shows "(\<exists>label method. extractStringFromContext ctx MetaLabelKey = Ok label \<and> getJWTMethod fullMethod = Ok method \<and>
      verify ctx method label v = (Ok (), v')) \<or> ((\<forall>a. r \<noteq> Ok a) \<and> g' = g \<and> s' = s)"
proof -
  have "\<not> AuthDisabled cfg" using set_flags_auth [OF flags] by (simp add: root_init_def)
  then have "Verifier (rn_config srv) = Some verify" using zstordb_start_config [OF start] by simp
  with call have run: "unaryJWTAuthInterceptor verify ctx fullMethod (\<lambda>st. case statsLogger ctx fullMethod (fst st) of
            (Ok _, g) \<Rightarrow> (case handler (snd st) of (r, s) \<Rightarrow> (r, (g, s))) | (_, g) \<Rightarrow> (Panic, (g, snd st))) (v, g, s) = (r, v', g', s')"
    by (simp add: serve_def)
  show ?thesis
  proof (cases "jwtAuthenticator verify ctx fullMethod v")
    case (Pair q u)
    then show ?thesis using run jwtAuthenticator_Ok [of verify ctx fullMethod v v']
      by (cases q) (auto simp: unaryJWTAuthInterceptor_def split: prod.splits)
  qed
qed

section \<open>Profiling into a new directory\<close>

text \<open>
  Profiling into a directory that does not exist yet brings the server down: the directory is
  made, and then the missing information about it is dereferenced.
\<close>

lemma missing_profile_directory_panics:
  assumes db: "NewWithOpts os \<lparr>bo_SyncWrites = SyncWrite cfg, bo_Dir = Dirs_Meta cfg, bo_ValueDir = Dirs_Data cfg\<rparr> w = (Ok db, w1)"
    and mode: "ProfileMode_String (Profile cfg) \<noteq> []"
    and missing: "os_Stat os (ProfileOutput cfg) w1 = Err (IsNotExist e)" "os_MkdirAll os (ProfileOutput cfg) 432 w1 = (Ok (), w2)"
  shows "rootFunc os lib verify jobs bg cfg ev w = (Panic, w2)"
  using assms by (simp add: rootFunc_def zstordb_start_def profile_directory_def Let_def)

text \<open>A host with the directories that have been made.\<close>

definition plain_host :: "(string list, bytes \<rightharpoonup> bytes, unit, unit) host" where
  "plain_host = \<lparr>os_MkdirAll = (\<lambda>d _ w. (Ok (), d # w)), os_Stat = (\<lambda>d w. if d \<in> set w then Ok True else Err (IsNotExist d)),
     os_ReadFile = (\<lambda>_ _. Err ''no such file''), badgerdb_Open = (\<lambda>_ w. (Ok Map.empty, w)), os_Listen = (\<lambda>_ _ _ w. (Ok (), w))\<rparr>"

definition no_pem :: "(unit, unit, unit) pem_lib" where
  "no_pem = \<lparr>pem_Decode = (\<lambda>_. None), pem_EncodeToMemory = (\<lambda>_. []), pem_Block = (\<lambda>_ _. ()), IsEncryptedPEMBlock = (\<lambda>_. False),
     DecryptPEMBlock = (\<lambda>_ _. Err []), ParsePKCS1PrivateKey = (\<lambda>_. Err []), MarshalPKCS1PrivateKey = (\<lambda>_. []), X509KeyPair = (\<lambda>_ _. Err [])\<rparr>"

lemma missing_profile_directory_panics_witness:
  "\<exists>cfg. set_flags [FlagProfileMode ''cpu'', FlagProfileOutput ''prof''] (root_init 4) = (Ok (), cfg) \<and>
     rootFunc plain_host no_pem NopVerifier 4 plain_badger cfg Interrupted [] = (Panic, [''prof'', ''.db/data'', ''.db/meta''])"
proof -
  let ?cfg = "(root_init 4)\<lparr>Profile := 1, ProfileOutput := ''prof''\<rparr>"
  have flags: "set_flags [FlagProfileMode ''cpu'', FlagProfileOutput ''prof''] (root_init 4) = (Ok (), ?cfg)"
    by (simp add: set_field_def ProfileMode_Set_def ProfileModeStrings_def)
  have "ProfileMode_String 1 \<noteq> []" by (simp add: ProfileMode_String_def MaxProfileMode_def ProfileModeTrace_def ProfileModeStrings_def)
  then have "rootFunc plain_host no_pem NopVerifier 4 plain_badger ?cfg Interrupted [] = (Panic, [''prof'', ''.db/data'', ''.db/meta''])"
    by (intro missing_profile_directory_panics) (simp_all add: NewWithOpts_def plain_host_def root_init_def)
  with flags show ?thesis by blast
qed

theorem zstordb_requires_tokens_witness:
  "\<exists>srv w r v g s. zstordb_start plain_host no_pem (ValidateJWT demo_parser () 3) 4 (root_init 4) [] = (Ok srv, w) \<and>
     serve (rn_config srv) (labelled ''a'') ''/ObjectManager/GetObject'' (\<lambda>s :: nat. (Ok s, s + 1)) (Map.empty, Map.empty, 7) = (r, v, g, s) \<and>
     (\<forall>a. r \<noteq> Ok a) \<and> s = 7"
proof -
  have off: "ProfileMode_String (Profile (root_init 4)) = []"
    by (simp add: root_init_def ProfileModeDisabled_def ProfileMode_String_def ProfileModeStrings_def)
  have "\<exists>srv w. zstordb_start plain_host no_pem (ValidateJWT demo_parser () 3) 4 (root_init 4) [] = (Ok srv, w)"
    using off by (simp add: zstordb_start_def NewWithOpts_def plain_host_def listen_def Let_def) (simp add: root_init_def)
  then obtain srv w where start: "zstordb_start plain_host no_pem (ValidateJWT demo_parser () 3) 4 (root_init 4) [] = (Ok srv, w)" by blast
  obtain r v g s where call: "serve (rn_config srv) (labelled ''a'') ''/ObjectManager/GetObject'' (\<lambda>s :: nat. (Ok s, s + 1)) (Map.empty, Map.empty, 7) = (r, v, g, s)"
    using prod_cases4 by blast
  have refused: "ValidateJWT demo_parser () 3 (labelled ''a'') m l c \<noteq> (Ok (), c')" for m l c c'
    by (simp add: ValidateJWT_def extractJWTToken_def labelled_def MetaAuthKey_def MetaLabelKey_def)
  have "set_flags [] (root_init 4) = (Ok (), root_init 4)" "FlagNoAuth True \<notin> set []" by simp_all
  from zstordb_requires_tokens [OF this start call] refused have "(\<forall>a. r \<noteq> Ok a) \<and> s = 7" by blast
  with start call show ?thesis by blast
qed

section \<open>Reloading certificates\<close>

text \<open>
  A hang-up signal replaces the certificate by what the files hold by then, so that a mistake in them is
  answered to every client until the next signal that finds them in order.
\<close>

lemma reload_certificate:
  "GetCertificate (reload lib files cfg g) = parseCertificate lib files cfg"
  "parseCertificate lib files cfg = Ok cert \<Longrightarrow> GetCertificate (reload lib files cfg (reload lib files' cfg g)) = Ok cert"
  by (simp_all add: GetCertificate_def reload_def)

end
