(* ===== verification/Badger_Server.thy ===== *)
theory Badger_Server
  imports Badger_Db Object_Api
begin

text \<open>
  The object service on the badger database: it answers every sequence of requests as it does on the
  in-memory database.  The relation between two databases that makes the handlers agree is the
  locale \<open>db_simulation\<close>.
\<close>

section \<open>Requests\<close>

datatype object_request =
    CreateReq "metadata option" bytes | GetReq "metadata option" bytes
  | DeleteReq "metadata option" bytes | StatusReq "metadata option" bytes

datatype object_response =
    Created "(grpc_error, bytes) result" | Got "(grpc_error, bytes) result"
  | Deleted "(grpc_error, unit) result" | Status "(grpc_error, pb_ObjectStatus) result"

fun serve_object :: "'s DB \<Rightarrow> object_request \<Rightarrow> 's \<Rightarrow> object_response \<times> 's" where
  "serve_object db (CreateReq ctx data) st = (case CreateObject db ctx data st of (r, st) \<Rightarrow> (Created r, st))"
| "serve_object db (GetReq ctx key) st = (case GetObject db ctx key st of (r, st) \<Rightarrow> (Got r, st))"
| "serve_object db (DeleteReq ctx key) st = (case DeleteObject db ctx key st of (r, st) \<Rightarrow> (Deleted r, st))"
| "serve_object db (StatusReq ctx key) st = (case GetObjectStatus db ctx key st of (r, st) \<Rightarrow> (Status r, st))"

fun serve_objects :: "'s DB \<Rightarrow> object_request list \<Rightarrow> 's \<Rightarrow> object_response list \<times> 's" where
  "serve_objects db [] st = ([], st)"
| "serve_objects db (req # reqs) st =
     (case serve_object db req st of (resp, st) \<Rightarrow> case serve_objects db reqs st of (resps, st) \<Rightarrow> (resp # resps, st))"

section \<open>Databases that answer alike\<close>

definition req_ok :: "(bytes \<Rightarrow> bool) \<Rightarrow> (bytes \<Rightarrow> bool) \<Rightarrow> (bytes \<Rightarrow> bool) \<Rightarrow> object_request \<Rightarrow> bool" where
  "req_ok key_ok scope_ok data_ok req = (case req of
      CreateReq ctx data \<Rightarrow> (case request_label ctx of Some l \<Rightarrow> scope_ok (data_scope (ascii l)) \<and> data_ok (encoded data) | None \<Rightarrow> True)
    | GetReq ctx key \<Rightarrow> (case request_label ctx of Some l \<Rightarrow> key_ok (data_scope (ascii l) @ key) | None \<Rightarrow> True)
    | DeleteReq ctx key \<Rightarrow> (case request_label ctx of Some l \<Rightarrow> key_ok (data_scope (ascii l) @ key) | None \<Rightarrow> True)
    | StatusReq ctx key \<Rightarrow> (case request_label ctx of Some l \<Rightarrow> key_ok (data_scope (ascii l) @ key) | None \<Rightarrow> True))"

text \<open>
  \<open>R n\<close> relates states of which \<open>n\<close> more writes to scopes can be made; \<open>key_ok\<close> and \<open>data_ok\<close> are the
  keys and the data that the second database accepts.
\<close>

locale db_simulation =
  fixes db :: "'s DB" and db' :: "'t DB" and R :: "nat \<Rightarrow> 's \<Rightarrow> 't \<Rightarrow> bool"
    and key_ok :: "bytes \<Rightarrow> bool" and scope_ok :: "bytes \<Rightarrow> bool" and data_ok :: "bytes \<Rightarrow> bool"
  assumes get_sim: "R n s t \<Longrightarrow> key_ok k \<Longrightarrow> \<exists>r. db_Get db (Some k) s = (r, s) \<and> db_Get db' (Some k) t = (r, t)"
    and delete_sim: "R n s t \<Longrightarrow> key_ok k \<Longrightarrow> \<exists>r s' t'. db_Delete db (Some k) s = (r, s') \<and> db_Delete db' (Some k) t = (r, t') \<and> R n s' t'"
    and scoped_sim: "R (Suc n) s t \<Longrightarrow> scope_ok sk \<Longrightarrow> data_ok d \<Longrightarrow>
      \<exists>r s' t'. db_SetScoped db (Some sk) d s = (r, s') \<and> db_SetScoped db' (Some sk) d t = (r, t') \<and> R n s' t'"
    and fewer: "R (Suc n) s t \<Longrightarrow> R n s t"
begin

lemma serve_object_sim:
  assumes "R (Suc n) s t" "req_ok key_ok scope_ok data_ok req"
  shows "\<exists>resp s' t'. serve_object db req s = (resp, s') \<and> serve_object db' req t = (resp, t') \<and> R n s' t'"
proof (cases req)
  case (CreateReq ctx data)
  consider "request_label ctx = None" | "data = []" | l where "request_label ctx = Some l" "data \<noteq> []" by fastforce
  then show ?thesis
  proof cases
    case 3
    with assms(2) CreateReq have "scope_ok (data_scope (ascii l))" "data_ok (encoded data)" by (simp_all add: req_ok_def)
    from scoped_sim [OF assms(1) this] obtain r s' t' where
      "db_SetScoped db (Some (data_scope (ascii l))) (encoded data) s = (r, s')"
      "db_SetScoped db' (Some (data_scope (ascii l))) (encoded data) t = (r, t')" "R n s' t'" by blast
    then show ?thesis using CreateReq 3 by (cases r) (simp_all add: handler_defs EncodeObject_encoded omap_err_def)
  qed (use CreateReq fewer [OF assms(1)] in \<open>auto simp: handler_defs split: option.splits\<close>)
next
  case (GetReq ctx key)
  show ?thesis
  proof (cases "request_label ctx = None \<or> key = []")
    case False
    then obtain l where l: "request_label ctx = Some l" "key \<noteq> []" by auto
    then obtain r where "db_Get db (Some (data_scope (ascii l) @ key)) s = (r, s)" "db_Get db' (Some (data_scope (ascii l) @ key)) t = (r, t)"
      using get_sim [OF assms(1)] assms(2) GetReq by (auto simp: req_ok_def)
    then show ?thesis using l GetReq fewer [OF assms(1)]
      by (cases r) (auto simp: handler_defs omap_err_def DecodeObject_eq)
  qed (use GetReq fewer [OF assms(1)] in \<open>auto simp: handler_defs split: option.splits\<close>)
next
  case (DeleteReq ctx key)
  show ?thesis
  proof (cases "request_label ctx = None \<or> key = []")
    case False
    then obtain l where l: "request_label ctx = Some l" "key \<noteq> []" by auto
    then obtain r s' t' where "db_Delete db (Some (data_scope (ascii l) @ key)) s = (r, s')"
      "db_Delete db' (Some (data_scope (ascii l) @ key)) t = (r, t')" "R (Suc n) s' t'"
      using delete_sim [OF assms(1)] assms(2) DeleteReq by (fastforce simp: req_ok_def)
    then show ?thesis using l DeleteReq fewer by (cases r) (auto simp: handler_defs omap_err_def)
  qed (use DeleteReq fewer [OF assms(1)] in \<open>auto simp: handler_defs split: option.splits\<close>)
next
  case (StatusReq ctx key)
  show ?thesis
  proof (cases "request_label ctx = None \<or> key = []")
    case False
    then obtain l where l: "request_label ctx = Some l" "key \<noteq> []" by auto
    then obtain r where "db_Get db (Some (data_scope (ascii l) @ key)) s = (r, s)" "db_Get db' (Some (data_scope (ascii l) @ key)) t = (r, t)"
      using get_sim [OF assms(1)] assms(2) StatusReq by (auto simp: req_ok_def)
    then show ?thesis using l StatusReq fewer [OF assms(1)]
      by (cases r) (auto simp: handler_defs omap_err_def split: result.splits)
  qed (use StatusReq fewer [OF assms(1)] in \<open>auto simp: handler_defs split: option.splits\<close>)
qed

lemma serve_objects_sim:
  "R (length reqs + n) s t \<Longrightarrow> \<forall>req\<in>set reqs. req_ok key_ok scope_ok data_ok req \<Longrightarrow>
     \<exists>resps s' t'. serve_objects db reqs s = (resps, s') \<and> serve_objects db' reqs t = (resps, t') \<and> R n s' t'"
proof (induction reqs arbitrary: s t)
  case (Cons req reqs)
  then obtain resp s1 t1 where "serve_object db req s = (resp, s1)" "serve_object db' req t = (resp, t1)" "R (length reqs + n) s1 t1"
    using serve_object_sim [of "length reqs + n" s t req] by auto
  with Cons.IH [of s1 t1] Cons.prems(2) show ?case by fastforce
qed simp

end

section \<open>Badger answers like the in-memory database\<close>

definition backs :: "'b badger \<Rightarrow> nat \<Rightarrow> memory_DB \<Rightarrow> 'b badger_DB \<Rightarrow> bool" where
  "backs bg n mdb bdb \<longleftrightarrow> reliable bg \<and> well bg bdb \<and> (\<forall>k. k \<noteq> [] \<and> \<not> internal k \<longrightarrow> store bg bdb k = mdb_m mdb k) \<and>
     (\<forall>k. k \<in> dom (mdb_m mdb) \<longrightarrow> k \<noteq> [] \<and> \<not> internal k) \<and>
     (\<forall>sk. upcoming bg bdb sk = counter mdb sk \<and> unat (counter mdb sk) + n + 512 < 2 ^ 64)"

definition badger_key_ok :: "'b badger \<Rightarrow> bytes \<Rightarrow> bool" where
  "badger_key_ok bg k \<longleftrightarrow> prefix (ascii ''d:'') k \<and> length k \<le> bg_maxKeySize bg"

definition badger_scope_ok :: "'b badger \<Rightarrow> bytes \<Rightarrow> bool" where
  "badger_scope_ok bg sk \<longleftrightarrow> prefix (ascii ''d:'') sk \<and> length sk + 8 \<le> bg_maxKeySize bg"

definition badger_data_ok :: "'b badger \<Rightarrow> bytes \<Rightarrow> bool" where
  "badger_data_ok bg d \<longleftrightarrow> length d \<le> bg_ValueLogFileSize bg"

lemma backs_scoped:
  assumes R: "backs bg (Suc n) mdb bdb" and sk: "badger_scope_ok bg sk" and d: "badger_data_ok bg d"
  shows "\<exists>key mdb' bdb'. memory_SetScoped (Some sk) d mdb = (Ok key, mdb') \<and> badger_SetScoped bg (Some sk) d bdb = Some (Ok key, bdb') \<and> backs bg n mdb' bdb'"
proof -
  let ?key = "sk @ le_bytes 8 (counter mdb sk)"
  let ?mdb = "mdb\<lparr>mdb_c := (mdb_c mdb)(sk \<mapsto> counter mdb sk + 1), mdb_m := (mdb_m mdb)(?key \<mapsto> d)\<rparr>"
  from R have up: "upcoming bg bdb sk = counter mdb sk" "unat (counter mdb sk) + Suc n + 512 < 2 ^ 64" and bg: "reliable bg" "well bg bdb"
    by (simp_all add: backs_def)
  have fresh: "\<not> internal ?key" "?key \<noteq> []" using sk data_not_internal by (auto simp: badger_scope_ok_def)
  obtain bdb' m where b: "badger_SetScoped bg (Some sk) d bdb = Some (Ok ?key, bdb')" "well bg bdb'"
    "upcoming bg bdb' = (upcoming bg bdb)(sk := counter mdb sk + 1)" "same_data (store bg bdb) m" "store bg bdb' = m(?key \<mapsto> d)"
    using badger_SetScoped_ok [OF bg(1) _ _ _ bg(2), of sk d] up fresh(1) sk d by (auto simp: badger_scope_ok_def badger_data_ok_def)
  have suc: "unat (counter mdb sk + 1) = unat (counter mdb sk) + 1" using up(2) by (simp add: unat_word_ariths)
  have cnt: "counter ?mdb x = ((counter mdb)(sk := counter mdb sk + 1)) x" for x by (simp add: counter_def)
  have "upcoming bg bdb' x = counter ?mdb x \<and> unat (counter ?mdb x) + n + 512 < 2 ^ 64" for x
    using R b(3) suc up(2) by (auto simp: cnt backs_def dest!: spec [of _ x])
  moreover have "\<forall>k. k \<noteq> [] \<and> \<not> internal k \<longrightarrow> store bg bdb' k = mdb_m ?mdb k"
    using R b(4) by (simp add: b(5) backs_def same_data_def)
  moreover have "\<forall>k. k \<in> dom (mdb_m ?mdb) \<longrightarrow> k \<noteq> [] \<and> \<not> internal k" using R fresh by (auto simp: backs_def)
  ultimately have "backs bg n ?mdb bdb'" using bg(1) b(2) by (simp add: backs_def)
  then show ?thesis using b(1) by (auto simp: memory_SetScoped_eq Let_def)
qed

interpretation bsim: db_simulation memory_DB_ops "badger_DB_ops bg" "backs bg" "badger_key_ok bg" "badger_scope_ok bg" "badger_data_ok bg" for bg
proof unfold_locales
  fix n mdb bdb k assume R: "backs bg n mdb bdb" and k: "badger_key_ok bg k"
  have k': "k \<noteq> []" "\<not> internal k" "length k \<le> bg_maxKeySize bg" using k data_not_internal(2) by (auto simp: badger_key_ok_def)
  then have same: "bg_snapshot bg (bdb_db bdb) k = mdb_m mdb k" using R by (simp add: backs_def store_def)
  show "\<exists>r. db_Get memory_DB_ops (Some k) mdb = (r, mdb) \<and> db_Get (badger_DB_ops bg) (Some k) bdb = (r, bdb)"
    using k'(1) same by (cases "mdb_m mdb k") (simp_all add: memory_DB_ops_def badger_DB_ops_def memory_Get_def badger_Get_def txn_Get_def)
  from R have bg: "reliable bg" "well bg bdb" by (simp_all add: backs_def)
  obtain bdb' where d: "badger_Delete bg (Some k) bdb = (Ok (), bdb')" "well bg bdb'" "upcoming bg bdb' = upcoming bg bdb" "store bg bdb' = (store bg bdb)(k := None)"
    using badger_Delete_ok [OF bg(1) k'(1,3,2) bg(2)] by blast
  let ?mdb = "mdb\<lparr>mdb_m := (mdb_m mdb)(k := None)\<rparr>"
  have "counter ?mdb = counter mdb" by (simp add: fun_eq_iff counter_def)
  then have "backs bg n ?mdb bdb'" using R d by (simp add: backs_def)
  then show "\<exists>r mdb' bdb'. db_Delete memory_DB_ops (Some k) mdb = (r, mdb') \<and> db_Delete (badger_DB_ops bg) (Some k) bdb = (r, bdb') \<and> backs bg n mdb' bdb'"
    using d(1) by (simp add: memory_DB_ops_def badger_DB_ops_def memory_Delete_def)
next
  fix n mdb bdb sk d assume "backs bg (Suc n) mdb bdb" "badger_scope_ok bg sk" "badger_data_ok bg d"
  from backs_scoped [OF this] show "\<exists>r mdb' bdb'. db_SetScoped memory_DB_ops (Some sk) d mdb = (r, mdb') \<and>
      db_SetScoped (badger_DB_ops bg) (Some sk) d bdb = (r, bdb') \<and> backs bg n mdb' bdb'"
    by (auto simp: memory_DB_ops_def badger_DB_ops_def)
next
  fix n mdb bdb assume "backs bg (Suc n) mdb bdb"
  moreover from this have "unat (counter mdb sk) + n + 512 < 2 ^ 64" for sk unfolding backs_def by (metis Suc_lessD add_Suc add_Suc_right)
  ultimately show "backs bg n mdb bdb" unfolding backs_def by blast
qed

text \<open>In byte order the keys with a given prefix follow each other: seeking the prefix finds them all.\<close>

lemma prefix_between: "p \<le> x \<Longrightarrow> x \<le> y \<Longrightarrow> prefix p y \<Longrightarrow> prefix p (x :: bytes)"
proof (induction p arbitrary: x y)
  case (Cons a p)
  from Cons.prems(3) obtain y' where y: "y = a # y'" "prefix p y'" by (cases y) auto
  from Cons.prems(1) obtain b x' where x: "x = b # x'" by (cases x) auto
  from Cons.prems(1,2) x y have "b = a" "p \<le> x'" "x' \<le> y'" by auto
  with Cons.IH [OF _ _ y(2)] x show ?case by simp
qed simp

lemma prefix_le: "prefix p k \<Longrightarrow> p \<le> (k :: bytes)"
proof (induction p arbitrary: k)
  case (Cons a p)
  then show ?case by (cases k) auto
qed simp

lemma seek_prefix:
  "sorted order \<Longrightarrow> takeWhile (\<lambda>k. prefix p k) (dropWhile (\<lambda>k. k < p) order) = filter (\<lambda>k. prefix p k) (order :: bytes list)"
proof (induction order)
  case (Cons k order)
  show ?case
  proof (cases "k < p")
    case True
    then have "\<not> prefix p k" using prefix_le leD by blast
    with True Cons show ?thesis by simp
  next
    case False
    then have above: "p \<le> k" by simp
    show ?thesis
    proof (cases "prefix p k")
      case True
      have "dropWhile (\<lambda>k. k < p) order = order" using Cons.prems above by (cases order) auto
      with True False Cons show ?thesis by simp
    next
      case no: False
      have "\<not> prefix p y" if "y \<in> set order" for y using prefix_between [OF above, of y] Cons.prems that no by auto
      then show ?thesis using False no by (simp add: filter_empty_conv)
    qed
  qed
qed simp

lemma badger_lists_alike:
  assumes R: "backs bg n mdb bdb" and order: "sorted order" "set order = dom (store bg bdb)" and l: "request_label ctx = Some l"
  shows "fst (ListObjectKeys (badger_DB_ops bg) send order ctx bdb) = fst (ListObjectKeys memory_DB_ops send (filter (\<lambda>k. \<not> internal k) order) ctx mdb)"
proof -
  let ?p = "data_scope (ascii l)"
  have p: "k \<noteq> []" "\<not> internal k" if "prefix ?p k" for k
  proof -
    have "prefix (ascii ''d:'') k" using that by (auto simp: prefix_def data_scope_def)
    then show "k \<noteq> []" "\<not> internal k" using data_not_internal(2) by blast+
  qed
  have same: "mdb_m mdb k = store bg bdb k" if "prefix ?p k" for k using R p [OF that] by (simp add: backs_def)
  have keys: "filter (\<lambda>k. mdb_m mdb k \<noteq> None \<and> has_prefix (Some ?p) k) (filter (\<lambda>k. \<not> internal k) order) = filter (\<lambda>k. prefix ?p k) order"
    unfolding filter_filter using order(2) p same by (intro filter_cong) (auto simp: has_prefix_def)
  have "badger_items bg order (Some ?p) bdb = memory_items (filter (\<lambda>k. \<not> internal k) order) (Some ?p) mdb"
    unfolding memory_items_eq keys by (simp add: badger_items_def seek_prefix [OF order(1)] same store_def)
  then show ?thesis using l by (simp add: ListObjectKeys_def withLabel_eq DataScopeKey_eq memory_DB_ops_def badger_DB_ops_def)
qed

text \<open>The requests that stay within badger's limits on the length of keys and values.\<close>

fun request_fits :: "'b badger \<Rightarrow> object_request \<Rightarrow> bool" where
  "request_fits bg (CreateReq ctx data) \<longleftrightarrow> (case request_label ctx of None \<Rightarrow> True | Some l \<Rightarrow> length l + 11 \<le> bg_maxKeySize bg \<and> length data + 4 \<le> bg_ValueLogFileSize bg)"
| "request_fits bg (GetReq ctx key) \<longleftrightarrow> (case request_label ctx of None \<Rightarrow> True | Some l \<Rightarrow> length l + length key + 3 \<le> bg_maxKeySize bg)"
| "request_fits bg (DeleteReq ctx key) \<longleftrightarrow> (case request_label ctx of None \<Rightarrow> True | Some l \<Rightarrow> length l + length key + 3 \<le> bg_maxKeySize bg)"
| "request_fits bg (StatusReq ctx key) \<longleftrightarrow> (case request_label ctx of None \<Rightarrow> True | Some l \<Rightarrow> length l + length key + 3 \<le> bg_maxKeySize bg)"

lemma request_fits_ok: "request_fits bg req \<Longrightarrow> req_ok (badger_key_ok bg) (badger_scope_ok bg) (badger_data_ok bg) req"
proof -
  have pre: "prefix (ascii ''d:'') (data_scope l @ k)" "prefix (ascii ''d:'') (data_scope l)" for l k by (simp_all add: data_scope_def)
  have len: "length (data_scope (ascii l)) = length l + 3" "length (encoded d) = length d + 4" for l d
    by (simp_all add: data_scope_def encoded_def)
  show "request_fits bg req \<Longrightarrow> req_ok (badger_key_ok bg) (badger_scope_ok bg) (badger_data_ok bg) req"
    using pre by (cases req) (auto simp: req_ok_def badger_scope_ok_def badger_key_ok_def badger_data_ok_def len split: option.splits)
qed

text \<open>
  C12.  The object service answers every sequence of requests on a badger database as on the in-memory
  database, with the same keys, data, statuses and errors, whichever sequences the bounded
  sequence cache evicts in between; and the keys of a namespace are listed alike when the in-memory
  database happens to visit its keys in byte order.
\<close>

theorem badger_serves_like_memory:
  assumes bg: "reliable bg" "bg_snapshot bg b = Map.empty" and reqs: "\<forall>req\<in>set reqs. request_fits bg req" "length reqs + 512 < 2 ^ 64"
  shows "\<exists>resps bdb mdb. serve_objects (badger_DB_ops bg) reqs (badger_New b) = (resps, bdb) \<and>
    serve_objects memory_DB_ops reqs memory_New = (resps, mdb) \<and>
    (\<forall>order ctx send. sorted order \<and> set order = dom (store bg bdb) \<and> request_label ctx \<noteq> None \<longrightarrow>
      fst (ListObjectKeys (badger_DB_ops bg) send order ctx bdb) = fst (ListObjectKeys memory_DB_ops send (filter (\<lambda>k. \<not> internal k) order) ctx mdb))"
proof -
  have wf: "\<forall>sk. lease_wf (bg_snapshot bg b) sk" by (simp add: lease_wf_def bg(2))
  note n = badger_New_ok [OF wf]
  have "backs bg (length reqs + 0) memory_New (badger_New b)"
    using bg n reqs(2) by (simp add: backs_def memory_New_def counter_def stored_lease_def)
  moreover have "\<forall>req\<in>set reqs. req_ok (badger_key_ok bg) (badger_scope_ok bg) (badger_data_ok bg) req" using reqs(1) request_fits_ok by blast
  ultimately obtain resps mdb bdb where r: "serve_objects memory_DB_ops reqs memory_New = (resps, mdb)"
    "serve_objects (badger_DB_ops bg) reqs (badger_New b) = (resps, bdb)" "backs bg 0 mdb bdb"
    using bsim.serve_objects_sim by blast
  have "fst (ListObjectKeys (badger_DB_ops bg) send order ctx bdb) = fst (ListObjectKeys memory_DB_ops send (filter (\<lambda>k. \<not> internal k) order) ctx mdb)"
    if "sorted order" "set order = dom (store bg bdb)" "request_label ctx \<noteq> None" for order ctx send
    using badger_lists_alike [OF r(3) that(1,2)] that(3) by auto
  with r(1,2) show ?thesis by blast
qed

theorem badger_serves_like_memory_witness:
  "\<exists>resps bdb mdb. serve_objects (badger_DB_ops plain_badger) [CreateReq (labelled ''ns'') [1, 2], GetReq None [3]] (badger_New Map.empty) = (resps, bdb) \<and>
     serve_objects memory_DB_ops [CreateReq (labelled ''ns'') [1, 2], GetReq None [3]] memory_New = (resps, mdb) \<and> resps ! 1 = Got (Err ErrGRPCNilLabel)"
proof -
  let ?reqs = "[CreateReq (labelled ''ns'') [1, 2], GetReq None [3]]"
  have "\<forall>req\<in>set ?reqs. request_fits plain_badger req" by (simp add: plain_badger_def request_label_def labelled_def)
  moreover have "length ?reqs + 512 < 2 ^ 64" by simp
  ultimately obtain resps bdb mdb where r: "serve_objects (badger_DB_ops plain_badger) ?reqs (badger_New Map.empty) = (resps, bdb)"
    "serve_objects memory_DB_ops ?reqs memory_New = (resps, mdb)"
    using badger_serves_like_memory [OF plain_badger_reliable, of ?reqs] by blast
  have "resps ! 1 = Got (Err ErrGRPCNilLabel)"
    using r(2) by (auto simp: handler_defs request_label_def split: prod.splits)
  with r show ?thesis by blast
qed

end
