(* ===== verification/Metastor_Badger.thy ===== *)
theory Metastor_Badger
  imports Metastor_Client Badger_Db
begin

text \<open>
  The badger implementation of the metadata database (\<open>client/metastor/db/badger/badger.go\<close>), on the
  same store of the badger library as the server's database.
\<close>

section \<open>Operations\<close>

definition databaseType :: string where "databaseType = ''Badger''"

fun meta_mapBadgerError :: "badger_err \<Rightarrow> 'e meta_error" where
  "meta_mapBadgerError Badger_Db.ErrKeyNotFound = MetaNotFound"
| "meta_mapBadgerError err = InternalError databaseType (Some (badger_text err))"

definition meta_badger_Set :: "'b badger \<Rightarrow> bytes \<Rightarrow> bytes \<Rightarrow> ('b, 'e meta_error, unit) op" where
  "meta_badger_Set bg key metadata b = omap_err meta_mapBadgerError (badger_Update bg (txn_Set bg key metadata) b)"

definition meta_badger_Get :: "'b badger \<Rightarrow> bytes \<Rightarrow> 'b \<Rightarrow> ('e meta_error, bytes) result" where
  "meta_badger_Get bg key b =
     rbind (map_err meta_mapBadgerError (txn_Get key (bg_snapshot bg b))) (\<lambda>v. Ok (go_copy (replicate (length v) 0) v))"

definition meta_badger_Delete :: "'b badger \<Rightarrow> bytes \<Rightarrow> ('b, 'e meta_error, unit) op" where
  "meta_badger_Delete bg key b = omap_err meta_mapBadgerError (badger_Update bg (txn_Delete bg key) b)"

text \<open>
  One transaction of \<open>Update\<close>: it reads the entry, calls back, and writes.  When it is committed, it
  conflicts with what others, or the callback itself, have done to the entry since it was read; its
  write is added to what else is in the store by then.  The error of the transaction is one of the
  function it runs, or one of the library, which alone can be a conflict and which is not mapped.
\<close>

definition update_txn ::
  "'b badger \<Rightarrow> bytes \<Rightarrow> ('b, 'x, 'e) UpdateCallback \<Rightarrow> 'b \<times> 'x \<Rightarrow> ('e meta_error + badger_err, unit) result \<times> 'b \<times> 'x" where
  "update_txn bg key cb st =
     (case txn_Get key (bg_snapshot bg (fst st)) of
        Err e \<Rightarrow> (Err (Inl (meta_mapBadgerError e)), st)
      | Panic \<Rightarrow> (Panic, st)
      | Ok metadata \<Rightarrow>
          (case cb metadata st of
             (Err e, st') \<Rightarrow> (Err (Inl e), st')
           | (Panic, st') \<Rightarrow> (Panic, st')
           | (Ok metadata', b, x) \<Rightarrow>
               (case txn_Set bg key metadata' (bg_snapshot bg b) of
                  (Err e, _) \<Rightarrow> (Err (Inl (meta_mapBadgerError e)), b, x)
                | (Panic, _) \<Rightarrow> (Panic, b, x)
                | (Ok _, m) \<Rightarrow>
                    if bg_snapshot bg b key \<noteq> Some metadata then (Err (Inr ErrTxnConflict), b, x)
                    else (case bg_commit bg m b of (r, b') \<Rightarrow> (map_err Inr r, b', x)))))"

text \<open>An error of the library that reaches the caller unmapped is kept as an internal error without a type.\<close>

partial_function (option) meta_badger_Update ::
  "'b badger \<Rightarrow> bytes \<Rightarrow> ('b, 'x, 'e) UpdateCallback \<Rightarrow> 'b \<times> 'x \<Rightarrow> (('e meta_error, unit) result \<times> 'b \<times> 'x) option" where
  "meta_badger_Update bg key cb st =
     (case update_txn bg key cb st of
        (Ok _, st') \<Rightarrow> Some (Ok (), st')
      | (Panic, st') \<Rightarrow> Some (Panic, st')
      | (Err (Inl e), st') \<Rightarrow> Some (Err e, st')
      | (Err (Inr e), st') \<Rightarrow>
          if e = ErrTxnConflict then meta_badger_Update bg key cb st' else Some (Err (InternalError [] (Some (badger_text e))), st'))"

text \<open>The mapped error of closing the store is dropped.\<close>

definition meta_badger_Close :: "'b badger \<Rightarrow> ('b, 'e meta_error, unit) op" where
  "meta_badger_Close bg b = (case bg_Close bg b of (Panic, b) \<Rightarrow> (Panic, b) | (_, b) \<Rightarrow> (Ok (), b))"

definition meta_badger_ops :: "'b badger \<Rightarrow> ('b, 'x, 'e) meta_DB" where
  "meta_badger_ops bg = \<lparr>meta_Set = meta_badger_Set bg, meta_Get = meta_badger_Get bg, meta_Delete = meta_badger_Delete bg,
     meta_Update = meta_badger_Update bg, meta_Close = meta_badger_Close bg\<rparr>"

section \<open>It keeps its entries\<close>

definition entry_fits :: "'b badger \<Rightarrow> bytes \<Rightarrow> bytes \<Rightarrow> bool" where
  "entry_fits bg k v \<longleftrightarrow> k \<noteq> [] \<and> length k \<le> bg_maxKeySize bg \<and> length v \<le> bg_ValueLogFileSize bg"

lemma meta_badger_Get_eq:
  "k \<noteq> [] \<Longrightarrow> meta_badger_Get bg k b = (case bg_snapshot bg b k of None \<Rightarrow> Err MetaNotFound | Some v \<Rightarrow> Ok v)"
  by (simp add: meta_badger_Get_def txn_Get_def split: option.splits)

lemma meta_badger_Set_ok:
  assumes "reliable bg" "entry_fits bg k v"
  shows "\<exists>b'. meta_badger_Set bg k v b = (Ok (), b') \<and> bg_snapshot bg b' = (bg_snapshot bg b)(k \<mapsto> v)"
proof -
  obtain b' where "bg_commit bg ((bg_snapshot bg b)(k \<mapsto> v)) b = (Ok (), b')" "bg_snapshot bg b' = (bg_snapshot bg b)(k \<mapsto> v)"
    using reliable_commit [OF assms(1)] by blast
  then show ?thesis using assms(2) by (simp add: meta_badger_Set_def badger_Update_def txn_Set_def entry_fits_def)
qed

lemma meta_badger_Delete_ok:
  assumes "reliable bg" "entry_fits bg k []"
  shows "\<exists>b'. meta_badger_Delete bg k b = (Ok (), b') \<and> bg_snapshot bg b' = (bg_snapshot bg b)(k := None)"
proof -
  obtain b' where "bg_commit bg ((bg_snapshot bg b)(k := None)) b = (Ok (), b')" "bg_snapshot bg b' = (bg_snapshot bg b)(k := None)"
    using reliable_commit [OF assms(1)] by blast
  then show ?thesis using assms(2) by (simp add: meta_badger_Delete_def badger_Update_def txn_Delete_def entry_fits_def)
qed

text \<open>
  An update returns once nobody has written the entry during one attempt: what is stored then is
  computed from the entry that it replaces.  An attempt that meets a conflict is made again on the
  store as it is by then.
\<close>

lemma meta_badger_Update_ok:
  assumes "reliable bg" "entry_fits bg k v'" "bg_snapshot bg b k = Some v" "cb v (b, x) = (Ok v', b1, x')" "bg_snapshot bg b1 k = Some v"
  shows "\<exists>b'. meta_badger_Update bg k cb (b, x) = Some (Ok (), b', x') \<and> bg_snapshot bg b' = (bg_snapshot bg b1)(k \<mapsto> v')"
proof -
  obtain b' where "bg_commit bg ((bg_snapshot bg b1)(k \<mapsto> v')) b1 = (Ok (), b')" "bg_snapshot bg b' = (bg_snapshot bg b1)(k \<mapsto> v')"
    using reliable_commit [OF assms(1)] by blast
  then show ?thesis using assms(2-5)
    by (subst meta_badger_Update.simps) (simp add: update_txn_def txn_Get_def txn_Set_def entry_fits_def)
qed

lemma meta_badger_Update_retry:
  assumes "entry_fits bg k v'" "bg_snapshot bg b k = Some v" "cb v (b, x) = (Ok v', b1, x')" "bg_snapshot bg b1 k \<noteq> Some v"
  shows "meta_badger_Update bg k cb (b, x) = meta_badger_Update bg k cb (b1, x')"
  using assms by (subst meta_badger_Update.simps) (simp add: update_txn_def txn_Get_def txn_Set_def entry_fits_def)

lemma meta_badger_Update_missing:
  "k \<noteq> [] \<Longrightarrow> bg_snapshot bg b k = None \<Longrightarrow> meta_badger_Update bg k cb (b, x) = Some (Err MetaNotFound, b, x)"
  by (subst meta_badger_Update.simps) (simp add: update_txn_def txn_Get_def)

lemma meta_badger_Update_err:
  "k \<noteq> [] \<Longrightarrow> bg_snapshot bg b k = Some v \<Longrightarrow> cb v (b, x) = (Err e, st') \<Longrightarrow> meta_badger_Update bg k cb (b, x) = Some (Err e, st')"
  by (subst meta_badger_Update.simps) (simp add: update_txn_def txn_Get_def)

text \<open>It is a metadata database for the keys and values within the limits of the store.\<close>

definition meta_badger_fits :: "'b badger \<Rightarrow> bytes \<Rightarrow> bytes \<Rightarrow> bool" where
  "meta_badger_fits bg k v \<longleftrightarrow> reliable bg \<and> entry_fits bg k v"

lemma meta_badger_fitsD:
  "meta_badger_fits bg k v \<Longrightarrow> reliable bg" "meta_badger_fits bg k v \<Longrightarrow> entry_fits bg k v"
  "meta_badger_fits bg k v \<Longrightarrow> entry_fits bg k []" "meta_badger_fits bg k v \<Longrightarrow> k \<noteq> []"
  by (auto simp: meta_badger_fits_def entry_fits_def)

interpretation mbd: metadata_db "meta_badger_ops bg" "bg_snapshot bg" "\<lambda>k b b'. bg_snapshot bg b' k = bg_snapshot bg b k" "meta_badger_fits bg" for bg :: "'b badger"
proof unfold_locales
  fix k v s assume "meta_badger_fits bg k v"
  note fits = meta_badger_fitsD [OF this]
  show "meta_Get (meta_badger_ops bg) k s = (case bg_snapshot bg s k of None \<Rightarrow> Err MetaNotFound | Some b \<Rightarrow> Ok b)"
    using meta_badger_Get_eq [OF fits(4)] by (simp add: meta_badger_ops_def)
  show "\<exists>s'. meta_Set (meta_badger_ops bg) k v s = (Ok (), s') \<and> bg_snapshot bg s' = (bg_snapshot bg s)(k \<mapsto> v) \<and>
      (\<forall>k'. k' \<noteq> k \<longrightarrow> bg_snapshot bg s' k' = bg_snapshot bg s k')"
    using meta_badger_Set_ok [OF fits(1,2), of s] by (auto simp: meta_badger_ops_def)
  show "\<exists>s'. meta_Delete (meta_badger_ops bg) k s = (Ok (), s') \<and> bg_snapshot bg s' = (bg_snapshot bg s)(k := None)"
    using meta_badger_Delete_ok [OF fits(1,3), of s] by (auto simp: meta_badger_ops_def)
  show "bg_snapshot bg s k = None \<Longrightarrow> meta_Update (meta_badger_ops bg) k cb (s, x) = Some (Err MetaNotFound, s, x)" for cb x
    using meta_badger_Update_missing [OF fits(4)] by (simp add: meta_badger_ops_def)
  show "bg_snapshot bg s k = Some v \<Longrightarrow> cb v (s, x) = (Err e, st') \<Longrightarrow> meta_Update (meta_badger_ops bg) k cb (s, x) = Some (Err e, st')" for cb x e st'
    using meta_badger_Update_err [OF fits(4)] by (simp add: meta_badger_ops_def)
  show "\<exists>s''. meta_Update (meta_badger_ops bg) k cb (s, x) = Some (Ok (), s'', x') \<and> bg_snapshot bg s'' = (bg_snapshot bg s')(k \<mapsto> v')"
    if "meta_badger_fits bg k v'" "bg_snapshot bg s k = Some v" "cb v (s, x) = (Ok v', s', x')" "bg_snapshot bg s' k = bg_snapshot bg s k" for v' cb x s' x'
    using meta_badger_Update_ok [where cb = cb and x = x, OF fits(1) meta_badger_fitsD(2) [OF that(1)] that(2,3)] that(2,4) by (simp add: meta_badger_ops_def)
qed simp

interpretation mbm: metadata_store "meta_badger_ops bg" "bg_snapshot bg" "\<lambda>k b b'. bg_snapshot bg b' k = bg_snapshot bg b k" "meta_badger_fits bg" for bg :: "'b badger"
  by unfold_locales

text \<open>So the metadata client on badger sets and gets as it does on the in-memory database.\<close>

lemma badger_metadata_set_get:
  assumes c: "mc_db c = meta_badger_ops bg" "codec_ok n c" and x: "n \<le> length (mw_rand x)"
    and md: "md_Key md \<noteq> []" "\<And>rand b rand'. mc_encode c md rand = (Ok b, rand') \<Longrightarrow> meta_badger_fits bg (md_Key md) b"
  shows "\<exists>s' x'. SetMetadata c md (s, x) = (Ok (), s', x') \<and> GetMetadata c (md_Key md) s' = Ok (normal md)"
proof -
  have fitting: "mbd.fitting bg c (md_Key md) md" using md(2) by (auto simp: mbd.fitting_def)
  obtain b rand' where "mc_encode c md (mw_rand x) = (Ok b, rand')" using codec_okD [OF c(2) x] by metis
  from mbd.GetMetadata_entry(1) [OF c(1) md(1) md(2) [OF this]] mbm.SetMetadata_entry [OF c md(1) x fitting, of s] show ?thesis
    by fastforce
qed

text \<open>Closing a store that cannot be closed succeeds.\<close>

lemma meta_badger_Close_hides: "bg_Close bg b = (Err e, b') \<Longrightarrow> meta_badger_Close bg b = (Ok (), b')"
  by (simp add: meta_badger_Close_def)

end
