(* ===== verification/Badger_Open.thy ===== *)
theory Badger_Open
  imports Complex_Main Cmd_Zstordb Badger_Server Metastor_Badger
begin

text \<open>
  Opening the badger database of the metadata, and the garbage collection that both badger databases run
  in the background (\<open>client/metastor/db/badger/badger.go\<close>, \<open>server/db/badger/badger.go\<close>).  The collection
  of the library is an argument.
\<close>

section \<open>Opening\<close>

definition meta_badger_NewWithOpts :: "('w, 'b, 'c, 'l) host \<Rightarrow> badger_Options \<Rightarrow> ('w, string, 'b) op" where
  "meta_badger_NewWithOpts os opts w =
     obind (os_MkdirAll os (bo_Dir opts) 508 w) (\<lambda>_ w.
     obind (os_MkdirAll os (bo_ValueDir opts) 508 w) (\<lambda>_ w.
       badgerdb_Open os opts w))"

definition meta_badger_New :: "('w, 'b, 'c, 'l) host \<Rightarrow> string \<Rightarrow> string \<Rightarrow> ('w, string, 'b) op" where
  "meta_badger_New os data meta w =
     (if length data = 0 then (Err ''no data directory defined'', w)
      else if length meta = 0 then (Err ''no meta directory defined'', w)
      else meta_badger_NewWithOpts os \<lparr>bo_SyncWrites = True, bo_Dir = meta, bo_ValueDir = data\<rparr> w)"

section \<open>Garbage collection\<close>

record 'b badger_gc =
  PurgeOlderVersions :: "('b, badger_err, unit) op"
  RunValueLogGC :: "rat \<Rightarrow> ('b, badger_err, unit) op"

definition discardRatio :: rat where "discardRatio = 1 / 2"

definition ErrNoRewrite :: badger_err where
  "ErrNoRewrite = BadgerError ''Value log GC attempt didn't result in any cleanup''"

definition collectGarbage :: "'b badger_gc \<Rightarrow> ('b, badger_err, unit) op" where
  "collectGarbage gc b = obind (PurgeOlderVersions gc b) (\<lambda>_ b. RunValueLogGC gc discardRatio b)"

text \<open>What the goroutine waits for, and what it logs.\<close>

datatype gc_event = GcTick | GcDone

datatype gc_log = GcDebug badger_err | GcError badger_err

definition gc_report :: "badger_err \<Rightarrow> gc_log" where
  "gc_report err = (if err = ErrNoRewrite then GcDebug err else GcError err)"

fun runGC :: "'b badger_gc \<Rightarrow> gc_event list \<Rightarrow> gc_log list \<Rightarrow> 'b \<Rightarrow> (unit option \<times> gc_log list) \<times> 'b" where
  "runGC gc [] logs b = ((None, logs), b)"
| "runGC gc (GcDone # evs) logs b = ((Some (), logs), b)"
| "runGC gc (GcTick # evs) logs b =
     (case collectGarbage gc b of
        (Ok _, b) \<Rightarrow> runGC gc evs logs b
      | (Err err, b) \<Rightarrow> runGC gc evs (logs @ [gc_report err]) b
      | (Panic, b) \<Rightarrow> ((None, logs), b))"

definition server_runGC :: "'b badger_gc \<Rightarrow> gc_event list \<Rightarrow> 'b badger_DB \<Rightarrow> 'b badger_DB" where
  "server_runGC gc evs bdb = bdb\<lparr>bdb_db := snd (runGC gc evs [] (bdb_db bdb))\<rparr>"

section \<open>Lemmas\<close>

text \<open>The collection of the library discards old versions and space that is not used: entries stay as they are, whether it succeeds or not.\<close>

definition gc_ok :: "'b badger \<Rightarrow> 'b badger_gc \<Rightarrow> bool" where
  "gc_ok bg gc \<longleftrightarrow> (\<forall>b. bg_snapshot bg (snd (PurgeOlderVersions gc b)) = bg_snapshot bg b) \<and>
     (\<forall>r b. bg_snapshot bg (snd (RunValueLogGC gc r b)) = bg_snapshot bg b)"

lemma collectGarbage_keeps: "gc_ok bg gc \<Longrightarrow> bg_snapshot bg (snd (collectGarbage gc b)) = bg_snapshot bg b"
proof -
  assume gc: "gc_ok bg gc"
  obtain r b1 where p: "PurgeOlderVersions gc b = (r, b1)" by fastforce
  have "bg_snapshot bg b1 = bg_snapshot bg b" using gc p by (auto simp: gc_ok_def dest!: spec [of _ b])
  with gc p show ?thesis by (cases r) (simp_all add: collectGarbage_def gc_ok_def)
qed

lemma runGC_keeps: "gc_ok bg gc \<Longrightarrow> bg_snapshot bg (snd (runGC gc evs logs b)) = bg_snapshot bg b"
proof (induction gc evs logs b rule: runGC.induct)
  case (3 gc evs logs b)
  obtain r b1 where c: "collectGarbage gc b = (r, b1)" by fastforce
  with collectGarbage_keeps [OF 3(3), of b] have "bg_snapshot bg b1 = bg_snapshot bg b" by simp
  with c 3 show ?case by (cases r) simp_all
qed simp_all

text \<open>The goroutine ends when the database is closed, unless the library panics.\<close>

lemma runGC_ends: "(\<And>b. fst (collectGarbage gc b) \<noteq> Panic) \<Longrightarrow> GcDone \<in> set evs \<Longrightarrow> fst (fst (runGC gc evs logs b)) = Some ()"
proof (induction gc evs logs b rule: runGC.induct)
  case (3 gc evs logs b)
  obtain r b1 where c: "collectGarbage gc b = (r, b1)" by fastforce
  with 3(3) [of b] have "r \<noteq> Panic" by simp
  with c 3 show ?case by (cases r) simp_all
qed simp_all

text \<open>A collection between two requests is not noticed: the database goes on serving like the one in memory.\<close>

lemma gc_keeps_serving: "gc_ok bg gc \<Longrightarrow> backs bg n mdb bdb \<Longrightarrow> backs bg n mdb (server_runGC gc evs bdb)"
  by (simp add: backs_def server_runGC_def runGC_keeps well_def upcoming_def store_def)

text \<open>A metadata database without a directory is an error, where the server's database panics.\<close>

lemma no_directory: "fst (meta_badger_New os [] meta w) = Err ''no data directory defined''" "fst (badger_NewIn os [] meta w) = Panic"
  by (simp_all add: meta_badger_New_def badger_NewIn_def)

end
