(* ===== verification/Metastor_Etcd.thy ===== *)
theory Metastor_Etcd
  imports Metastor_Client Rpc_Types "HOL-Library.AList"
begin

text \<open>
  The etcd implementation of the metadata database (\<open>client/metastor/db/etcd/etcd.go\<close>), on the
  transactions of the etcd client (\<open>vendor/github.com/coreos/etcd/clientv3/concurrency/stm.go\<close>), with
  that client's conversion of errors.

  The etcd servers are an argument: what a request answers and what it makes of the store.  Other
  clients may write at any time; what they do between reading an entry and committing its new value
  is part of what the callback does to the store.
\<close>

section \<open>The etcd client\<close>

text \<open>
  An error of a request is a gRPC status, an error of etcd that the client has recognised by its
  description, the error of the context whose deadline has passed, or another error.
\<close>

datatype etcd_error = EtcdStatus status | EtcdError code string | ContextDeadlineExceeded | EtcdOther string

record KeyValue =
  kv_Value :: bytes
  kv_ModRevision :: nat

record GetResponse =
  gr_Revision :: nat
  gr_Kvs :: "KeyValue list"

datatype Cmp = ModRevisionEq bytes nat | ModRevisionLess bytes nat
datatype Op = OpGet bytes | OpPut bytes bytes
datatype OpResponse = RespRange GetResponse | RespPut

record TxnResponse =
  tr_Succeeded :: bool
  tr_Responses :: "OpResponse list"

text \<open>
  \<open>et_kvs\<close> and \<open>et_revision\<close> are the entries of the store and its revision, \<open>et_accepts\<close> the entries within the
  limits of the servers, \<open>et_expired\<close> tells whether the deadline of the running operation has passed,
  and \<open>et_known\<close> is the table of the error descriptions that the client recognises.
\<close>

record 'b etcd =
  et_kvs :: "'b \<Rightarrow> bytes \<rightharpoonup> KeyValue"
  et_revision :: "'b \<Rightarrow> nat"
  et_accepts :: "bytes \<Rightarrow> bytes \<Rightarrow> bool"
  et_Range :: "bytes \<Rightarrow> 'b \<Rightarrow> (etcd_error, GetResponse) result"
  et_Put :: "bytes \<Rightarrow> bytes \<Rightarrow> ('b, etcd_error, unit) op"
  et_DeleteRange :: "bytes \<Rightarrow> ('b, etcd_error, unit) op"
  et_Txn :: "Cmp list \<Rightarrow> Op list \<Rightarrow> Op list \<Rightarrow> ('b, etcd_error, TxnResponse) op"
  et_Close :: "('b, etcd_error, unit) op"
  et_expired :: "'b \<Rightarrow> bool"
  et_known :: "string \<rightharpoonup> code"

fun etcd_text :: "etcd_error \<Rightarrow> string" where
  "etcd_text (EtcdStatus s) = st_desc s"
| "etcd_text (EtcdError c d) = d"
| "etcd_text ContextDeadlineExceeded = ''context deadline exceeded''"
| "etcd_text (EtcdOther e) = e"

text \<open>\<open>toErr\<close> of \<open>clientv3/client.go\<close>.\<close>

definition etcd_toErr :: "'b etcd \<Rightarrow> 'b \<Rightarrow> etcd_error \<Rightarrow> etcd_error" where
  "etcd_toErr et b err =
     (case et_known et (etcd_text err) of
        Some c \<Rightarrow> EtcdError c (etcd_text err)
      | None \<Rightarrow>
          (case err of
             EtcdStatus s \<Rightarrow>
               if st_code s = DeadlineExceeded \<or> st_code s = Canceled then (if et_expired et b then ContextDeadlineExceeded else err)
               else if st_code s = FailedPrecondition then EtcdOther ''grpc: the client connection is closing''
               else err
           | _ \<Rightarrow> err))"

definition converted :: "'b etcd \<Rightarrow> ('b, etcd_error, 'a) op \<Rightarrow> ('b, etcd_error, 'a) op" where
  "converted et call b = (case call b of (r, b) \<Rightarrow> (map_err (etcd_toErr et b) r, b))"

section \<open>Transactions (stm.go)\<close>

text \<open>
  The entries that the transaction has read and those it is to write, and what a failed commit has
  fetched for the next attempt.  \<open>Update\<close> reads one key, so only the first read of an attempt reaches the
  servers, and the revision that later reads would use is left out.
\<close>

record stm =
  rset :: "(bytes \<times> GetResponse) list"
  wset :: "(bytes \<times> bytes) list"
  prefetch :: "(bytes \<times> GetResponse) list"

definition respToValue :: "GetResponse \<Rightarrow> bytes" where
  "respToValue resp = (case gr_Kvs resp of [] \<Rightarrow> [] | kv # _ \<Rightarrow> kv_Value kv)"

definition isKeyCurrent :: "bytes \<times> GetResponse \<Rightarrow> Cmp" where
  "isKeyCurrent = (\<lambda>(k, r). ModRevisionEq k (case gr_Kvs r of [] \<Rightarrow> 0 | kv # _ \<Rightarrow> kv_ModRevision kv))"

fun range_responses :: "OpResponse list \<Rightarrow> GetResponse list" where
  "range_responses (RespRange r # rs) = r # range_responses rs"
| "range_responses (RespPut # rs) = range_responses rs"
| "range_responses [] = []"

text \<open>The lowest revision that a read has seen; revisions stay below \<open>MaxInt64 - 1\<close>, where the search starts.\<close>

definition first :: "(bytes \<times> GetResponse) list \<Rightarrow> nat" where
  "first rs = (case map (gr_Revision \<circ> snd) rs of [] \<Rightarrow> 2 ^ 63 - 2 | r # rest \<Rightarrow> fold min rest r)"

definition conflicts :: "stm \<Rightarrow> Cmp list" where
  "conflicts s = map isKeyCurrent (rset s) @ map (\<lambda>w. ModRevisionLess (fst w) (first (rset s) + 1)) (wset s)"

definition stm_fetch :: "'b etcd \<Rightarrow> bytes \<Rightarrow> (stm \<times> 'b \<times> 'x, etcd_error, GetResponse) op" where
  "stm_fetch et key = (\<lambda>(s, b, x).
     case map_of (rset s) key of
       Some resp \<Rightarrow> (Ok resp, s, b, x)
     | None \<Rightarrow>
         (case converted et (et_Txn et [] [OpGet key] []) b of
            (Err e, b) \<Rightarrow> (Err e, s, b, x)
          | (Panic, b) \<Rightarrow> (Panic, s, b, x)
          | (Ok txnresp, b) \<Rightarrow>
              (case range_responses (tr_Responses txnresp) of
                 [] \<Rightarrow> (Panic, s, b, x)
               | resp # _ \<Rightarrow> (Ok resp, s\<lparr>rset := AList.update key resp (rset s)\<rparr>, b, x))))"

definition stm_Get :: "'b etcd \<Rightarrow> bytes \<Rightarrow> (stm \<times> 'b \<times> 'x, etcd_error, bytes) op" where
  "stm_Get et key = (\<lambda>(s, b, x).
     case map_of (wset s) key of
       Some val \<Rightarrow> (Ok val, s, b, x)
     | None \<Rightarrow>
         let s = (case map_of (prefetch s) key of
               None \<Rightarrow> s
             | Some resp \<Rightarrow> s\<lparr>prefetch := AList.delete key (prefetch s), rset := AList.update key resp (rset s)\<rparr>) in
         obind (stm_fetch et key (s, b, x)) (\<lambda>resp st. (Ok (respToValue resp), st)))"

definition stm_Put :: "bytes \<Rightarrow> bytes \<Rightarrow> stm \<Rightarrow> stm" where
  "stm_Put key val s = s\<lparr>wset := AList.update key val (wset s)\<rparr>"

text \<open>A commit that does not succeed fetches the entries of the read set again.\<close>

definition stm_commit :: "'b etcd \<Rightarrow> (stm \<times> 'b, etcd_error, TxnResponse option) op" where
  "stm_commit et = (\<lambda>(s, b).
     let keys = map fst (rset s) in
     case converted et (et_Txn et (conflicts s) (map (\<lambda>w. OpPut (fst w) (snd w)) (wset s)) (map OpGet keys)) b of
       (Err e, b) \<Rightarrow> (Err e, s, b)
     | (Panic, b) \<Rightarrow> (Panic, s, b)
     | (Ok txnresp, b) \<Rightarrow>
         if tr_Succeeded txnresp then (Ok (Some txnresp), s, b)
         else let fetched = zip keys (range_responses (tr_Responses txnresp)) in (Ok None, s\<lparr>rset := fetched, prefetch := fetched\<rparr>, b))"

definition stm_reset :: "stm \<Rightarrow> stm" where
  "stm_reset s = s\<lparr>rset := [], wset := []\<rparr>"

text \<open>
  \<open>NewSTM\<close> with the function that \<open>apply\<close> stands for: an error of the function ends the transaction, and
  so does an error of a request, which is kept apart (\<open>Inr\<close>).
\<close>

partial_function (option) runSTM ::
  "'b etcd \<Rightarrow> (stm \<times> 'b \<times> 'x \<Rightarrow> ('e + etcd_error, unit) result \<times> stm \<times> 'b \<times> 'x) \<Rightarrow> stm \<times> 'b \<times> 'x \<Rightarrow>
   (('e + etcd_error, TxnResponse) result \<times> 'b \<times> 'x) option" where
  "runSTM et app st =
     (case app (apfst stm_reset st) of
        (Err e, _, st) \<Rightarrow> Some (Err e, st)
      | (Panic, _, st) \<Rightarrow> Some (Panic, st)
      | (Ok _, s, b, x) \<Rightarrow>
          (case stm_commit et (s, b) of
             (Err e, _, b) \<Rightarrow> Some (Err (Inr e), b, x)
           | (Panic, _, b) \<Rightarrow> Some (Panic, b, x)
           | (Ok (Some resp), _, b) \<Rightarrow> Some (Ok resp, b, x)
           | (Ok None, s, b) \<Rightarrow> runSTM et app (s, b, x)))"

definition NewSTM ::
  "'b etcd \<Rightarrow> (stm \<times> 'b \<times> 'x \<Rightarrow> ('e + etcd_error, unit) result \<times> stm \<times> 'b \<times> 'x) \<Rightarrow> bytes \<Rightarrow> 'b \<times> 'x \<Rightarrow>
   (('e + etcd_error, TxnResponse) result \<times> 'b \<times> 'x) option" where
  "NewSTM et app pre st =
     runSTM et (\<lambda>st. obind (omap_err Inr (stm_Get et pre st)) (\<lambda>_. app)) (\<lparr>rset = [], wset = [], prefetch = []\<rparr>, st)"

section \<open>Operations (etcd.go)\<close>

definition etcd_databaseType :: string where "etcd_databaseType = ''ETCD''"

text \<open>Only an error that still is a gRPC status is told apart.\<close>

definition mapETCDError :: "etcd_error \<Rightarrow> 'e meta_error" where
  "mapETCDError err =
     (case err of
        EtcdStatus s \<Rightarrow>
          if st_code s = Unavailable then MetaUnavailable
          else if st_code s = DeadlineExceeded then MetaTimeout
          else InternalError etcd_databaseType (Some (etcd_text err))
      | _ \<Rightarrow> InternalError etcd_databaseType (Some (etcd_text err)))"

text \<open>\<open>Put\<close>, \<open>Get\<close> and \<open>Delete\<close> of the client convert an error twice.\<close>

definition etcd_Set :: "'b etcd \<Rightarrow> bytes \<Rightarrow> bytes \<Rightarrow> ('b, 'e meta_error, unit) op" where
  "etcd_Set et key metadata b = omap_err mapETCDError (converted et (converted et (et_Put et key metadata)) b)"

definition etcd_Get :: "'b etcd \<Rightarrow> bytes \<Rightarrow> 'b \<Rightarrow> ('e meta_error, bytes) result" where
  "etcd_Get et key b =
     rbind (map_err (mapETCDError \<circ> etcd_toErr et b \<circ> etcd_toErr et b) (et_Range et key b)) (\<lambda>resp.
       if length (gr_Kvs resp) < 1 then Err MetaNotFound else Ok (kv_Value (hd (gr_Kvs resp))))"

definition etcd_Delete :: "'b etcd \<Rightarrow> bytes \<Rightarrow> ('b, 'e meta_error, unit) op" where
  "etcd_Delete et key b = omap_err mapETCDError (converted et (converted et (et_DeleteRange et key)) b)"

definition etcd_update_txn ::
  "'b etcd \<Rightarrow> bytes \<Rightarrow> ('b, 'x, 'e) UpdateCallback \<Rightarrow> stm \<times> 'b \<times> 'x \<Rightarrow> ('e meta_error + etcd_error, unit) result \<times> stm \<times> 'b \<times> 'x" where
  "etcd_update_txn et key cb st =
     obind (omap_err Inr (stm_Get et key st)) (\<lambda>metadataIn (s, b, x).
       if length metadataIn = 0 then (Err (Inl MetaNotFound), s, b, x)
       else (case cb metadataIn (b, x) of
               (Err e, st) \<Rightarrow> (Err (Inl e), s, st)
             | (Panic, st) \<Rightarrow> (Panic, s, st)
             | (Ok metadataOut, st) \<Rightarrow> (Ok (), stm_Put key metadataOut s, st)))"

text \<open>An error without a type is an internal error without one.\<close>

definition etcd_Update ::
  "'b etcd \<Rightarrow> bytes \<Rightarrow> ('b, 'x, 'e) UpdateCallback \<Rightarrow> 'b \<times> 'x \<Rightarrow> (('e meta_error, unit) result \<times> 'b \<times> 'x) option" where
  "etcd_Update et key cb st =
     map_option (\<lambda>(r, st).
       (case r of
          Ok resp \<Rightarrow>
            if \<not> tr_Succeeded resp
            then Err (InternalError [] (Some (''metadata update of '' @ [CHR 0x27] @ map (char_of \<circ> unat) key @ [CHR 0x27] @ '' didn'' @ [CHR 0x27] @ ''t succeed'')))
            else Ok ()
        | Err (Inl e) \<Rightarrow> Err e
        | Err (Inr e) \<Rightarrow> Err (mapETCDError e)
        | Panic \<Rightarrow> Panic, st)) (NewSTM et (etcd_update_txn et key cb) key st)"

definition etcd_Close :: "'b etcd \<Rightarrow> ('b, 'e meta_error, unit) op" where
  "etcd_Close et b = omap_err mapETCDError (et_Close et b)"

definition etcd_ops :: "'b etcd \<Rightarrow> ('b, 'x, 'e) meta_DB" where
  "etcd_ops et = \<lparr>meta_Set = etcd_Set et, meta_Get = etcd_Get et, meta_Delete = etcd_Delete et,
     meta_Update = etcd_Update et, meta_Close = etcd_Close et\<rparr>"

definition etcd_New :: "(string list \<Rightarrow> (etcd_error, 'b etcd) result) \<Rightarrow> string list \<Rightarrow> ('e meta_error, ('b, 'x, 'e) meta_DB) result" where
  "etcd_New clientv3_New endpoints =
     (if length endpoints = 0 then Err (InternalError [] (Some ''no endpoints given''))
      else rbind (map_err mapETCDError (clientv3_New endpoints)) (\<lambda>et. Ok (etcd_ops et)))"

section \<open>What etcd promises\<close>

definition current :: "'b etcd \<Rightarrow> 'b \<Rightarrow> bytes \<Rightarrow> GetResponse" where
  "current et b k = \<lparr>gr_Revision = et_revision et b, gr_Kvs = (case et_kvs et b k of None \<Rightarrow> [] | Some kv \<Rightarrow> [kv])\<rparr>"

definition ModRevision :: "(bytes \<rightharpoonup> KeyValue) \<Rightarrow> bytes \<Rightarrow> nat" where
  "ModRevision m k = (case m k of None \<Rightarrow> 0 | Some kv \<Rightarrow> kv_ModRevision kv)"

fun cmp_holds :: "(bytes \<rightharpoonup> KeyValue) \<Rightarrow> Cmp \<Rightarrow> bool" where
  "cmp_holds m (ModRevisionEq k n) \<longleftrightarrow> ModRevision m k = n"
| "cmp_holds m (ModRevisionLess k n) \<longleftrightarrow> ModRevision m k < n"

text \<open>A write advances the revision of the store and puts the entry at the new one.\<close>

definition wrote :: "'b etcd \<Rightarrow> bytes \<Rightarrow> bytes \<Rightarrow> 'b \<Rightarrow> 'b \<Rightarrow> bool" where
  "wrote et k v b b' \<longleftrightarrow> et_kvs et b' = (et_kvs et b)(k \<mapsto> \<lparr>kv_Value = v, kv_ModRevision = et_revision et b + 1\<rparr>) \<and>
     et_revision et b' = et_revision et b + 1"

text \<open>
  The servers answer, and a transaction is one step: its guards are compared with the store, then one
  of its two lists of requests is served.
\<close>

definition etcd_ok :: "'b etcd \<Rightarrow> bool" where
  "etcd_ok et \<longleftrightarrow>
     (\<forall>b k. k \<noteq> [] \<longrightarrow> et_Range et k b = Ok (current et b k)) \<and>
     (\<forall>b k v. et_accepts et k v \<longrightarrow> k \<noteq> [] \<and> (\<exists>b'. et_Put et k v b = (Ok (), b') \<and> wrote et k v b b')) \<and>
     (\<forall>b k. k \<noteq> [] \<longrightarrow> (\<exists>b'. et_DeleteRange et k b = (Ok (), b') \<and> et_kvs et b' = (et_kvs et b)(k := None))) \<and>
     (\<forall>b ks. [] \<notin> set ks \<longrightarrow> et_Txn et [] (map OpGet ks) [] b = (Ok \<lparr>tr_Succeeded = True, tr_Responses = map (RespRange \<circ> current et b) ks\<rparr>, b)) \<and>
     (\<forall>b cs ops ks. [] \<notin> set ks \<longrightarrow> \<not> list_all (cmp_holds (et_kvs et b)) cs \<longrightarrow>
        et_Txn et cs ops (map OpGet ks) b = (Ok \<lparr>tr_Succeeded = False, tr_Responses = map (RespRange \<circ> current et b) ks\<rparr>, b)) \<and>
     (\<forall>b cs k v ops. et_accepts et k v \<longrightarrow> list_all (cmp_holds (et_kvs et b)) cs \<longrightarrow>
        (\<exists>b'. et_Txn et cs [OpPut k v] ops b = (Ok \<lparr>tr_Succeeded = True, tr_Responses = [RespPut]\<rparr>, b') \<and> wrote et k v b b')) \<and>
     (\<forall>b k kv. et_kvs et b k = Some kv \<longrightarrow> 0 < kv_ModRevision kv \<and> kv_ModRevision kv \<le> et_revision et b)"

lemma etcd_okD:
  assumes "etcd_ok et"
  shows etcd_Range: "k \<noteq> [] \<Longrightarrow> et_Range et k b = Ok (current et b k)"
    and etcd_key: "et_accepts et k v \<Longrightarrow> k \<noteq> []"
    and etcd_Put: "et_accepts et k v \<Longrightarrow> \<exists>b'. et_Put et k v b = (Ok (), b') \<and> wrote et k v b b'"
    and etcd_DeleteRange: "k \<noteq> [] \<Longrightarrow> \<exists>b'. et_DeleteRange et k b = (Ok (), b') \<and> et_kvs et b' = (et_kvs et b)(k := None)"
    and etcd_fetch: "k \<noteq> [] \<Longrightarrow> et_Txn et [] [OpGet k] [] b = (Ok \<lparr>tr_Succeeded = True, tr_Responses = [RespRange (current et b k)]\<rparr>, b)"
    and etcd_conflict: "k \<noteq> [] \<Longrightarrow> \<not> list_all (cmp_holds (et_kvs et b)) cs \<Longrightarrow>
      et_Txn et cs ops [OpGet k] b = (Ok \<lparr>tr_Succeeded = False, tr_Responses = [RespRange (current et b k)]\<rparr>, b)"
    and etcd_commit: "et_accepts et k v \<Longrightarrow> list_all (cmp_holds (et_kvs et b)) cs \<Longrightarrow>
      \<exists>b'. et_Txn et cs [OpPut k v] ops b = (Ok \<lparr>tr_Succeeded = True, tr_Responses = [RespPut]\<rparr>, b') \<and> wrote et k v b b'"
    and etcd_revision: "et_kvs et b k = Some kv \<Longrightarrow> 0 < kv_ModRevision kv \<and> kv_ModRevision kv \<le> et_revision et b"
proof -
  note laws = assms [unfolded etcd_ok_def]
  note range = laws [THEN conjunct1] and laws = laws [THEN conjunct2]
  note put = laws [THEN conjunct1] and laws = laws [THEN conjunct2]
  note delete = laws [THEN conjunct1] and laws = laws [THEN conjunct2]
  note fetch = laws [THEN conjunct1, rule_format, of "[k]"] and laws = laws [THEN conjunct2]
  note conflict = laws [THEN conjunct1, rule_format, of "[k]"] and laws = laws [THEN conjunct2]
  show "k \<noteq> [] \<Longrightarrow> et_Range et k b = Ok (current et b k)" using range by simp
  show "et_accepts et k v \<Longrightarrow> k \<noteq> []" using put by simp
  show "et_accepts et k v \<Longrightarrow> \<exists>b'. et_Put et k v b = (Ok (), b') \<and> wrote et k v b b'" using put by simp
  show "k \<noteq> [] \<Longrightarrow> \<exists>b'. et_DeleteRange et k b = (Ok (), b') \<and> et_kvs et b' = (et_kvs et b)(k := None)" using delete by simp
  show "k \<noteq> [] \<Longrightarrow> et_Txn et [] [OpGet k] [] b = (Ok \<lparr>tr_Succeeded = True, tr_Responses = [RespRange (current et b k)]\<rparr>, b)" using fetch by simp
  show "k \<noteq> [] \<Longrightarrow> \<not> list_all (cmp_holds (et_kvs et b)) cs \<Longrightarrow>
      et_Txn et cs ops [OpGet k] b = (Ok \<lparr>tr_Succeeded = False, tr_Responses = [RespRange (current et b k)]\<rparr>, b)" using conflict by simp
  show "et_accepts et k v \<Longrightarrow> list_all (cmp_holds (et_kvs et b)) cs \<Longrightarrow>
      \<exists>b'. et_Txn et cs [OpPut k v] ops b = (Ok \<lparr>tr_Succeeded = True, tr_Responses = [RespPut]\<rparr>, b') \<and> wrote et k v b b'"
    using laws [THEN conjunct1] by simp
  show "et_kvs et b k = Some kv \<Longrightarrow> 0 < kv_ModRevision kv \<and> kv_ModRevision kv \<le> et_revision et b" using laws [THEN conjunct2] by simp
qed

section \<open>One attempt of an update\<close>

lemma converted_ok: "call b = (Ok a, b') \<Longrightarrow> converted et call b = (Ok a, b')"
  by (simp add: converted_def)

text \<open>At the start of an attempt nothing is fetched, or the entry as it is in the store.\<close>

definition up_to_date :: "'b etcd \<Rightarrow> bytes \<Rightarrow> 'b \<Rightarrow> stm \<Rightarrow> bool" where
  "up_to_date et k b s \<longleftrightarrow> prefetch s = [] \<or> prefetch s = [(k, current et b k)]"

lemma stm_Get_first:
  assumes "etcd_ok et" "k \<noteq> []" "up_to_date et k b s"
  shows "stm_Get et k (stm_reset s, b, x) =
    (Ok (respToValue (current et b k)), \<lparr>rset = [(k, current et b k)], wset = [], prefetch = []\<rparr>, b, x)"
  using assms converted_ok [OF etcd_fetch [OF assms(1,2)]]
  by (cases s) (auto simp: up_to_date_def stm_Get_def stm_reset_def stm_fetch_def Let_def)

lemma update_txn_runs:
  assumes "etcd_ok et" "k \<noteq> []" "up_to_date et k b s"
  shows "obind (omap_err Inr (stm_Get et k (stm_reset s, b, x))) (\<lambda>_. etcd_update_txn et k cb) =
    (let s = \<lparr>rset = [(k, current et b k)], wset = [], prefetch = []\<rparr>; v = respToValue (current et b k) in
     if v = [] then (Err (Inl MetaNotFound), s, b, x)
     else (case cb v (b, x) of
             (Err e, st) \<Rightarrow> (Err (Inl e), s, st)
           | (Panic, st) \<Rightarrow> (Panic, s, st)
           | (Ok v', st) \<Rightarrow> (Ok (), s\<lparr>wset := [(k, v')]\<rparr>, st)))"
proof -
  have "stm_Get et k (\<lparr>rset = [(k, current et b k)], wset = [], prefetch = []\<rparr>, b, x) =
      (Ok (respToValue (current et b k)), \<lparr>rset = [(k, current et b k)], wset = [], prefetch = []\<rparr>, b, x)"
    by (simp add: stm_Get_def stm_fetch_def)
  then show ?thesis
    by (simp add: stm_Get_first [OF assms] etcd_update_txn_def stm_Put_def Let_def split: prod.split result.split)
qed

lemma respToValue_current: "respToValue (current et b k) = (case et_kvs et b k of None \<Rightarrow> [] | Some kv \<Rightarrow> kv_Value kv)"
  by (simp add: respToValue_def current_def split: option.split)

abbreviation etcd_attempts where
  "etcd_attempts et k cb \<equiv> runSTM et (\<lambda>st. obind (omap_err Inr (stm_Get et k st)) (\<lambda>_. etcd_update_txn et k cb))"

lemma conflict_free:
  "list_all (cmp_holds m) (conflicts \<lparr>rset = [(k, current et b k)], wset = [(k, v)], prefetch = pre\<rparr>) \<longleftrightarrow>
     ModRevision m k = ModRevision (et_kvs et b) k \<and> ModRevision m k \<le> et_revision et b"
  by (auto simp: conflicts_def isKeyCurrent_def first_def current_def ModRevision_def split: option.split)

lemma attempt_commits:
  assumes ok: "etcd_ok et" "et_accepts et k v'" "up_to_date et k b s" and kv: "et_kvs et b k = Some kv" "kv_Value kv \<noteq> []"
    and cb: "cb (kv_Value kv) (b, x) = (Ok v', b1, x1)" "ModRevision (et_kvs et b1) k = kv_ModRevision kv"
  shows "\<exists>b' resp. etcd_attempts et k cb (s, b, x) = Some (Ok resp, b', x1) \<and> tr_Succeeded resp \<and> wrote et k v' b1 b'"
proof -
  have free: "list_all (cmp_holds (et_kvs et b1)) (conflicts \<lparr>rset = [(k, current et b k)], wset = [(k, v')], prefetch = []\<rparr>)"
    using cb(2) kv(1) etcd_revision [OF ok(1) kv(1)] by (simp add: conflict_free) (simp add: ModRevision_def)
  obtain b' where b': "et_Txn et (conflicts \<lparr>rset = [(k, current et b k)], wset = [(k, v')], prefetch = []\<rparr>) [OpPut k v'] [OpGet k] b1 =
      (Ok \<lparr>tr_Succeeded = True, tr_Responses = [RespPut]\<rparr>, b')" "wrote et k v' b1 b'"
    using etcd_commit [OF ok(1,2) free] by blast
  then show ?thesis using kv cb(1) update_txn_runs [OF ok(1) etcd_key [OF ok(1,2)] ok(3), of x cb]
    by (subst runSTM.simps) (simp add: respToValue_current stm_commit_def converted_ok Let_def)
qed

lemma attempt_retries:
  assumes ok: "etcd_ok et" "k \<noteq> []" "up_to_date et k b s" and kv: "et_kvs et b k = Some kv" "kv_Value kv \<noteq> []"
    and cb: "cb (kv_Value kv) (b, x) = (Ok v', b1, x1)" "ModRevision (et_kvs et b1) k \<noteq> kv_ModRevision kv"
  shows "\<exists>s'. up_to_date et k b1 s' \<and> etcd_attempts et k cb (s, b, x) = etcd_attempts et k cb (s', b1, x1)"
proof -
  have "\<not> list_all (cmp_holds (et_kvs et b1)) (conflicts \<lparr>rset = [(k, current et b k)], wset = [(k, v')], prefetch = []\<rparr>)"
    using cb(2) kv(1) by (simp add: conflict_free) (simp add: ModRevision_def)
  from etcd_conflict [OF ok(1,2) this, of "[OpPut k v']"] show ?thesis using kv cb(1) update_txn_runs [OF ok, of x cb]
    by (intro exI [of _ "\<lparr>rset = [(k, current et b1 k)], wset = [(k, v')], prefetch = [(k, current et b1 k)]\<rparr>"])
      (subst runSTM.simps, simp add: respToValue_current stm_commit_def converted_ok Let_def up_to_date_def)
qed

section \<open>It is a metadata database\<close>

text \<open>An entry with an empty value is stored, but an update does not find it: it is not among those that fit.\<close>

definition etcd_fits :: "'b etcd \<Rightarrow> bytes \<Rightarrow> bytes \<Rightarrow> bool" where
  "etcd_fits et k v \<longleftrightarrow> etcd_ok et \<and> et_accepts et k v \<and> v \<noteq> []"

definition etcd_stored :: "'b etcd \<Rightarrow> 'b \<Rightarrow> bytes \<rightharpoonup> bytes" where
  "etcd_stored et b k = map_option kv_Value (et_kvs et b k)"

lemma wrote_stored: "wrote et k v b b' \<Longrightarrow> etcd_stored et b' = (etcd_stored et b)(k \<mapsto> v)"
  by (rule ext) (simp add: wrote_def etcd_stored_def)

lemma up_to_date_start [simp]: "up_to_date et k b \<lparr>rset = [], wset = [], prefetch = []\<rparr>"
  by (simp add: up_to_date_def)

lemma etcd_Update_ends:
  assumes "etcd_ok et" "k \<noteq> []"
  shows "etcd_stored et b k = None \<or> etcd_stored et b k = Some [] \<Longrightarrow> etcd_Update et k cb (b, x) = Some (Err MetaNotFound, b, x)"
    and "etcd_stored et b k = Some v \<Longrightarrow> v \<noteq> [] \<Longrightarrow> cb v (b, x) = (Err e, st) \<Longrightarrow> etcd_Update et k cb (b, x) = Some (Err e, st)"
  using update_txn_runs [OF assms up_to_date_start [of et k b], of x cb]
  by (cases st; auto simp: etcd_Update_def NewSTM_def runSTM.simps respToValue_current etcd_stored_def Let_def)+

lemma etcd_Update_commits:
  assumes "etcd_ok et" "et_accepts et k v'" "etcd_stored et b k = Some v" "v \<noteq> []" "cb v (b, x) = (Ok v', b1, x1)"
    and "et_kvs et b1 k = et_kvs et b k"
  shows "\<exists>b'. etcd_Update et k cb (b, x) = Some (Ok (), b', x1) \<and> wrote et k v' b1 b'"
proof -
  from assms(3) obtain kv where kv: "et_kvs et b k = Some kv" "kv_Value kv = v" by (auto simp: etcd_stored_def)
  have "ModRevision (et_kvs et b1) k = kv_ModRevision kv" using assms(6) kv(1) by (simp add: ModRevision_def)
  from attempt_commits [where cb = cb and x = x, OF assms(1,2) up_to_date_start kv(1) _ _ this] kv(2) assms(4,5) obtain b' resp where
    "etcd_attempts et k cb (\<lparr>rset = [], wset = [], prefetch = []\<rparr>, b, x) = Some (Ok resp, b', x1)" "tr_Succeeded resp" "wrote et k v' b1 b'" by auto
  then show ?thesis by (simp add: etcd_Update_def NewSTM_def)
qed

interpretation etc: metadata_db "etcd_ops et" "etcd_stored et" "\<lambda>k b b'. et_kvs et b' k = et_kvs et b k" "etcd_fits et" for et :: "'b etcd"
proof unfold_locales
  fix k b0 b s
  assume fits: "etcd_fits et k b0"
  then have ok: "etcd_ok et" "et_accepts et k b0" "b0 \<noteq> []" "k \<noteq> []" using etcd_key by (auto simp: etcd_fits_def)
  show "meta_Get (etcd_ops et) k s = (case etcd_stored et s k of None \<Rightarrow> Err MetaNotFound | Some b \<Rightarrow> Ok b)"
    by (simp add: etcd_ops_def etcd_Get_def etcd_Range [OF ok(1,4)] current_def etcd_stored_def split: option.split)
  obtain b' where "et_Put et k b0 s = (Ok (), b')" "wrote et k b0 s b'" using etcd_Put [OF ok(1,2)] by blast
  then show "\<exists>s'. meta_Set (etcd_ops et) k b0 s = (Ok (), s') \<and> etcd_stored et s' = (etcd_stored et s)(k \<mapsto> b0) \<and> (\<forall>k'. k' \<noteq> k \<longrightarrow> et_kvs et s' k' = et_kvs et s k')"
    using wrote_stored by (fastforce simp: etcd_ops_def etcd_Set_def converted_ok wrote_def)
  obtain d where "et_DeleteRange et k s = (Ok (), d)" "et_kvs et d = (et_kvs et s)(k := None)" using etcd_DeleteRange [OF ok(1,4)] by blast
  then show "\<exists>s'. meta_Delete (etcd_ops et) k s = (Ok (), s') \<and> etcd_stored et s' = (etcd_stored et s)(k := None)"
    by (auto simp: etcd_ops_def etcd_Delete_def converted_ok etcd_stored_def fun_eq_iff)
  show "etcd_stored et s k = None \<Longrightarrow> meta_Update (etcd_ops et) k cb (s, x) = Some (Err MetaNotFound, s, x)" for cb x
    using etcd_Update_ends(1) [OF ok(1,4), of s cb x] by (simp add: etcd_ops_def)
  show "etcd_stored et s k = Some b0 \<Longrightarrow> cb b0 (s, x) = (Err e, st') \<Longrightarrow> meta_Update (etcd_ops et) k cb (s, x) = Some (Err e, st')" for cb x e st'
    using etcd_Update_ends(2) [OF ok(1,4)] ok(3) by (simp add: etcd_ops_def)
  show "\<exists>s''. meta_Update (etcd_ops et) k cb (s, x) = Some (Ok (), s'', x') \<and> etcd_stored et s'' = (etcd_stored et s')(k \<mapsto> b')"
    if "etcd_fits et k b'" "etcd_stored et s k = Some b0" "cb b0 (s, x) = (Ok b', s', x')" "et_kvs et s' k = et_kvs et s k" for b' cb x s' x'
  proof -
    have "et_accepts et k b'" using that(1) by (simp add: etcd_fits_def)
    from etcd_Update_commits [where cb = cb and x = x, OF ok(1) this that(2) ok(3) that(3,4)] wrote_stored show ?thesis
      by (fastforce simp: etcd_ops_def)
  qed
qed simp

interpretation etm: metadata_store "etcd_ops et" "etcd_stored et" "\<lambda>k b b'. et_kvs et b' k = et_kvs et b k" "etcd_fits et" for et :: "'b etcd"
  by unfold_locales

section \<open>A store\<close>

text \<open>A log of writes, the newest first, in which an entry is at the revision of its last write.\<close>

type_synonym etcd_log = "(bytes \<times> bytes option) list"

fun log_kvs :: "etcd_log \<Rightarrow> bytes \<rightharpoonup> KeyValue" where
  "log_kvs [] = Map.empty"
| "log_kvs ((k, v) # log) = (log_kvs log)(k := map_option (\<lambda>v. \<lparr>kv_Value = v, kv_ModRevision = Suc (length log)\<rparr>) v)"

definition log_current :: "etcd_log \<Rightarrow> bytes \<Rightarrow> GetResponse" where
  "log_current log k = \<lparr>gr_Revision = length log, gr_Kvs = (case log_kvs log k of None \<Rightarrow> [] | Some kv \<Rightarrow> [kv])\<rparr>"

fun log_serve :: "Op list \<Rightarrow> etcd_log \<Rightarrow> OpResponse list \<times> etcd_log" where
  "log_serve [] log = ([], log)"
| "log_serve (OpGet k # ops) log = apfst (Cons (RespRange (log_current log k))) (log_serve ops log)"
| "log_serve (OpPut k v # ops) log = apfst (Cons RespPut) (log_serve ops ((k, Some v) # log))"

definition log_etcd :: "etcd_log etcd" where
  "log_etcd = \<lparr>et_kvs = log_kvs, et_revision = length, et_accepts = (\<lambda>k v. k \<noteq> []), et_Range = (\<lambda>k log. Ok (log_current log k)),
     et_Put = (\<lambda>k v log. (Ok (), (k, Some v) # log)), et_DeleteRange = (\<lambda>k log. (Ok (), (k, None) # log)),
     et_Txn = (\<lambda>cs ops els log. let ok = list_all (cmp_holds (log_kvs log)) cs; (rs, log') = log_serve (if ok then ops else els) log in
       (Ok \<lparr>tr_Succeeded = ok, tr_Responses = rs\<rparr>, log')),
     et_Close = (\<lambda>log. (Ok (), log)), et_expired = (\<lambda>_. False), et_known = Map.empty\<rparr>"

lemma log_serve_gets: "log_serve (map OpGet ks) log = (map (RespRange \<circ> log_current log) ks, log)"
  by (induction ks) simp_all

lemma log_revisions: "log_kvs log k = Some kv \<Longrightarrow> 0 < kv_ModRevision kv \<and> kv_ModRevision kv \<le> length log"
  by (induction log rule: log_kvs.induct) (force split: if_splits)+

lemma log_etcd_ok: "etcd_ok log_etcd"
proof -
  have "current log_etcd = log_current" by (intro ext) (simp add: current_def log_current_def log_etcd_def)
  moreover have "wrote log_etcd k v log ((k, Some v) # log)" for k v log by (simp add: wrote_def log_etcd_def)
  ultimately show ?thesis unfolding etcd_ok_def
    by (intro conjI allI impI) (simp_all add: log_etcd_def log_serve_gets log_revisions wrote_def Let_def)
qed

section \<open>Updates are atomic\<close>

text \<open>Other clients that store entries.\<close>

definition others_put :: "'b etcd \<Rightarrow> (bytes \<times> bytes) list \<Rightarrow> 'b \<Rightarrow> 'b" where
  "others_put et = fold (\<lambda>(k, v) b. snd (et_Put et k v b))"

definition accepted :: "'b etcd \<Rightarrow> (bytes \<times> bytes) list \<Rightarrow> bool" where
  "accepted et ws \<longleftrightarrow> list_all (\<lambda>(k, v). et_accepts et k v \<and> v \<noteq> []) ws"

lemma others_put_append: "others_put et (ws @ vs) b = others_put et vs (others_put et ws b)"
  by (simp add: others_put_def)

lemma others_put_step:
  assumes "etcd_ok et" "accepted et ((k, v) # ws)"
  obtains b' where "wrote et k v b b'" "others_put et ((k, v) # ws) b = others_put et ws b'" "v \<noteq> []" "accepted et ws"
proof -
  have "et_accepts et k v" "v \<noteq> []" "accepted et ws" using assms(2) by (simp_all add: accepted_def)
  moreover from etcd_Put [OF assms(1) this(1)] obtain b' where "et_Put et k v b = (Ok (), b')" "wrote et k v b b'" by blast
  ultimately show thesis using that by (simp add: others_put_def)
qed

text \<open>A write by another client shows: the entry is then at a revision that the store did not have before.\<close>

lemma others_put_entry:
  assumes "etcd_ok et" "accepted et ws"
  shows "et_revision et b \<le> et_revision et (others_put et ws b) \<and>
    (if key \<in> fst ` set ws then \<exists>kv. et_kvs et (others_put et ws b) key = Some kv \<and> kv_Value kv \<noteq> [] \<and> et_revision et b < kv_ModRevision kv
     else et_kvs et (others_put et ws b) key = et_kvs et b key)"
  using assms(2)
proof (induction ws arbitrary: b)
  case (Cons w ws)
  obtain k v where w: "w = (k, v)" by fastforce
  with Cons.prems obtain b' where b': "wrote et k v b b'" "others_put et (w # ws) b = others_put et ws b'" "v \<noteq> []" "accepted et ws"
    using others_put_step [OF assms(1), of k v ws] by metis
  show ?case using Cons.IH [OF b'(4), of b'] b'(1,3) w unfolding b'(2)
    by (cases "key \<in> fst ` set ws") (auto simp: wrote_def)
qed (simp add: others_put_def)

definition present :: "'b etcd \<Rightarrow> 'b \<Rightarrow> bytes \<Rightarrow> bool" where
  "present et b key \<longleftrightarrow> (\<exists>kv. et_kvs et b key = Some kv \<and> kv_Value kv \<noteq> [])"

lemma others_put_present: "etcd_ok et \<Longrightarrow> accepted et ws \<Longrightarrow> present et b key \<Longrightarrow> present et (others_put et ws b) key"
  using others_put_entry [of et ws b key] by (auto simp: present_def split: if_splits)

lemma others_put_changed:
  assumes "etcd_ok et" "accepted et ws" "et_kvs et b key = Some kv"
  shows "ModRevision (et_kvs et (others_put et ws b)) key = kv_ModRevision kv \<longleftrightarrow> key \<notin> fst ` set ws"
  using others_put_entry [OF assms(1,2), of b key] etcd_revision [OF assms(1,3)] assms(3)
  by (auto simp: ModRevision_def split: if_splits)

lemma etcd_attempts_end:
  assumes et: "etcd_ok et" "\<And>v. et_accepts et key (f v)" "\<And>i. accepted et (writes i)"
    and cb: "\<And>v b i. cb v (b, i) = (Ok (f v), others_put et (writes i) b, Suc i)" and quiet: "key \<notin> fst ` set (writes (i + n))"
    and b: "present et b key" "up_to_date et key b s"
  shows "\<exists>j \<le> n. \<exists>v b' resp. etcd_attempts et key cb (s, b, i) = Some (Ok resp, b', Suc (i + j)) \<and> tr_Succeeded resp \<and>
    (let b1 = others_put et (concat (map writes [i..<Suc (i + j)])) b in etcd_stored et b1 key = Some v \<and> wrote et key (f v) b1 b')"
  using quiet b
proof (induction n arbitrary: i b s)
  case n: (0 i b s)
  obtain kv where kv: "et_kvs et b key = Some kv" "kv_Value kv \<noteq> []" using n(2) by (auto simp: present_def)
  have "ModRevision (et_kvs et (others_put et (writes i) b)) key = kv_ModRevision kv" using n(1) others_put_changed [OF et(1,3) kv(1)] by simp
  from attempt_commits [where cb = cb, OF et(1,2) n(3) kv cb this] others_put_entry [OF et(1,3), of b i key] n(1) kv show ?case
    by (auto simp: etcd_stored_def)
next
  case n: (Suc n i b s)
  obtain kv where kv: "et_kvs et b key = Some kv" "kv_Value kv \<noteq> []" using n(3) by (auto simp: present_def)
  show ?case
  proof (cases "key \<in> fst ` set (writes i)")
    case True
    with others_put_changed [OF et(1,3) kv(1)] have "ModRevision (et_kvs et (others_put et (writes i) b)) key \<noteq> kv_ModRevision kv" by simp
    from attempt_retries [where cb = cb, OF et(1) etcd_key [OF et(1,2)] n(4) kv cb this] obtain s' where
      s': "up_to_date et key (others_put et (writes i) b) s'"
        "etcd_attempts et key cb (s, b, i) = etcd_attempts et key cb (s', others_put et (writes i) b, Suc i)" by blast
    have run: "others_put et (concat (map writes [Suc i..<Suc (Suc i + j)])) (others_put et (writes i) b) =
        others_put et (concat (map writes [i..<Suc (i + Suc j)])) b" for j
      by (simp add: upt_conv_Cons others_put_append del: upt_Suc)
    have "key \<notin> fst ` set (writes (Suc i + n))" using n(2) by simp
    from n(1) [OF this others_put_present [OF et(1,3) n(3)] s'(1)] obtain j where "j \<le> n" "\<exists>v b' resp.
        etcd_attempts et key cb (s', others_put et (writes i) b, Suc i) = Some (Ok resp, b', Suc (Suc i + j)) \<and> tr_Succeeded resp \<and>
        (let b1 = others_put et (concat (map writes [i..<Suc (i + Suc j)])) b in etcd_stored et b1 key = Some v \<and> wrote et key (f v) b1 b')"
      unfolding run by blast
    then show ?thesis unfolding s'(2) by (intro exI [of _ "Suc j"]) simp
  next
    case False
    with others_put_changed [OF et(1,3) kv(1)] have "ModRevision (et_kvs et (others_put et (writes i) b)) key = kv_ModRevision kv" by simp
    from attempt_commits [where cb = cb, OF et(1,2) n(4) kv cb this] others_put_entry [OF et(1,3), of b i key] False kv show ?thesis
      by (intro exI [of _ 0]) (auto simp: etcd_stored_def)
  qed
qed

text \<open>
  C9.  \<open>Update\<close> on etcd loses no write of another client.  Other clients store entries, of this key or of
  others, while the callback computes the new value from the old one.  The update returns as soon as
  the key is left alone during one attempt, and then it has the effect of reading the entry,
  computing and writing in one step on the store as the others left it.
\<close>

theorem etcd_update_atomic:
  assumes et: "etcd_ok et" "\<And>v. et_accepts et key (f v)" "\<And>i. accepted et (writes i)"
    and cb: "\<And>v b i. cb v (b, i) = (Ok (f v), others_put et (writes i) b, Suc i)"
    and quiet: "key \<notin> fst ` set (writes m)" and stored: "etcd_stored et b key = Some old" "old \<noteq> []"
  shows "\<exists>j \<le> m. \<exists>v b'. etcd_Update et key cb (b, 0) = Some (Ok (), b', Suc j) \<and>
    (let b1 = others_put et (concat (map writes [0..<Suc j])) b in
     etcd_stored et b1 key = Some v \<and> etcd_stored et b' = (etcd_stored et b1)(key \<mapsto> f v))"
proof -
  have "key \<notin> fst ` set (writes (0 + m))" "present et b key" using quiet stored by (auto simp: present_def etcd_stored_def)
  from etcd_attempts_end [where cb = cb, OF et cb this up_to_date_start] obtain j v b' resp where j: "j \<le> m"
      "etcd_attempts et key cb (\<lparr>rset = [], wset = [], prefetch = []\<rparr>, b, 0) = Some (Ok resp, b', Suc j)" "tr_Succeeded resp"
      "let b1 = others_put et (concat (map writes [0..<Suc j])) b in etcd_stored et b1 key = Some v \<and> wrote et key (f v) b1 b'"
    by (auto simp del: upt_Suc)
  from j(2,3) have "etcd_Update et key cb (b, 0) = Some (Ok (), b', Suc j)" by (simp add: etcd_Update_def NewSTM_def)
  with j(1,4) wrote_stored show ?thesis by (fastforce simp: Let_def simp del: upt_Suc)
qed

theorem etcd_update_atomic_witness:
  "\<exists>b' n. etcd_Update log_etcd [7] (\<lambda>v (b, i). (Ok (v @ [1]), others_put log_etcd (if i = 0 then [([7], [5])] else []) b, Suc i)) ([([7], Some [3])], 0)
     = Some (Ok () :: (unit meta_error, unit) result, b', n) \<and> etcd_stored log_etcd b' [7] = Some [5, 1]"
proof -
  let ?w = "\<lambda>i :: nat. if i = 0 then [([7], [5])] else [] :: (bytes \<times> bytes) list"
  let ?cb = "\<lambda>v (b, i). (Ok (v @ [1]) :: (unit meta_error, bytes) result, others_put log_etcd (?w i) b, Suc i)"
  have acc: "et_accepts log_etcd k v \<longleftrightarrow> k \<noteq> []" for k v by (simp add: log_etcd_def)
  have "\<exists>j \<le> 1. \<exists>v b'. etcd_Update log_etcd [7] ?cb ([([7], Some [3])], 0) = Some (Ok (), b', Suc j) \<and>
    (let b1 = others_put log_etcd (concat (map ?w [0..<Suc j])) [([7], Some [3])] in
     etcd_stored log_etcd b1 [7] = Some v \<and> etcd_stored log_etcd b' = (etcd_stored log_etcd b1)([7] \<mapsto> v @ [1]))"
    by (rule etcd_update_atomic [where writes = ?w and old = "[3]", OF log_etcd_ok])
      (simp_all add: acc accepted_def, simp add: etcd_stored_def log_etcd_def)
  then obtain j v b' where j: "j \<le> 1" and run: "etcd_Update log_etcd [7] ?cb ([([7], Some [3])], 0) = Some (Ok (), b', Suc j)"
    and v: "etcd_stored log_etcd (others_put log_etcd (concat (map ?w [0..<Suc j])) [([7], Some [3])]) [7] = Some v"
    and b': "etcd_stored log_etcd b' [7] = Some (v @ [1])" by (auto simp: Let_def simp del: upt_Suc)
  have "concat (map ?w [0..<Suc j]) = [([7], [5])]" using j by (cases j) auto
  from v [unfolded this] have "v = [5]" by (simp add: others_put_def etcd_stored_def log_etcd_def)
  then show ?thesis using run b' by auto
qed

section \<open>The metadata client on etcd\<close>

text \<open>The servers take what the client makes of the metadata, which is never empty.\<close>

definition takes :: "'b etcd \<Rightarrow> ('b, 'x, 'e) metastor_Client \<Rightarrow> bytes \<Rightarrow> Metadata \<Rightarrow> bool" where
  "takes et c key md \<longleftrightarrow> (\<forall>rand b rand'. mc_encode c md rand = (Ok b, rand') \<longrightarrow> et_accepts et key b \<and> b \<noteq> [])"

lemma takes_fitting: "etcd_ok et \<Longrightarrow> takes et c key md \<longleftrightarrow> etc.fitting et c key md"
  by (simp add: takes_def etc.fitting_def etcd_fits_def)

text \<open>
  C10.  The client of the metadata store is a map from keys to metadata on etcd as well: setting, updating
  and deleting metadata change what can be got under the key, and under no other key.
\<close>

theorem etcd_metadata_refines_map:
  fixes et :: "'b etcd" and c :: "('b, 'y meta_world_scheme, 'e) metastor_Client"
  assumes c: "configured_metastor_on (etcd_ops et) pb lib cfg = Ok c" "pb_ok pb" "codecs_ok lib" "\<forall>c x. \<exists>y. compress lib c x = Ok y"
      "\<forall>cc ec. cfg = Some (cc, ec) \<longrightarrow> (\<exists>p m. NewProcessorConstructor cc ec [] = (Ok p, m))"
    and et: "etcd_ok et" "takes et c key md" "takes et c key (f md)" and x: "12 \<le> length (mw_rand x)"
    and entry: "\<And>b. etcd_stored et s key = Some b \<Longrightarrow> et_accepts et key b \<and> b \<noteq> []"
  shows "(md_Key md = key \<longrightarrow> key \<noteq> [] \<and> (\<exists>s' x'. SetMetadata c md (s, x) = (Ok (), s', x') \<and>
      (\<forall>k b. et_accepts et k b \<and> b \<noteq> [] \<longrightarrow> metadata_of c s' k = ((metadata_of c s)(key \<mapsto> normal md)) k))) \<and>
    (\<exists>s'. DeleteMetadata c key s = (Ok (), s') \<and>
      (\<forall>k b. et_accepts et k b \<and> b \<noteq> [] \<longrightarrow> metadata_of c s' k = ((metadata_of c s)(key := None)) k)) \<and>
    (metadata_of c s key = Some md \<longrightarrow>
      (\<exists>s' x'. UpdateMetadata c key (\<lambda>md st. (Ok (f md), st)) (s, x) = Some (Ok (f md), s', x') \<and>
        (\<forall>k b. et_accepts et k b \<and> b \<noteq> [] \<longrightarrow> metadata_of c s' k = ((metadata_of c s)(key \<mapsto> normal (f md))) k)))"
proof -
  from configured_codec_ok [OF c] have ok: "mc_db c = etcd_ops et" "codec_ok 12 c" by auto
  obtain b rand' where "mc_encode c md (mw_rand x) = (Ok b, rand')" using codec_okD [OF ok(2) x] by metis
  with et(2) have fits: "etcd_fits et key b" using et(1) by (auto simp: takes_def etcd_fits_def)
  then have key: "key \<noteq> []" using etcd_key by (auto simp: etcd_fits_def)
  have all: "(\<forall>k b. et_accepts et k b \<and> b \<noteq> [] \<longrightarrow> P k) \<longleftrightarrow> (\<forall>k b. k \<noteq> [] \<longrightarrow> etcd_fits et k b \<longrightarrow> P k)" for P
    using et(1) etcd_key [OF et(1)] by (auto simp: etcd_fits_def)
  have stored: "\<forall>b. etcd_stored et s key = Some b \<longrightarrow> etcd_fits et key b" using entry et(1) by (simp add: etcd_fits_def)
  note map = etm.client_is_map [where s = s, OF ok x key fits]
  show ?thesis
    using key map(1) [of md] map(2) map(3) [OF _ _ stored, of md f] et(2,3) unfolding all takes_fitting [OF et(1)] by blast
qed

theorem etcd_metadata_refines_map_witness:
  "\<exists>c s x. (configured_metastor_on (etcd_ops log_etcd) demo_pb demo_codecs None :: (string, (etcd_log, meta_world, unit) metastor_Client) result) = Ok c \<and>
     SetMetadata c (new_Metadata\<lparr>md_Key := [7]\<rparr>) ([], \<lparr>mw_rand = replicate 12 0, mw_metadata = new_Metadata\<rparr>) = (Ok (), s, x) \<and>
     metadata_of c s [7] = Some (new_Metadata\<lparr>md_Key := [7]\<rparr>) \<and> metadata_of c s [9] = None"
proof -
  let ?md = "new_Metadata\<lparr>md_Key := [7]\<rparr>" and ?x = "\<lparr>mw_rand = replicate 12 0, mw_metadata = new_Metadata\<rparr>"
  obtain c where c: "(configured_metastor_on (etcd_ops log_etcd) demo_pb demo_codecs None :: (string, (etcd_log, meta_world, unit) metastor_Client) result) = Ok c"
      "takes log_etcd c [7] md" "mc_db c = etcd_ops log_etcd" for md
    by (auto simp: configured_metastor_on_def metastor_NewClient_def takes_def MarshalMetadata_def demo_pb_def log_etcd_def)
  have lib: "\<forall>c x. \<exists>y. compress demo_codecs c x = Ok y" by (simp add: demo_codecs_def)
  have none: "etcd_stored log_etcd [] k = None" for k by (simp add: etcd_stored_def log_etcd_def)
  have "\<exists>s' x'. SetMetadata c ?md ([], ?x) = (Ok (), s', x') \<and>
      (\<forall>k b. et_accepts log_etcd k b \<and> b \<noteq> [] \<longrightarrow> metadata_of c s' k = ((metadata_of c [])([7] \<mapsto> normal ?md)) k)"
    using etcd_metadata_refines_map [OF c(1) demo_pb_ok demo_codecs_ok lib _ log_etcd_ok c(2,2), of ?x "[]" ?md "\<lambda>md. md", THEN conjunct1] none by simp
  then obtain s x where set: "SetMetadata c ?md ([], ?x) = (Ok (), s, x)"
    and all: "\<forall>k b. et_accepts log_etcd k b \<and> b \<noteq> [] \<longrightarrow> metadata_of c s k = ((metadata_of c [])([7] \<mapsto> normal ?md)) k" by blast
  have got: "metadata_of c s k = ((metadata_of c [])([7] \<mapsto> normal ?md)) k" if "k \<noteq> []" for k
    using that by (intro all [rule_format, of k "[0]"]) (simp add: log_etcd_def)
  have "metadata_of c [] [9] = None"
    by (simp add: metadata_of_def GetMetadata_def c(3) etcd_ops_def etcd_Get_def log_etcd_def log_current_def)
  moreover have "normal ?md = ?md" by (simp add: normal_def absent_def new_Metadata_def)
  ultimately show ?thesis using c(1) set got [of "[7]"] got [of "[9]"] by auto
qed

section \<open>The deadline of an operation\<close>

lemma expired_not_status:
  assumes "et_expired et b"
  shows "mapETCDError (etcd_toErr et b err) \<noteq> MetaTimeout"
  using assms by (auto simp: mapETCDError_def etcd_toErr_def split: etcd_error.splits option.splits if_splits)

text \<open>
  \<open>ErrTimeout\<close> is meant for a database that timed out, but an operation whose deadline of thirty
  seconds has passed never returns it: the etcd client replaces the status by the error of the context,
  which becomes an internal error.
\<close>

lemma etcd_deadline_is_internal:
  "(et_expired et (snd (etcd_Set et key metadata b :: ('e meta_error, unit) result \<times> 'b)) \<longrightarrow> fst (etcd_Set et key metadata b) \<noteq> (Err MetaTimeout :: ('e meta_error, unit) result)) \<and>
   (et_expired et b \<longrightarrow> etcd_Get et key b \<noteq> (Err MetaTimeout :: ('e meta_error, bytes) result)) \<and>
   (et_expired et (snd (etcd_Delete et key b :: ('e meta_error, unit) result \<times> 'b)) \<longrightarrow> fst (etcd_Delete et key b) \<noteq> (Err MetaTimeout :: ('e meta_error, unit) result)) \<and>
   (et_Put et key metadata b = (Err (EtcdStatus \<lparr>st_code = DeadlineExceeded, st_desc = d\<rparr>), b') \<longrightarrow> et_expired et b' \<longrightarrow>
    et_known et d = None \<longrightarrow> et_known et ''context deadline exceeded'' = None \<longrightarrow>
    etcd_Set et key metadata b = (Err (InternalError ''ETCD'' (Some ''context deadline exceeded'')) :: ('e meta_error, unit) result, b'))"
proof (intro conjI impI)
  have no: "omap_err mapETCDError (converted et (converted et call) b) \<noteq> (Err MetaTimeout :: ('e meta_error, unit) result, b')"
    if "et_expired et b'" for call b b'
    using expired_not_status [OF that, where 'b = 'e] by (cases "call b"; cases "fst (call b)") (auto simp: converted_def)
  show "fst (etcd_Set et key metadata b) \<noteq> (Err MetaTimeout :: ('e meta_error, unit) result)"
    if "et_expired et (snd (etcd_Set et key metadata b :: ('e meta_error, unit) result \<times> 'b))"
    using no [OF that] unfolding etcd_Set_def by (metis prod.collapse)
  show "fst (etcd_Delete et key b) \<noteq> (Err MetaTimeout :: ('e meta_error, unit) result)"
    if "et_expired et (snd (etcd_Delete et key b :: ('e meta_error, unit) result \<times> 'b))"
    using no [OF that] unfolding etcd_Delete_def by (metis prod.collapse)
  show "etcd_Get et key b \<noteq> (Err MetaTimeout :: ('e meta_error, bytes) result)" if "et_expired et b"
    using expired_not_status [OF that, where 'b = 'e] by (cases "et_Range et key b") (auto simp: etcd_Get_def)
qed (simp add: etcd_Set_def converted_def etcd_toErr_def mapETCDError_def etcd_databaseType_def)

lemma etcd_deadline_is_internal_witness:
  "etcd_Set (log_etcd\<lparr>et_Put := (\<lambda>_ _ log. (Err (EtcdStatus \<lparr>st_code = DeadlineExceeded, st_desc = ''late''\<rparr>), log)), et_expired := (\<lambda>_. True)\<rparr>) [7] [3] [] =
     (Err (InternalError ''ETCD'' (Some ''context deadline exceeded'')) :: (unit meta_error, unit) result, [])"
  by (rule etcd_deadline_is_internal [THEN conjunct2, THEN conjunct2, THEN conjunct2, rule_format]) (simp_all add: log_etcd_def)

end
