(* ===== verification/Iyo_Client.thy ===== *)
theory Iyo_Client
  imports Server_Auth
begin

text \<open>
  The client of the identity service itsyou.online: \<open>client/itsyouonline/permission.go\<close> and
  \<open>client/itsyouonline/itsyouonline.go\<close>.  A namespace is a sub-organization there, and so is each
  permission on it; tokens are requested with the scopes that the zstordb servers expect.

  The generated HTTP client of the service is an argument, with the service's state.  A call of it
  returns a value, or an error with the status code of the response; there is no response when the
  request could not be made, and the source then dereferences a nil pointer.
\<close>

section \<open>Permissions (permission.go)\<close>

record Permission =
  perm_Read :: bool
  perm_Write :: bool
  perm_Delete :: bool
  perm_Admin :: bool

definition perms :: "Permission \<Rightarrow> string list" where
  "perms p = (if perm_Read p then [''read''] else []) @ (if perm_Write p then [''write''] else []) @
     (if perm_Delete p then [''delete''] else []) @ (if perm_Admin p then [''admin''] else [])"

definition Scopes :: "Permission \<Rightarrow> string \<Rightarrow> string \<Rightarrow> string list" where
  "Scopes p org namespace =
     (let scopePrefix = ''user:memberof:'' @ org @ ''.'' @ namespace @ ''.'' in
      map (\<lambda>p. if p = ''admin'' then take (length scopePrefix - 1) scopePrefix else scopePrefix @ p) (perms p))"

section \<open>The service\<close>

type_synonym 'i api_call = "('i, string \<times> nat option, unit) op"

record 'i iyo_api =
  iyo_Login :: "string \<Rightarrow> string \<Rightarrow> ('i, string, unit) op"
  iyo_CreateNewSubOrganization :: "string \<Rightarrow> string \<Rightarrow> 'i api_call"
  iyo_GetOrganization :: "string \<Rightarrow> 'i api_call"
  iyo_CreateNewOrganization :: "string \<Rightarrow> 'i api_call"
  iyo_DeleteOrganization :: "string \<Rightarrow> ('i, string \<times> nat option, nat) op"
  iyo_AddOrganizationMember :: "string \<Rightarrow> string \<Rightarrow> ('i, string \<times> nat option, nat) op"
  iyo_RemoveOrganizationMember :: "string \<Rightarrow> string \<Rightarrow> ('i, string \<times> nat option, nat) op"
  iyo_GetOrganizationUsers :: "string \<Rightarrow> ('i, string \<times> nat option, string list \<times> nat) op"
  iyo_AccessToken :: "(string \<times> string) list \<Rightarrow> ('i, string, nat \<times> (string, string) result) op"

datatype iyo_error =
    IyoMissing string | ErrNoScopes | ErrForbidden | LoginFailed string | RequestFailed string
  | TokenStatus nat | StatusError string nat | CallFailed string string | CallStatus string nat

section \<open>The client (itsyouonline.go)\<close>

record iyo_Config =
  Organization :: string
  ApplicationID :: string
  ApplicationSecret :: string

definition iyo_NewClient :: "iyo_Config \<Rightarrow> (iyo_error, iyo_Config) result" where
  "iyo_NewClient cfg =
     (if Organization cfg = [] then Err (IyoMissing ''organization'')
      else if ApplicationID cfg = [] then Err (IyoMissing ''application ID'')
      else if ApplicationSecret cfg = [] then Err (IyoMissing ''application Secret'')
      else Ok cfg)"

text \<open>The query of the request, whose parameters are encoded in the order of their names.\<close>

definition CreateJWT :: "'i iyo_api \<Rightarrow> iyo_Config \<Rightarrow> string \<Rightarrow> Permission \<Rightarrow> ('i, iyo_error, string) op" where
  "CreateJWT api cfg namespace perm i =
     (let scopes = Scopes perm (Organization cfg) (''0stor'' @ ''.'' @ namespace) in
      if scopes = [] then (Err ErrNoScopes, i)
      else
        let qp = [(''client_id'', ApplicationID cfg), (''client_secret'', ApplicationSecret cfg), (''grant_type'', ''client_credentials''),
            (''response_type'', ''id_token''), (''scope'', Join '','' scopes), (''validity'', ''300'')] in
        obind (omap_err RequestFailed (iyo_AccessToken api qp i)) (\<lambda>(status, body) i.
          if status \<noteq> 200 then (Err (TokenStatus status), i)
          else (map_err RequestFailed body, i)))"

definition login :: "'i iyo_api \<Rightarrow> iyo_Config \<Rightarrow> ('i, iyo_error, unit) op" where
  "login api cfg i = omap_err LoginFailed (iyo_Login api (ApplicationID cfg) (ApplicationSecret cfg) i)"

definition createNamespaceID :: "iyo_Config \<Rightarrow> string \<Rightarrow> string" where
  "createNamespaceID cfg namespace = Organization cfg @ ''.'' @ ''0stor'' @ ''.'' @ namespace"

text \<open>An error of the generated client whose response is used.\<close>

fun with_response :: "(string \<Rightarrow> nat \<Rightarrow> 'e) \<Rightarrow> (string \<times> nat option, 'a) result \<times> 'i \<Rightarrow> ('e, 'a) result \<times> 'i" where
  "with_response f (Ok a, i) = (Ok a, i)"
| "with_response f (Err (e, Some code), i) = (Err (f e code), i)"
| "with_response f (Err (e, None), i) = (Panic, i)"
| "with_response f (Panic, i) = (Panic, i)"

definition createSubOrganization :: "'i iyo_api \<Rightarrow> string \<Rightarrow> string \<Rightarrow> ('i, string \<times> nat, unit) op" where
  "createSubOrganization api org suborg i =
     (let body = org @ ''.'' @ suborg in
      with_response (\<lambda>e code. if code = 409 then (''sub organization '' @ body @ '' exists: '' @ e, code) else (e, code))
        (iyo_CreateNewSubOrganization api org body i))"

fun create_all :: "'i iyo_api \<Rightarrow> string \<Rightarrow> string list \<Rightarrow> ('i, iyo_error, unit) op" where
  "create_all api org [] i = (Ok (), i)"
| "create_all api org (p # ps) i =
     obind (omap_err (\<lambda>(e, code). StatusError e code) (createSubOrganization api org p i)) (\<lambda>_ i. create_all api org ps i)"

text \<open>
  \<open>CreateNamespace\<close>.  When the first sub-organization cannot be created, for a reason other than that
  it exists or is forbidden, the function returns \<open>err\<close>, which is nil there: it reports success.
\<close>

definition CreateNamespace :: "'i iyo_api \<Rightarrow> iyo_Config \<Rightarrow> string \<Rightarrow> ('i, iyo_error, unit) op" where
  "CreateNamespace api cfg namespace i =
     obind (login api cfg i) (\<lambda>_ i.
       let org = Organization cfg;
           rest = (\<lambda>i. obind (create_all api (org @ ''.0stor'') [namespace] i) (\<lambda>_ i.
             create_all api (org @ ''.0stor'' @ ''.'' @ namespace)
               (perms \<lparr>perm_Read = True, perm_Write = True, perm_Delete = True, perm_Admin = False\<rparr>) i)) in
       (case createSubOrganization api org ''0stor'' i of
          (Ok _, i) \<Rightarrow> rest i
        | (Panic, i) \<Rightarrow> (Panic, i)
        | (Err (e, code), i) \<Rightarrow>
            if code = 409 then rest i
            else if code \<noteq> 403 then (Ok (), i)
            else
              (case iyo_GetOrganization api org i of
                 (Ok _, i) \<Rightarrow> (Err (StatusError e code), i)
               | (Panic, i) \<Rightarrow> (Panic, i)
               | (Err (e', None), i) \<Rightarrow> (Panic, i)
               | (Err (e', Some code'), i) \<Rightarrow>
                   if code' \<noteq> 403 then (Err (CallStatus ''GetOrganization'' code'), i)
                   else
                     (case iyo_CreateNewOrganization api org i of
                        (Panic, i) \<Rightarrow> (Panic, i)
                      | (Err (e'', None), i) \<Rightarrow> (Panic, i)
                      | (Err (e'', Some code''), i) \<Rightarrow>
                          if code'' \<noteq> 409 then (Err (CallStatus ''CreateNewOrganization'' code''), i)
                          else obind (create_all api org [''0stor''] i) (\<lambda>_ i. rest i)
                      | (Ok _, i) \<Rightarrow> obind (create_all api org [''0stor''] i) (\<lambda>_ i. rest i)))))"

definition DeleteNamespace :: "'i iyo_api \<Rightarrow> iyo_Config \<Rightarrow> string \<Rightarrow> ('i, iyo_error, unit) op" where
  "DeleteNamespace api cfg namespace i =
     obind (login api cfg i) (\<lambda>_ i.
     obind (with_response CallStatus (iyo_DeleteOrganization api (createNamespaceID cfg namespace) i)) (\<lambda>status i.
       if status = 403 then (Err ErrForbidden, i) else (Ok (), i)))"

text \<open>The organization whose members have a permission.\<close>

definition permission_org :: "iyo_Config \<Rightarrow> string \<Rightarrow> string \<Rightarrow> string" where
  "permission_org cfg namespace perm =
     (if perm = ''admin'' then createNamespaceID cfg namespace else createNamespaceID cfg namespace @ ''.'' @ perm)"

fun give_all :: "'i iyo_api \<Rightarrow> iyo_Config \<Rightarrow> string \<Rightarrow> string \<Rightarrow> string list \<Rightarrow> ('i, iyo_error, unit) op" where
  "give_all api cfg namespace userID [] i = (Ok (), i)"
| "give_all api cfg namespace userID (perm # ps) i =
     obind (with_response CallStatus (iyo_AddOrganizationMember api (permission_org cfg namespace perm) userID i)) (\<lambda>status i.
       if status \<noteq> 201 then (Err (CallStatus ''AddOrganizationMember'' status), i)
       else give_all api cfg namespace userID ps i)"

definition GivePermission :: "'i iyo_api \<Rightarrow> iyo_Config \<Rightarrow> string \<Rightarrow> string \<Rightarrow> Permission \<Rightarrow> ('i, iyo_error, unit) op" where
  "GivePermission api cfg namespace userID perm i =
     obind (login api cfg i) (\<lambda>_ i. give_all api cfg namespace userID (perms perm) i)"

fun remove_all :: "'i iyo_api \<Rightarrow> iyo_Config \<Rightarrow> string \<Rightarrow> string \<Rightarrow> string list \<Rightarrow> ('i, iyo_error, unit) op" where
  "remove_all api cfg namespace userID [] i = (Ok (), i)"
| "remove_all api cfg namespace userID (perm # ps) i =
     obind (with_response CallStatus (iyo_RemoveOrganizationMember api userID (permission_org cfg namespace perm) i)) (\<lambda>_ i.
       remove_all api cfg namespace userID ps i)"

definition RemovePermission :: "'i iyo_api \<Rightarrow> iyo_Config \<Rightarrow> string \<Rightarrow> string \<Rightarrow> Permission \<Rightarrow> ('i, iyo_error, unit) op" where
  "RemovePermission api cfg namespace userID perm i =
     obind (login api cfg i) (\<lambda>_ i. remove_all api cfg namespace userID (perms perm) i)"

fun isMember :: "string \<Rightarrow> string list \<Rightarrow> bool" where
  "isMember target [] = False"
| "isMember target (v # vs) = (if target = v then True else isMember target vs)"

definition has_permission :: "'i iyo_api \<Rightarrow> iyo_Config \<Rightarrow> string \<Rightarrow> string \<Rightarrow> string \<Rightarrow> ('i, iyo_error, bool) op" where
  "has_permission api cfg namespace userID perm i =
     obind (omap_err (\<lambda>(e, _). CallFailed ''GetOrganizationUsers'' e) (iyo_GetOrganizationUsers api (permission_org cfg namespace perm) i)) (\<lambda>(users, status) i.
       if status \<noteq> 200 then (Err (CallStatus ''GetOrganizationUsers'' status), i)
       else (Ok (isMember userID users), i))"

definition GetPermission :: "'i iyo_api \<Rightarrow> iyo_Config \<Rightarrow> string \<Rightarrow> string \<Rightarrow> ('i, iyo_error, Permission) op" where
  "GetPermission api cfg namespace userID i =
     obind (login api cfg i) (\<lambda>_ i.
     obind (has_permission api cfg namespace userID ''read'' i) (\<lambda>r i.
     obind (has_permission api cfg namespace userID ''write'' i) (\<lambda>w i.
     obind (has_permission api cfg namespace userID ''delete'' i) (\<lambda>d i.
     obind (has_permission api cfg namespace userID ''admin'' i) (\<lambda>a i.
       (Ok \<lparr>perm_Read = r, perm_Write = w, perm_Delete = d, perm_Admin = a\<rparr>, i))))))"

section \<open>Permissions are kept\<close>

text \<open>
  A service that is up and keeps the members of organizations, as \<open>members\<close>: adding answers 201, the
  other requests 200.
\<close>

definition membership_service :: "'i iyo_api \<Rightarrow> ('i \<Rightarrow> (string \<times> string) set) \<Rightarrow> bool" where
  "membership_service api members \<longleftrightarrow>
     (\<forall>app sec i. iyo_Login api app sec i = (Ok (), i)) \<and>
     (\<forall>org u i. \<exists>i'. iyo_AddOrganizationMember api org u i = (Ok 201, i') \<and> members i' = insert (org, u) (members i)) \<and>
     (\<forall>org u i. \<exists>i' st. iyo_RemoveOrganizationMember api u org i = (Ok st, i') \<and> members i' = members i - {(org, u)}) \<and>
     (\<forall>org i. \<exists>us. iyo_GetOrganizationUsers api org i = (Ok (us, 200), i) \<and> set us = {u. (org, u) \<in> members i})"

lemma membership_serviceD:
  assumes "membership_service api members"
  shows "iyo_Login api app sec i = (Ok (), i)"
    "\<exists>i'. iyo_AddOrganizationMember api org u i = (Ok 201, i') \<and> members i' = insert (org, u) (members i)"
    "\<exists>i' st. iyo_RemoveOrganizationMember api u org i = (Ok st, i') \<and> members i' = members i - {(org, u)}"
    "\<exists>us. iyo_GetOrganizationUsers api org i = (Ok (us, 200), i) \<and> set us = {u. (org, u) \<in> members i}"
  using assms by (simp_all add: membership_service_def)

lemma give_all_members:
  assumes "membership_service api members"
  shows "\<exists>i'. give_all api cfg ns u ps i = (Ok (), i') \<and> members i' = members i \<union> (\<lambda>p. (permission_org cfg ns p, u)) ` set ps"
proof (induction ps arbitrary: i)
  case (Cons p ps)
  obtain i1 where i1: "iyo_AddOrganizationMember api (permission_org cfg ns p) u i = (Ok 201, i1)"
    "members i1 = insert (permission_org cfg ns p, u) (members i)"
    using membership_serviceD(2) [OF assms] by metis
  with Cons [of i1] show ?case by auto
qed simp

lemma remove_all_members:
  assumes "membership_service api members"
  shows "\<exists>i'. remove_all api cfg ns u ps i = (Ok (), i') \<and> members i' = members i - (\<lambda>p. (permission_org cfg ns p, u)) ` set ps"
proof (induction ps arbitrary: i)
  case (Cons p ps)
  obtain i1 st where i1: "iyo_RemoveOrganizationMember api u (permission_org cfg ns p) i = (Ok st, i1)"
    "members i1 = members i - {(permission_org cfg ns p, u)}"
    using membership_serviceD(3) [OF assms] by metis
  with Cons [of i1] show ?case by auto
qed simp

lemma isMember_iff: "isMember u us \<longleftrightarrow> u \<in> set us"
  by (induction us) auto

lemma has_permission_members:
  assumes "membership_service api members"
  shows "has_permission api cfg ns u p i = (Ok ((permission_org cfg ns p, u) \<in> members i), i)"
proof -
  obtain us where "iyo_GetOrganizationUsers api (permission_org cfg ns p) i = (Ok (us, 200), i)" "set us = {u. (permission_org cfg ns p, u) \<in> members i}"
    using membership_serviceD(4) [OF assms] by metis
  then show ?thesis by (simp add: has_permission_def isMember_iff omap_err_def)
qed

definition permission_of :: "(string \<times> string) set \<Rightarrow> iyo_Config \<Rightarrow> string \<Rightarrow> string \<Rightarrow> Permission" where
  "permission_of ms cfg ns u = \<lparr>perm_Read = (permission_org cfg ns ''read'', u) \<in> ms, perm_Write = (permission_org cfg ns ''write'', u) \<in> ms,
     perm_Delete = (permission_org cfg ns ''delete'', u) \<in> ms, perm_Admin = (permission_org cfg ns ''admin'', u) \<in> ms\<rparr>"

lemma login_ok: "membership_service api members \<Longrightarrow> login api cfg i = (Ok (), i)"
  by (simp add: login_def membership_serviceD(1) omap_err_def)

lemma GetPermission_members:
  assumes "membership_service api members"
  shows "GetPermission api cfg ns u i = (Ok (permission_of (members i) cfg ns u), i)"
  by (simp add: GetPermission_def login_ok [OF assms] has_permission_members [OF assms] permission_of_def)

abbreviation permission_names :: "string set" where
  "permission_names \<equiv> {''read'', ''write'', ''delete'', ''admin''}"

lemma permission_org_inj: "inj_on (\<lambda>p. (permission_org cfg ns p, u)) permission_names"
  by (auto simp: inj_on_def permission_org_def)

lemma perms_names: "set (perms p) \<subseteq> permission_names"
  by (auto simp: perms_def)

lemma perms_mem [simp]: "''read'' \<in> set (perms p) \<longleftrightarrow> perm_Read p" "''write'' \<in> set (perms p) \<longleftrightarrow> perm_Write p"
  "''delete'' \<in> set (perms p) \<longleftrightarrow> perm_Delete p" "''admin'' \<in> set (perms p) \<longleftrightarrow> perm_Admin p"
  by (simp_all add: perms_def)

lemma permitted_mem [simp]:
  "x \<in> permission_names \<Longrightarrow> (permission_org cfg ns x, u) \<in> (\<lambda>p. (permission_org cfg ns p, u)) ` set (perms p) \<longleftrightarrow> x \<in> set (perms p)"
  by (rule inj_on_image_mem_iff [OF permission_org_inj _ perms_names])

lemma permission_of_change:
  "permission_of (ms \<union> (\<lambda>p. (permission_org cfg ns p, u)) ` set (perms p)) cfg ns u =
     (let old = permission_of ms cfg ns u in
      \<lparr>perm_Read = perm_Read old \<or> perm_Read p, perm_Write = perm_Write old \<or> perm_Write p,
       perm_Delete = perm_Delete old \<or> perm_Delete p, perm_Admin = perm_Admin old \<or> perm_Admin p\<rparr>)"
  "permission_of (ms - (\<lambda>p. (permission_org cfg ns p, u)) ` set (perms p)) cfg ns u =
     (let old = permission_of ms cfg ns u in
      \<lparr>perm_Read = perm_Read old \<and> \<not> perm_Read p, perm_Write = perm_Write old \<and> \<not> perm_Write p,
       perm_Delete = perm_Delete old \<and> \<not> perm_Delete p, perm_Admin = perm_Admin old \<and> \<not> perm_Admin p\<rparr>)"
  by (simp_all only: permission_of_def Let_def Permission.select_convs Un_iff Diff_iff permitted_mem insertI1 insertI2 perms_mem simp_thms)

text \<open>
  Permissions given to a user on a namespace are added to those the user has there, and permissions
  removed are taken away.
\<close>

lemma GivePermission_members:
  assumes api: "membership_service api members"
  shows "\<exists>i'. GivePermission api cfg ns u p i = (Ok (), i') \<and> members i' = members i \<union> (\<lambda>p. (permission_org cfg ns p, u)) ` set (perms p)"
  using give_all_members [OF api, of cfg ns u "perms p" i] login_ok [OF api] by (auto simp: GivePermission_def)

lemma RemovePermission_members:
  assumes api: "membership_service api members"
  shows "\<exists>i'. RemovePermission api cfg ns u p i = (Ok (), i') \<and> members i' = members i - (\<lambda>p. (permission_org cfg ns p, u)) ` set (perms p)"
  using remove_all_members [OF api, of cfg ns u "perms p" i] login_ok [OF api] by (auto simp: RemovePermission_def)

definition demo_iyo :: "(string \<times> string) list iyo_api" where
  "demo_iyo = \<lparr>iyo_Login = (\<lambda>_ _ i. (Ok (), i)), iyo_CreateNewSubOrganization = (\<lambda>_ _ i. (Err (''Internal Server Error'', Some 500), i)),
     iyo_GetOrganization = (\<lambda>_ i. (Ok (), i)), iyo_CreateNewOrganization = (\<lambda>_ i. (Ok (), i)), iyo_DeleteOrganization = (\<lambda>_ i. (Ok 200, i)),
     iyo_AddOrganizationMember = (\<lambda>org u i. (Ok 201, (org, u) # i)), iyo_RemoveOrganizationMember = (\<lambda>u org i. (Ok 200, removeAll (org, u) i)),
     iyo_GetOrganizationUsers = (\<lambda>org i. (Ok (map snd (filter (\<lambda>m. fst m = org) i), 200), i)),
     iyo_AccessToken = (\<lambda>_ i. (Ok (200, Ok ''token''), i))\<rparr>"

definition demo_iyo_config :: iyo_Config where
  "demo_iyo_config = \<lparr>Organization = ''org'', ApplicationID = ''id'', ApplicationSecret = ''secret''\<rparr>"

lemma demo_membership: "membership_service demo_iyo set"
  by (auto simp: membership_service_def demo_iyo_def image_iff)

section \<open>The scopes that servers expect\<close>

lemma Replace1_at:
  assumes "c \<notin> set a"
  shows "Replace1 (a @ (c # old) @ b) (c # old) new = a @ new @ b"
  using assms
proof (induction a)
  case Nil
  show ?case unfolding append_Nil append_Cons by (subst Replace1.simps) simp
next
  case (Cons x a)
  then show ?case by simp
qed

definition permits :: "Permission \<Rightarrow> Method \<Rightarrow> bool" where
  "permits p m = (perm_Admin p \<or> (case m of MethodRead \<Rightarrow> perm_Read p | MethodWrite \<Rightarrow> perm_Write p | MethodDelete \<Rightarrow> perm_Delete p | MethodAdmin \<Rightarrow> False))"

lemma bex_perms: "(\<exists>x\<in>set (perms p). P x) \<longleftrightarrow>
    perm_Read p \<and> P ''read'' \<or> perm_Write p \<and> P ''write'' \<or> perm_Delete p \<and> P ''delete'' \<or> perm_Admin p \<and> P ''admin''"
  by (auto simp: perms_def)

lemma stripped_scopes:
  "map (\<lambda>s. Replace1 s ''user:memberof:'' []) (Scopes p org ns) = map (\<lambda>x. if x = ''admin'' then org @ ''.'' @ ns else org @ ''.'' @ ns @ ''.'' @ x) (perms p)"
  by (simp add: Scopes_def Let_def)

text \<open>
  C26.  What the client asks for is what the servers demand: a token with the scopes of a permission on
  a namespace is accepted for a method on the label of that namespace exactly when the permission
  covers the method or is the administrator's, for organizations without an underscore.
\<close>

theorem requested_scopes_grant:
  assumes org: "CHR ''_'' \<notin> set org" and es: "expectedScopes m (org @ ''_0stor_'' @ ns) = Ok es"
  shows "checkPermissions es (Scopes p org (''0stor'' @ ''.'' @ ns)) \<longleftrightarrow> permits p m"
proof -
  let ?adm = "org @ ''.0stor.'' @ ns"
  have rep: "Replace1 (org @ ''_0stor_'' @ ns) ''_0stor_'' ''.0stor.'' = ?adm" using Replace1_at [OF org, of "''0stor_''" ns "''.0stor.''"] by simp
  have es': "set es = (if m = MethodAdmin then {?adm} else {?adm @ ''.'' @ Method_String m, ?adm})"
    using es unfolding expectedScopes_Ok rep Let_def by auto
  have "checkPermissions es (Scopes p org (''0stor'' @ ''.'' @ ns)) \<longleftrightarrow>
      (\<exists>x\<in>set (map (\<lambda>s. Replace1 s ''user:memberof:'' []) (Scopes p org (''0stor'' @ ''.'' @ ns))). x \<in> set es)"
    by (simp add: checkPermissions_iff)
  also have "\<dots> \<longleftrightarrow> (\<exists>x\<in>set (perms p). (if x = ''admin'' then ?adm else ?adm @ ''.'' @ x) \<in> set es)"
    unfolding stripped_scopes list.set_map bex_simps(7) by simp
  also have "\<dots> \<longleftrightarrow> permits p m"
    unfolding bex_perms es' by (cases m) (simp_all add: permits_def Method_String_simps del: Method_String.simps, blast+)
  finally show ?thesis .
qed

theorem requested_scopes_grant_witness:
  "checkPermissions [''org.0stor.ns.read'', ''org.0stor.ns''] (Scopes \<lparr>perm_Read = True, perm_Write = False, perm_Delete = False, perm_Admin = False\<rparr> ''org'' ''0stor.ns'') \<and>
   \<not> checkPermissions [''org.0stor.ns.write'', ''org.0stor.ns''] (Scopes \<lparr>perm_Read = True, perm_Write = False, perm_Delete = False, perm_Admin = False\<rparr> ''org'' ''0stor.ns'')"
proof -
  let ?p = "\<lparr>perm_Read = True, perm_Write = False, perm_Delete = False, perm_Admin = False\<rparr>"
  have es: "expectedScopes MethodRead (''org'' @ ''_0stor_'' @ ''ns'') = Ok [''org.0stor.ns.read'', ''org.0stor.ns'']"
    "expectedScopes MethodWrite (''org'' @ ''_0stor_'' @ ''ns'') = Ok [''org.0stor.ns.write'', ''org.0stor.ns'']"
    by (simp_all add: expectedScopes_def validateNamespaceLabel_def MethodStrings_def suffix_to_prefix)
  show ?thesis using requested_scopes_grant [OF _ es(1), of ?p] requested_scopes_grant [OF _ es(2), of ?p] by (simp add: permits_def)
qed

section \<open>Errors\<close>

text \<open>A failure of the service when the namespace is created is reported as success, and nothing was created.\<close>

lemma CreateNamespace_hides_failure:
  assumes "iyo_Login api (ApplicationID cfg) (ApplicationSecret cfg) i = (Ok (), i1)"
    and "iyo_CreateNewSubOrganization api (Organization cfg) (Organization cfg @ ''.0stor'') i1 = (Err (e, Some code), i2)" "code \<notin> {409, 403}"
  shows "CreateNamespace api cfg ns i = (Ok (), i2)"
  using assms by (simp add: CreateNamespace_def login_def createSubOrganization_def omap_err_def Let_def)

text \<open>A request that cannot be made panics.\<close>

lemma no_response_panics:
  assumes "iyo_Login api (ApplicationID cfg) (ApplicationSecret cfg) i = (Ok (), i1)"
    and "iyo_DeleteOrganization api (createNamespaceID cfg ns) i1 = (Err (e, None), i2)"
  shows "DeleteNamespace api cfg ns i = (Panic, i2)"
  using assms by (simp add: DeleteNamespace_def login_def omap_err_def)

end
