(* ===== verification/Jwt_Cache.thy ===== *)
theory Jwt_Cache
  imports Iyo_Client Lru_Cache Crc32
begin

text \<open>
  The tokens a client sends with its requests: \<open>client/datastor/jwt.go\<close>.  Tokens come from the
  identity service and are kept in a cache of several buckets, each with a bounded number of
  entries, as long as they are valid for at least half a minute.

  The clock is an argument: the readings that one call makes, in nanoseconds.
\<close>

section \<open>Getters\<close>

datatype token_error =
    NoOrganizationGiven | NoIYOClientGiven | NoNamespaceGiven | IYOError iyo_error | ParseError jwt_error | InvalidJWTToken
  | InvalidExpirationClaim | AboutToExpire | NoGetterGiven | InvalidBucketCount

record 'g JWTTokenGetter =
  jg_GetJWTToken :: "string \<Rightarrow> ('g, token_error, string) op"
  jg_GetLabel :: "string \<Rightarrow> (token_error, string) result"
  jg_GetClaimsFromJWTToken :: "int \<Rightarrow> string \<Rightarrow> (token_error, string \<rightharpoonup> jwt_value) result"

definition iyo_GetJWTToken :: "('i \<Rightarrow> string \<Rightarrow> Permission \<Rightarrow> (iyo_error, string) result \<times> 'i) \<Rightarrow> string \<Rightarrow> ('i, token_error, string) op" where
  "iyo_GetJWTToken client namespace i =
     omap_err IYOError (client i namespace \<lparr>perm_Read = True, perm_Write = True, perm_Delete = True, perm_Admin = True\<rparr>)"

definition iyo_GetLabel :: "string \<Rightarrow> string \<Rightarrow> (token_error, string) result" where
  "iyo_GetLabel pre namespace = (if namespace = [] then Err NoNamespaceGiven else Ok (pre @ namespace))"

definition iyo_GetClaims :: "'k parser \<Rightarrow> 'k \<Rightarrow> int \<Rightarrow> string \<Rightarrow> (token_error, string \<rightharpoonup> jwt_value) result" where
  "iyo_GetClaims parse key now tokenStr =
     (let jwtStr = TrimSpace (TrimPrefix tokenStr ''Bearer'') in
      rbind (map_err ParseError (parse (\<lambda>alg. if alg \<noteq> ''ES384'' then Err (ErrSigningMethod alg) else Ok key) now jwtStr)) (\<lambda>token.
        case tok_Claims token of
          None \<Rightarrow> Err InvalidJWTToken
        | Some claims \<Rightarrow> if \<not> tok_Valid token then Err InvalidJWTToken else Ok claims))"

definition JWTTokenGetterUsingIYOClient ::
  "'k parser \<Rightarrow> 'k \<Rightarrow> string \<Rightarrow> ('i \<Rightarrow> string \<Rightarrow> Permission \<Rightarrow> (iyo_error, string) result \<times> 'i) option \<Rightarrow> (token_error, 'i JWTTokenGetter) result" where
  "JWTTokenGetterUsingIYOClient parse key organization client =
     (if length organization = 0 then Err NoOrganizationGiven
      else (case client of
              None \<Rightarrow> Err NoIYOClientGiven
            | Some cl \<Rightarrow> Ok \<lparr>jg_GetJWTToken = iyo_GetJWTToken cl, jg_GetLabel = iyo_GetLabel (organization @ ''_0stor_''),
                jg_GetClaimsFromJWTToken = iyo_GetClaims parse key\<rparr>))"

section \<open>The cache\<close>

definition DefaultJWTCacheBucketCount :: int where "DefaultJWTCacheBucketCount = 16"
definition DefaultJWTCacheBucketSize :: int where "DefaultJWTCacheBucketSize = 256"
definition jwtTokenCacheMinTTLInSeconds :: int where "jwtTokenCacheMinTTLInSeconds = 30"

record cachedJWTToken =
  ct_Token :: string
  ct_ExpirationTime :: int

type_synonym jwtTokenCacheBucket = "(string, cachedJWTToken) LRU"

definition newJWTTokenCacheBucket :: "int \<Rightarrow> (token_error, jwtTokenCacheBucket) result" where
  "newJWTTokenCacheBucket n = (case NewLRU n of Ok cache \<Rightarrow> Ok cache | _ \<Rightarrow> Panic)"

record JWTTokenGetterCache =
  jc_buckets :: "jwtTokenCacheBucket list"
  jc_bucketCount :: uint32

definition CachedJWTTokenGetter :: "'g JWTTokenGetter option \<Rightarrow> int \<Rightarrow> int \<Rightarrow> (token_error, JWTTokenGetterCache) result" where
  "CachedJWTTokenGetter getter bucketCount bucketSize =
     (if getter = None then Err NoGetterGiven
      else rbind (if bucketCount \<le> 0 then Ok DefaultJWTCacheBucketCount
          else if bucketCount > 2 ^ 32 - 1 then Err InvalidBucketCount else Ok bucketCount) (\<lambda>bucketCount.
        let bucketSize = (if bucketSize \<le> 0 then DefaultJWTCacheBucketSize else bucketSize) in
        rbind (newJWTTokenCacheBucket bucketSize) (\<lambda>bucket.
          Ok \<lparr>jc_buckets = replicate (nat bucketCount) bucket, jc_bucketCount = word_of_int bucketCount\<rparr>)))"

definition remaining :: "int \<Rightarrow> int \<Rightarrow> int" where
  "remaining expires now = expires - now"

definition getExpirationTimeFromJWTToken :: "'g JWTTokenGetter \<Rightarrow> int \<Rightarrow> string \<Rightarrow> (token_error, int) result" where
  "getExpirationTimeFromJWTToken getter now token =
     rbind (jg_GetClaimsFromJWTToken getter now token) (\<lambda>claims.
       case claims ''exp'' of Some (JNumber exp) \<Rightarrow> Ok (exp * second) | _ \<Rightarrow> Err InvalidExpirationClaim)"

text \<open>A token that is new, or replaces one that is about to expire.\<close>

definition fetch_token :: "'g JWTTokenGetter \<Rightarrow> (nat \<Rightarrow> int) \<Rightarrow> string \<Rightarrow> (jwtTokenCacheBucket \<times> 'g, token_error, string) op" where
  "fetch_token getter clock namespace = (\<lambda>(cache, g).
     (case jg_GetJWTToken getter namespace g of
        (Err e, g) \<Rightarrow> (Err e, cache, g)
      | (Panic, g) \<Rightarrow> (Panic, cache, g)
      | (Ok token, g) \<Rightarrow>
          (case getExpirationTimeFromJWTToken getter (clock 1) token of
             Err e \<Rightarrow> (Err e, cache, g)
           | Panic \<Rightarrow> (Panic, cache, g)
           | Ok exp \<Rightarrow>
               if remaining exp (clock 2) < jwtTokenCacheMinTTLInSeconds * second then (Err AboutToExpire, cache, g)
               else (Ok token, snd (lru_Add namespace \<lparr>ct_Token = token, ct_ExpirationTime = exp\<rparr> cache), g))))"

definition bucket_GetJWTToken :: "'g JWTTokenGetter \<Rightarrow> (nat \<Rightarrow> int) \<Rightarrow> string \<Rightarrow> (jwtTokenCacheBucket \<times> 'g, token_error, string) op" where
  "bucket_GetJWTToken getter clock namespace = (\<lambda>(cache, g).
     (case lru_Get namespace cache of
        (Some token, cache) \<Rightarrow>
          if remaining (ct_ExpirationTime token) (clock 0) \<ge> jwtTokenCacheMinTTLInSeconds * second then (Ok (ct_Token token), cache, g)
          else fetch_token getter clock namespace (snd (lru_Remove namespace cache), g)
      | (None, cache) \<Rightarrow> fetch_token getter clock namespace (cache, g)))"

definition token_bucket :: "JWTTokenGetterCache \<Rightarrow> string \<Rightarrow> nat" where
  "token_bucket c namespace = unat (ChecksumIEEE (ascii namespace) mod jc_bucketCount c)"

definition cache_GetJWTToken :: "'g JWTTokenGetter \<Rightarrow> (nat \<Rightarrow> int) \<Rightarrow> string \<Rightarrow> (JWTTokenGetterCache \<times> 'g, token_error, string) op" where
  "cache_GetJWTToken getter clock namespace = (\<lambda>(c, g).
     let index = token_bucket c namespace in
     if length (jc_buckets c) \<le> index then (Panic, c, g)
     else (case bucket_GetJWTToken getter clock namespace (jc_buckets c ! index, g) of
             (r, bucket, g) \<Rightarrow> (r, c\<lparr>jc_buckets := (jc_buckets c)[index := bucket]\<rparr>, g)))"

section \<open>Tokens that come out of the cache\<close>

text \<open>
  \<open>genuine\<close> holds of the tokens that the getter hands out for a namespace, and \<open>expiry\<close> is the time,
  in seconds, that the claims of a token state.
\<close>

definition getter_ok :: "'g JWTTokenGetter \<Rightarrow> (string \<Rightarrow> string \<Rightarrow> bool) \<Rightarrow> (string \<Rightarrow> int) \<Rightarrow> bool" where
  "getter_ok getter genuine expiry \<longleftrightarrow>
     (\<forall>ns g token g'. jg_GetJWTToken getter ns g = (Ok token, g') \<longrightarrow> genuine ns token) \<and>
     (\<forall>now token claims. jg_GetClaimsFromJWTToken getter now token = Ok claims \<longrightarrow>
        (\<forall>n. claims ''exp'' = Some (JNumber n) \<longrightarrow> n = expiry token))"

definition bucket_ok :: "(string \<Rightarrow> string \<Rightarrow> bool) \<Rightarrow> (string \<Rightarrow> int) \<Rightarrow> nat \<Rightarrow> jwtTokenCacheBucket \<Rightarrow> bool" where
  "bucket_ok genuine expiry n cache \<longleftrightarrow> lru_ok cache \<and> lru_size cache = n \<and>
     (\<forall>ns token. lru_Peek ns cache = Some token \<longrightarrow> genuine ns (ct_Token token) \<and> ct_ExpirationTime token = expiry (ct_Token token) * second)"

lemma fetch_token_ok:
  assumes getter: "getter_ok getter genuine expiry" and ok: "bucket_ok genuine expiry n cache"
    and run: "fetch_token getter clock ns (cache, g) = (r, cache', g')"
  shows "bucket_ok genuine expiry n cache' \<and>
    (\<forall>token. r = Ok token \<longrightarrow> genuine ns token \<and> clock 2 + 30 * second \<le> expiry token * second)"
proof -
  obtain got g1 where got: "jg_GetJWTToken getter ns g = (got, g1)" by fastforce
  show ?thesis
  proof (cases "\<exists>token exp. got = Ok token \<and> getExpirationTimeFromJWTToken getter (clock 1) token = Ok exp \<and> 30 * second \<le> remaining exp (clock 2)")
    case True
    then obtain token exp where t: "got = Ok token" "getExpirationTimeFromJWTToken getter (clock 1) token = Ok exp" "30 * second \<le> remaining exp (clock 2)" by blast
    from t(2) obtain claims where cl: "jg_GetClaimsFromJWTToken getter (clock 1) token = Ok claims"
      "(case claims ''exp'' of Some (JNumber exp) \<Rightarrow> Ok (exp * second) | _ \<Rightarrow> Err InvalidExpirationClaim) = Ok exp"
      by (auto simp: getExpirationTimeFromJWTToken_def rbind_eq_Ok)
    then obtain secs where "claims ''exp'' = Some (JNumber secs)" "exp = secs * second" by (auto split: option.splits jwt_value.splits)
    with getter got t(1) cl(1) have gen: "genuine ns token" "exp = expiry token * second" unfolding getter_ok_def by blast+
    obtain out c where add: "lru_Add ns \<lparr>ct_Token = token, ct_ExpirationTime = exp\<rparr> cache = (out, c)" by fastforce
    have c: "lru_ok cache" "lru_size cache = n" using ok by (simp_all add: bucket_ok_def)
    have res: "r = Ok token" "cache' = c" using run got t add by (simp_all add: fetch_token_def jwtTokenCacheMinTTLInSeconds_def)
    have "lru_Peek x c = Some v \<Longrightarrow> x = ns \<and> v = \<lparr>ct_Token = token, ct_ExpirationTime = exp\<rparr> \<or> lru_Peek x cache = Some v" for x v
      using lru.peek_after_add [OF c(1) add] by blast
    then have "bucket_ok genuine expiry n c"
      using lru.add_new [OF c(1) add] ok gen by (fastforce simp: bucket_ok_def)
    then show ?thesis using res gen t(3) by (simp add: remaining_def)
  next
    case False
    then have "cache' = cache" "\<forall>token. r \<noteq> Ok token"
      using run got by (auto simp: fetch_token_def jwtTokenCacheMinTTLInSeconds_def split: result.splits if_splits)
    then show ?thesis using ok by simp
  qed
qed

lemma bucket_GetJWTToken_ok:
  assumes getter: "getter_ok getter genuine expiry" and ok: "bucket_ok genuine expiry n cache"
    and run: "bucket_GetJWTToken getter clock ns (cache, g) = (r, cache', g')" and time: "clock 0 \<le> clock 2"
  shows "bucket_ok genuine expiry n cache' \<and>
    (\<forall>token. r = Ok token \<longrightarrow> genuine ns token \<and> clock 0 + 30 * second \<le> expiry token * second)"
proof -
  obtain found c where get: "lru_Get ns cache = (found, c)" by fastforce
  have l: "lru_ok cache" "lru_size cache = n" using ok by (simp_all add: bucket_ok_def)
  note g1 = lru.get_same [OF l(1) get]
  then have c: "bucket_ok genuine expiry n c" using ok by (simp add: bucket_ok_def)
  obtain b c' where rem: "lru_Remove ns c = (b, c')" by fastforce
  have "lru_ok c" using c by (simp add: bucket_ok_def)
  from lru.remove_gone [OF this rem] have c': "bucket_ok genuine expiry n c'" using c by (auto simp: bucket_ok_def split: if_splits)
  consider (hit) token where "found = Some token" "30 * second \<le> remaining (ct_ExpirationTime token) (clock 0)"
    | (stale) token where "found = Some token" "\<not> 30 * second \<le> remaining (ct_ExpirationTime token) (clock 0)" | (miss) "found = None" by fastforce
  then show ?thesis
  proof cases
    case hit
    with run get have r: "r = Ok (ct_Token token)" "cache' = c" by (simp_all add: bucket_GetJWTToken_def jwtTokenCacheMinTTLInSeconds_def)
    have "lru_Peek ns cache = Some token" using g1 hit(1) by simp
    with ok have "genuine ns (ct_Token token)" "ct_ExpirationTime token = expiry (ct_Token token) * second" by (simp_all add: bucket_ok_def)
    with r c hit(2) show ?thesis by (simp add: remaining_def)
  next
    case stale
    with run get rem have "fetch_token getter clock ns (c', g) = (r, cache', g')" by (simp add: bucket_GetJWTToken_def jwtTokenCacheMinTTLInSeconds_def)
    from fetch_token_ok [OF getter c' this] time show ?thesis by fastforce
  next
    case miss
    with run get have "fetch_token getter clock ns (c, g) = (r, cache', g')" by (simp add: bucket_GetJWTToken_def)
    from fetch_token_ok [OF getter c this] time show ?thesis by fastforce
  qed
qed

text \<open>The states of a cache that a client has used, at times that do not go back.\<close>

inductive token_cache_run :: "'g JWTTokenGetter \<Rightarrow> int \<Rightarrow> int \<Rightarrow> JWTTokenGetterCache \<Rightarrow> 'g \<Rightarrow> bool" for getter bucketCount bucketSize where
  start: "CachedJWTTokenGetter (Some getter) bucketCount bucketSize = Ok c \<Longrightarrow> token_cache_run getter bucketCount bucketSize c g"
| get: "token_cache_run getter bucketCount bucketSize c g \<Longrightarrow> clock 0 \<le> clock 1 \<Longrightarrow> clock 1 \<le> clock 2 \<Longrightarrow>
    token_cache_run getter bucketCount bucketSize (fst (snd (cache_GetJWTToken getter clock ns (c, g)))) (snd (snd (cache_GetJWTToken getter clock ns (c, g))))"

definition bucket_count :: "int \<Rightarrow> nat" where
  "bucket_count n = nat (if n \<le> 0 then DefaultJWTCacheBucketCount else n)"

definition bucket_size :: "int \<Rightarrow> nat" where
  "bucket_size n = nat (if n \<le> 0 then DefaultJWTCacheBucketSize else n)"

definition token_cache_ok :: "(string \<Rightarrow> string \<Rightarrow> bool) \<Rightarrow> (string \<Rightarrow> int) \<Rightarrow> int \<Rightarrow> int \<Rightarrow> JWTTokenGetterCache \<Rightarrow> bool" where
  "token_cache_ok genuine expiry n m c \<longleftrightarrow> length (jc_buckets c) = bucket_count n \<and> unat (jc_bucketCount c) = bucket_count n \<and> 0 < bucket_count n \<and>
     (\<forall>b\<in>set (jc_buckets c). bucket_ok genuine expiry (bucket_size m) b)"

lemma CachedJWTTokenGetter_ok:
  assumes "CachedJWTTokenGetter (Some getter) n m = Ok c"
  shows "token_cache_ok genuine expiry n m c"
proof -
  let ?n = "if n \<le> 0 then DefaultJWTCacheBucketCount else n" and ?m = "if m \<le> 0 then DefaultJWTCacheBucketSize else m"
  have bounds: "n \<le> 2 ^ 32 - 1 \<or> n \<le> 0" "0 < ?m" "0 < ?n"
    using assms by (auto simp: CachedJWTTokenGetter_def DefaultJWTCacheBucketSize_def DefaultJWTCacheBucketCount_def split: if_splits)
  have c: "c = \<lparr>jc_buckets = replicate (nat ?n) \<lparr>lru_size = nat ?m, evictList = []\<rparr>, jc_bucketCount = word_of_int ?n\<rparr>"
    using assms bounds(2) by (auto simp: CachedJWTTokenGetter_def newJWTTokenCacheBucket_def NewLRU_def Let_def split: if_splits)
  have "unat (word_of_int ?n :: uint32) = nat ?n"
    using bounds by (auto simp: unsigned_of_int take_bit_int_eq_self DefaultJWTCacheBucketCount_def)
  then show ?thesis using bounds unfolding c
    by (auto simp: token_cache_ok_def bucket_count_def bucket_size_def bucket_ok_def lru_ok_def lru_Peek_def)
qed

lemma cache_GetJWTToken_ok:
  assumes getter: "getter_ok getter genuine expiry" and ok: "token_cache_ok genuine expiry n m c" and time: "clock 0 \<le> clock 2"
    and run: "cache_GetJWTToken getter clock ns (c, g) = (r, c', g')"
  shows "token_cache_ok genuine expiry n m c' \<and>
    (\<forall>token. r = Ok token \<longrightarrow> genuine ns token \<and> clock 0 + 30 * second \<le> expiry token * second)"
proof -
  let ?i = "token_bucket c ns"
  have i: "?i < length (jc_buckets c)" using ok by (simp add: token_cache_ok_def token_bucket_def unat_mod)
  obtain b' g1 where b: "bucket_GetJWTToken getter clock ns (jc_buckets c ! ?i, g) = (r, b', g1)" "c' = c\<lparr>jc_buckets := (jc_buckets c)[?i := b']\<rparr>"
    using run i by (auto simp: cache_GetJWTToken_def Let_def split: prod.splits)
  have "bucket_ok genuine expiry (bucket_size m) (jc_buckets c ! ?i)" using ok i by (simp add: token_cache_ok_def)
  from bucket_GetJWTToken_ok [OF getter this b(1) time] ok i show ?thesis
    by (auto simp: token_cache_ok_def b(2) dest!: set_update_subset_insert [THEN subsetD])
qed

lemma token_cache_run_ok:
  assumes "token_cache_run getter n m c g" "getter_ok getter genuine expiry"
  shows "token_cache_ok genuine expiry n m c"
  using assms(1)
proof induction
  case (start c g)
  then show ?case by (rule CachedJWTTokenGetter_ok)
next
  case (get c g clock ns)
  then have "clock 0 \<le> clock 2" by simp
  from cache_GetJWTToken_ok [OF assms(2) get.IH this] show ?case by (metis surjective_pairing)
qed

text \<open>
  C25.  A token that the cache returns for a namespace was issued for that namespace, and is valid for
  at least another half minute, however long the cache has been in use.
\<close>

theorem cached_tokens_live:
  assumes "token_cache_run getter n m c g" "getter_ok getter genuine expiry" "clock 0 \<le> clock 1" "clock 1 \<le> clock 2"
    and "cache_GetJWTToken getter clock ns (c, g) = (Ok token, c', g')"
  shows "genuine ns token \<and> clock 0 + 30 * second \<le> expiry token * second"
proof -
  have "clock 0 \<le> clock 2" using assms(3,4) by simp
  from cache_GetJWTToken_ok [OF assms(2) token_cache_run_ok [OF assms(1,2)] this assms(5)] show ?thesis by simp
qed

text \<open>A getter of tokens that are their namespace followed by a mark, and expire after an hour.\<close>

definition demo_getter :: "unit JWTTokenGetter" where
  "demo_getter = \<lparr>jg_GetJWTToken = (\<lambda>ns g. (Ok (ns @ ''!''), g)), jg_GetLabel = Ok,
     jg_GetClaimsFromJWTToken = (\<lambda>now token. Ok [''exp'' \<mapsto> JNumber 3600])\<rparr>"

lemma demo_getter_ok: "getter_ok demo_getter (\<lambda>ns token. token = ns @ ''!'') (\<lambda>_. 3600)"
  by (simp add: getter_ok_def demo_getter_def)

lemma demo_cache: "\<exists>c. CachedJWTTokenGetter (Some demo_getter) 4 8 = Ok c"
  by (simp add: CachedJWTTokenGetter_def newJWTTokenCacheBucket_def NewLRU_def)

lemma demo_fetch:
  assumes "CachedJWTTokenGetter (Some demo_getter) 4 8 = Ok c"
  shows "\<exists>c'. cache_GetJWTToken demo_getter (\<lambda>i. int i) ns (c, ()) = (Ok (ns @ ''!''), c', ())"
proof -
  have c: "c = \<lparr>jc_buckets = replicate 4 \<lparr>lru_size = 8, evictList = []\<rparr>, jc_bucketCount = 4\<rparr>"
    using assms by (auto simp: CachedJWTTokenGetter_def newJWTTokenCacheBucket_def NewLRU_def)
  have i: "token_bucket c ns < 4" by (simp add: c token_bucket_def unat_mod)
  then have "jc_buckets c ! token_bucket c ns = \<lparr>lru_size = 8, evictList = []\<rparr>" by (simp add: c)
  then show ?thesis using i
    by (simp add: cache_GetJWTToken_def Let_def bucket_GetJWTToken_def lru_Get_def fetch_token_def demo_getter_def
        getExpirationTimeFromJWTToken_def remaining_def jwtTokenCacheMinTTLInSeconds_def second_def c)
qed

theorem cached_tokens_live_witness:
  "\<exists>c c' token. token_cache_run demo_getter 4 8 c () \<and> cache_GetJWTToken demo_getter (\<lambda>i. int i) ''ns'' (c, ()) = (Ok token, c', ()) \<and>
     token = ''ns!'' \<and> 0 + 30 * second \<le> 3600 * second"
proof -
  obtain c where c: "CachedJWTTokenGetter (Some demo_getter) 4 8 = Ok c" using demo_cache by blast
  then have run: "token_cache_run demo_getter 4 8 c ()" by (rule token_cache_run.start)
  obtain c' where got: "cache_GetJWTToken demo_getter (\<lambda>i. int i) ''ns'' (c, ()) = (Ok (''ns'' @ ''!''), c', ())" using demo_fetch [OF c] by blast
  have "''ns'' @ ''!'' = ''ns'' @ ''!'' \<and> int 0 + 30 * second \<le> 3600 * second"
    by (rule cached_tokens_live [OF run demo_getter_ok _ _ got]) simp_all
  with run got show ?thesis by auto
qed

text \<open>
  C30.  The cache is bounded: however it has been used, none of its buckets has more entries than were
  asked for, or 256 by default, so it holds no more tokens than buckets times that size; the bucket of
  a namespace is always one of them, so no call panics on its own account; and a
  token that is cached and valid long enough is returned without asking the identity service.
\<close>

theorem token_cache_bounded:
  assumes run: "token_cache_run getter n m c g" and getter: "getter_ok getter genuine expiry"
  shows "length (jc_buckets c) = bucket_count n \<and> token_bucket c ns < length (jc_buckets c) \<and>
    (\<forall>b\<in>set (jc_buckets c). length (evictList b) \<le> bucket_size m) \<and>
    sum_list (map (\<lambda>b. length (evictList b)) (jc_buckets c)) \<le> bucket_count n * bucket_size m \<and>
    (lru_Peek ns (jc_buckets c ! token_bucket c ns) = Some token \<and> clock 0 + 30 * second \<le> ct_ExpirationTime token \<longrightarrow>
      (\<exists>c'. cache_GetJWTToken getter clock ns (c, g) = (Ok (ct_Token token), c', g)))"
proof -
  have ok: "token_cache_ok genuine expiry n m c" by (rule token_cache_run_ok [OF run getter])
  then have len: "length (jc_buckets c) = bucket_count n" and i: "token_bucket c ns < length (jc_buckets c)"
    by (simp_all add: token_cache_ok_def token_bucket_def unat_mod)
  have each: "\<forall>b\<in>set (jc_buckets c). length (evictList b) \<le> bucket_size m" using ok by (auto simp: token_cache_ok_def bucket_ok_def lru_ok_def)
  then have "sum_list (map (\<lambda>b. length (evictList b)) bs) \<le> length bs * bucket_size m" if "set bs \<subseteq> set (jc_buckets c)" for bs
    using that by (induction bs) (auto simp: add_mono)
  with len have total: "sum_list (map (\<lambda>b. length (evictList b)) (jc_buckets c)) \<le> bucket_count n * bucket_size m" by (metis order_refl)
  have "\<exists>c'. cache_GetJWTToken getter clock ns (c, g) = (Ok (ct_Token token), c', g)"
    if "lru_Peek ns (jc_buckets c ! token_bucket c ns) = Some token" "clock 0 + 30 * second \<le> ct_ExpirationTime token"
    using that i by (simp add: cache_GetJWTToken_def Let_def bucket_GetJWTToken_def lru_Get_def lru_Peek_def remaining_def jwtTokenCacheMinTTLInSeconds_def)
  with len i each total show ?thesis by blast
qed

theorem token_cache_bounded_witness:
  "\<exists>c. token_cache_run demo_getter 4 8 c () \<and> length (jc_buckets c) = 4 \<and> sum_list (map (\<lambda>b. length (evictList b)) (jc_buckets c)) \<le> 32"
proof -
  obtain c where c: "CachedJWTTokenGetter (Some demo_getter) 4 8 = Ok c" using demo_cache by blast
  then have run: "token_cache_run demo_getter 4 8 c ()" by (rule token_cache_run.start)
  show ?thesis using token_cache_bounded [OF run demo_getter_ok] run by (intro exI [of _ c]) (simp add: bucket_count_def bucket_size_def)
qed

end
