(* ===== verification/Daemon_Types.thy ===== *)
theory Daemon_Types
  imports Zstor_Client
begin

text \<open>
  What the services of the client daemon share: the errors of \<open>daemon/api/grpc/rpctypes/error.go\<close>, the
  messages and conversions of \<open>daemon/api/grpc/utils.go\<close>, the local file system they open files of, and
  \<open>io.Pipe\<close>, which joins the two goroutines of a streaming call.
\<close>

section \<open>Errors (rpctypes/error.go)\<close>

datatype daemon_error =
    ErrGRPCNilKey | ErrGRPCNilData | ErrGRPCNilFilePath | ErrGRPCNilMetadata | ErrGRPCNilNamespace | ErrGRPCNilUserID
  | ErrGRPCNilPermissions | ErrGRPCNilChunks | ErrGRPCInvalidChunkSize | ErrGRPCKeyNotFound | ErrGRPCDataNotRead
  | ErrGRPCDataCorrupted | ErrGRPCNotSupported | ErrGRPCInvalidFileMode | ErrGRPCNoLocalFS | ErrGRPCPermissionDenied

fun daemon_status :: "daemon_error \<Rightarrow> status" where
  "daemon_status ErrGRPCNilKey = \<lparr>st_code = InvalidArgument, st_desc = ''daemon: key is not provided''\<rparr>"
| "daemon_status ErrGRPCNilData = \<lparr>st_code = InvalidArgument, st_desc = ''daemon: data is not provided''\<rparr>"
| "daemon_status ErrGRPCNilFilePath = \<lparr>st_code = InvalidArgument, st_desc = ''daemon: file path is not provided''\<rparr>"
| "daemon_status ErrGRPCNilMetadata = \<lparr>st_code = InvalidArgument, st_desc = ''daemon: metadata is not provided''\<rparr>"
| "daemon_status ErrGRPCNilNamespace = \<lparr>st_code = InvalidArgument, st_desc = ''daemon: namespace is not provided''\<rparr>"
| "daemon_status ErrGRPCNilUserID = \<lparr>st_code = InvalidArgument, st_desc = ''daemon: userID is not provided''\<rparr>"
| "daemon_status ErrGRPCNilPermissions = \<lparr>st_code = InvalidArgument, st_desc = ''daemon: permissions are not provided''\<rparr>"
| "daemon_status ErrGRPCNilChunks = \<lparr>st_code = InvalidArgument, st_desc = ''daemon: (meta) chunks are not provided''\<rparr>"
| "daemon_status ErrGRPCInvalidChunkSize = \<lparr>st_code = InvalidArgument, st_desc = ''daemon: invalid chunksize (has to be 1 or higher)''\<rparr>"
| "daemon_status ErrGRPCKeyNotFound = \<lparr>st_code = NotFound, st_desc = ''daemon: key is no found''\<rparr>"
| "daemon_status ErrGRPCDataNotRead = \<lparr>st_code = NotFound, st_desc = ''daemon: no data could be read''\<rparr>"
| "daemon_status ErrGRPCDataCorrupted = \<lparr>st_code = DataLoss, st_desc = ''daemon: data is corrupted''\<rparr>"
| "daemon_status ErrGRPCNotSupported = \<lparr>st_code = Unimplemented, st_desc = ''daemon: method not supported''\<rparr>"
| "daemon_status ErrGRPCInvalidFileMode = \<lparr>st_code = Unimplemented, st_desc = ''daemon: file mode not supported''\<rparr>"
| "daemon_status ErrGRPCNoLocalFS = \<lparr>st_code = PermissionDenied, st_desc = ''daemon: local filesystem access not allowed''\<rparr>"
| "daemon_status ErrGRPCPermissionDenied =
     \<lparr>st_code = PermissionDenied, st_desc = ''daemon: JWT token does not permit requested action''\<rparr>"

definition daemon_errors :: "daemon_error list" where
  "daemon_errors = [ErrGRPCNilKey, ErrGRPCNilData, ErrGRPCNilFilePath, ErrGRPCNilMetadata, ErrGRPCNilNamespace, ErrGRPCNilUserID,
     ErrGRPCNilPermissions, ErrGRPCNilChunks, ErrGRPCInvalidChunkSize, ErrGRPCKeyNotFound, ErrGRPCDataNotRead,
     ErrGRPCDataCorrupted, ErrGRPCNotSupported, ErrGRPCInvalidFileMode, ErrGRPCNoLocalFS, ErrGRPCPermissionDenied]"

definition daemon_errStringToError :: "string \<rightharpoonup> daemon_error" where
  "daemon_errStringToError = map_of (map (\<lambda>e. (st_desc (daemon_status e), e)) daemon_errors)"

datatype daemon_client_error = DaemonError code string | OtherError status

definition daemon_Error :: "status option \<Rightarrow> daemon_client_error option" where
  "daemon_Error err =
     (case err of
        None \<Rightarrow> None
      | Some s \<Rightarrow>
          (case daemon_errStringToError (st_desc s) of
             None \<Rightarrow> Some (OtherError s)
           | Some verr \<Rightarrow> Some (DaemonError (st_code (daemon_status verr)) (st_desc (daemon_status verr)))))"

fun DaemonError_Code :: "daemon_client_error \<Rightarrow> code" where
  "DaemonError_Code (DaemonError c d) = c"
| "DaemonError_Code (OtherError s) = st_code s"

fun DaemonError_Error :: "daemon_client_error \<Rightarrow> string" where
  "DaemonError_Error (DaemonError c d) = d"
| "DaemonError_Error (OtherError s) = st_desc s"

text \<open>An error of a handler: one of the above, or that of the client, the operating system or the stream.\<close>

datatype 'e service_err = GrpcErr daemon_error | ClientErr 'e | OsErr string | StreamErr string

section \<open>Messages and their conversion (utils.go)\<close>

record dpb_Object =
  do_Key :: bytes
  do_ShardID :: string

record dpb_Chunk =
  dc_ChunkSize :: nat
  dc_Objects :: "dpb_Object list"
  dc_Hash :: bytes

record dpb_Metadata =
  dm_Key :: bytes
  dm_TotalSize :: int64
  dm_CreationEpoch :: int
  dm_LastWriteEpoch :: int
  dm_Chunks :: "dpb_Chunk list"

definition convertProtoToInMemoryChunkSlice :: "dpb_Chunk list \<Rightarrow> Chunk list" where
  "convertProtoToInMemoryChunkSlice chunks =
     map (\<lambda>c. \<lparr>ch_Size = dc_ChunkSize c, ch_Objects = map (\<lambda>obj. \<lparr>Key = do_Key obj, ShardID = do_ShardID obj\<rparr>) (dc_Objects c), ch_Hash = dc_Hash c\<rparr>) chunks"

definition convertProtoToInMemoryMetadata :: "dpb_Metadata \<Rightarrow> Metadata" where
  "convertProtoToInMemoryMetadata md =
     \<lparr>md_Key = dm_Key md, md_Size = dm_TotalSize md, md_CreationEpoch = dm_CreationEpoch md, md_LastWriteEpoch = dm_LastWriteEpoch md,
      md_Chunks = convertProtoToInMemoryChunkSlice (dm_Chunks md), md_PreviousKey = None, md_NextKey = None\<rparr>"

definition convertInMemoryToProtoChunkSlice :: "Chunk list \<Rightarrow> dpb_Chunk list" where
  "convertInMemoryToProtoChunkSlice chunks =
     map (\<lambda>c. \<lparr>dc_ChunkSize = ch_Size c, dc_Objects = map (\<lambda>obj. \<lparr>do_Key = Key obj, do_ShardID = ShardID obj\<rparr>) (ch_Objects c), dc_Hash = ch_Hash c\<rparr>) chunks"

definition convertInMemoryToProtoMetadata :: "Metadata \<Rightarrow> dpb_Metadata" where
  "convertInMemoryToProtoMetadata md =
     \<lparr>dm_Key = md_Key md, dm_TotalSize = md_Size md, dm_CreationEpoch = md_CreationEpoch md, dm_LastWriteEpoch = md_LastWriteEpoch md,
      dm_Chunks = convertInMemoryToProtoChunkSlice (md_Chunks md)\<rparr>"

datatype dpb_CheckStatus = PbCheckStatusInvalid | PbCheckStatusValid | PbCheckStatusOptimal

definition StorageToProtoCheckStatusMapping :: "CheckStatus \<rightharpoonup> dpb_CheckStatus" where
  "StorageToProtoCheckStatusMapping = map_of
     [(CheckStatusInvalid, PbCheckStatusInvalid), (CheckStatusOptimal, PbCheckStatusOptimal), (CheckStatusValid, PbCheckStatusValid)]"

definition convertStorageToProtoCheckStatus :: "CheckStatus \<Rightarrow> ('e, dpb_CheckStatus) result" where
  "convertStorageToProtoCheckStatus status =
     (case StorageToProtoCheckStatusMapping status of None \<Rightarrow> Panic | Some checkStatus \<Rightarrow> Ok checkStatus)"

text \<open>The errors of the storage clients that have a counterpart among those of the daemon.\<close>

definition ErrDataStorErrorMapping :: "zstor_err \<rightharpoonup> daemon_error" where
  "ErrDataStorErrorMapping = map_of
     [(ErrPipeline (ErrStorage (ErrCluster ErrKeyNotFound)), ErrGRPCKeyNotFound),
      (ErrPipeline (ErrStorage (ErrCluster ErrObjectCorrupted)), ErrGRPCDataCorrupted),
      (ErrPipeline (ErrStorage (ErrCluster ErrPermissionDenied)), ErrGRPCPermissionDenied)]"

definition ErrMetaStorErrorMapping :: "zstor_err \<rightharpoonup> daemon_error" where
  "ErrMetaStorErrorMapping = map_of [(ErrMeta MetaNotFound, ErrGRPCKeyNotFound)]"

definition mapDataStorError :: "zstor_err \<Rightarrow> zstor_err service_err" where
  "mapDataStorError err = (case ErrDataStorErrorMapping err of Some cerr \<Rightarrow> GrpcErr cerr | None \<Rightarrow> ClientErr err)"

definition mapMetaStorError :: "zstor_err \<Rightarrow> zstor_err service_err" where
  "mapMetaStorError err = (case ErrMetaStorErrorMapping err of Some cerr \<Rightarrow> GrpcErr cerr | None \<Rightarrow> ClientErr err)"

definition mapZstorError :: "zstor_err \<Rightarrow> zstor_err service_err" where
  "mapZstorError err =
     (case ErrMetaStorErrorMapping err of
        Some cerr \<Rightarrow> GrpcErr cerr
      | None \<Rightarrow> (case ErrDataStorErrorMapping err of Some cerr \<Rightarrow> GrpcErr cerr | None \<Rightarrow> ClientErr err))"

section \<open>Files\<close>

text \<open>
  The local file system: the files, and the errors that opening, reading, writing and closing a path
  give.  A file opened by the daemon is written from its start when it is new or truncated, and at its
  end when it is opened to append, so that a write always extends it.
\<close>

record filesystem =
  fs_files :: "string \<rightharpoonup> bytes"
  fs_open_err :: "string \<Rightarrow> string option"
  fs_read_err :: "string \<Rightarrow> string option"
  fs_write_err :: "string \<Rightarrow> string option"
  fs_close_err :: "string \<Rightarrow> string option"

definition O_RDWR :: int where "O_RDWR = 0x2"
definition O_CREATE :: int where "O_CREATE = 0x40"
definition O_EXCL :: int where "O_EXCL = 0x80"
definition O_TRUNC :: int where "O_TRUNC = 0x200"
definition O_APPEND :: int where "O_APPEND = 0x400"
definition O_SYNC :: int where "O_SYNC = 0x101000"

lemmas open_flags = O_RDWR_def O_CREATE_def O_EXCL_def O_TRUNC_def O_APPEND_def O_SYNC_def

definition openFileToRead :: "string \<Rightarrow> filesystem \<Rightarrow> (string, bytes) result" where
  "openFileToRead path fs =
     (case fs_open_err fs path of
        Some e \<Rightarrow> Err e
      | None \<Rightarrow> (case fs_files fs path of None \<Rightarrow> Err ''no such file or directory'' | Some content \<Rightarrow> Ok content))"

definition openFile :: "string \<Rightarrow> int \<Rightarrow> (filesystem, string, unit) op" where
  "openFile path flag fs =
     (case fs_open_err fs path of
        Some e \<Rightarrow> (Err e, fs)
      | None \<Rightarrow>
          (case fs_files fs path of
             None \<Rightarrow> if flag AND O_CREATE = 0 then (Err ''no such file or directory'', fs)
               else (Ok (), fs\<lparr>fs_files := (fs_files fs)(path \<mapsto> [])\<rparr>)
           | Some content \<Rightarrow>
               if flag AND O_CREATE \<noteq> 0 \<and> flag AND O_EXCL \<noteq> 0 then (Err ''file exists'', fs)
               else if flag AND O_TRUNC \<noteq> 0 then (Ok (), fs\<lparr>fs_files := (fs_files fs)(path \<mapsto> [])\<rparr>)
               else (Ok (), fs)))"

definition os_Write :: "string \<Rightarrow> filesystem writer" where
  "os_Write path data fs =
     (case fs_write_err fs path of
        Some e \<Rightarrow> (Err e, fs)
      | None \<Rightarrow> (Ok (), fs\<lparr>fs_files := (fs_files fs)(path \<mapsto> (case fs_files fs path of None \<Rightarrow> [] | Some c \<Rightarrow> c) @ data)\<rparr>))"

definition convertFileModeToSyscallFlags :: "int \<Rightarrow> (zstor_err service_err, int) result" where
  "convertFileModeToSyscallFlags fileMode =
     (let flags = O_RDWR OR O_CREATE in
      if fileMode = 0 then Ok (flags OR O_TRUNC)
      else if fileMode = 1 then Ok (flags OR O_APPEND)
      else if fileMode = 2 then Ok (flags OR O_EXCL)
      else Err (GrpcErr ErrGRPCInvalidFileMode))"

definition openFileToWrite :: "string \<Rightarrow> int \<Rightarrow> bool \<Rightarrow> (filesystem, zstor_err service_err, unit) op" where
  "openFileToWrite filePath fileMode sync fs =
     (if length filePath = 0 then (Err (GrpcErr ErrGRPCNilFilePath), fs)
      else obind (convertFileModeToSyscallFlags fileMode, fs) (\<lambda>flags fs.
        omap_err OsErr (openFile filePath (if sync then flags OR O_SYNC else flags) fs)))"

section \<open>Readers\<close>

text \<open>Cutting content to the size of a read buffer.\<close>

function cut :: "nat \<Rightarrow> bytes \<Rightarrow> bytes list" where
  "cut n content = (if content = [] \<or> n = 0 then [] else take n content # cut n (drop n content))"
  by pat_completeness auto

termination by (relation "measure (\<lambda>(n, content). length content)") auto

declare cut.simps [simp del]

lemma cut_Nil [simp]: "cut n [] = []"
  by (simp add: cut.simps)

lemma cut_step: "content \<noteq> [] \<Longrightarrow> 0 < n \<Longrightarrow> cut n content = take n content # cut n (drop n content)"
  by (subst cut.simps) simp

lemma concat_cut [simp]: "0 < n \<Longrightarrow> concat (cut n content) = content"
proof (induction n content rule: cut.induct)
  case (1 n content)
  then show ?case by (cases "content = []") (simp_all add: cut_step)
qed

lemma cut_pieces: "c \<in> set (cut n content) \<Longrightarrow> c \<noteq> [] \<and> length c \<le> n"
proof (induction n content rule: cut.induct)
  case (1 n content)
  then show ?case by (cases "content = [] \<or> n = 0") (auto simp: cut_step, auto simp: cut.simps [of 0])
qed

lemma cut_ne: "content \<noteq> [] \<Longrightarrow> 0 < n \<Longrightarrow> cut n content \<noteq> []"
  by (simp add: cut_step)

lemma reader_reads_cut: "0 < n \<Longrightarrow> reader_reads n content = reads_of (cut n content)"
proof (induction n content rule: cut.induct)
  case (1 n content)
  show ?case
  proof (cases "content = []")
    case True
    then show ?thesis by (simp add: reader_reads.simps [of n "[]"] reads_of_def)
  next
    case False
    with 1 show ?thesis by (simp add: reader_reads.simps [of n content] cut_step reads_of_def)
  qed
qed

text \<open>
  The buffer that a pipeline reads with: one of the size of a chunk, or those of \<open>ioutil.ReadAll\<close>, which
  joins what it has read, so that their sizes do not matter (they start at \<open>bytes.MinRead\<close>).
\<close>

fun read_size :: "'w Pipeline \<Rightarrow> nat" where
  "read_size (SingleObject sop) = 512"
| "read_size (AsyncSplitter asp) = asp_chunkSize asp"

definition bytes_NewReader :: "'w Pipeline \<Rightarrow> bytes \<Rightarrow> reads" where
  "bytes_NewReader p data = reader_reads (read_size p) data"

definition file_Reader :: "'w Pipeline \<Rightarrow> filesystem \<Rightarrow> string \<Rightarrow> bytes \<Rightarrow> reads" where
  "file_Reader p fs path content =
     (case fs_read_err fs path of None \<Rightarrow> reader_reads (read_size p) content | Some e \<Rightarrow> [([], Some (ReadFailure e))])"

section \<open>Pipes\<close>

text \<open>
  The reading end of a pipe gets each write in pieces of at most the size of its buffer, and the end
  of the data once the writing end is closed.
\<close>

definition pipe_Reader :: "'w Pipeline \<Rightarrow> bytes list \<Rightarrow> reads" where
  "pipe_Reader p datas = reads_of (concat (map (cut (read_size p)) datas))"

text \<open>
  The writing end, whose reader sends every piece to a stream.  When sending fails the reader stops
  reading, but does not close the pipe: a write that has data left then, or comes later, does not
  return, which is the error \<open>blocked\<close> here.  A write of no data is a read of no data.
\<close>

record 'o pipe =
  pipe_out :: 'o
  pipe_failed :: "string option"

definition blocked :: string where
  "blocked = ''blocked''"

fun send_pieces :: "'o writer \<Rightarrow> bytes list \<Rightarrow> ('o pipe, string, unit) op" where
  "send_pieces send [] p = (Ok (), p)"
| "send_pieces send (d # ds) p =
     (case send d (pipe_out p) of
        (Ok _, out) \<Rightarrow> send_pieces send ds (p\<lparr>pipe_out := out\<rparr>)
      | (Err e, out) \<Rightarrow> (if ds = [] then Ok () else Err blocked, p\<lparr>pipe_out := out, pipe_failed := Some e\<rparr>)
      | (Panic, out) \<Rightarrow> (Panic, p\<lparr>pipe_out := out\<rparr>))"

definition pipe_Write :: "nat \<Rightarrow> 'o writer \<Rightarrow> 'o pipe writer" where
  "pipe_Write chunkSize send data p =
     (if pipe_failed p \<noteq> None then (Err blocked, p)
      else send_pieces send (if data = [] then [[]] else cut chunkSize data) p)"

section \<open>Lemmas\<close>

lemma daemon_errors_UNIV: "set daemon_errors = UNIV"
proof -
  have "e \<in> set daemon_errors" for e by (cases e) (simp_all add: daemon_errors_def)
  then show ?thesis by blast
qed

lemma daemon_desc_distinct: "distinct (map (\<lambda>e. st_desc (daemon_status e)) daemon_errors)"
  by (simp add: daemon_errors_def)

lemma daemon_errStringToError_desc [simp]: "daemon_errStringToError (st_desc (daemon_status e)) = Some e"
proof -
  have "(st_desc (daemon_status e), e) \<in> set (map (\<lambda>e. (st_desc (daemon_status e), e)) daemon_errors)"
    using daemon_errors_UNIV by auto
  then show ?thesis unfolding daemon_errStringToError_def using daemon_desc_distinct by (simp add: comp_def)
qed

lemma chunks_roundtrip [simp]: "convertProtoToInMemoryChunkSlice (convertInMemoryToProtoChunkSlice chunks) = chunks"
  by (simp add: convertProtoToInMemoryChunkSlice_def convertInMemoryToProtoChunkSlice_def comp_def map_idI)

lemma length_convert [simp]: "length (convertInMemoryToProtoChunkSlice chunks) = length chunks"
  by (simp add: convertInMemoryToProtoChunkSlice_def)

text \<open>Metadata that passes through the daemon loses its links.\<close>

lemma metadata_roundtrip:
  "convertProtoToInMemoryMetadata (convertInMemoryToProtoMetadata md) = md\<lparr>md_PreviousKey := None, md_NextKey := None\<rparr>"
  by (simp add: convertProtoToInMemoryMetadata_def convertInMemoryToProtoMetadata_def)

lemma check_status_total [simp]: "convertStorageToProtoCheckStatus s \<noteq> Panic"
  by (cases s) (simp_all add: convertStorageToProtoCheckStatus_def StorageToProtoCheckStatusMapping_def)

lemma openFile_mode:
  assumes "convertFileModeToSyscallFlags mode = Ok flags" "fs_open_err fs path = None"
  shows "openFile path (if sync then flags OR O_SYNC else flags) fs =
    (if mode = 2 \<and> fs_files fs path \<noteq> None then (Err ''file exists'', fs)
     else (Ok (), fs\<lparr>fs_files := (fs_files fs)(path \<mapsto> (if mode = 1 then (case fs_files fs path of None \<Rightarrow> [] | Some c \<Rightarrow> c) else []))\<rparr>))"
  using assms
  by (auto simp: convertFileModeToSyscallFlags_def Let_def openFile_def open_flags fun_upd_idem split: if_splits option.splits)

end
