(* ===== verification/Daemon_Data.thy ===== *)
theory Daemon_Data
  imports Daemon_Types
begin

text \<open>
  The metadata service (\<open>daemon/api/grpc/metadata_api.go\<close>) and the data service
  (\<open>daemon/api/grpc/data_api.go\<close>) of the client daemon.  The data service hands the description of what
  it has written to its caller instead of storing it.
\<close>

section \<open>The metadata service\<close>

definition metadata_SetMetadata ::
  "('s, 'w) zstor_Client \<Rightarrow> dpb_Metadata option \<Rightarrow> ('s \<times> 'w client_world, zstor_err service_err, unit) op" where
  "metadata_SetMetadata c metadata st =
     (case metadata of
        None \<Rightarrow> (Err (GrpcErr ErrGRPCNilMetadata), st)
      | Some md \<Rightarrow> omap_err (mapMetaStorError \<circ> flat_err) (SetMetadata (metastorClient c) (convertProtoToInMemoryMetadata md) st))"

definition metadata_GetMetadata :: "('s, 'w) zstor_Client \<Rightarrow> bytes \<Rightarrow> 's \<Rightarrow> (zstor_err service_err, dpb_Metadata) result" where
  "metadata_GetMetadata c key s =
     (if length key = 0 then Err (GrpcErr ErrGRPCNilKey)
      else rbind (map_err (mapMetaStorError \<circ> flat_err) (GetMetadata (metastorClient c) key s)) (\<lambda>md.
        Ok (convertInMemoryToProtoMetadata md)))"

definition metadata_DeleteMetadata :: "('s, 'w) zstor_Client \<Rightarrow> bytes \<Rightarrow> ('s, zstor_err service_err, unit) op" where
  "metadata_DeleteMetadata c key s =
     (if length key = 0 then (Err (GrpcErr ErrGRPCNilKey), s)
      else omap_err (mapMetaStorError \<circ> flat_err) (DeleteMetadata (metastorClient c) key s))"

section \<open>Replies\<close>

text \<open>
  The reply of a call with the state after it.  A failed write leaves the servers in a state that is not
  stated: there is no state then.
\<close>

type_synonym ('a, 't) reply = "(zstor_err service_err, 'a) result \<times> 't option"

fun reply_of :: "(zstor_err \<Rightarrow> zstor_err service_err) \<Rightarrow> ('a \<Rightarrow> 'b) \<Rightarrow> (zstor_err, 'a \<times> 't) result \<Rightarrow> ('b, 't) reply" where
  "reply_of m f (Ok (a, t)) = (Ok (f a), Some t)"
| "reply_of m f (Err e) = (Err (m e), None)"
| "reply_of m f Panic = (Panic, None)"

text \<open>The deferred \<open>file.Close()\<close> of the functions whose results are named: its error is returned when there is no other.\<close>

fun close_reply :: "string option \<Rightarrow> ('a, 't) reply \<Rightarrow> ('a, 't) reply" where
  "close_reply (Some e) (Ok a, t) = (Err (OsErr e), t)"
| "close_reply e r = r"

section \<open>Streams\<close>

text \<open>The results of \<open>stream.Recv()\<close>; a list without an end is a caller that has not come to an end.\<close>

datatype 'm recv = Recv 'm | RecvEOF | RecvErr string

text \<open>The goroutine that moves the data of a stream into the pipe: the writes it makes, and its error.\<close>

fun pump :: "bytes recv list \<Rightarrow> (bytes list \<times> zstor_err service_err option) option" where
  "pump [] = None"
| "pump (RecvEOF # msgs) = Some ([], None)"
| "pump (RecvErr e # msgs) = Some ([], Some (StreamErr e))"
| "pump (Recv data # msgs) =
     (if length data = 0 then Some ([], Some (GrpcErr ErrGRPCNilData))
      else map_option (\<lambda>(datas, e). (data # datas, e)) (pump msgs))"

text \<open>
  The outcome of \<open>group.Wait()\<close>.  It returns once both goroutines have, with the error of the one that
  failed first.  A client that fails stops reading: if there is data left then (the client has not
  \<open>drained\<close> the pipe), the other goroutine does not return, since nobody closes the pipe's reading end.
\<close>

record race =
  drained :: bool
  pump_first :: bool

fun wait_write :: "race \<Rightarrow> zstor_err service_err option \<Rightarrow> ('a, 't) reply \<Rightarrow> ('a, 't) reply option" where
  "wait_write rc None (Ok a, t) = Some (Ok a, t)"
| "wait_write rc (Some e) (Ok a, t) = Some (Err e, t)"
| "wait_write rc None (Err e, t) = (if drained rc then Some (Err e, t) else None)"
| "wait_write rc (Some e') (Err e, t) = (if drained rc then Some (Err (if pump_first rc then e' else e), t) else None)"
| "wait_write rc e (Panic, t) = Some (Panic, t)"

fun send_and_close :: "string option \<Rightarrow> ('a, 't) reply \<Rightarrow> ('a, 't) reply" where
  "send_and_close (Some e) (Ok a, t) = (Err (StreamErr e), t)"
| "send_and_close e r = r"

text \<open>
  A streaming read: the client writes into the pipe, whose reader sends to the stream.  A client that
  waits in a write that nobody reads does not return.  When the client fails, the reader gets the end of
  the data.
\<close>

fun stream_reply :: "(zstor_err \<Rightarrow> zstor_err service_err) \<Rightarrow> (zstor_err, 'o pipe) result \<Rightarrow> (unit, 'o) reply option" where
  "stream_reply m (Ok p) = Some (case pipe_failed p of None \<Rightarrow> Ok () | Some e \<Rightarrow> Err (StreamErr e), Some (pipe_out p))"
| "stream_reply m (Err e) = (case e of ErrPipeline (ErrWriter _) \<Rightarrow> None | _ \<Rightarrow> Some (Err (m e), None))"
| "stream_reply m Panic = Some (Panic, None)"

section \<open>The data service\<close>

definition data_Write ::
  "codecs \<Rightarrow> digest \<Rightarrow> ('s, 'w) zstor_Client \<Rightarrow> bytes \<Rightarrow> 'w client_world \<Rightarrow> (dpb_Chunk list, 'w client_world) reply option" where
  "data_Write lib dg c data x =
     (if length data = 0 then Some (Err (GrpcErr ErrGRPCNilData), Some x)
      else map_option (reply_of mapDataStorError convertInMemoryToProtoChunkSlice)
        (run_write lib dg c (Some (bytes_NewReader (dataPipeline c) data)) x))"

definition data_WriteFile ::
  "codecs \<Rightarrow> digest \<Rightarrow> ('s, 'w) zstor_Client \<Rightarrow> bool \<Rightarrow> string \<Rightarrow> filesystem \<Rightarrow> 'w client_world \<Rightarrow>
   (dpb_Chunk list, 'w client_world) reply option" where
  "data_WriteFile lib dg c disableLocalFSAccess filePath fs x =
     (if disableLocalFSAccess then Some (Err (GrpcErr ErrGRPCNoLocalFS), Some x)
      else if length filePath = 0 then Some (Err (GrpcErr ErrGRPCNilFilePath), Some x)
      else case openFileToRead filePath fs of
        Err e \<Rightarrow> Some (Err (OsErr e), Some x)
      | Panic \<Rightarrow> Some (Panic, None)
      | Ok content \<Rightarrow>
          map_option (close_reply (fs_close_err fs filePath) \<circ> reply_of mapDataStorError convertInMemoryToProtoChunkSlice)
            (run_write lib dg c (Some (file_Reader (dataPipeline c) fs filePath content)) x))"

definition data_WriteStream ::
  "codecs \<Rightarrow> digest \<Rightarrow> ('s, 'w) zstor_Client \<Rightarrow> race \<Rightarrow> string option \<Rightarrow> bytes recv list \<Rightarrow> 'w client_world \<Rightarrow>
   (dpb_Chunk list, 'w client_world) reply option" where
  "data_WriteStream lib dg c rc closing msgs x =
     Option.bind (pump msgs) (\<lambda>(datas, err).
     Option.bind (run_write lib dg c (Some (pipe_Reader (dataPipeline c) datas)) x) (\<lambda>res.
       map_option (send_and_close closing) (wait_write rc err (reply_of mapDataStorError convertInMemoryToProtoChunkSlice res))))"

definition read_chunks ::
  "codecs \<Rightarrow> digest \<Rightarrow> ('s, 'w) zstor_Client \<Rightarrow> dpb_Chunk list \<Rightarrow> 'o writer \<Rightarrow> 'w client_world \<Rightarrow> 'o \<Rightarrow> (zstor_err, 'o) result" where
  "read_chunks lib dg c chunks wr x out =
     map_err ErrPipeline
       (pipeline_Read lib dg (dataPipeline c) (cw_sched x 0) (convertProtoToInMemoryChunkSlice chunks) (Some wr) (cw_data x) out)"

definition data_Read ::
  "codecs \<Rightarrow> digest \<Rightarrow> ('s, 'w) zstor_Client \<Rightarrow> dpb_Chunk list \<Rightarrow> 'w client_world \<Rightarrow> (zstor_err service_err, bytes) result" where
  "data_Read lib dg c chunks x =
     (if length chunks = 0 then Err (GrpcErr ErrGRPCNilChunks)
      else rbind (map_err mapDataStorError (read_chunks lib dg c chunks appending x [])) (\<lambda>data.
        if length data = 0 then Err (GrpcErr ErrGRPCDataNotRead) else Ok data))"

text \<open>The results are not named here: the error of the deferred \<open>file.Close()\<close> is lost.\<close>

definition data_ReadFile ::
  "codecs \<Rightarrow> digest \<Rightarrow> ('s, 'w) zstor_Client \<Rightarrow> bool \<Rightarrow> dpb_Chunk list \<Rightarrow> string \<Rightarrow> int \<Rightarrow> bool \<Rightarrow> 'w client_world \<Rightarrow> filesystem \<Rightarrow>
   (unit, filesystem) reply" where
  "data_ReadFile lib dg c disableLocalFSAccess chunks filePath fileMode sync x fs =
     (if disableLocalFSAccess then (Err (GrpcErr ErrGRPCNoLocalFS), Some fs)
      else if length chunks = 0 then (Err (GrpcErr ErrGRPCNilChunks), Some fs)
      else case openFileToWrite filePath fileMode sync fs of
        (Err e, fs) \<Rightarrow> (Err e, Some fs)
      | (Panic, fs) \<Rightarrow> (Panic, None)
      | (Ok _, fs) \<Rightarrow>
          reply_of mapDataStorError (\<lambda>_. ()) (rbind (read_chunks lib dg c chunks (os_Write filePath) x fs) (\<lambda>fs. Ok ((), fs))))"

definition data_ReadStream ::
  "codecs \<Rightarrow> digest \<Rightarrow> ('s, 'w) zstor_Client \<Rightarrow> 'o writer \<Rightarrow> int \<Rightarrow> dpb_Chunk list \<Rightarrow> 'w client_world \<Rightarrow> 'o \<Rightarrow> (unit, 'o) reply option" where
  "data_ReadStream lib dg c send chunkSize chunks x out =
     (if chunkSize \<le> 0 then Some (Err (GrpcErr ErrGRPCInvalidChunkSize), Some out)
      else if length chunks = 0 then Some (Err (GrpcErr ErrGRPCNilChunks), Some out)
      else stream_reply mapDataStorError
        (read_chunks lib dg c chunks (pipe_Write (nat chunkSize) send) x \<lparr>pipe_out = out, pipe_failed = None\<rparr>))"

definition data_Delete :: "('s, 'w) zstor_Client \<Rightarrow> dpb_Chunk list \<Rightarrow> ('w client_world, zstor_err service_err, unit) op" where
  "data_Delete c chunks x =
     (if length chunks = 0 then (Err (GrpcErr ErrGRPCNilChunks), x)
      else case pipeline_Delete (dataPipeline c) (cw_order x (length chunks)) (convertProtoToInMemoryChunkSlice chunks) (cw_data x) of
        (r, data) \<Rightarrow> (map_err (mapDataStorError \<circ> ErrPipeline) r, x\<lparr>cw_data := data\<rparr>))"

definition data_Check :: "('s, 'w) zstor_Client \<Rightarrow> dpb_Chunk list \<Rightarrow> bool \<Rightarrow> 'w client_world \<Rightarrow> (zstor_err service_err, dpb_CheckStatus) result" where
  "data_Check c chunks fast x =
     (if length chunks = 0 then Err (GrpcErr ErrGRPCNilChunks)
      else rbind (map_err (mapDataStorError \<circ> ErrPipeline)
          (pipeline_Check (dataPipeline c) (cw_order x (length chunks)) (convertProtoToInMemoryChunkSlice chunks) fast (cw_data x)))
        convertStorageToProtoCheckStatus)"

definition data_Repair :: "('s, 'w) zstor_Client \<Rightarrow> dpb_Chunk list \<Rightarrow> ('w client_world, zstor_err service_err, dpb_Chunk list) op" where
  "data_Repair c chunks x =
     (if length chunks = 0 then (Err (GrpcErr ErrGRPCNilChunks), x)
      else case pipeline_Repair (dataPipeline c) (cw_order x (length chunks)) (convertProtoToInMemoryChunkSlice chunks) (cw_data x) of
        (r, data) \<Rightarrow>
          obind (map_err (mapDataStorError \<circ> ErrPipeline) r, x\<lparr>cw_data := data\<rparr>) (\<lambda>chunks x. (Ok (convertInMemoryToProtoChunkSlice chunks), x)))"

section \<open>Streams carry the data they are given\<close>

text \<open>A caller that sends the pieces one by one, and then ends the stream.\<close>

definition messages :: "bytes list \<Rightarrow> bytes recv list" where
  "messages datas = map Recv datas @ [RecvEOF]"

lemma pump_messages: "[] \<notin> set datas \<Longrightarrow> pump (messages datas) = Some (datas, None)"
  by (induction datas) (auto simp: messages_def)

lemma pump_aborted: "[] \<notin> set datas \<Longrightarrow> pump (map Recv datas @ RecvErr e # msgs) = Some (datas, Some (StreamErr e))"
  by (induction datas) auto

text \<open>The pieces that a pipeline reads from a pipe.\<close>

definition piped :: "'w Pipeline \<Rightarrow> bytes list \<Rightarrow> bytes list" where
  "piped p datas = concat (map (cut (read_size p)) datas)"

lemma concat_piped: "0 < read_size p \<Longrightarrow> concat (piped p datas) = concat datas"
  by (induction datas) (simp_all add: piped_def)

lemma piped_pieces: "[] \<notin> set (piped p datas)"
  by (auto simp: piped_def dest: cut_pieces)

lemma piped_ne: "0 < read_size p \<Longrightarrow> [] \<notin> set datas \<Longrightarrow> datas \<noteq> [] \<Longrightarrow> piped p datas \<noteq> []"
  by (cases datas) (auto simp: piped_def cut_ne)

lemma bytes_NewReader_eq: "0 < read_size p \<Longrightarrow> bytes_NewReader p data = reads_of (piped p [data])"
  by (simp add: bytes_NewReader_def reader_reads_cut piped_def)

text \<open>A stream that takes everything it is sent, and what it has received.\<close>

definition collecting :: "bytes list writer" where
  "collecting d out = (Ok (), out @ [d])"

lemma send_pieces_collecting: "send_pieces collecting ds p = (Ok (), p\<lparr>pipe_out := pipe_out p @ ds\<rparr>)"
  by (induction ds arbitrary: p) (simp_all add: collecting_def)

definition sent_pieces :: "nat \<Rightarrow> bytes list \<Rightarrow> bytes list" where
  "sent_pieces n datas = concat (map (\<lambda>d. if d = [] then [[]] else cut n d) datas)"

lemma write_all_collecting:
  "pipe_failed p = None \<Longrightarrow> write_all (pipe_Write n collecting) ds p = (Ok (), p\<lparr>pipe_out := pipe_out p @ sent_pieces n ds\<rparr>)"
proof (induction ds arbitrary: p)
  case Nil
  then show ?case by (simp add: sent_pieces_def)
next
  case (Cons d ds)
  then show ?case by (simp add: pipe_Write_def send_pieces_collecting sent_pieces_def)
qed

lemma sent_pieces:
  assumes "0 < n"
  shows "concat (sent_pieces n datas) = concat datas" "\<forall>d\<in>set (sent_pieces n datas). length d \<le> n"
    "[] \<notin> set datas \<Longrightarrow> [] \<notin> set (sent_pieces n datas)"
  using assms by (induction datas) (auto simp: sent_pieces_def dest: cut_pieces)

text \<open>Reading what has been written, into any writer.\<close>

context chunk_storage
begin

lemma pipeline_read_into:
  assumes p: "made_of q m h cs p" and lib: "codecs_ok lib"
    and wrt: "written lib dg q h (inputs_of p pieces) chunks w" and "pieces \<noteq> []" and sch: "schedule_ok (length (inputs_of p pieces)) sch"
  shows "pipeline_Read lib dg p sch chunks (Some wr) w out =
    (case write_all wr (inputs_of p pieces) out of (r, out') \<Rightarrow> rbind (map_err ErrWriter r) (\<lambda>_. Ok out'))"
proof (cases p)
  case (SingleObject sop)
  obtain r out' where "wr (concat pieces) out = (r, out')" by fastforce
  then show ?thesis using SingleObject sop_read_spec [OF _ lib, of q m h sop dg "concat pieces" chunks w wr out] p wrt
    by (cases r) simp_all
next
  case (AsyncSplitter asp)
  then show ?thesis using read_spec [OF _ lib, of q m h asp dg pieces chunks w sch wr out] assms by simp
qed

end

end
