(* ===== verification/Daemon_Files.thy ===== *)
theory Daemon_Files
  imports Daemon_Data
begin

text \<open>
  The file service of the client daemon (\<open>daemon/api/grpc/file_api.go\<close>): the operations of the 0-stor
  client over gRPC, on data in a message, in a local file or in a stream.
\<close>

section \<open>The file service\<close>

text \<open>The input of a request: a key, metadata, or nothing.\<close>

datatype file_input = KeyInput bytes | MetadataInput "dpb_Metadata option" | NoInput

text \<open>The first message of a stream has the key, the others have data.\<close>

datatype write_msg = KeyMsg bytes | DataMsg bytes | EmptyMsg

fun msg_key :: "write_msg \<Rightarrow> bytes" where
  "msg_key (KeyMsg key) = key"
| "msg_key _ = []"

fun msg_data :: "write_msg recv \<Rightarrow> bytes recv" where
  "msg_data (Recv (DataMsg data)) = Recv data"
| "msg_data (Recv _) = Recv []"
| "msg_data RecvEOF = RecvEOF"
| "msg_data (RecvErr e) = RecvErr e"

definition file_Write ::
  "codecs \<Rightarrow> digest \<Rightarrow> ('s, 'w) zstor_Client \<Rightarrow> bytes \<Rightarrow> bytes \<Rightarrow> 's \<times> 'w client_world \<Rightarrow>
   (dpb_Metadata, 's \<times> 'w client_world) reply option" where
  "file_Write lib dg c key data st =
     (if length key = 0 then Some (Err (GrpcErr ErrGRPCNilKey), Some st)
      else if length data = 0 then Some (Err (GrpcErr ErrGRPCNilData), Some st)
      else map_option (reply_of mapZstorError convertInMemoryToProtoMetadata)
        (client_Write lib dg c key (Some (bytes_NewReader (dataPipeline c) data)) st))"

definition file_WriteFile ::
  "codecs \<Rightarrow> digest \<Rightarrow> ('s, 'w) zstor_Client \<Rightarrow> bool \<Rightarrow> bytes \<Rightarrow> string \<Rightarrow> filesystem \<Rightarrow> 's \<times> 'w client_world \<Rightarrow>
   (dpb_Metadata, 's \<times> 'w client_world) reply option" where
  "file_WriteFile lib dg c disableLocalFSAccess key filePath fs st =
     (if disableLocalFSAccess then Some (Err (GrpcErr ErrGRPCNoLocalFS), Some st)
      else if length key = 0 then Some (Err (GrpcErr ErrGRPCNilKey), Some st)
      else if length filePath = 0 then Some (Err (GrpcErr ErrGRPCNilFilePath), Some st)
      else case openFileToRead filePath fs of
        Err e \<Rightarrow> Some (Err (OsErr e), Some st)
      | Panic \<Rightarrow> Some (Panic, None)
      | Ok content \<Rightarrow>
          map_option (close_reply (fs_close_err fs filePath) \<circ> reply_of mapZstorError convertInMemoryToProtoMetadata)
            (client_Write lib dg c key (Some (file_Reader (dataPipeline c) fs filePath content)) st))"

fun file_WriteStream ::
  "codecs \<Rightarrow> digest \<Rightarrow> ('s, 'w) zstor_Client \<Rightarrow> race \<Rightarrow> string option \<Rightarrow> write_msg recv list \<Rightarrow> 's \<times> 'w client_world \<Rightarrow>
   (dpb_Metadata, 's \<times> 'w client_world) reply option" where
  "file_WriteStream lib dg c rc closing [] st = None"
| "file_WriteStream lib dg c rc closing (RecvEOF # msgs) st = Some (Err (StreamErr ''EOF''), Some st)"
| "file_WriteStream lib dg c rc closing (RecvErr e # msgs) st = Some (Err (StreamErr e), Some st)"
| "file_WriteStream lib dg c rc closing (Recv msg # msgs) st =
     (if length (msg_key msg) = 0 then Some (Err (GrpcErr ErrGRPCNilKey), Some st)
      else Option.bind (pump (map msg_data msgs)) (\<lambda>(datas, err).
        Option.bind (client_Write lib dg c (msg_key msg) (Some (pipe_Reader (dataPipeline c) datas)) st) (\<lambda>res.
          map_option (send_and_close closing) (wait_write rc err (reply_of mapZstorError convertInMemoryToProtoMetadata res)))))"

text \<open>A call on the client, by key or with metadata.\<close>

fun on_input :: "file_input \<Rightarrow> (bytes \<Rightarrow> 'a) \<Rightarrow> (Metadata \<Rightarrow> 'a) \<Rightarrow> (zstor_err service_err, 'a) result" where
  "on_input (KeyInput key) by_key with_meta = (if length key = 0 then Err (GrpcErr ErrGRPCNilKey) else Ok (by_key key))"
| "on_input (MetadataInput None) by_key with_meta = Err (GrpcErr ErrGRPCNilMetadata)"
| "on_input (MetadataInput (Some md)) by_key with_meta = Ok (with_meta (convertProtoToInMemoryMetadata md))"
| "on_input NoInput by_key with_meta = Err (GrpcErr ErrGRPCNilKey)"

definition read_input ::
  "codecs \<Rightarrow> digest \<Rightarrow> ('s, 'w) zstor_Client \<Rightarrow> file_input \<Rightarrow> 'o writer \<Rightarrow> 's \<times> 'w client_world \<Rightarrow> 'o \<Rightarrow>
   (zstor_err service_err, (zstor_err, 'o) result) result" where
  "read_input lib dg c inp wr st out =
     on_input inp (\<lambda>key. client_Read lib dg c key (Some wr) st out) (\<lambda>md. client_ReadWithMeta lib dg c md (Some wr) (snd st) out)"

definition file_Read ::
  "codecs \<Rightarrow> digest \<Rightarrow> ('s, 'w) zstor_Client \<Rightarrow> file_input \<Rightarrow> 's \<times> 'w client_world \<Rightarrow> (zstor_err service_err, bytes) result" where
  "file_Read lib dg c inp st =
     rbind (read_input lib dg c inp appending st []) (\<lambda>res.
     rbind (map_err mapZstorError res) (\<lambda>data.
       if length data = 0 then Err (GrpcErr ErrGRPCDataNotRead) else Ok data))"

text \<open>The file is opened, created and truncated before the input is looked at; the error of closing it is lost.\<close>

definition file_ReadFile ::
  "codecs \<Rightarrow> digest \<Rightarrow> ('s, 'w) zstor_Client \<Rightarrow> bool \<Rightarrow> file_input \<Rightarrow> string \<Rightarrow> int \<Rightarrow> bool \<Rightarrow> 's \<times> 'w client_world \<Rightarrow> filesystem \<Rightarrow>
   (unit, filesystem) reply" where
  "file_ReadFile lib dg c disableLocalFSAccess inp filePath fileMode sync st fs =
     (if disableLocalFSAccess then (Err (GrpcErr ErrGRPCNoLocalFS), Some fs)
      else case openFileToWrite filePath fileMode sync fs of
        (Err e, fs) \<Rightarrow> (Err e, Some fs)
      | (Panic, fs) \<Rightarrow> (Panic, None)
      | (Ok _, fs) \<Rightarrow>
          (case read_input lib dg c inp (os_Write filePath) st fs of
             Err e \<Rightarrow> (Err e, Some fs)
           | Panic \<Rightarrow> (Panic, None)
           | Ok res \<Rightarrow> reply_of mapZstorError (\<lambda>_. ()) (rbind res (\<lambda>fs. Ok ((), fs)))))"

text \<open>An invalid input is found by the goroutine that would write: the stream then ends at once.\<close>

definition file_ReadStream ::
  "codecs \<Rightarrow> digest \<Rightarrow> ('s, 'w) zstor_Client \<Rightarrow> 'o writer \<Rightarrow> int \<Rightarrow> file_input \<Rightarrow> 's \<times> 'w client_world \<Rightarrow> 'o \<Rightarrow> (unit, 'o) reply option" where
  "file_ReadStream lib dg c send chunkSize inp st out =
     (if chunkSize \<le> 0 then Some (Err (GrpcErr ErrGRPCInvalidChunkSize), Some out)
      else case read_input lib dg c inp (pipe_Write (nat chunkSize) send) st \<lparr>pipe_out = out, pipe_failed = None\<rparr> of
        Err e \<Rightarrow> Some (Err e, Some out)
      | Panic \<Rightarrow> Some (Panic, None)
      | Ok res \<Rightarrow> stream_reply mapZstorError res)"

definition file_Delete ::
  "('s, 'w) zstor_Client \<Rightarrow> file_input \<Rightarrow> 's \<times> 'w client_world \<Rightarrow> (unit, 's \<times> 'w client_world) reply" where
  "file_Delete c inp st =
     (case on_input inp (\<lambda>key. client_Delete c key st) (\<lambda>md. client_DeleteWithMeta c md st) of
        Err e \<Rightarrow> (Err e, Some st)
      | Panic \<Rightarrow> (Panic, None)
      | Ok res \<Rightarrow> reply_of mapZstorError (\<lambda>_. ()) (rbind res (\<lambda>st. Ok ((), st))))"

definition file_Check ::
  "('s, 'w) zstor_Client \<Rightarrow> file_input \<Rightarrow> bool \<Rightarrow> 's \<times> 'w client_world \<Rightarrow> (zstor_err service_err, dpb_CheckStatus) result" where
  "file_Check c inp fast st =
     rbind (on_input inp (\<lambda>key. client_Check c key fast st) (\<lambda>md. client_CheckWithMeta c md fast (snd st))) (\<lambda>res.
     rbind (map_err mapZstorError res) convertStorageToProtoCheckStatus)"

definition file_Repair ::
  "('s, 'w) zstor_Client \<Rightarrow> bytes \<Rightarrow> 's \<times> 'w client_world \<Rightarrow> (dpb_Metadata, 's \<times> 'w client_world) reply option" where
  "file_Repair c key st =
     (if length key = 0 then Some (Err (GrpcErr ErrGRPCNilKey), Some st)
      else map_option (reply_of mapZstorError convertInMemoryToProtoMetadata) (client_Repair c key st))"

section \<open>What is written is read\<close>

lemma NewPipeline_read_size:
  "NewPipeline lib numCPU cl env cfg nShards jobCount = Ok p \<Longrightarrow> read_size p = (if cfg_BlockSize cfg \<le> 0 then 512 else nat (cfg_BlockSize cfg))"
  by (auto simp: NewPipeline_def Let_def rbind_eq_Ok map_err_eq_Ok NewAsyncSplitterPipeline_def NewSingleObjectPipeline_def split: if_splits)

lemma configured_read_size:
  assumes "zstor_configured lib numCPU order ns env cfg nShards jobCount kind pb cdc mcfg c"
  shows "read_size (dataPipeline c) = (if cfg_BlockSize cfg \<le> 0 then 512 else nat (cfg_BlockSize cfg))" "0 < read_size (dataPipeline c)"
proof -
  show "read_size (dataPipeline c) = (if cfg_BlockSize cfg \<le> 0 then 512 else nat (cfg_BlockSize cfg))"
    using assms unfolding zstor_configured_def by (blast intro: NewPipeline_read_size)
  then show "0 < read_size (dataPipeline c)" by simp
qed

text \<open>
  What the file service has of a key: an entry that describes the data, and the metadata of the reply.
\<close>

lemma client_Read_into:
  assumes made: "made_of q m h (storage_ops (zcluster order ns) env kind) (dataPipeline c)" and cdc: "codecs_ok cdc"
    and meta: "mc_db (metastorClient c) = lone_DB" and key: "key \<noteq> []" "pieces \<noteq> []"
    and desc: "describes ns env kind cdc dg q h c s (cw_data x) key pieces"
    and sch: "schedule_ok (length (inputs_of (dataPipeline c) pieces)) (cw_sched x 0)"
  shows "client_Read cdc dg c key (Some wr) (s, x) out =
    (case write_all wr (inputs_of (dataPipeline c) pieces) out of (r, out') \<Rightarrow> rbind (map_err (ErrPipeline \<circ> ErrWriter) r) (\<lambda>_. Ok out'))"
proof -
  from desc obtain md where md: "msd.entries (metastorClient c) s key = Some md"
    "zf.run.written ns env kind cdc dg q h (inputs_of (dataPipeline c) pieces) (md_Chunks md) (cw_data x)" by (auto simp: describes_def)
  obtain r out' where w: "write_all wr (inputs_of (dataPipeline c) pieces) out = (r, out')" by fastforce
  have "GetMetadata (metastorClient c) key s = Ok md" by (rule lone_GetMetadata(1) [OF meta key(1) md(1)])
  with zf.run.pipeline_read_into [OF made cdc md(2) key(2) sch, of wr out] key(1) w show ?thesis
    by (cases r) (simp_all add: client_Read_def client_ReadWithMeta_def)
qed

lemma client_ReadWithMeta_into:
  assumes made: "made_of q m h (storage_ops (zcluster order ns) env kind) (dataPipeline c)" and cdc: "codecs_ok cdc" and pieces: "pieces \<noteq> []"
    and wrt: "zf.run.written ns env kind cdc dg q h (inputs_of (dataPipeline c) pieces) (md_Chunks md) (cw_data x)"
    and sch: "schedule_ok (length (inputs_of (dataPipeline c) pieces)) (cw_sched x 0)"
  shows "client_ReadWithMeta cdc dg c (convertProtoToInMemoryMetadata (convertInMemoryToProtoMetadata md)) (Some wr) x out =
    (case write_all wr (inputs_of (dataPipeline c) pieces) out of (r, out') \<Rightarrow> rbind (map_err (ErrPipeline \<circ> ErrWriter) r) (\<lambda>_. Ok out'))"
proof -
  obtain r out' where w: "write_all wr (inputs_of (dataPipeline c) pieces) out = (r, out')" by fastforce
  with zf.run.pipeline_read_into [OF made cdc wrt pieces sch, of wr out] show ?thesis
    by (cases r) (simp_all add: client_ReadWithMeta_def metadata_roundtrip)
qed

lemma os_Write_ok:
  "fs_write_err fs path = None \<Longrightarrow> fs_files fs path = Some old \<Longrightarrow>
     os_Write path d fs = (Ok (), fs\<lparr>fs_files := (fs_files fs)(path \<mapsto> old @ d)\<rparr>)"
  by (simp add: os_Write_def)

lemma write_all_file:
  "fs_write_err fs path = None \<Longrightarrow> fs_files fs path = Some old \<Longrightarrow>
     write_all (os_Write path) ds fs = (Ok (), fs\<lparr>fs_files := (fs_files fs)(path \<mapsto> old @ concat ds)\<rparr>)"
proof (induction ds arbitrary: fs old)
  case Nil
  then have "fs_files fs = (fs_files fs)(path \<mapsto> old @ concat [])" by (auto simp: fun_upd_idem)
  then show ?case by simp
next
  case (Cons d ds)
  let ?fs = "fs\<lparr>fs_files := (fs_files fs)(path \<mapsto> old @ d)\<rparr>"
  have "write_all (os_Write path) ds ?fs = (Ok (), ?fs\<lparr>fs_files := (fs_files ?fs)(path \<mapsto> (old @ d) @ concat ds)\<rparr>)"
    by (rule Cons.IH) (use Cons.prems in simp_all)
  then show ?case using Cons.prems by (simp add: os_Write_ok, simp add: fun_upd_def)
qed

text \<open>A file that was written: an entry that describes it, and metadata that does.\<close>

definition served ::
  "(memory_DB \<Rightarrow> bytes list) \<Rightarrow> string \<Rightarrow> zworld environment \<Rightarrow> storage_kind \<Rightarrow> codecs \<Rightarrow> digest \<Rightarrow> (metastor_DB, zworld \<times> nat) zstor_Client \<Rightarrow>
   bytes \<Rightarrow> Metadata \<Rightarrow> bytes list \<Rightarrow> metastor_DB \<Rightarrow> zworld \<times> nat \<Rightarrow> bool" where
  "served order ns env kind cdc dg c key md pieces s data \<longleftrightarrow>
     (\<exists>q m h. made_of q m h (storage_ops (zcluster order ns) env kind) (dataPipeline c) \<and> codecs_ok cdc \<and> mc_db (metastorClient c) = lone_DB \<and>
        key \<noteq> [] \<and> pieces \<noteq> [] \<and> [] \<notin> set pieces \<and> describes ns env kind cdc dg q h c s data key pieces \<and>
        zf.run.written ns env kind cdc dg q h (inputs_of (dataPipeline c) pieces) (md_Chunks md) data)"

lemma read_input_served:
  assumes sv: "served order ns env kind cdc dg c key md pieces s (cw_data x)"
    and inp: "inp \<in> {KeyInput key, MetadataInput (Some (convertInMemoryToProtoMetadata md))}"
    and sch: "schedule_ok (length (inputs_of (dataPipeline c) pieces)) (cw_sched x 0)"
    and wr: "write_all wr (inputs_of (dataPipeline c) pieces) out = (r, out')"
  shows "read_input cdc dg c inp wr (s, x) out = Ok (rbind (map_err (ErrPipeline \<circ> ErrWriter) r) (\<lambda>_. Ok out'))"
proof -
  from sv obtain q m h where a: "made_of q m h (storage_ops (zcluster order ns) env kind) (dataPipeline c)" "codecs_ok cdc"
    "mc_db (metastorClient c) = lone_DB" "key \<noteq> []" "pieces \<noteq> []" "describes ns env kind cdc dg q h c s (cw_data x) key pieces"
    "zf.run.written ns env kind cdc dg q h (inputs_of (dataPipeline c) pieces) (md_Chunks md) (cw_data x)"
    unfolding served_def by blast
  from client_Read_into [OF a(1-6) sch, of wr out] client_ReadWithMeta_into [OF a(1,2,5,7) sch, of wr out] wr inp a(4) show ?thesis
    by (auto simp: read_input_def)
qed

lemma served_write:
  assumes c: "zstor_configured lib numCPU order ns env cfg nShards jobCount kind pb cdc mcfg c"
    and wr: "writable (dataPipeline c) (key, piped (dataPipeline c) datas) (cw_sched x 0)" and rand: "12 \<le> length (mw_rand x)"
    and room: "cluster_ready order ns env kind (length (inputs_of (dataPipeline c) (piped (dataPipeline c) datas))) (fst (cw_data x))"
  shows "\<exists>md s' x'. client_Write cdc dg c key (Some (pipe_Reader (dataPipeline c) datas)) (s, x) = Some (Ok (md, s', x')) \<and>
    served order ns env kind cdc dg c key md (piped (dataPipeline c) datas) s' (cw_data x')"
proof -
  let ?pieces = "piped (dataPipeline c) datas"
  from c have cdc: "codecs_ok cdc" "\<forall>c x. \<exists>y. compress cdc c x = Ok y" by (simp_all add: zstor_configured_def)
  obtain q m h where made: "made_of q m h (storage_ops (zcluster order ns) env kind) (dataPipeline c)"
    and meta: "codec_ok 12 (metastorClient c)" "mc_db (metastorClient c) = lone_DB"
    and ready: "zf.ready order ns env kind (length (inputs_of (dataPipeline c) ?pieces) + 0) (cw_data x)"
    using configured_parts [OF c, of "length (inputs_of (dataPipeline c) ?pieces)" x] room by auto
  have "key \<noteq> []" "?pieces \<noteq> []" "[] \<notin> set ?pieces" using wr by (simp_all add: writable_def)
  moreover obtain md s' x' where w: "client_Write cdc dg c key (Some (reads_of ?pieces)) (s, x) = Some (Ok (md, s', x'))"
      "describes ns env kind cdc dg q h c s' (cw_data x') key ?pieces"
      "zf.run.written ns env kind cdc dg q h (inputs_of (dataPipeline c) ?pieces) (md_Chunks md) (cw_data x')"
    using client_Write_spec [OF made cdc meta rand wr ready, of dg s] by (elim exE conjE) (rule that)
  ultimately have "served order ns env kind cdc dg c key md ?pieces s' (cw_data x')"
    unfolding served_def using made cdc(1) meta(2) by (intro exI [of _ q] exI [of _ m] exI [of _ h] conjI)
  with w(1) show ?thesis by (intro exI conjI) (simp_all add: pipe_Reader_def piped_def)
qed

lemma served_reads:
  assumes sv: "served order ns env kind cdc dg c key md pieces s (cw_data x)"
    and inp: "inp \<in> {KeyInput key, MetadataInput (Some (convertInMemoryToProtoMetadata md))}"
    and sch: "schedule_ok (length (inputs_of (dataPipeline c) pieces)) (cw_sched x 0)"
  shows "file_Read cdc dg c inp (s, x) = Ok (concat pieces)"
    "0 < n \<Longrightarrow> \<exists>chunks. file_ReadStream cdc dg c collecting n inp (s, x) [] = Some (Ok (), Some chunks) \<and> concat chunks = concat pieces \<and>
       (\<forall>d\<in>set chunks. d \<noteq> [] \<and> length d \<le> nat n)"
    "path \<noteq> [] \<Longrightarrow> mode \<in> {0, 1, 2} \<Longrightarrow> fs_open_err fs path = None \<Longrightarrow> fs_write_err fs path = None \<Longrightarrow> mode \<noteq> 2 \<or> fs_files fs path = None \<Longrightarrow>
       file_ReadFile cdc dg c False inp path mode sync (s, x) fs =
         (Ok (), Some (fs\<lparr>fs_files := (fs_files fs)(path \<mapsto>
            (case fs_files fs path of Some old \<Rightarrow> if mode = 1 then old else [] | None \<Rightarrow> []) @ concat pieces)\<rparr>))"
proof -
  let ?in = "inputs_of (dataPipeline c) pieces"
  have ne: "pieces \<noteq> []" "[] \<notin> set pieces" using sv by (auto simp: served_def)
  have all: "concat ?in = concat pieces" by (cases "dataPipeline c") simp_all
  have some: "concat pieces \<noteq> []" using ne by (cases pieces) auto
  have ine: "[] \<notin> set ?in" using ne some by (cases "dataPipeline c") auto
  note rd = read_input_served [OF sv inp sch]
  show "file_Read cdc dg c inp (s, x) = Ok (concat pieces)" using rd [of appending "[]" "Ok ()" "concat pieces"] some all by (simp add: file_Read_def)
  show "\<exists>chunks. file_ReadStream cdc dg c collecting n inp (s, x) [] = Some (Ok (), Some chunks) \<and> concat chunks = concat pieces \<and>
       (\<forall>d\<in>set chunks. d \<noteq> [] \<and> length d \<le> nat n)" if "0 < n"
  proof -
    have n: "0 < nat n" using that by simp
    have "read_input cdc dg c inp (pipe_Write (nat n) collecting) (s, x) \<lparr>pipe_out = [], pipe_failed = None\<rparr> =
        Ok (Ok \<lparr>pipe_out = sent_pieces (nat n) ?in, pipe_failed = None\<rparr>)"
      using rd [of "pipe_Write (nat n) collecting" "\<lparr>pipe_out = [], pipe_failed = None\<rparr>" "Ok ()" "\<lparr>pipe_out = sent_pieces (nat n) ?in, pipe_failed = None\<rparr>"]
      by (simp add: write_all_collecting)
    then show ?thesis using that sent_pieces [OF n, of ?in] ine all
      by (intro exI [of _ "sent_pieces (nat n) ?in"]) (auto simp: file_ReadStream_def)
  qed
  show "file_ReadFile cdc dg c False inp path mode sync (s, x) fs =
         (Ok (), Some (fs\<lparr>fs_files := (fs_files fs)(path \<mapsto>
            (case fs_files fs path of Some old \<Rightarrow> if mode = 1 then old else [] | None \<Rightarrow> []) @ concat pieces)\<rparr>))"
    if asm: "path \<noteq> []" "mode \<in> {0, 1, 2}" "fs_open_err fs path = None" "fs_write_err fs path = None" "mode \<noteq> 2 \<or> fs_files fs path = None"
  proof -
    let ?old = "if mode = 1 then (case fs_files fs path of None \<Rightarrow> [] | Some c \<Rightarrow> c) else []"
    let ?fs = "fs\<lparr>fs_files := (fs_files fs)(path \<mapsto> ?old)\<rparr>"
    obtain flags where flags: "convertFileModeToSyscallFlags mode = Ok flags" using asm(2) by (auto simp: convertFileModeToSyscallFlags_def Let_def)
    have opened: "openFileToWrite path mode sync fs = (Ok (), ?fs)"
      using asm openFile_mode [OF flags asm(3), of sync] by (simp add: openFileToWrite_def flags)
    have "read_input cdc dg c inp (os_Write path) (s, x) ?fs = Ok (Ok (?fs\<lparr>fs_files := (fs_files ?fs)(path \<mapsto> ?old @ concat ?in)\<rparr>))"
      by (subst rd, rule write_all_file) (use asm in simp_all)
    then show ?thesis using opened all by (simp add: file_ReadFile_def split: option.splits)
  qed
qed


text \<open>The file of a configuration with splitting, compression, encryption and erasure coding.\<close>

lemma demo_file:
  assumes c: "zstor_configured demo_reedsolomon 1 (\<lambda>_. []) ''ns'' env demo_config 3 0 kind demo_pb demo_codecs None c"
    and room: "cluster_ready (\<lambda>_. []) ''ns'' env kind 4 demo_world" and inputs: "\<And>pieces. inputs_of (dataPipeline c) pieces = pieces"
  shows "piped (dataPipeline c) [[1, 2], [3]] = [[1, 2], [3]]"
    "writable (dataPipeline c) ([7], piped (dataPipeline c) [[1, 2], [3]]) (cw_sched demo_client_world 0)"
    "12 \<le> length (mw_rand demo_client_world)"
    "cluster_ready (\<lambda>_. []) ''ns'' env kind (length (inputs_of (dataPipeline c) (piped (dataPipeline c) [[1, 2], [3]]))) (fst (cw_data demo_client_world))"
proof -
  have "read_size (dataPipeline c) = 2" using configured_read_size(1) [OF c] by (simp add: demo_config_def)
  then show p: "piped (dataPipeline c) [[1, 2], [3]] = [[1, 2], [3]]" by (simp add: piped_def cut_step)
  show "writable (dataPipeline c) ([7], piped (dataPipeline c) [[1, 2], [3]]) (cw_sched demo_client_world 0)"
    using demo_schedule_ok unfolding p by (simp add: writable_def inputs demo_client_world_def numeral_2_eq_2)
  show "12 \<le> length (mw_rand demo_client_world)" by (simp add: demo_client_world_def)
  show "cluster_ready (\<lambda>_. []) ''ns'' env kind (length (inputs_of (dataPipeline c) (piped (dataPipeline c) [[1, 2], [3]]))) (fst (cw_data demo_client_world))"
    using cluster_ready_less [OF room, of 2] unfolding p by (simp add: inputs demo_client_world_def numeral_2_eq_2)
qed


section \<open>Streams that break off\<close>

text \<open>
  C21.  An upload that breaks off is stored all the same: the goroutine that receives it closes the pipe,
  the client takes that for the end of the file, and stores what has arrived under the key, in place of
  what was there, while the caller is told that the call has failed.
\<close>

theorem aborted_upload_stored:
  assumes c: "zstor_configured lib numCPU order ns env cfg nShards jobCount kind pb cdc mcfg c"
    and wr: "writable (dataPipeline c) (key, piped (dataPipeline c) datas) (cw_sched x 0)" "[] \<notin> set datas" and rand: "12 \<le> length (mw_rand x)"
    and room: "cluster_ready order ns env kind (length (inputs_of (dataPipeline c) (piped (dataPipeline c) datas))) (fst (cw_data x))"
  shows "\<exists>s' x'. file_WriteStream cdc dg c rc None (Recv (KeyMsg key) # map (Recv \<circ> DataMsg) datas @ RecvErr e # msgs) (s, x) =
      Some (Err (StreamErr e), Some (s', x')) \<and>
    (\<forall>sch. schedule_ok (length (inputs_of (dataPipeline c) (piped (dataPipeline c) datas))) (sch 0) \<longrightarrow>
      file_Read cdc dg c (KeyInput key) (s', x'\<lparr>cw_sched := sch\<rparr>) = Ok (concat datas))"
proof -
  have key: "key \<noteq> []" using wr(1) by (simp add: writable_def)
  obtain md s' x' where w: "client_Write cdc dg c key (Some (pipe_Reader (dataPipeline c) datas)) (s, x) = Some (Ok (md, s', x'))"
    "served order ns env kind cdc dg c key md (piped (dataPipeline c) datas) s' (cw_data x')" using served_write [OF c wr(1) rand room] by blast
  have "file_WriteStream cdc dg c rc None (Recv (KeyMsg key) # map (Recv \<circ> DataMsg) datas @ RecvErr e # msgs) (s, x) =
      Some (Err (StreamErr e), Some (s', x'))"
    using w(1) key pump_aborted [OF wr(2), of e] by (simp add: comp_def)
  moreover have "served order ns env kind cdc dg c key md (piped (dataPipeline c) datas) s' (cw_data (x'\<lparr>cw_sched := sch\<rparr>))" for sch using w(2) by simp
  note rd = served_reads(1) [OF this, simplified concat_piped [OF configured_read_size(2) [OF c]]]
  ultimately show ?thesis by (intro exI conjI) (assumption, intro allI impI, rule rd, simp_all)
qed

theorem aborted_upload_stored_witness:
  "\<exists>env kind c s x. zstor_configured demo_reedsolomon 1 (\<lambda>_. []) ''ns'' env demo_config 3 0 kind demo_pb demo_codecs None c \<and>
     file_WriteStream demo_codecs (\<lambda>alg d. d) c \<lparr>drained = False, pump_first = False\<rparr> None
       [Recv (KeyMsg [7]), Recv (DataMsg [1, 2]), Recv (DataMsg [3]), RecvErr ''canceled''] (metastor_New, demo_client_world) =
         Some (Err (StreamErr ''canceled''), Some (s, x)) \<and>
     file_Read demo_codecs (\<lambda>alg d. d) c (KeyInput [7]) (s, x\<lparr>cw_sched := (\<lambda>_. demo_schedule)\<rparr>) = Ok [1, 2, 3]"
proof -
  obtain env kind c where c: "zstor_configured demo_reedsolomon 1 (\<lambda>_. []) ''ns'' env demo_config 3 0 kind demo_pb demo_codecs None c"
    and room: "cluster_ready (\<lambda>_. []) ''ns'' env kind 4 demo_world" and inputs: "\<And>pieces. inputs_of (dataPipeline c) pieces = pieces"
    using demo_client by blast
  note d = demo_file [OF c room inputs]
  have ne: "[] \<notin> set [[1, 2], [3 :: byte]]" by simp
  from aborted_upload_stored [OF c d(2) ne d(3,4), of "\<lambda>alg d. d" "\<lparr>drained = False, pump_first = False\<rparr>" "''canceled''" "[]" metastor_New]
  obtain s x where r: "file_WriteStream demo_codecs (\<lambda>alg d. d) c \<lparr>drained = False, pump_first = False\<rparr> None
       [Recv (KeyMsg [7]), Recv (DataMsg [1, 2]), Recv (DataMsg [3]), RecvErr ''canceled''] (metastor_New, demo_client_world) =
         Some (Err (StreamErr ''canceled''), Some (s, x))"
    "\<forall>sch. schedule_ok (length (inputs_of (dataPipeline c) (piped (dataPipeline c) [[1, 2], [3]]))) (sch 0) \<longrightarrow>
      file_Read demo_codecs (\<lambda>alg d. d) c (KeyInput [7]) (s, x\<lparr>cw_sched := sch\<rparr>) = Ok (concat [[1, 2], [3]])"
    by (elim exE conjE) (rule that, simp, blast)
  have "file_Read demo_codecs (\<lambda>alg d. d) c (KeyInput [7]) (s, x\<lparr>cw_sched := (\<lambda>_. demo_schedule)\<rparr>) = Ok [1, 2, 3]"
    using r(2) [rule_format, of "\<lambda>_. demo_schedule"] demo_schedule_ok(1) unfolding d(1) by (simp add: inputs numeral_2_eq_2)
  with c r(1) show ?thesis by (intro exI conjI)
qed

text \<open>A stream that refuses what it is sent.\<close>

definition refusing :: "string \<Rightarrow> 'o writer" where
  "refusing e d out = (Err e, out)"

lemma write_all_refusing:
  assumes "pipe_failed p = None" "[] \<notin> set ds" "0 < n" "n < length (concat ds)"
  shows "\<exists>p'. write_all (pipe_Write n (refusing e)) ds p = (Err blocked, p')"
proof (cases ds)
  case (Cons d ds')
  with assms have d: "d \<noteq> []" by auto
  then have c: "cut n d = take n d # cut n (drop n d)" using assms(3) by (rule cut_step)
  show ?thesis
  proof (cases "cut n (drop n d) = []")
    case True
    then have "drop n d = []" using cut_ne assms(3) by blast
    then have "ds' \<noteq> []" using assms(4) Cons by auto
    then obtain d' ds'' where "ds' = d' # ds''" by (cases ds') auto
    then show ?thesis using assms(1) Cons d c True by (simp add: pipe_Write_def refusing_def)
  next
    case False
    then show ?thesis using assms(1) Cons d c by (simp add: pipe_Write_def refusing_def)
  qed
qed (use assms in simp)



end
