(* ===== verification/Daemon_Namespaces.thy ===== *)
theory Daemon_Namespaces
  imports Daemon_Types Iyo_Client
begin

text \<open>
  The namespace service of the client daemon (\<open>daemon/api/grpc/namespace_api.go\<close>), on the client of the
  identity service, or without one.
\<close>

section \<open>The client of the service\<close>

datatype namespace_err = IyoErr iyo_error | WrappedErr string string string iyo_error

type_synonym ('i, 'a) ns_op = "('i, namespace_err service_err, 'a) op"

record 'i namespaceClient =
  nc_CreateNamespace :: "string \<Rightarrow> ('i, unit) ns_op"
  nc_DeleteNamespace :: "string \<Rightarrow> ('i, unit) ns_op"
  nc_SetPermission :: "string \<Rightarrow> string \<Rightarrow> Permission \<Rightarrow> ('i, unit) ns_op"
  nc_GetPermission :: "string \<Rightarrow> string \<Rightarrow> ('i, Permission) ns_op"

definition computePermissionsToRemove :: "Permission \<Rightarrow> Permission \<Rightarrow> Permission" where
  "computePermissionsToRemove current toRemove =
     \<lparr>perm_Read = perm_Read current \<and> \<not> perm_Read toRemove, perm_Write = perm_Write current \<and> \<not> perm_Write toRemove,
      perm_Delete = perm_Delete current \<and> \<not> perm_Delete toRemove, perm_Admin = perm_Admin current \<and> \<not> perm_Admin toRemove\<rparr>"

definition computePermissionsToGive :: "Permission \<Rightarrow> Permission \<Rightarrow> Permission" where
  "computePermissionsToGive current toGive =
     \<lparr>perm_Read = \<not> perm_Read current \<and> perm_Read toGive, perm_Write = \<not> perm_Write current \<and> perm_Write toGive,
      perm_Delete = \<not> perm_Delete current \<and> perm_Delete toGive, perm_Admin = \<not> perm_Admin current \<and> perm_Admin toGive\<rparr>"

definition SetPermission :: "'i iyo_api \<Rightarrow> iyo_Config \<Rightarrow> string \<Rightarrow> string \<Rightarrow> Permission \<Rightarrow> ('i, unit) ns_op" where
  "SetPermission api cfg namespace userID perm i =
     obind (omap_err (\<lambda>e. ClientErr (WrappedErr ''failed to retrieve permission(s) for'' userID namespace e)) (GetPermission api cfg namespace userID i))
       (\<lambda>currentPermissions i.
     obind (omap_err (\<lambda>e. ClientErr (WrappedErr ''failed to remove permission(s) for'' userID namespace e))
         (RemovePermission api cfg namespace userID (computePermissionsToRemove currentPermissions perm) i)) (\<lambda>_ i.
       omap_err (\<lambda>e. ClientErr (WrappedErr ''fail to give permission(s) for'' userID namespace e))
         (GivePermission api cfg namespace userID (computePermissionsToGive currentPermissions perm) i)))"

definition iyoClient :: "'i iyo_api \<Rightarrow> iyo_Config \<Rightarrow> 'i namespaceClient" where
  "iyoClient api cfg = \<lparr>nc_CreateNamespace = (\<lambda>ns i. omap_err (ClientErr \<circ> IyoErr) (CreateNamespace api cfg ns i)),
     nc_DeleteNamespace = (\<lambda>ns i. omap_err (ClientErr \<circ> IyoErr) (DeleteNamespace api cfg ns i)),
     nc_SetPermission = SetPermission api cfg,
     nc_GetPermission = (\<lambda>ns u i. omap_err (ClientErr \<circ> IyoErr) (GetPermission api cfg ns u i))\<rparr>"

definition nilIYOClient :: "'i namespaceClient" where
  "nilIYOClient = \<lparr>nc_CreateNamespace = (\<lambda>_ i. (Err (GrpcErr ErrGRPCNotSupported), i)),
     nc_DeleteNamespace = (\<lambda>_ i. (Err (GrpcErr ErrGRPCNotSupported), i)),
     nc_SetPermission = (\<lambda>_ _ _ i. (Err (GrpcErr ErrGRPCNotSupported), i)),
     nc_GetPermission = (\<lambda>_ _ i. (Err (GrpcErr ErrGRPCNotSupported), i))\<rparr>"

definition namespaceClientFromIYOClient :: "'i iyo_api \<Rightarrow> iyo_Config option \<Rightarrow> 'i namespaceClient" where
  "namespaceClientFromIYOClient api client = (case client of None \<Rightarrow> nilIYOClient | Some cfg \<Rightarrow> iyoClient api cfg)"

section \<open>The service\<close>

definition namespace_CreateNamespace :: "'i namespaceClient \<Rightarrow> string \<Rightarrow> ('i, unit) ns_op" where
  "namespace_CreateNamespace client namespace i =
     (if length namespace = 0 then (Err (GrpcErr ErrGRPCNilNamespace), i) else nc_CreateNamespace client namespace i)"

definition namespace_DeleteNamespace :: "'i namespaceClient \<Rightarrow> string \<Rightarrow> ('i, unit) ns_op" where
  "namespace_DeleteNamespace client namespace i =
     (if length namespace = 0 then (Err (GrpcErr ErrGRPCNilNamespace), i) else nc_DeleteNamespace client namespace i)"

definition namespace_SetPermission :: "'i namespaceClient \<Rightarrow> string \<Rightarrow> string \<Rightarrow> Permission option \<Rightarrow> ('i, unit) ns_op" where
  "namespace_SetPermission client namespace userID perm i =
     (if length namespace = 0 then (Err (GrpcErr ErrGRPCNilNamespace), i)
      else if length userID = 0 then (Err (GrpcErr ErrGRPCNilUserID), i)
      else case perm of
        None \<Rightarrow> (Err (GrpcErr ErrGRPCNilPermissions), i)
      | Some perm \<Rightarrow>
          nc_SetPermission client namespace userID \<lparr>perm_Read = perm_Read perm, perm_Write = perm_Write perm,
            perm_Delete = perm_Delete perm, perm_Admin = perm_Admin perm\<rparr> i)"

definition namespace_GetPermission :: "'i namespaceClient \<Rightarrow> string \<Rightarrow> string \<Rightarrow> ('i, Permission) ns_op" where
  "namespace_GetPermission client namespace userID i =
     (if length namespace = 0 then (Err (GrpcErr ErrGRPCNilNamespace), i)
      else if length userID = 0 then (Err (GrpcErr ErrGRPCNilUserID), i)
      else obind (nc_GetPermission client namespace userID i) (\<lambda>perm i.
        (Ok \<lparr>perm_Read = perm_Read perm, perm_Write = perm_Write perm, perm_Delete = perm_Delete perm, perm_Admin = perm_Admin perm\<rparr>, i)))"

section \<open>Permissions are set exactly\<close>

lemma permission_copy [simp]:
  "\<lparr>perm_Read = perm_Read p, perm_Write = perm_Write p, perm_Delete = perm_Delete p, perm_Admin = perm_Admin p\<rparr> = p"
  by (cases p) simp

lemma SetPermission_members:
  assumes api: "membership_service api members"
  shows "\<exists>i'. SetPermission api cfg ns u p i = (Ok (), i') \<and> permission_of (members i') cfg ns u = p \<and>
    (\<forall>m. m \<notin> (\<lambda>p. (permission_org cfg ns p, u)) ` permission_names \<longrightarrow> (m \<in> members i' \<longleftrightarrow> m \<in> members i))"
proof -
  let ?f = "\<lambda>p. (permission_org cfg ns p, u)" and ?old = "permission_of (members i) cfg ns u"
  let ?rem = "computePermissionsToRemove ?old p" and ?giv = "computePermissionsToGive ?old p"
  obtain i1 where r: "RemovePermission api cfg ns u ?rem i = (Ok (), i1)" "members i1 = members i - ?f ` set (perms ?rem)"
    using RemovePermission_members [OF api] by blast
  obtain i2 where g: "GivePermission api cfg ns u ?giv i1 = (Ok (), i2)" "members i2 = members i1 \<union> ?f ` set (perms ?giv)"
    using GivePermission_members [OF api] by blast
  have "SetPermission api cfg ns u p i = (Ok (), i2)" by (simp add: SetPermission_def GetPermission_members [OF api] r(1) g(1))
  moreover have "permission_of (members i2) cfg ns u = p"
    unfolding g(2) r(2) permission_of_change Let_def by (cases p) (auto simp: computePermissionsToRemove_def computePermissionsToGive_def)
  moreover have "m \<in> members i2 \<longleftrightarrow> m \<in> members i" if "m \<notin> ?f ` permission_names" for m
    using that perms_names [of ?rem] perms_names [of ?giv] unfolding g(2) r(2) by blast
  ultimately show ?thesis by blast
qed



text \<open>Without a client of the identity service no request is answered.\<close>

lemma no_namespaces_without_iyo:
  "ns \<noteq> [] \<Longrightarrow> namespace_CreateNamespace (namespaceClientFromIYOClient api None) ns i = (Err (GrpcErr ErrGRPCNotSupported), i)"
  by (simp add: namespace_CreateNamespace_def namespaceClientFromIYOClient_def nilIYOClient_def)

end
