(* ===== verification/Client_Config.thy ===== *)
theory Client_Config
  imports Jwt_Cache Daemon_Files Daemon_Namespaces
begin

text \<open>
  Clients and daemons made from a configuration: \<open>client/config.go\<close>, the constructors and \<open>Close\<close> of
  \<open>client/client.go\<close>, and \<open>daemon/api/grpc/daemon.go\<close>.

  Arguments of the model: the certificates of the system and the parsing of certificates, reading a
  file, dialling a zstordb server, and opening the metadata database at its endpoints.
\<close>

section \<open>TLS versions (config.go)\<close>

type_synonym TLSVersion = byte

definition UndefinedTLSVersion :: TLSVersion where "UndefinedTLSVersion = 0"
definition MaxTLSVersion :: TLSVersion where "MaxTLSVersion = 3"

definition TLSVersionStrings :: "string list" where
  "TLSVersionStrings = [''TLS12'', ''TLS11'', ''TLS10'']"

definition VersionTLS10 :: "16 word" where "VersionTLS10 = 0x0301"
definition VersionTLS11 :: "16 word" where "VersionTLS11 = 0x0302"
definition VersionTLS12 :: "16 word" where "VersionTLS12 = 0x0303"

definition TlsVersionValues :: "16 word list" where
  "TlsVersionValues = [VersionTLS12, VersionTLS11, VersionTLS10]"

definition TLSVersion_String :: "TLSVersion \<Rightarrow> string" where
  "TLSVersion_String v =
     (if v = UndefinedTLSVersion \<or> v > MaxTLSVersion then [] else TLSVersionStrings ! unat (v - 1))"

definition TLSVersion_MarshalText :: "TLSVersion \<Rightarrow> (string, string) result" where
  "TLSVersion_MarshalText v =
     (if v > MaxTLSVersion then Err ''invalid in-memory TLS version''
      else if v = UndefinedTLSVersion then Ok []
      else Ok (TLSVersionStrings ! unat (v - 1)))"

fun find_version :: "string \<Rightarrow> nat \<Rightarrow> string list \<Rightarrow> nat option" where
  "find_version str index [] = None"
| "find_version str index (verStr # vs) = (if verStr = str then Some index else find_version str (Suc index) vs)"

definition TLSVersion_UnmarshalText :: "string \<Rightarrow> (TLSVersion, string, unit) op" where
  "TLSVersion_UnmarshalText text v =
     (let str = ToUpper text in
      if length str = 0 then (Ok (), UndefinedTLSVersion)
      else (case find_version str 0 TLSVersionStrings of
              Some index \<Rightarrow> (Ok (), of_nat (index + 1))
            | None \<Rightarrow> (Err (''TLS version '' @ str @ '' not recognized or supported''), v)))"

definition VersionTLSOrDefault :: "TLSVersion \<Rightarrow> 16 word \<Rightarrow> ('e, 16 word) result" where
  "VersionTLSOrDefault v def =
     (if v > MaxTLSVersion then Panic
      else if v = UndefinedTLSVersion then Ok def
      else Ok (TlsVersionValues ! unat (v - 1)))"

section \<open>Configurations (config.go)\<close>

record DataStorTLSConfig =
  tls_Enabled :: bool
  tls_ServerName :: string
  tls_RootCA :: string
  tls_MinVersion :: TLSVersion
  tls_MaxVersion :: TLSVersion

record DataStorConfig =
  ds_Shards :: "string list"
  ds_Pipeline :: Config
  ds_TLS :: DataStorTLSConfig

record MetaStorConfig =
  ms_Endpoints :: "string list"
  ms_Encryption :: EncryptionConfig
  ms_Encoding :: enum

record client_Config =
  cc_IYO :: iyo_Config
  cc_Namespace :: string
  cc_DataStor :: DataStorConfig
  cc_MetaStor :: MetaStorConfig

datatype config_error =
    ConfigErr string | ConfigType type_error | ConfigIyo iyo_error | ConfigToken token_error
  | ConfigCluster client_error | ConfigPipeline pipeline_error

section \<open>Construction (client.go)\<close>

text \<open>A TLS configuration of the standard library; a version that is not set is 0.\<close>

record 'p tls_Config =
  tc_MinVersion :: "16 word"
  tc_MaxVersion :: "16 word"
  tc_ServerName :: string
  tc_InsecureSkipVerify :: bool
  tc_RootCAs :: 'p

record 'p certificates =
  x509_SystemCertPool :: "(string, 'p) result"
  x509_FromPEM :: "bytes \<Rightarrow> 'p option"
  cert_ReadFile :: "string \<Rightarrow> (string, bytes) result"

definition root_certificates :: "'p certificates \<Rightarrow> DataStorTLSConfig \<Rightarrow> (config_error, 'p) result" where
  "root_certificates certs config =
     (if tls_RootCA config = [] then map_err (\<lambda>e. ConfigErr (''failed to create datastor TLS config: '' @ e)) (x509_SystemCertPool certs)
      else rbind (map_err ConfigErr (cert_ReadFile certs (tls_RootCA config))) (\<lambda>caFile.
        case x509_FromPEM certs caFile of
          None \<Rightarrow> Err (ConfigErr (''error reading CA file '' @ tls_RootCA config))
        | Some pool \<Rightarrow> Ok pool))"

definition client_createTLSConfig :: "'p certificates \<Rightarrow> DataStorTLSConfig \<Rightarrow> (config_error, 'p tls_Config option) result" where
  "client_createTLSConfig certs config =
     (if \<not> tls_Enabled config then Ok None
      else rbind (VersionTLSOrDefault (tls_MinVersion config) VersionTLS11) (\<lambda>lo.
        rbind (VersionTLSOrDefault (tls_MaxVersion config) VersionTLS12) (\<lambda>hi.
        rbind (root_certificates certs config) (\<lambda>pool.
          Ok (Some \<lparr>tc_MinVersion = lo, tc_MaxVersion = hi, tc_ServerName = tls_ServerName config,
            tc_InsecureSkipVerify = (tls_ServerName config = []), tc_RootCAs = pool\<rparr>)))))"

definition create_metastor ::
  "pb_codec \<Rightarrow> codecs \<Rightarrow> ((Metadata \<Rightarrow> (string, bytes) result) \<times> (bytes \<Rightarrow> Metadata \<Rightarrow> (string, Metadata) result)) registry \<Rightarrow>
   MetaStorConfig \<Rightarrow> ('s, 'x, 'e) meta_DB \<Rightarrow> (config_error, ('s, 'x, 'e) metastor_Client) result" where
  "create_metastor pb lib reg cfg db =
     rbind (map_err ConfigType (NewMarshalFuncPair reg (ms_Encoding cfg))) (\<lambda>(marshal, unmarshal).
       let config = \<lparr>mcfg_Database = Some db, mcfg_MarshalFuncPair = Some (Some marshal, Some unmarshal), mcfg_ProcessorConstructor = None\<rparr> in
       if length (enc_PrivateKey (ms_Encryption cfg)) = 0 then map_err ConfigErr (metastor_NewClient pb lib config)
       else
         let pc = NewEncrypterDecrypter encryption_types (enc_Type (ms_Encryption cfg)) (ascii (enc_PrivateKey (ms_Encryption cfg))) in
         rbind (map_err ConfigErr (fst (pc []))) (\<lambda>_.
           map_err ConfigErr (metastor_NewClient pb lib (config\<lparr>mcfg_ProcessorConstructor := Some pc\<rparr>))))"

definition create_metastor_at ::
  "pb_codec \<Rightarrow> codecs \<Rightarrow> ((Metadata \<Rightarrow> (string, bytes) result) \<times> (bytes \<Rightarrow> Metadata \<Rightarrow> (string, Metadata) result)) registry \<Rightarrow>
   (string list \<Rightarrow> (string, ('s, 'x, 'e) meta_DB) result) \<Rightarrow> MetaStorConfig \<Rightarrow> (config_error, ('s, 'x, 'e) metastor_Client) result" where
  "create_metastor_at pb lib reg etcd_New cfg =
     (if length (ms_Endpoints cfg) = 0 then Err (ConfigErr ''no metadata storage ETCD endpoints given'')
      else rbind (map_err ConfigErr (etcd_New (ms_Endpoints cfg))) (\<lambda>db. create_metastor pb lib reg cfg db))"

text \<open>The tokens that a cluster presents to its servers.\<close>

datatype 'i token_source = NoTokens | Tokens "'i JWTTokenGetter" | CachedTokens "'i JWTTokenGetter" JWTTokenGetterCache

definition iyo_tokens :: "'i iyo_api \<Rightarrow> 'k parser \<Rightarrow> 'k \<Rightarrow> bool \<Rightarrow> string \<Rightarrow> iyo_Config \<Rightarrow> (config_error, 'i token_source) result" where
  "iyo_tokens api parse key enableCaching organization client =
     rbind (map_err ConfigToken (JWTTokenGetterUsingIYOClient parse key organization (Some (\<lambda>i ns p. CreateJWT api client ns p i)))) (\<lambda>getter.
       if enableCaching then rbind (map_err ConfigToken (CachedJWTTokenGetter (Some getter) (- 1) (- 1))) (\<lambda>cache. Ok (CachedTokens getter cache))
       else Ok (Tokens getter))"

type_synonym ('p, 'i) dialler = "'p tls_Config option \<Rightarrow> 'i token_source \<Rightarrow> string \<Rightarrow> (client_error, unit) result"

definition client_createDataCluster ::
  "'p certificates \<Rightarrow> 'i iyo_api \<Rightarrow> 'k parser \<Rightarrow> 'k \<Rightarrow> ('p, 'i) dialler \<Rightarrow> client_Config \<Rightarrow> bool \<Rightarrow> (config_error, grpc_Cluster) result" where
  "client_createDataCluster certs api parse key dial cfg enableCaching =
     rbind (client_createTLSConfig certs (ds_TLS (cc_DataStor cfg))) (\<lambda>tlsConfig.
       let cluster = (\<lambda>tokens. map_err ConfigCluster (NewCluster (dial tlsConfig tokens) (ds_Shards (cc_DataStor cfg)) (cc_Namespace cfg))) in
       if cc_IYO cfg = \<lparr>Organization = [], ApplicationID = [], ApplicationSecret = []\<rparr> then cluster NoTokens
       else rbind (map_err ConfigIyo (iyo_NewClient (cc_IYO cfg))) (\<lambda>client.
         rbind (iyo_tokens api parse key enableCaching (Organization (cc_IYO cfg)) client) cluster))"

definition client_NewClient ::
  "('s, 'w client_world, zstor_err) metastor_Client option \<Rightarrow> 'w Pipeline option \<Rightarrow> ('e, ('s, 'w) zstor_Client) result" where
  "client_NewClient metaClient pipeline =
     (case (metaClient, pipeline) of
        (None, _) \<Rightarrow> Panic
      | (Some mc, None) \<Rightarrow> Panic
      | (Some mc, Some p) \<Rightarrow> Ok \<lparr>dataPipeline = p, metastorClient = mc\<rparr>)"

text \<open>The machine that a client runs on: its processors, the erasure code library, and the servers behind a cluster.\<close>

record 'w machine =
  mac_NumCPU :: nat
  mac_reedsolomon :: reedsolomon_New
  mac_cluster :: "grpc_Cluster \<Rightarrow> 'w Cluster"
  mac_environment :: "grpc_Cluster \<Rightarrow> 'w environment"

definition make_pipeline :: "'w machine \<Rightarrow> Config \<Rightarrow> grpc_Cluster \<Rightarrow> int \<Rightarrow> (config_error, ('w \<times> nat) Pipeline) result" where
  "make_pipeline mac cfg cluster jobCount =
     map_err ConfigPipeline (NewPipeline (mac_reedsolomon mac) (mac_NumCPU mac) (mac_cluster mac cluster) (mac_environment mac cluster)
       cfg (Some (ListedShardCount cluster)) jobCount)"

definition newClientFromConfig ::
  "'w machine \<Rightarrow> (client_Config \<Rightarrow> bool \<Rightarrow> (config_error, grpc_Cluster) result) \<Rightarrow>
   (MetaStorConfig \<Rightarrow> (config_error, ('s, ('w \<times> nat) client_world, zstor_err) metastor_Client) result) \<Rightarrow>
   client_Config \<Rightarrow> int \<Rightarrow> bool \<Rightarrow> (config_error, ('s, 'w \<times> nat) zstor_Client) result" where
  "newClientFromConfig mac createCluster createMetastor cfg jobCount enableCaching =
     rbind (createCluster cfg enableCaching) (\<lambda>datastorCluster.
     rbind (make_pipeline mac (ds_Pipeline (cc_DataStor cfg)) datastorCluster jobCount) (\<lambda>p.
     rbind (createMetastor (cc_MetaStor cfg)) (\<lambda>mc.
       client_NewClient (Some mc) (Some p))))"

text \<open>\<open>Close\<close> closes the metadata client and the pipeline, and reports the errors of both.\<close>

fun closeErrors_Error :: "string list \<Rightarrow> string" where
  "closeErrors_Error [] = []"
| "closeErrors_Error (e # es) = e @ '';'' @ closeErrors_Error es"

definition client_Close ::
  "('s, 'w) zstor_Client \<Rightarrow> (zstor_err meta_error \<Rightarrow> string) \<Rightarrow> ('w, string, unit) op \<Rightarrow> ('s \<times> 'w, string list, unit) op" where
  "client_Close c text_of pipeline_Close st =
     (case metastor_Client_Close (metastorClient c) (fst st) of
        (Panic, s) \<Rightarrow> (Panic, s, snd st)
      | (r1, s) \<Rightarrow>
          (case pipeline_Close (snd st) of
             (Panic, w) \<Rightarrow> (Panic, s, w)
           | (r2, w) \<Rightarrow>
               let ce = (case r1 of Err e \<Rightarrow> [text_of e] | _ \<Rightarrow> []) @ (case r2 of Err e \<Rightarrow> [e] | _ \<Rightarrow> []) in
               (if length ce > 0 then Err ce else Ok (), s, w)))"

section \<open>The daemon (daemon.go)\<close>

record ('s, 'w) daemon_Config =
  dcf_Pipeline :: "'w Pipeline option"
  dcf_MetaClient :: "('s, 'w client_world, zstor_err) metastor_Client option"
  dcf_IYOClient :: "iyo_Config option"
  dcf_MaxMsgSize :: int
  dcf_DisableLocalFSAccess :: bool

definition DefaultMaxMsgSize :: int where "DefaultMaxMsgSize = 32"

definition validateAndSanitize :: "('s, 'w) daemon_Config \<Rightarrow> (config_error, ('s, 'w) daemon_Config) result" where
  "validateAndSanitize cfg =
     (if dcf_Pipeline cfg = None then Err (ConfigErr ''no pipeline given, while one is required'')
      else if dcf_MetaClient cfg = None then Err (ConfigErr ''no metastor client given, while one is required'')
      else Ok (if dcf_MaxMsgSize cfg \<le> 0 then cfg\<lparr>dcf_MaxMsgSize := DefaultMaxMsgSize\<rparr> else cfg))"

text \<open>The versions of the configuration are not used here.\<close>

definition daemon_createTLSConfig :: "'p certificates \<Rightarrow> DataStorTLSConfig \<Rightarrow> (config_error, 'p tls_Config option) result" where
  "daemon_createTLSConfig certs config =
     (if \<not> tls_Enabled config then Ok None
      else rbind (root_certificates certs config) (\<lambda>pool.
        Ok (Some \<lparr>tc_MinVersion = 0, tc_MaxVersion = 0, tc_ServerName = tls_ServerName config,
          tc_InsecureSkipVerify = (tls_ServerName config = []), tc_RootCAs = pool\<rparr>)))"

definition daemon_createDataCluster ::
  "'p certificates \<Rightarrow> 'i iyo_api \<Rightarrow> 'k parser \<Rightarrow> 'k \<Rightarrow> ('p, 'i) dialler \<Rightarrow> client_Config \<Rightarrow> iyo_Config option \<Rightarrow> (config_error, grpc_Cluster) result" where
  "daemon_createDataCluster certs api parse key dial cfg iyo =
     rbind (daemon_createTLSConfig certs (ds_TLS (cc_DataStor cfg))) (\<lambda>tlsConfig.
       let cluster = (\<lambda>tokens. map_err ConfigCluster (NewCluster (dial tlsConfig tokens) (ds_Shards (cc_DataStor cfg)) (cc_Namespace cfg))) in
       (case iyo of
          None \<Rightarrow> cluster NoTokens
        | Some client \<Rightarrow> rbind (iyo_tokens api parse key True (Organization (cc_IYO cfg)) client) cluster))"

text \<open>A daemon that is ready to serve: what its services work on.\<close>

record ('s, 'w, 'i) daemon =
  d_client :: "('s, 'w) zstor_Client"
  d_namespaces :: "'i namespaceClient"
  d_maxMsgBytes :: int
  d_disableLocalFSAccess :: bool

definition daemon_New :: "'i iyo_api \<Rightarrow> ('s, 'w) daemon_Config \<Rightarrow> (config_error, ('s, 'w, 'i) daemon) result" where
  "daemon_New api cfg =
     rbind (validateAndSanitize cfg) (\<lambda>cfg.
     rbind (client_NewClient (dcf_MetaClient cfg) (dcf_Pipeline cfg)) (\<lambda>client.
       Ok \<lparr>d_client = client, d_namespaces = namespaceClientFromIYOClient api (dcf_IYOClient cfg),
         d_maxMsgBytes = dcf_MaxMsgSize cfg * 1024 * 1024, d_disableLocalFSAccess = dcf_DisableLocalFSAccess cfg\<rparr>))"

definition NewFromClientConfig ::
  "'w machine \<Rightarrow> 'i iyo_api \<Rightarrow> (client_Config \<Rightarrow> iyo_Config option \<Rightarrow> (config_error, grpc_Cluster) result) \<Rightarrow>
   (MetaStorConfig \<Rightarrow> (config_error, ('s, ('w \<times> nat) client_world, zstor_err) metastor_Client) result) \<Rightarrow>
   client_Config \<Rightarrow> int \<Rightarrow> int \<Rightarrow> bool \<Rightarrow> (config_error, ('s, 'w \<times> nat, 'i) daemon) result" where
  "NewFromClientConfig mac api createCluster createMetastor cfg maxMsgSize jobCount disableLocalFSAccess =
     rbind (if cc_IYO cfg \<noteq> \<lparr>Organization = [], ApplicationID = [], ApplicationSecret = []\<rparr>
         then rbind (map_err ConfigIyo (iyo_NewClient (cc_IYO cfg))) (\<lambda>client. Ok (Some client)) else Ok None) (\<lambda>iyo.
     rbind (createCluster cfg iyo) (\<lambda>cluster.
     rbind (make_pipeline mac (ds_Pipeline (cc_DataStor cfg)) cluster jobCount) (\<lambda>p.
     rbind (createMetastor (cc_MetaStor cfg)) (\<lambda>mc.
       daemon_New api \<lparr>dcf_Pipeline = Some p, dcf_MetaClient = Some mc, dcf_IYOClient = iyo, dcf_MaxMsgSize = maxMsgSize,
         dcf_DisableLocalFSAccess = disableLocalFSAccess\<rparr>))))"

text \<open>The error of \<open>Serve\<close>, when the listener was closed, is none.\<close>

definition isClosedConnError :: "string \<Rightarrow> bool" where
  "isClosedConnError err \<longleftrightarrow> err = ''grpc: the server has been stopped'' \<or> sublist ''closed'' err"

definition daemon_Serve :: "string option \<Rightarrow> (string, unit) result" where
  "daemon_Serve outcome_err = (case outcome_err of None \<Rightarrow> Ok () | Some err \<Rightarrow> if isClosedConnError err then Ok () else Err err)"

text \<open>The daemon makes its metadata client with a copy of the client's function.\<close>

definition daemon_create_metastor_at ::
  "pb_codec \<Rightarrow> codecs \<Rightarrow> ((Metadata \<Rightarrow> (string, bytes) result) \<times> (bytes \<Rightarrow> Metadata \<Rightarrow> (string, Metadata) result)) registry \<Rightarrow>
   (string list \<Rightarrow> (string, ('s, 'x, 'e) meta_DB) result) \<Rightarrow> MetaStorConfig \<Rightarrow> (config_error, ('s, 'x, 'e) metastor_Client) result" where
  "daemon_create_metastor_at = create_metastor_at"

text \<open>\<open>Close\<close>, when the calls that are served have come to their end: it closes the client.\<close>

definition daemon_Close ::
  "('s, 'w, 'i) daemon \<Rightarrow> (zstor_err meta_error \<Rightarrow> string) \<Rightarrow> ('w, string, unit) op \<Rightarrow> ('s \<times> 'w, string list, unit) op" where
  "daemon_Close d text_of pipeline_Close st = client_Close (d_client d) text_of pipeline_Close st"

section \<open>Lemmas\<close>

text \<open>The text of a TLS version is read back as that version.\<close>

lemma tls_version_cases: "v \<le> MaxTLSVersion \<Longrightarrow> v = 0 \<or> v = 1 \<or> v = 2 \<or> v = (3 :: byte)"
  by (simp add: MaxTLSVersion_def word_le_nat_alt word_unat_eq_iff) linarith

lemma tls_version_roundtrip:
  assumes "v \<le> MaxTLSVersion"
  shows "\<exists>text. TLSVersion_MarshalText v = Ok text \<and> TLSVersion_UnmarshalText text old = (Ok (), v)"
  using tls_version_cases [OF assms]
  by (auto simp: TLSVersion_MarshalText_def TLSVersion_UnmarshalText_def MaxTLSVersion_def UndefinedTLSVersion_def TLSVersionStrings_def ToUpper_def)

text \<open>A certificate is verified exactly when a server name is configured; the versions are honoured by the client only.\<close>

lemma client_tls:
  assumes "client_createTLSConfig certs config = Ok (Some tc)"
  shows "tc_InsecureSkipVerify tc \<longleftrightarrow> tls_ServerName config = []" "tc_MinVersion tc \<in> {VersionTLS10, VersionTLS11, VersionTLS12}"
  using assms
  by (auto simp: client_createTLSConfig_def rbind_eq_Ok VersionTLSOrDefault_def TlsVersionValues_def UndefinedTLSVersion_def split: if_splits
      dest!: tls_version_cases [OF leI])

text \<open>A client made from a configuration that stores metadata with the standard encoding is a configured client.\<close>

definition standard_marshalling :: "pb_codec \<Rightarrow> ((Metadata \<Rightarrow> (string, bytes) result) \<times> (bytes \<Rightarrow> Metadata \<Rightarrow> (string, Metadata) result)) registry" where
  "standard_marshalling pb = snd (marshal_init (MarshalMetadata pb) (UnmarshalMetadata pb) no_types)"

lemma standard_pair: "NewMarshalFuncPair (standard_marshalling pb) MarshalTypeProtobuf = Ok (MarshalMetadata pb, UnmarshalMetadata pb)"
  by (simp add: standard_marshalling_def marshal_init_def RegisterMarshalFuncPair_def NewMarshalFuncPair_def MarshalTypeProtobuf_def put_type_def no_types_def)

text \<open>The processors of the metadata are those of a configuration without compression.\<close>

definition metadata_processing :: "MetaStorConfig \<Rightarrow> (CompressionConfig \<times> EncryptionConfig) option" where
  "metadata_processing cfg =
     (if enc_PrivateKey (ms_Encryption cfg) = [] then None
      else Some (\<lparr>comp_Mode = CompressionModeDisabled, comp_Type = CompressionTypeLZ4\<rparr>, ms_Encryption cfg))"

lemma create_metastor_configured:
  assumes "create_metastor pb lib (standard_marshalling pb) cfg lone_DB = Ok c" "ms_Encoding cfg = MarshalTypeProtobuf"
  shows "configured_metastor pb lib (metadata_processing cfg) = Ok c \<and>
    (\<forall>cc ec. metadata_processing cfg = Some (cc, ec) \<longrightarrow> (\<exists>p m. NewProcessorConstructor cc ec [] = (Ok p, m)))"
proof (cases "enc_PrivateKey (ms_Encryption cfg) = []")
  case True
  then show ?thesis using assms
    by (simp add: create_metastor_def standard_pair metadata_processing_def configured_metastor_on_def metastor_NewClient_def Let_def)
next
  case False
  let ?cc = "\<lparr>comp_Mode = CompressionModeDisabled, comp_Type = CompressionTypeLZ4\<rparr>"
  let ?pc = "NewEncrypterDecrypter encryption_types (enc_Type (ms_Encryption cfg)) (ascii (enc_PrivateKey (ms_Encryption cfg)))"
  have pc: "NewProcessorConstructor ?cc (ms_Encryption cfg) = ?pc" using False by (simp add: fun_eq_iff NewProcessorConstructor_def)
  have "\<exists>p. fst (?pc []) = Ok p" using assms False
    by (auto simp: create_metastor_def standard_pair Let_def rbind_eq_Ok map_err_eq_Ok)
  then obtain p m where "?pc [] = (Ok p, m)" by (metis prod.collapse)
  with assms False pc show ?thesis
    by (simp add: create_metastor_def standard_pair Let_def metadata_processing_def configured_metastor_on_def metastor_NewClient_def)
qed

lemma client_from_config_configured:
  assumes made: "newClientFromConfig mac createCluster (\<lambda>cfg. create_metastor pb cdc (standard_marshalling pb) cfg lone_DB) cfg jobCount caching = Ok c"
    and cluster: "createCluster cfg caching = Ok cluster" "mac_cluster mac cluster = zcluster order ns"
    and enc: "ms_Encoding (cc_MetaStor cfg) = MarshalTypeProtobuf"
    and kind: "NewChunkStorage (mac_reedsolomon mac) (mac_NumCPU mac) (cfg_Distribution (ds_Pipeline (cc_DataStor cfg))) (Some (ListedShardCount cluster)) jobCount = Ok kind"
    and libs: "reedsolomon_ok (mac_reedsolomon mac)" "codecs_ok cdc" "\<forall>c x. \<exists>y. compress cdc c x = Ok y" "pb_ok pb" "0 < mac_NumCPU mac"
  shows "zstor_configured (mac_reedsolomon mac) (mac_NumCPU mac) order ns (mac_environment mac cluster) (ds_Pipeline (cc_DataStor cfg))
    (ListedShardCount cluster) jobCount kind pb cdc (metadata_processing (cc_MetaStor cfg)) c"
proof -
  from made cluster(1) obtain p mc where p: "make_pipeline mac (ds_Pipeline (cc_DataStor cfg)) cluster jobCount = Ok p"
      and mc: "create_metastor pb cdc (standard_marshalling pb) (cc_MetaStor cfg) lone_DB = Ok mc" and c: "c = \<lparr>dataPipeline = p, metastorClient = mc\<rparr>"
    by (auto simp: newClientFromConfig_def rbind_eq_Ok client_NewClient_def)
  from create_metastor_configured [OF mc enc] p c kind libs cluster(2) show ?thesis
    by (simp add: zstor_configured_def make_pipeline_def map_err_eq_Ok)
qed

text \<open>A daemon works on the client that the same configuration gives, and accepts messages of 32 MiB unless told otherwise.\<close>

lemma daemon_from_config:
  assumes "NewFromClientConfig mac api createCluster createMetastor cfg maxMsgSize jobCount disable = Ok d"
  shows "\<exists>iyo. newClientFromConfig mac (\<lambda>cfg _. createCluster cfg iyo) createMetastor cfg jobCount True = Ok (d_client d) \<and>
    d_namespaces d = namespaceClientFromIYOClient api iyo \<and> d_disableLocalFSAccess d = disable \<and>
    d_maxMsgBytes d = (if maxMsgSize \<le> 0 then 32 else maxMsgSize) * 1024 * 1024"
  using assms
  by (auto simp: NewFromClientConfig_def newClientFromConfig_def rbind_eq_Ok daemon_New_def validateAndSanitize_def client_NewClient_def
      DefaultMaxMsgSize_def map_err_eq_Ok split: if_splits) blast+

end
