(* ===== verification/Cmd_Zstor.thy ===== *)
theory Cmd_Zstor
  imports Client_Config Cmd_Zstordb
begin

text \<open>
  The client command (\<open>cmd/zstor/commands\<close>): the commands on files (\<open>file.go\<close>, \<open>file_meta.go\<close>), on
  namespaces (\<open>namespace.go\<close>) and the daemon (\<open>daemon.go\<close>), with the configuration that they share
  (\<open>root.go\<close>), run in the order of the command library.

  Arguments: reading the configuration file, the machine and the servers behind the client, the
  identity service, and the JSON encoder.
\<close>

section \<open>The process\<close>

text \<open>The variables that flags set.\<close>

record zstor_flags =
  zr_DebugLog :: bool
  zr_ConfigFile :: string
  zr_JobCount :: int
  fc_Namespace :: string
  fu_Key :: string
  fd_Output :: string
  fm_JSONFormat :: bool
  fm_JSONPrettyFormat :: bool
  namespaceSetPermissionCfg :: Permission
  gp_JSONFormat :: bool
  gp_JSONPrettyFormat :: bool

definition zstor_init :: "nat \<Rightarrow> zstor_flags" where
  "zstor_init NumCPU =
     \<lparr>zr_DebugLog = False, zr_ConfigFile = ''config.yaml'', zr_JobCount = int NumCPU * 2, fc_Namespace = [], fu_Key = [], fd_Output = [],
      fm_JSONFormat = False, fm_JSONPrettyFormat = False,
      namespaceSetPermissionCfg = \<lparr>perm_Read = False, perm_Write = False, perm_Delete = False, perm_Admin = False\<rparr>,
      gp_JSONFormat = False, gp_JSONPrettyFormat = False\<rparr>"

text \<open>
  The state of a process, with the world around it; \<open>ps_ClientConfig\<close> is the configuration, or the error of
  reading it, once it was read.
\<close>

record ('s, 'w, 'i) process =
  ps_ClientConfig :: "(string, client_Config) result option"
  ps_debug :: bool
  ps_store :: "'s \<times> ('w \<times> nat) client_world"
  ps_iyo :: 'i
  ps_fs :: filesystem
  ps_stdin :: reads
  ps_stdout :: bytes

datatype cause =
    CauseText string | CauseConfig config_error | CauseIyo iyo_error | CauseZstor zstor_err | CauseMeta "zstor_err meta_error"

text \<open>An error of a command: that of a call, or a message with what it names and the error it adds.\<close>

datatype cmd_error = Plain cause | Wrapped string "string list" cause

section \<open>Printing metadata (file_meta.go)\<close>

record MetaDataObjectJSON =
  mj_Key :: string
  mj_Shard :: string

record MetaDataChunkJSON =
  cj_Size :: nat
  cj_Objects :: "MetaDataObjectJSON list"
  cj_Hash :: string

record MetaDataJSON =
  mdj_Key :: string
  mdj_Size :: int64
  mdj_CreationEpoch :: int
  mdj_LastWriteEpoch :: int
  mdj_Chunks :: "MetaDataChunkJSON list"
  mdj_PreviousKey :: string
  mdj_NextKey :: string

definition string_of :: "bytes \<Rightarrow> string" where
  "string_of bs = map (\<lambda>b. char_of (unat b)) bs"

definition slice_string :: "slice \<Rightarrow> string" where
  "slice_string s = (case s of None \<Rightarrow> [] | Some bs \<Rightarrow> string_of bs)"

definition meta_json :: "Metadata \<Rightarrow> MetaDataJSON" where
  "meta_json m =
     \<lparr>mdj_Key = string_of (md_Key m), mdj_Size = md_Size m, mdj_CreationEpoch = md_CreationEpoch m, mdj_LastWriteEpoch = md_LastWriteEpoch m,
      mdj_Chunks = map (\<lambda>chunk. \<lparr>cj_Size = ch_Size chunk,
          cj_Objects = map (\<lambda>object. \<lparr>mj_Key = string_of (Key object), mj_Shard = ShardID object\<rparr>) (ch_Objects chunk),
          cj_Hash = string_of (ch_Hash chunk)\<rparr>) (md_Chunks m),
      mdj_PreviousKey = slice_string (md_PreviousKey m), mdj_NextKey = slice_string (md_NextKey m)\<rparr>"

definition signed_decimal :: "int \<Rightarrow> string" where
  "signed_decimal n = (if n < 0 then ''-'' @ decimal (nat (- n)) else decimal (nat n))"

abbreviation newline :: string where
  "newline \<equiv> [CHR 0x0A]"

abbreviation tab :: string where
  "tab \<equiv> [CHR 0x09]"

text \<open>The total size is not among what is printed.\<close>

definition writeMetaAsHumanReadableFormat :: "Metadata \<Rightarrow> string" where
  "writeMetaAsHumanReadableFormat m =
     ''Key: '' @ string_of (md_Key m) @ newline @
     ''CreationEpoch: '' @ signed_decimal (md_CreationEpoch m) @ newline @
     ''LastWriteEpoch: '' @ signed_decimal (md_LastWriteEpoch m) @ newline @
     ''Chunks:'' @ newline @
     concat (map (\<lambda>chunk.
       tab @ ''Size: '' @ decimal (ch_Size chunk) @ newline @ ''Objects:'' @ newline @
       concat (map (\<lambda>object.
         tab @ tab @ ''Key: '' @ string_of (Key object) @ newline @
         tab @ tab @ ''ShardID: '' @ ShardID object @ newline) (ch_Objects chunk)) @
       tab @ ''Hash: '' @ string_of (ch_Hash chunk) @ newline @ newline) (md_Chunks m)) @
     (case md_PreviousKey m of None \<Rightarrow> [] | Some k \<Rightarrow> ''PreviousKey: '' @ string_of k @ newline) @
     (case md_NextKey m of None \<Rightarrow> [] | Some k \<Rightarrow> ''NextKey: '' @ string_of k @ newline)"

section \<open>What the commands share (root.go)\<close>

record ('s, 'w, 'i) zstor_env =
  ze_ReadConfig :: "string \<Rightarrow> (string, client_Config) result"
  ze_codecs :: codecs
  ze_digest :: digest
  ze_pb :: pb_codec
  ze_marshalling :: "((Metadata \<Rightarrow> (string, bytes) result) \<times> (bytes \<Rightarrow> Metadata \<Rightarrow> (string, Metadata) result)) registry"
  ze_machine :: "'w machine"
  ze_createCluster :: "client_Config \<Rightarrow> bool \<Rightarrow> (config_error, grpc_Cluster) result"
  ze_etcd_New :: "string list \<Rightarrow> (string, ('s, ('w \<times> nat) client_world, zstor_err) meta_DB) result"
  ze_iyo :: "'i iyo_api"
  ze_json_meta :: "bool \<Rightarrow> MetaDataJSON \<Rightarrow> (string, bytes) result"
  ze_json_perm :: "bool \<Rightarrow> Permission \<Rightarrow> (string, bytes) result"

type_synonym ('s, 'w, 'i, 'a) cmd = "(('s, 'w, 'i) process, cmd_error, 'a) op"

definition getClientConfig :: "('s, 'w, 'i) zstor_env \<Rightarrow> zstor_flags \<Rightarrow> ('s, 'w, 'i, client_Config) cmd" where
  "getClientConfig env fl st =
     (let r = (case ps_ClientConfig st of Some r \<Rightarrow> r | None \<Rightarrow> ze_ReadConfig env (zr_ConfigFile fl)) in
      (map_err (\<lambda>e. Plain (CauseText e)) r, st\<lparr>ps_ClientConfig := Some r\<rparr>))"

definition createMetastor ::
  "('s, 'w, 'i) zstor_env \<Rightarrow> MetaStorConfig \<Rightarrow> (config_error, ('s, ('w \<times> nat) client_world, zstor_err) metastor_Client) result" where
  "createMetastor env = create_metastor_at (ze_pb env) (ze_codecs env) (ze_marshalling env) (ze_etcd_New env)"

definition getClient :: "('s, 'w, 'i) zstor_env \<Rightarrow> zstor_flags \<Rightarrow> ('s, 'w, 'i, ('s, 'w \<times> nat) zstor_Client) cmd" where
  "getClient env fl st =
     obind (getClientConfig env fl st) (\<lambda>cfg st.
       (map_err (\<lambda>e. Wrapped ''failed to create 0-stor client'' [] (CauseConfig e))
          (newClientFromConfig (ze_machine env) (ze_createCluster env) (createMetastor env) cfg (zr_JobCount fl) False), st))"

definition getMetaClient ::
  "('s, 'w, 'i) zstor_env \<Rightarrow> zstor_flags \<Rightarrow> ('s, 'w, 'i, ('s, ('w \<times> nat) client_world, zstor_err) metastor_Client) cmd" where
  "getMetaClient env fl st =
     obind (getClientConfig env fl st) (\<lambda>clientCfg st.
       let cfg = cc_MetaStor clientCfg in
       if length (ms_Endpoints cfg) = 0 then (Err (Plain (CauseText ''no metadata storage ETCD endpoints given'')), st)
       else
         (map_err (\<lambda>e. Plain (CauseConfig e))
            (rbind (map_err ConfigErr (ze_etcd_New env (ms_Endpoints cfg))) (\<lambda>db.
             rbind (map_err ConfigType (NewMarshalFuncPair (ze_marshalling env) (ms_Encoding cfg))) (\<lambda>(marshal, unmarshal).
               let config = \<lparr>mcfg_Database = Some db, mcfg_MarshalFuncPair = Some (Some marshal, Some unmarshal), mcfg_ProcessorConstructor = None\<rparr> in
               if length (enc_PrivateKey (ms_Encryption cfg)) = 0 then map_err ConfigErr (metastor_NewClient (ze_pb env) (ze_codecs env) config)
               else
                 let pc = NewEncrypterDecrypter encryption_types (enc_Type (ms_Encryption cfg)) (ascii (enc_PrivateKey (ms_Encryption cfg))) in
                 rbind (map_err ConfigErr (fst (pc []))) (\<lambda>_.
                   map_err ConfigErr (metastor_NewClient (ze_pb env) (ze_codecs env) (config\<lparr>mcfg_ProcessorConstructor := Some pc\<rparr>)))))), st))"

definition getNamespaceManager :: "('s, 'w, 'i) zstor_env \<Rightarrow> zstor_flags \<Rightarrow> ('s, 'w, 'i, iyo_Config) cmd" where
  "getNamespaceManager env fl st =
     obind (getClientConfig env fl st) (\<lambda>cfg st. (map_err (\<lambda>e. Plain (CauseIyo e)) (iyo_NewClient (cc_IYO cfg)), st))"

text \<open>The configuration is shared by pointer: its namespace can be overwritten for the rest of the process.\<close>

definition overwrite_namespace :: "('s, 'w, 'i) zstor_env \<Rightarrow> zstor_flags \<Rightarrow> string \<Rightarrow> ('s, 'w, 'i, unit) cmd" where
  "overwrite_namespace env fl namespace st =
     obind (getClientConfig env fl st) (\<lambda>config st. (Ok (), st\<lparr>ps_ClientConfig := Some (Ok (config\<lparr>cc_Namespace := namespace\<rparr>))\<rparr>))"

section \<open>Namespaces (namespace.go)\<close>

definition preRunNamespaceCommands :: "('s, 'w, 'i) zstor_env \<Rightarrow> zstor_flags \<Rightarrow> nat \<Rightarrow> string list \<Rightarrow> ('s, 'w, 'i, unit) cmd" where
  "preRunNamespaceCommands env fl requiredArgs args st =
     (let n = length args; maxArgs = requiredArgs + 1 in
      if n < requiredArgs then (Err (Wrapped ''required at least'' [decimal requiredArgs, decimal n] (CauseText [])), st)
      else if n > maxArgs then (Err (Wrapped ''accepting maximum'' [decimal maxArgs, decimal n] (CauseText [])), st)
      else if n = maxArgs then overwrite_namespace env fl (args ! requiredArgs) st
      else (Ok (), st))"

definition getNamespacePosArg :: "('s, 'w, 'i) zstor_env \<Rightarrow> zstor_flags \<Rightarrow> nat \<Rightarrow> string list \<Rightarrow> ('s, 'w, 'i, string) cmd" where
  "getNamespacePosArg env fl maxArgs args st =
     (if length args = maxArgs then (Ok (args ! (maxArgs - 1)), st)
      else case getClientConfig env fl st of (Ok cfg, st) \<Rightarrow> (Ok (cc_Namespace cfg), st) | (_, st) \<Rightarrow> (Panic, st))"

text \<open>A call on the identity service.\<close>

definition iyo_call :: "('i, iyo_error, 'a) op \<Rightarrow> (iyo_error \<Rightarrow> cmd_error) \<Rightarrow> ('s, 'w, 'i, 'a) cmd" where
  "iyo_call f err st = (case f (ps_iyo st) of (r, i) \<Rightarrow> (map_err err r, st\<lparr>ps_iyo := i\<rparr>))"

definition namespaceCreateCmd :: "('s, 'w, 'i) zstor_env \<Rightarrow> zstor_flags \<Rightarrow> string list \<Rightarrow> ('s, 'w, 'i, unit) cmd" where
  "namespaceCreateCmd env fl args st =
     obind (getNamespaceManager env fl st) (\<lambda>iyoCl st.
     obind (getNamespacePosArg env fl 1 args st) (\<lambda>namespace st.
       iyo_call (CreateNamespace (ze_iyo env) iyoCl namespace) (\<lambda>e. Wrapped ''creation of namespace failed'' [namespace] (CauseIyo e)) st))"

definition namespaceDeleteCmd :: "('s, 'w, 'i) zstor_env \<Rightarrow> zstor_flags \<Rightarrow> string list \<Rightarrow> ('s, 'w, 'i, unit) cmd" where
  "namespaceDeleteCmd env fl args st =
     obind (getNamespaceManager env fl st) (\<lambda>iyoCl st.
     obind (getNamespacePosArg env fl 1 args st) (\<lambda>namespace st.
       iyo_call (DeleteNamespace (ze_iyo env) iyoCl namespace) (\<lambda>e. Wrapped ''deletion of namespace failed'' [namespace] (CauseIyo e)) st))"

definition namespaceSetPermissionCmd :: "('s, 'w, 'i) zstor_env \<Rightarrow> zstor_flags \<Rightarrow> string list \<Rightarrow> ('s, 'w, 'i, unit) cmd" where
  "namespaceSetPermissionCmd env fl args st =
     obind (getNamespaceManager env fl st) (\<lambda>iyoCl st.
     let userID = args ! 0; cfg = namespaceSetPermissionCfg fl in
     obind (getNamespacePosArg env fl 2 args st) (\<lambda>namespace st.
     obind (iyo_call (GetPermission (ze_iyo env) iyoCl namespace userID)
         (\<lambda>e. Wrapped ''fail to retrieve permission(s)'' [userID, namespace] (CauseIyo e)) st) (\<lambda>currentpermissions st.
     let toRemove = \<lparr>perm_Read = perm_Read currentpermissions \<and> \<not> perm_Read cfg,
           perm_Write = perm_Write currentpermissions \<and> \<not> perm_Write cfg,
           perm_Delete = perm_Delete currentpermissions \<and> \<not> perm_Delete cfg,
           perm_Admin = perm_Admin currentpermissions \<and> \<not> perm_Admin cfg\<rparr> in
     obind (iyo_call (RemovePermission (ze_iyo env) iyoCl namespace userID toRemove)
         (\<lambda>e. Wrapped ''fail to remove permission(s)'' [userID, namespace] (CauseIyo e)) st) (\<lambda>_ st.
     let toAdd = \<lparr>perm_Read = \<not> perm_Read currentpermissions \<and> perm_Read cfg,
           perm_Write = \<not> perm_Write currentpermissions \<and> perm_Write cfg,
           perm_Delete = \<not> perm_Delete currentpermissions \<and> perm_Delete cfg,
           perm_Admin = \<not> perm_Admin currentpermissions \<and> perm_Admin cfg\<rparr> in
       iyo_call (GivePermission (ze_iyo env) iyoCl namespace userID toAdd)
         (\<lambda>e. Wrapped ''fail to give permission(s)'' [userID, namespace] (CauseIyo e)) st))))"

definition bool_text :: "bool \<Rightarrow> string" where
  "bool_text b = (if b then ''true'' else ''false'')"

definition permission_text :: "Permission \<Rightarrow> string" where
  "permission_text perm =
     ''Read: '' @ bool_text (perm_Read perm) @ newline @ ''Write: '' @ bool_text (perm_Write perm) @ newline @
     ''Delete: '' @ bool_text (perm_Delete perm) @ newline @ ''Admin: '' @ bool_text (perm_Admin perm) @ newline"

definition namespaceGetPermissionCmd :: "('s, 'w, 'i) zstor_env \<Rightarrow> zstor_flags \<Rightarrow> string list \<Rightarrow> ('s, 'w, 'i, unit) cmd" where
  "namespaceGetPermissionCmd env fl args st =
     obind (getNamespaceManager env fl st) (\<lambda>iyoCl st.
     let userID = args ! 0 in
     obind (getNamespacePosArg env fl 2 args st) (\<lambda>namespace st.
     obind (iyo_call (GetPermission (ze_iyo env) iyoCl namespace userID)
         (\<lambda>e. Wrapped ''failed to retrieve permission'' [userID, namespace] (CauseIyo e)) st) (\<lambda>perm st.
       if gp_JSONPrettyFormat fl \<or> gp_JSONFormat fl then
         obind (map_err (\<lambda>e. Wrapped ''failed to encode permission into JSON format'' [userID, namespace] (CauseText e))
             (ze_json_perm env (gp_JSONPrettyFormat fl) perm), st) (\<lambda>text st. (Ok (), st\<lparr>ps_stdout := ps_stdout st @ text\<rparr>))
       else (Ok (), st\<lparr>ps_stdout := ps_stdout st @ ascii (permission_text perm)\<rparr>))))"

section \<open>Files (file.go)\<close>

text \<open>
  The outcome of a command on files: none while a reader has not come to an end, and no state after a
  failure of the client, which does not say what it has left behind.
\<close>

type_synonym 'st run = "((cmd_error, unit) result \<times> 'st option) option"

definition then_run :: "(cmd_error, 'a) result \<times> 'st \<Rightarrow> ('a \<Rightarrow> 'st \<Rightarrow> 'st run) \<Rightarrow> 'st run" where
  "then_run r f = (case r of (Ok a, st) \<Rightarrow> f a st | (Err e, st) \<Rightarrow> Some (Err e, Some st) | (Panic, st) \<Rightarrow> Some (Panic, Some st))"

definition ended :: "(zstor_err \<Rightarrow> cmd_error) \<Rightarrow> ('a \<Rightarrow> 'st) \<Rightarrow> (zstor_err, 'a) result \<Rightarrow> (cmd_error, unit) result \<times> 'st option" where
  "ended err after r = (case r of Ok a \<Rightarrow> (Ok (), Some (after a)) | Err e \<Rightarrow> (Err (err e), None) | Panic \<Rightarrow> (Panic, None))"

definition preRunFile :: "('s, 'w, 'i) zstor_env \<Rightarrow> zstor_flags \<Rightarrow> ('s, 'w, 'i, unit) cmd" where
  "preRunFile env fl st = (if fc_Namespace fl \<noteq> [] then overwrite_namespace env fl (fc_Namespace fl) st else (Ok (), st))"

text \<open>\<open>filepath.Base\<close>.\<close>

definition filepath_Base :: "string \<Rightarrow> string" where
  "filepath_Base path =
     (if path = [] then ''.''
      else let path = rev (takeWhile (\<lambda>c. c \<noteq> CHR ''/'') (dropWhile (\<lambda>c. c = CHR ''/'') (rev path))) in
        if path = [] then ''/'' else path)"

text \<open>The input of an upload: its name, its reader and the key.\<close>

definition upload_input ::
  "zstor_flags \<Rightarrow> string list \<Rightarrow> 'v Pipeline \<Rightarrow> filesystem \<Rightarrow> reads \<Rightarrow> (cmd_error, string \<times> reads \<times> string) result" where
  "upload_input fl args p fs stdin =
     (let key = fu_Key fl in
      if length args = 1 then
        let inputName = args ! 0 in
        rbind (map_err (\<lambda>e. Wrapped ''can't read the file'' [inputName] (CauseText e)) (openFileToRead inputName fs)) (\<lambda>content.
          Ok (inputName, file_Reader p fs inputName content, if key = [] then filepath_Base inputName else key))
      else if key = [] then Err (Plain (CauseText ''key flag is required when uploading from the STDIN''))
      else Ok (''STDIN'', stdin, key))"

definition fileUploadCmd :: "('s, 'w, 'i) zstor_env \<Rightarrow> zstor_flags \<Rightarrow> string list \<Rightarrow> ('s, 'w, 'i) process \<Rightarrow> ('s, 'w, 'i) process run" where
  "fileUploadCmd env fl args st =
     then_run (getClient env fl st) (\<lambda>cl st.
     then_run (upload_input fl args (dataPipeline cl) (ps_fs st) (ps_stdin st), st) (\<lambda>(inputName, input, key) st.
       map_option (ended (\<lambda>e. Wrapped ''uploading data failed'' [inputName, key] (CauseZstor e)) (\<lambda>(md, store). st\<lparr>ps_store := store\<rparr>))
         (client_Write (ze_codecs env) (ze_digest env) cl (ascii key) (Some input) (ps_store st))))"

text \<open>\<open>os.Create\<close>, before the key is looked up.\<close>

definition fileDownloadCmd :: "('s, 'w, 'i) zstor_env \<Rightarrow> zstor_flags \<Rightarrow> string list \<Rightarrow> ('s, 'w, 'i) process \<Rightarrow> ('s, 'w, 'i) process run" where
  "fileDownloadCmd env fl args st =
     then_run (getClient env fl st) (\<lambda>cl st.
       let key = args ! 0; failed = (\<lambda>e. Wrapped ''downloading file failed'' [key] (CauseZstor e)) in
       if fd_Output fl \<noteq> [] then
         then_run (case openFile (fd_Output fl) (O_RDWR OR O_CREATE OR O_TRUNC) (ps_fs st) of
             (r, fs) \<Rightarrow> (map_err (\<lambda>e. Wrapped ''can't create output file'' [fd_Output fl] (CauseText e)) r, st\<lparr>ps_fs := fs\<rparr>)) (\<lambda>_ st.
           Some (ended failed (\<lambda>fs. st\<lparr>ps_fs := fs\<rparr>)
             (client_Read (ze_codecs env) (ze_digest env) cl (ascii key) (Some (os_Write (fd_Output fl))) (ps_store st) (ps_fs st))))
       else
         Some (ended failed (\<lambda>out. st\<lparr>ps_stdout := out\<rparr>)
           (client_Read (ze_codecs env) (ze_digest env) cl (ascii key) (Some appending) (ps_store st) (ps_stdout st))))"

definition fileDeleteCmd :: "('s, 'w, 'i) zstor_env \<Rightarrow> zstor_flags \<Rightarrow> string list \<Rightarrow> ('s, 'w, 'i) process \<Rightarrow> ('s, 'w, 'i) process run" where
  "fileDeleteCmd env fl args st =
     then_run (getClient env fl st) (\<lambda>cl st.
       let key = args ! 0 in
       Some (ended (\<lambda>e. Wrapped ''failed to delete file'' [key] (CauseZstor e)) (\<lambda>store. st\<lparr>ps_store := store\<rparr>)
         (client_Delete cl (ascii key) (ps_store st))))"

text \<open>The error of the JSON encoder is not looked at.\<close>

definition fileMetadataCmd :: "('s, 'w, 'i) zstor_env \<Rightarrow> zstor_flags \<Rightarrow> string list \<Rightarrow> ('s, 'w, 'i, unit) cmd" where
  "fileMetadataCmd env fl args st =
     obind (getMetaClient env fl st) (\<lambda>cl st.
       let key = args ! 0 in
       obind (map_err (\<lambda>e. Wrapped ''failed to get metadata'' [key] (CauseMeta e)) (GetMetadata cl (ascii key) (fst (ps_store st))), st) (\<lambda>meta st.
         let json = (\<lambda>pretty. case ze_json_meta env pretty (meta_json meta) of Ok text \<Rightarrow> text | _ \<Rightarrow> []);
             text = (if fm_JSONPrettyFormat fl then json True
               else if fm_JSONFormat fl then json False
               else ascii (writeMetaAsHumanReadableFormat meta)) in
         (Ok (), st\<lparr>ps_stdout := ps_stdout st @ text\<rparr>)))"

definition fileRepairCmd :: "('s, 'w, 'i) zstor_env \<Rightarrow> zstor_flags \<Rightarrow> string list \<Rightarrow> ('s, 'w, 'i) process \<Rightarrow> ('s, 'w, 'i) process run" where
  "fileRepairCmd env fl args st =
     then_run (getClient env fl st) (\<lambda>cl st.
       let key = args ! 0 in
       map_option (ended (\<lambda>e. Wrapped ''repair file failed'' [key] (CauseZstor e)) (\<lambda>(md, store). st\<lparr>ps_store := store\<rparr>))
         (client_Repair cl (ascii key) (ps_store st)))"

section \<open>Running a command\<close>

datatype zstor_command =
    FileUpload | FileDownload | FileDelete | FileMetadata | FileRepair
  | NamespaceCreate | NamespaceDelete | NamespaceSetPermission | NamespaceGetPermission

definition is_file_command :: "zstor_command \<Rightarrow> bool" where
  "is_file_command c \<longleftrightarrow> c \<in> {FileUpload, FileDownload, FileDelete, FileMetadata, FileRepair}"

text \<open>The number of positional arguments; the commands on namespaces check theirs in \<open>PreRunE\<close>.\<close>

definition validate_args :: "zstor_command \<Rightarrow> string list \<Rightarrow> (cmd_error, unit) result" where
  "validate_args c args =
     (if c = FileUpload \<and> length args > 1 then Err (Wrapped ''accepts at most'' [decimal 1, decimal (length args)] (CauseText []))
      else if is_file_command c \<and> c \<noteq> FileUpload \<and> length args \<noteq> 1 then Err (Wrapped ''accepts'' [decimal 1, decimal (length args)] (CauseText []))
      else Ok ())"

definition preRunRoot :: "zstor_flags \<Rightarrow> ('s, 'w, 'i, unit) cmd" where
  "preRunRoot fl st = (Ok (), if zr_DebugLog fl then st\<lparr>ps_debug := True\<rparr> else st)"

text \<open>Only the nearest of the persistent functions runs: that of \<open>fileCmd\<close> stands in for that of \<open>rootCmd\<close>.\<close>

definition persistent_pre_run :: "('s, 'w, 'i) zstor_env \<Rightarrow> zstor_flags \<Rightarrow> zstor_command \<Rightarrow> ('s, 'w, 'i, unit) cmd" where
  "persistent_pre_run env fl c = (if is_file_command c then preRunFile env fl else preRunRoot fl)"

fun pre_run :: "('s, 'w, 'i) zstor_env \<Rightarrow> zstor_flags \<Rightarrow> zstor_command \<Rightarrow> string list \<Rightarrow> ('s, 'w, 'i, unit) cmd" where
  "pre_run env fl NamespaceCreate args st = preRunNamespaceCommands env fl 0 args st"
| "pre_run env fl NamespaceDelete args st = preRunNamespaceCommands env fl 0 args st"
| "pre_run env fl NamespaceSetPermission args st = preRunNamespaceCommands env fl 1 args st"
| "pre_run env fl NamespaceGetPermission args st = preRunNamespaceCommands env fl 1 args st"
| "pre_run env fl _ args st = (Ok (), st)"

definition of_op :: "(cmd_error, unit) result \<times> 'st \<Rightarrow> 'st run" where
  "of_op r = Some (fst r, Some (snd r))"

fun run_command ::
  "('s, 'w, 'i) zstor_env \<Rightarrow> zstor_flags \<Rightarrow> zstor_command \<Rightarrow> string list \<Rightarrow> ('s, 'w, 'i) process \<Rightarrow> ('s, 'w, 'i) process run" where
  "run_command env fl FileUpload args st = fileUploadCmd env fl args st"
| "run_command env fl FileDownload args st = fileDownloadCmd env fl args st"
| "run_command env fl FileDelete args st = fileDeleteCmd env fl args st"
| "run_command env fl FileMetadata args st = of_op (fileMetadataCmd env fl args st)"
| "run_command env fl FileRepair args st = fileRepairCmd env fl args st"
| "run_command env fl NamespaceCreate args st = of_op (namespaceCreateCmd env fl args st)"
| "run_command env fl NamespaceDelete args st = of_op (namespaceDeleteCmd env fl args st)"
| "run_command env fl NamespaceSetPermission args st = of_op (namespaceSetPermissionCmd env fl args st)"
| "run_command env fl NamespaceGetPermission args st = of_op (namespaceGetPermissionCmd env fl args st)"

definition zstor :: "('s, 'w, 'i) zstor_env \<Rightarrow> zstor_flags \<Rightarrow> zstor_command \<Rightarrow> string list \<Rightarrow> ('s, 'w, 'i) process \<Rightarrow> ('s, 'w, 'i) process run" where
  "zstor env fl c args st =
     then_run (obind (validate_args c args, st) (\<lambda>_ st. obind (persistent_pre_run env fl c st) (\<lambda>_ st. pre_run env fl c args st))) (\<lambda>_ st.
       run_command env fl c args st)"

section \<open>The daemon (daemon.go)\<close>

record daemon_flags =
  df_ListenAddress :: ListenAddress
  df_MaxMsgSize :: int
  df_DisableLocalFSAccess :: bool

definition daemon_init :: daemon_flags where
  "daemon_init = \<lparr>df_ListenAddress = \<lparr>la_addr = [], la_proto = netProtoTCP\<rparr>, df_MaxMsgSize = DefaultMaxMsgSize, df_DisableLocalFSAccess = False\<rparr>"

definition daemon_start ::
  "(string \<Rightarrow> string \<Rightarrow> (string, 'l) result) \<Rightarrow> (client_Config \<Rightarrow> iyo_Config option \<Rightarrow> (config_error, grpc_Cluster) result) \<Rightarrow>
   ('s, 'w, 'i) zstor_env \<Rightarrow> zstor_flags \<Rightarrow> daemon_flags \<Rightarrow> (cmd_error, 'l \<times> ('s, 'w \<times> nat, 'i) daemon) result" where
  "daemon_start net_Listen createCluster env fl df =
     rbind (map_err (\<lambda>e. Plain (CauseText e)) (net_Listen (NetworkProtocol (df_ListenAddress df)) (ListenAddress_String (df_ListenAddress df)))) (\<lambda>listener.
     rbind (map_err (\<lambda>e. Plain (CauseText e)) (ze_ReadConfig env (zr_ConfigFile fl))) (\<lambda>cfg.
     rbind (map_err (\<lambda>e. Plain (CauseConfig e)) (NewFromClientConfig (ze_machine env) (ze_iyo env) createCluster (createMetastor env) cfg
         (df_MaxMsgSize df) (zr_JobCount fl) (df_DisableLocalFSAccess df))) (\<lambda>d.
       Ok (listener, d))))"

text \<open>The command ends with what serving ends with, or on an interrupt, when the daemon is closed.\<close>

definition daemonFunc ::
  "(string \<Rightarrow> string \<Rightarrow> (string, 'l) result) \<Rightarrow> (client_Config \<Rightarrow> iyo_Config option \<Rightarrow> (config_error, grpc_Cluster) result) \<Rightarrow>
   ('s, 'w, 'i) zstor_env \<Rightarrow> zstor_flags \<Rightarrow> daemon_flags \<Rightarrow> (zstor_err meta_error \<Rightarrow> string) \<Rightarrow> ('w \<times> nat, string, unit) op \<Rightarrow> stop \<Rightarrow>
   ('s \<times> 'w \<times> nat, cmd_error, unit) op" where
  "daemonFunc net_Listen createCluster env fl df text_of pipeline_Close ev st =
     obind (daemon_start net_Listen createCluster env fl df, st) (\<lambda>(listener, d) st.
       case ev of
         ServeEnded err \<Rightarrow> (map_err (\<lambda>e. Plain (CauseText e)) (daemon_Serve err), st)
       | Interrupted \<Rightarrow> omap_err (\<lambda>es. Plain (CauseText (closeErrors_Error es))) (daemon_Close d text_of pipeline_Close st))"

section \<open>The configuration of a process\<close>

text \<open>The configuration is read once, and what was made of it stays.\<close>

lemma getClientConfig_once:
  "getClientConfig env fl st = (r, st') \<Longrightarrow> getClientConfig env' fl' st' = (r, st')"
  by (auto simp: getClientConfig_def Let_def)

definition the_config :: "zstor_flags \<Rightarrow> client_Config \<Rightarrow> client_Config" where
  "the_config fl cfg = (if fc_Namespace fl = [] then cfg else cfg\<lparr>cc_Namespace := fc_Namespace fl\<rparr>)"

lemma getClientConfig_fresh:
  "ps_ClientConfig st = None \<Longrightarrow> ze_ReadConfig env (zr_ConfigFile fl) = Ok cfg \<Longrightarrow> getClientConfig env fl st = (Ok cfg, st\<lparr>ps_ClientConfig := Some (Ok cfg)\<rparr>)"
  "ps_ClientConfig st = Some (Ok cfg) \<Longrightarrow> getClientConfig env fl st = (Ok cfg, st)"
  by (simp_all add: getClientConfig_def)

lemma file_client:
  assumes fresh: "ps_ClientConfig st = None" and read: "ze_ReadConfig env (zr_ConfigFile fl) = Ok cfg"
    and made: "newClientFromConfig (ze_machine env) (ze_createCluster env) (createMetastor env) (the_config fl cfg) (zr_JobCount fl) False = Ok cl"
  obtains st1 where "preRunFile env fl st = (Ok (), st1)" "getClient env fl st1 = (Ok cl, st\<lparr>ps_ClientConfig := Some (Ok (the_config fl cfg))\<rparr>)"
proof -
  note first = getClientConfig_fresh(1) [OF fresh read]
  show ?thesis
  proof (cases "fc_Namespace fl = []")
    case True
    then show ?thesis using made first by (intro that [of st]) (simp_all add: preRunFile_def getClient_def the_config_def)
  next
    case False
    then show ?thesis using made first getClientConfig_fresh(2) [of "st\<lparr>ps_ClientConfig := Some (Ok (the_config fl cfg))\<rparr>" "the_config fl cfg" env fl]
      by (intro that [of "st\<lparr>ps_ClientConfig := Some (Ok (the_config fl cfg))\<rparr>"]) (simp_all add: preRunFile_def overwrite_namespace_def getClient_def the_config_def)
  qed
qed

text \<open>The client of the metadata is the one that the 0-stor client has.\<close>

lemma getMetaClient_same:
  assumes "getClientConfig env fl st = (Ok cfg, st')"
  shows "getMetaClient env fl st = (Ok mc, st') \<longleftrightarrow> createMetastor env (cc_MetaStor cfg) = Ok mc"
  using assms by (auto simp: getMetaClient_def createMetastor_def create_metastor_at_def create_metastor_def Let_def rbind_eq_Ok map_err_eq_Ok)

section \<open>Uploads and downloads\<close>

text \<open>The name of a file is a key: it is never empty, and has no separator unless it is one.\<close>

lemma filepath_Base_ne: "filepath_Base path \<noteq> []"
  by (simp add: filepath_Base_def Let_def)

lemma filepath_Base_name: "CHR ''/'' \<in> set (filepath_Base path) \<Longrightarrow> filepath_Base path = ''/''"
  by (auto simp: filepath_Base_def Let_def dest: set_takeWhileD split: if_splits)

lemma filepath_Base_dir: "name \<noteq> [] \<Longrightarrow> CHR ''/'' \<notin> set name \<Longrightarrow> filepath_Base (dir @ ''/'' @ name) = name"
proof -
  assume a: "name \<noteq> []" "CHR ''/'' \<notin> set name"
  then have d: "dropWhile (\<lambda>c. c = CHR ''/'') (rev name @ r) = rev name @ r" for r by (cases name rule: rev_cases) auto
  have "takeWhile (\<lambda>c. c \<noteq> CHR ''/'') (rev name @ CHR ''/'' # rev dir) = rev name" using a(2) by (subst takeWhile_append2) auto
  with a d show ?thesis by (simp add: filepath_Base_def)
qed

lemma zstor_file_command:
  assumes "is_file_command c" "validate_args c args = Ok ()" "preRunFile env fl st = (Ok (), st1)"
  shows "zstor env fl c args st = run_command env fl c args st1"
  using assms by (cases c) (simp_all add: zstor_def persistent_pre_run_def then_run_def is_file_command_def)

lemma file_Reader_pipe: "fs_read_err fs path = None \<Longrightarrow> 0 < read_size p \<Longrightarrow> file_Reader p fs path content = pipe_Reader p [content]"
  by (simp add: file_Reader_def pipe_Reader_def reader_reads_cut)

lemma upload_file:
  assumes conf: "zstor_configured lib numCPU order ns wenv pcfg nShards jobs kind pb (ze_codecs env) mcfg cl"
    and src: "openFileToRead path (ps_fs st) = Ok content" "fs_read_err (ps_fs st) path = None" and key: "key = (if fu_Key fl = [] then filepath_Base path else fu_Key fl)"
    and wr: "writable (dataPipeline cl) (ascii key, piped (dataPipeline cl) [content]) (cw_sched (snd (ps_store st)) 0)"
    and rand: "12 \<le> length (mw_rand (snd (ps_store st)))"
    and room: "cluster_ready order ns wenv kind (length (inputs_of (dataPipeline cl) (piped (dataPipeline cl) [content]))) (fst (cw_data (snd (ps_store st))))"
    and cl: "getClient env fl st1 = (Ok cl, st)"
  shows "\<exists>md s x. fileUploadCmd env fl [path] st1 = Some (Ok (), Some (st\<lparr>ps_store := (s, x)\<rparr>)) \<and>
    served order ns wenv kind (ze_codecs env) (ze_digest env) cl (ascii key) md (piped (dataPipeline cl) [content]) s (cw_data x)"
proof -
  obtain s0 x0 where st: "ps_store st = (s0, x0)" by fastforce
  from served_write [OF conf, of "ascii key" "[content]" x0 "ze_digest env" s0] wr rand room st obtain md s x where
    w: "client_Write (ze_codecs env) (ze_digest env) cl (ascii key) (Some (pipe_Reader (dataPipeline cl) [content])) (s0, x0) = Some (Ok (md, s, x))"
      "served order ns wenv kind (ze_codecs env) (ze_digest env) cl (ascii key) md (piped (dataPipeline cl) [content]) s (cw_data x)" by auto
  have "upload_input fl [path] (dataPipeline cl) (ps_fs st) (ps_stdin st) = Ok (path, pipe_Reader (dataPipeline cl) [content], key)"
    using src key file_Reader_pipe [OF src(2) configured_read_size(2) [OF conf]] by (simp add: upload_input_def)
  with cl w st show ?thesis by (intro exI [of _ md] exI [of _ s] exI [of _ x]) (simp add: fileUploadCmd_def then_run_def ended_def)
qed

lemma served_client_Read:
  assumes sv: "served order ns wenv kind cdc dg cl key md pieces s (cw_data x)"
    and sch: "schedule_ok (length (inputs_of (dataPipeline cl) pieces)) (cw_sched x 0)"
    and wr: "write_all wr (inputs_of (dataPipeline cl) pieces) out = (Ok (), out')"
  shows "client_Read cdc dg cl key (Some wr) (s, x) out = Ok out'"
  using read_input_served [OF sv _ sch wr, of "KeyInput key"] sv by (simp add: read_input_def served_def split: if_splits)

lemma download_file:
  assumes sv: "served order ns wenv kind (ze_codecs env) (ze_digest env) cl (ascii key) md pieces s (cw_data x)"
    and sch: "schedule_ok (length (inputs_of (dataPipeline cl) pieces)) (cw_sched x 0)"
    and cl: "getClient env fl st1 = (Ok cl, st)" "ps_store st = (s, x)"
  shows "fd_Output fl = [] \<Longrightarrow> fileDownloadCmd env fl [key] st1 = Some (Ok (), Some (st\<lparr>ps_stdout := ps_stdout st @ concat pieces\<rparr>))"
    "fd_Output fl = path \<Longrightarrow> path \<noteq> [] \<Longrightarrow> fs_open_err (ps_fs st) path = None \<Longrightarrow> fs_write_err (ps_fs st) path = None \<Longrightarrow>
      fileDownloadCmd env fl [key] st1 = Some (Ok (), Some (st\<lparr>ps_fs := (ps_fs st)\<lparr>fs_files := (fs_files (ps_fs st))(path \<mapsto> concat pieces)\<rparr>\<rparr>))"
proof -
  have all: "concat (inputs_of (dataPipeline cl) pieces) = concat pieces" by (cases "dataPipeline cl") simp_all
  note read = served_client_Read [OF sv sch]
  show "fileDownloadCmd env fl [key] st1 = Some (Ok (), Some (st\<lparr>ps_stdout := ps_stdout st @ concat pieces\<rparr>))" if "fd_Output fl = []"
    using that cl all read [of appending "ps_stdout st"] by (simp add: fileDownloadCmd_def then_run_def ended_def)
  show "fileDownloadCmd env fl [key] st1 = Some (Ok (), Some (st\<lparr>ps_fs := (ps_fs st)\<lparr>fs_files := (fs_files (ps_fs st))(path \<mapsto> concat pieces)\<rparr>\<rparr>))"
    if out: "fd_Output fl = path" "path \<noteq> []" "fs_open_err (ps_fs st) path = None" "fs_write_err (ps_fs st) path = None"
  proof -
    let ?fs = "(ps_fs st)\<lparr>fs_files := (fs_files (ps_fs st))(path \<mapsto> [])\<rparr>"
    have "openFile path (O_RDWR OR O_CREATE OR O_TRUNC) (ps_fs st) = (Ok (), ?fs)"
      using out(3) by (simp add: openFile_def open_flags split: option.splits)
    moreover have "write_all (os_Write path) (inputs_of (dataPipeline cl) pieces) ?fs = (Ok (), ?fs\<lparr>fs_files := (fs_files ?fs)(path \<mapsto> [] @ concat (inputs_of (dataPipeline cl) pieces))\<rparr>)"
      by (rule write_all_file) (use out in simp_all)
    note read [OF this]
    ultimately show ?thesis using out cl all by (simp add: fileDownloadCmd_def then_run_def ended_def)
  qed
qed

lemma file_command_started:
  assumes "is_file_command c" "validate_args c args = Ok ()" "ps_ClientConfig st = None" "ze_ReadConfig env (zr_ConfigFile fl) = Ok cfg"
    and "newClientFromConfig (ze_machine env) (ze_createCluster env) (createMetastor env) (the_config fl cfg) (zr_JobCount fl) False = Ok cl"
  shows "\<exists>st1. zstor env fl c args st = run_command env fl c args st1 \<and> getClient env fl st1 = (Ok cl, st\<lparr>ps_ClientConfig := Some (Ok (the_config fl cfg))\<rparr>)"
  using file_client [OF assms(3-5)] zstor_file_command [OF assms(1,2)] by metis

lemma zstor_download:
  assumes sv: "served order ns wenv kind (ze_codecs env) (ze_digest env) cl (ascii key) md pieces s (cw_data x)"
    and sch: "schedule_ok (length (inputs_of (dataPipeline cl) pieces)) (cw_sched x 0)"
    and p: "ps_ClientConfig p = None" "ps_store p = (s, x)" and read: "ze_ReadConfig env (zr_ConfigFile fl) = Ok cfg"
    and made: "newClientFromConfig (ze_machine env) (ze_createCluster env) (createMetastor env) (the_config fl cfg) (zr_JobCount fl) False = Ok cl"
  shows "fd_Output fl = [] \<Longrightarrow> zstor env fl FileDownload [key] p =
      Some (Ok (), Some (p\<lparr>ps_ClientConfig := Some (Ok (the_config fl cfg)), ps_stdout := ps_stdout p @ concat pieces\<rparr>))"
    "fd_Output fl \<noteq> [] \<Longrightarrow> fs_open_err (ps_fs p) (fd_Output fl) = None \<Longrightarrow> fs_write_err (ps_fs p) (fd_Output fl) = None \<Longrightarrow>
      zstor env fl FileDownload [key] p = Some (Ok (), Some (p\<lparr>ps_ClientConfig := Some (Ok (the_config fl cfg)),
        ps_fs := (ps_fs p)\<lparr>fs_files := (fs_files (ps_fs p))(fd_Output fl \<mapsto> concat pieces)\<rparr>\<rparr>))"
proof -
  have down: "is_file_command FileDownload" "validate_args FileDownload [key] = Ok ()" by (simp_all add: is_file_command_def validate_args_def)
  obtain p1 where p1: "zstor env fl FileDownload [key] p = fileDownloadCmd env fl [key] p1"
    "getClient env fl p1 = (Ok cl, p\<lparr>ps_ClientConfig := Some (Ok (the_config fl cfg))\<rparr>)"
    using file_command_started [OF down p(1) read made] by auto
  note dl = download_file [OF sv sch p1(2)]
  show "fd_Output fl = [] \<Longrightarrow> zstor env fl FileDownload [key] p =
      Some (Ok (), Some (p\<lparr>ps_ClientConfig := Some (Ok (the_config fl cfg)), ps_stdout := ps_stdout p @ concat pieces\<rparr>))"
    using dl(1) p(2) p1(1) by simp
  show "fd_Output fl \<noteq> [] \<Longrightarrow> fs_open_err (ps_fs p) (fd_Output fl) = None \<Longrightarrow> fs_write_err (ps_fs p) (fd_Output fl) = None \<Longrightarrow>
      zstor env fl FileDownload [key] p = Some (Ok (), Some (p\<lparr>ps_ClientConfig := Some (Ok (the_config fl cfg)),
        ps_fs := (ps_fs p)\<lparr>fs_files := (fs_files (ps_fs p))(fd_Output fl \<mapsto> concat pieces)\<rparr>\<rparr>))"
    using dl(2) p(2) p1(1) by simp
qed


text \<open>The client of a configuration file, over three servers and one metadata database.\<close>

definition demo_client_config :: client_Config where
  "demo_client_config =
     \<lparr>cc_IYO = demo_iyo_config, cc_Namespace = ''ns'',
      cc_DataStor = \<lparr>ds_Shards = [''a'', ''b'', ''c''], ds_Pipeline = demo_config,
        ds_TLS = \<lparr>tls_Enabled = False, tls_ServerName = [], tls_RootCA = [], tls_MinVersion = 0, tls_MaxVersion = 0\<rparr>\<rparr>,
      cc_MetaStor = \<lparr>ms_Endpoints = [''etcd''], ms_Encryption = \<lparr>enc_PrivateKey = [], enc_Type = EncryptionTypeAES\<rparr>, ms_Encoding = MarshalTypeProtobuf\<rparr>\<rparr>"

definition demo_env :: "zworld environment \<Rightarrow> (metastor_DB, zworld, (string \<times> string) list) zstor_env" where
  "demo_env wenv =
     \<lparr>ze_ReadConfig = (\<lambda>_. Ok demo_client_config), ze_codecs = demo_codecs, ze_digest = (\<lambda>alg d. d), ze_pb = demo_pb,
      ze_marshalling = standard_marshalling demo_pb,
      ze_machine = \<lparr>mac_NumCPU = 1, mac_reedsolomon = demo_reedsolomon, mac_cluster = (\<lambda>_. zcluster (\<lambda>_. []) ''ns''), mac_environment = (\<lambda>_. wenv)\<rparr>,
      ze_createCluster = (\<lambda>cfg _. Ok \<lparr>listed = Map.empty, listedSlice = ds_Shards (cc_DataStor cfg), listedCount = 3, unlisted = Map.empty\<rparr>),
      ze_etcd_New = (\<lambda>_. Ok lone_DB), ze_iyo = demo_iyo, ze_json_meta = (\<lambda>_ _. Err ''unsupported''), ze_json_perm = (\<lambda>_ _. Err ''unsupported'')\<rparr>"

definition demo_process :: "(metastor_DB, zworld, (string \<times> string) list) process" where
  "demo_process =
     \<lparr>ps_ClientConfig = None, ps_debug = False, ps_store = (metastor_New, demo_client_world), ps_iyo = [],
      ps_fs = \<lparr>fs_files = [''/tmp/f'' \<mapsto> [1, 2, 3]], fs_open_err = (\<lambda>_. None), fs_read_err = (\<lambda>_. None), fs_write_err = (\<lambda>_. None), fs_close_err = (\<lambda>_. None)\<rparr>,
      ps_stdin = [], ps_stdout = []\<rparr>"

lemma demo_client_made:
  assumes "zstor_configured demo_reedsolomon 1 (\<lambda>_. []) ''ns'' wenv demo_config 3 0 kind demo_pb demo_codecs None cl"
  shows "newClientFromConfig (ze_machine (demo_env wenv)) (ze_createCluster (demo_env wenv)) (createMetastor (demo_env wenv)) demo_client_config 0 False = Ok cl"
proof -
  have "createMetastor (demo_env wenv) (cc_MetaStor demo_client_config) = Ok (metastorClient cl)"
    using assms by (simp add: createMetastor_def create_metastor_at_def create_metastor_def demo_env_def demo_client_config_def standard_pair zstor_configured_def
        configured_metastor_on_def metastor_NewClient_def)
  moreover have "make_pipeline (ze_machine (demo_env wenv)) demo_config \<lparr>listed = Map.empty, listedSlice = [''a'', ''b'', ''c''], listedCount = 3, unlisted = Map.empty\<rparr> 0 = Ok (dataPipeline cl)"
    using assms by (simp add: make_pipeline_def demo_env_def zstor_configured_def ListedShardCount_def)
  ultimately show ?thesis by (simp add: newClientFromConfig_def demo_env_def demo_client_config_def client_NewClient_def)
qed


section \<open>Namespaces\<close>

text \<open>The panic of the namespace argument does not come about: the configuration was read before.\<close>

lemma getNamespacePosArg_Ok:
  assumes "getNamespaceManager env fl st = (Ok iyoCl, st')"
  shows "\<exists>ns. getNamespacePosArg env fl n args st' = (Ok ns, st')"
proof -
  obtain cfg where "getClientConfig env fl st = (Ok cfg, st')" using assms by (auto simp: getNamespaceManager_def obind_eq_Ok)
  from getClientConfig_once [OF this] show ?thesis by (auto simp: getNamespacePosArg_def)
qed

text \<open>The command sets permissions the way the daemon does; only the texts of errors differ.\<close>

definition set_error :: "namespace_err service_err \<Rightarrow> cmd_error" where
  "set_error e =
     (case e of
        ClientErr (WrappedErr msg userID namespace e) \<Rightarrow>
          Wrapped (if msg = ''failed to retrieve permission(s) for'' then ''fail to retrieve permission(s)''
            else if msg = ''failed to remove permission(s) for'' then ''fail to remove permission(s)'' else ''fail to give permission(s)'') [userID, namespace] (CauseIyo e)
      | _ \<Rightarrow> Plain (CauseText []))"

lemma set_permission_as_daemon:
  assumes mgr: "getNamespaceManager env fl st = (Ok iyoCl, st')" and ns: "getNamespacePosArg env fl 2 args st' = (Ok ns, st')"
  shows "namespaceSetPermissionCmd env fl args st =
    (case SetPermission (ze_iyo env) iyoCl ns (args ! 0) (namespaceSetPermissionCfg fl) (ps_iyo st') of (r, i) \<Rightarrow> (map_err set_error r, st'\<lparr>ps_iyo := i\<rparr>))"
proof -
  let ?u = "args ! 0" and ?p = "namespaceSetPermissionCfg fl"
  obtain r i where g: "GetPermission (ze_iyo env) iyoCl ns ?u (ps_iyo st') = (r, i)" by fastforce
  show ?thesis
  proof (cases r)
    case (Ok cur)
    obtain r2 i2 where rm: "RemovePermission (ze_iyo env) iyoCl ns ?u (computePermissionsToRemove cur ?p) i = (r2, i2)" by fastforce
    obtain r3 i3 where gv: "GivePermission (ze_iyo env) iyoCl ns ?u (computePermissionsToGive cur ?p) i2 = (r3, i3)" by fastforce
    show ?thesis using mgr ns g Ok rm gv
      by (cases r2; cases r3) (simp_all add: namespaceSetPermissionCmd_def SetPermission_def iyo_call_def omap_err_def set_error_def
          computePermissionsToRemove_def computePermissionsToGive_def Let_def)
  qed (use mgr ns g in \<open>simp_all add: namespaceSetPermissionCmd_def SetPermission_def iyo_call_def omap_err_def set_error_def Let_def\<close>)
qed

text \<open>What was set for a user, on the namespace of the command line or of the configuration, is what is printed for that user.\<close>

definition namespace_of :: "string list \<Rightarrow> client_Config \<Rightarrow> string" where
  "namespace_of args cfg = (if length args = 2 then args ! 1 else cc_Namespace cfg)"

lemma permission_command_started:
  assumes "ps_ClientConfig st = None" "ze_ReadConfig env (zr_ConfigFile fl) = Ok cfg" "iyo_NewClient (cc_IYO cfg) = Ok iyoCl"
    and "length args \<in> {1, 2}" "c \<in> {NamespaceSetPermission, NamespaceGetPermission}"
  shows "\<exists>st1 st2. zstor env fl c args st = run_command env fl c args st1 \<and> getNamespaceManager env fl st1 = (Ok iyoCl, st2) \<and>
    getNamespacePosArg env fl 2 args st2 = (Ok (namespace_of args cfg), st2) \<and> ps_iyo st2 = ps_iyo st \<and> ps_stdout st2 = ps_stdout st"
proof -
  let ?st0 = "if zr_DebugLog fl then st\<lparr>ps_debug := True\<rparr> else st"
  let ?st1 = "if length args = 2 then ?st0\<lparr>ps_ClientConfig := Some (Ok (cfg\<lparr>cc_Namespace := args ! 1\<rparr>))\<rparr> else ?st0"
  let ?st2 = "?st0\<lparr>ps_ClientConfig := Some (Ok (if length args = 2 then cfg\<lparr>cc_Namespace := args ! 1\<rparr> else cfg))\<rparr>"
  have "ps_ClientConfig ?st0 = None" using assms(1) by simp
  note first = getClientConfig_fresh(1) [OF this assms(2)]
  have "pre_run env fl c args ?st0 = (Ok (), ?st1)"
    using assms(4,5) first by (auto simp: preRunNamespaceCommands_def overwrite_namespace_def Let_def)
  then have "zstor env fl c args st = run_command env fl c args ?st1"
    using assms(5) by (auto simp: zstor_def validate_args_def persistent_pre_run_def is_file_command_def preRunRoot_def then_run_def)
  moreover have "getNamespaceManager env fl ?st1 = (Ok iyoCl, ?st2)"
    using assms(3,4) first by (auto simp: getNamespaceManager_def getClientConfig_fresh(2))
  moreover have "getNamespacePosArg env fl 2 args ?st2 = (Ok (namespace_of args cfg), ?st2)"
    using assms(4) by (auto simp: getNamespacePosArg_def getClientConfig_fresh(2) namespace_of_def)
  ultimately show ?thesis by (intro exI [of _ ?st1] exI [of _ ?st2]) simp
qed



section \<open>Errors\<close>

text \<open>The debug flag has no effect on the commands on files, whose persistent function takes the place of the one that looks at it.\<close>

lemma file_commands_ignore_debug:
  assumes "is_file_command c"
  shows "persistent_pre_run env (fl\<lparr>zr_DebugLog := b\<rparr>) c st = persistent_pre_run env fl c st"
    "ps_debug (snd (persistent_pre_run env fl c st)) = ps_debug st"
proof -
  have "ps_debug (snd (obind (map_err f r, st1) (\<lambda>config st. (Ok (), st\<lparr>ps_ClientConfig := h config\<rparr>)))) = ps_debug st1"
    for f :: "string \<Rightarrow> cmd_error" and r and st1 :: "('a, 'b, 'c) process" and h :: "client_Config \<Rightarrow> (string, client_Config) result option"
    by (cases r) simp_all
  then show "persistent_pre_run env (fl\<lparr>zr_DebugLog := b\<rparr>) c st = persistent_pre_run env fl c st"
    "ps_debug (snd (persistent_pre_run env fl c st)) = ps_debug st"
    using assms by (simp_all add: persistent_pre_run_def preRunFile_def overwrite_namespace_def getClientConfig_def Let_def cong: option.case_cong)
qed

text \<open>A file that cannot be read, or input without a key, is refused before anything is stored.\<close>

lemma upload_refused:
  assumes "getClient env fl st = (Ok cl, st')"
  shows "openFileToRead path (ps_fs st') = Err e \<Longrightarrow>
      fileUploadCmd env fl [path] st = Some (Err (Wrapped ''can't read the file'' [path] (CauseText e)), Some st')"
    "fu_Key fl = [] \<Longrightarrow> \<exists>err. fileUploadCmd env fl [] st = Some (Err err, Some st')"
  using assms by (simp_all add: fileUploadCmd_def then_run_def upload_input_def)

end
