(* ===== verification/Benchmark.thy ===== *)
theory Benchmark
  imports Client_Config Cmd_Flags
begin

text \<open>
  The benchmark tool: its configuration (\<open>benchmark/config/config.go\<close>), the client it makes
  (\<open>benchmark/bencher/client.go\<close>), the benchmark itself (\<open>benchmark/bencher/bencher.go\<close>) and the command
  (\<open>cmd/zstorbench/cmd\<close>).

  The clock is an argument: what a \<open>select\<close> finds, the timeout, a tick or neither, is a list of events,
  and for several clients a list of events with the goroutine that takes its turn.  Randomness, YAML and
  the validator library are arguments too.
\<close>

section \<open>Configuration (config.go)\<close>

type_synonym BencherMethod = byte

definition BencherRead :: BencherMethod where "BencherRead = 0"
definition BencherWrite :: BencherMethod where "BencherWrite = 1"

definition BencherMethodStrings :: string where
  "BencherMethodStrings = ''readwrite''"

definition BencherMethodEnumToStringMapping :: "BencherMethod \<rightharpoonup> string" where
  "BencherMethodEnumToStringMapping = map_of [(BencherRead, take 4 BencherMethodStrings), (BencherWrite, drop 4 BencherMethodStrings)]"

definition BencherMethodStringToEnumMapping :: "string \<rightharpoonup> BencherMethod" where
  "BencherMethodStringToEnumMapping = map_of [(take 4 BencherMethodStrings, BencherRead), (drop 4 BencherMethodStrings, BencherWrite)]"

definition BencherMethod_String :: "BencherMethod \<Rightarrow> string" where
  "BencherMethod_String bm = (case BencherMethodEnumToStringMapping bm of None \<Rightarrow> [] | Some s \<Rightarrow> s)"

definition BencherMethod_MarshalText :: "BencherMethod \<Rightarrow> (string, string) result" where
  "BencherMethod_MarshalText bm =
     (let str = BencherMethod_String bm in
      if str = [] then Err (decimal (unat bm) @ '' is not a valid BencherMethod value'') else Ok str)"

text \<open>A name that is not known leaves the zero value.\<close>

definition BencherMethod_UnmarshalText :: "string \<Rightarrow> (BencherMethod, string, unit) op" where
  "BencherMethod_UnmarshalText text bm =
     (case BencherMethodStringToEnumMapping (ToLower text) of
        Some bm \<Rightarrow> (Ok (), bm)
      | None \<Rightarrow> (Err (text @ '' is not a valid BencherMethod string''), 0))"

record BenchmarkConfig =
  bc_Method :: BencherMethod
  bc_Output :: string
  bc_Duration :: int
  bc_Operations :: int
  bc_Clients :: int
  bc_KeySize :: int
  bc_ValueSize :: int

record Scenario =
  sc_ZstorConf :: client_Config
  sc_BenchConf :: BenchmarkConfig

text \<open>The scenarios, in the order in which the map is traversed.\<close>

type_synonym ClientConf = "(string \<times> Scenario) list"

definition BenchmarkConfig_validate :: "BenchmarkConfig \<Rightarrow> (string, unit) result" where
  "BenchmarkConfig_validate bc =
     (if bc_Duration bc \<le> 0 \<and> bc_Operations bc \<le> 0 then Err ''no duration or operations was provided'' else Ok ())"

definition Scenario_validate :: "Scenario \<Rightarrow> (string, unit) result" where
  "Scenario_validate sc = BenchmarkConfig_validate (sc_BenchConf sc)"

fun ClientConf_validate :: "ClientConf \<Rightarrow> (string, unit) result" where
  "ClientConf_validate [] = Ok ()"
| "ClientConf_validate ((_, sc) # scs) = rbind (Scenario_validate sc) (\<lambda>_. ClientConf_validate scs)"

definition UnmarshalYAML ::
  "(bytes \<Rightarrow> (string, ClientConf) result) \<Rightarrow> (ClientConf \<Rightarrow> (string, unit) result) \<Rightarrow> bytes \<Rightarrow> (string, ClientConf) result" where
  "UnmarshalYAML yaml validator b =
     rbind (yaml b) (\<lambda>clientConf.
     rbind (validator clientConf) (\<lambda>_.
     rbind (ClientConf_validate clientConf) (\<lambda>_.
       Ok clientConf)))"

definition randomSuffix :: "(nat \<Rightarrow> nat) \<Rightarrow> nat \<Rightarrow> string" where
  "randomSuffix intn n = map (\<lambda>i. char_of (48 + intn i)) [0..<n]"

definition SetupClientConfig :: "(nat \<Rightarrow> nat) \<Rightarrow> client_Config \<Rightarrow> client_Config" where
  "SetupClientConfig intn c = (if cc_Namespace c = [] then c\<lparr>cc_Namespace := ''b-'' @ randomSuffix intn 4\<rparr> else c)"

section \<open>The client (client.go)\<close>

text \<open>
  The functions are copies of those of \<open>client/client.go\<close>, but for the metadata, which is kept in memory when
  no server for it is configured.
\<close>

definition bench_createTLSConfig :: "'p certificates \<Rightarrow> DataStorTLSConfig \<Rightarrow> (config_error, 'p tls_Config option) result" where
  "bench_createTLSConfig = client_createTLSConfig"

definition bench_createDataCluster ::
  "'p certificates \<Rightarrow> 'i iyo_api \<Rightarrow> 'k parser \<Rightarrow> 'k \<Rightarrow> ('p, 'i) dialler \<Rightarrow> client_Config \<Rightarrow> bool \<Rightarrow> (config_error, grpc_Cluster) result" where
  "bench_createDataCluster = client_createDataCluster"

definition bench_create_metastor ::
  "pb_codec \<Rightarrow> codecs \<Rightarrow> ((Metadata \<Rightarrow> (string, bytes) result) \<times> (bytes \<Rightarrow> Metadata \<Rightarrow> (string, Metadata) result)) registry \<Rightarrow>
   MetaStorConfig \<Rightarrow> ('s, 'x, 'e) meta_DB \<Rightarrow> (config_error, ('s, 'x, 'e) metastor_Client) result" where
  "bench_create_metastor = create_metastor"

definition bench_createMetastor ::
  "pb_codec \<Rightarrow> codecs \<Rightarrow> ((Metadata \<Rightarrow> (string, bytes) result) \<times> (bytes \<Rightarrow> Metadata \<Rightarrow> (string, Metadata) result)) registry \<Rightarrow>
   ('s, 'x, 'e) meta_DB \<Rightarrow> (string list \<Rightarrow> (string, ('s, 'x, 'e) meta_DB) result) \<Rightarrow> MetaStorConfig \<Rightarrow> (config_error, ('s, 'x, 'e) metastor_Client) result" where
  "bench_createMetastor pb lib reg test_New etcd_New cfg =
     (if length (ms_Endpoints cfg) = 0 then bench_create_metastor pb lib reg cfg test_New
      else rbind (map_err ConfigErr (etcd_New (ms_Endpoints cfg))) (\<lambda>db. bench_create_metastor pb lib reg cfg db))"

definition bench_newClientFromConfig ::
  "'w machine \<Rightarrow> (client_Config \<Rightarrow> bool \<Rightarrow> (config_error, grpc_Cluster) result) \<Rightarrow>
   (MetaStorConfig \<Rightarrow> (config_error, ('s, ('w \<times> nat) client_world, zstor_err) metastor_Client) result) \<Rightarrow>
   client_Config \<Rightarrow> int \<Rightarrow> bool \<Rightarrow> (config_error, ('s, 'w \<times> nat) zstor_Client) result" where
  "bench_newClientFromConfig mac createCluster createMetastor cfg jobCount enableCaching =
     rbind (createCluster cfg enableCaching) (\<lambda>datastorCluster.
     rbind (make_pipeline mac (ds_Pipeline (cc_DataStor cfg)) datastorCluster jobCount) (\<lambda>p.
     rbind (createMetastor (cc_MetaStor cfg)) (\<lambda>mc.
       client_NewClient (Some mc) (Some p))))"

section \<open>The benchmark (bencher.go)\<close>

definition defaultKeyCount :: nat where "defaultKeyCount = 1000"

text \<open>The intervals, in seconds; an option that is not known gives none.\<close>

definition ResultOptions :: "string \<rightharpoonup> nat" where
  "ResultOptions = map_of [(''per_second'', 1), (''per_minute'', 60), (''per_hour'', 3600)]"

text \<open>A result; the time that has passed is left out.\<close>

record bench_Result =
  res_Count :: int
  res_PerInterval :: "int list"

datatype bench_error = BenchInvalidMethod nat | BenchClient config_error | BenchTestData zstor_err | BenchOp zstor_err

datatype bencherFunc = ReadFunc | WriteFunc

record ('s, 'w) Bencher =
  b_client :: "('s, 'w) zstor_Client"
  b_scenario :: Scenario
  b_scenarioID :: string
  b_keys :: "bytes list"
  b_value :: bytes
  b_func :: bencherFunc

definition readFunc ::
  "codecs \<Rightarrow> digest \<Rightarrow> ('s, 'w) zstor_Client \<Rightarrow> bytes \<Rightarrow> bytes \<Rightarrow> 's \<times> 'w client_world \<Rightarrow> (zstor_err, 's \<times> 'w client_world) result option" where
  "readFunc lib dg client k v st = Some (rbind (client_Read lib dg client k (Some appending) st []) (\<lambda>buf. Ok st))"

definition writeFunc ::
  "codecs \<Rightarrow> digest \<Rightarrow> ('s, 'w) zstor_Client \<Rightarrow> bytes \<Rightarrow> bytes \<Rightarrow> 's \<times> 'w client_world \<Rightarrow> (zstor_err, 's \<times> 'w client_world) result option" where
  "writeFunc lib dg client k v st =
     map_option (\<lambda>r. rbind r (\<lambda>(md, st). Ok st)) (client_Write lib dg client k (Some (bytes_NewReader (dataPipeline client) v)) st)"

definition run_func ::
  "codecs \<Rightarrow> digest \<Rightarrow> ('s, 'w) Bencher \<Rightarrow> bytes \<Rightarrow> 's \<times> 'w client_world \<Rightarrow> (zstor_err, 's \<times> 'w client_world) result option" where
  "run_func lib dg b key st =
     (case b_func b of
        ReadFunc \<Rightarrow> readFunc lib dg (b_client b) key (b_value b) st
      | WriteFunc \<Rightarrow> writeFunc lib dg (b_client b) key (b_value b) st)"

definition generateData :: "(nat \<Rightarrow> byte) \<Rightarrow> int \<Rightarrow> ('e, bytes) result" where
  "generateData rand len = (if len < 0 then Panic else Ok (map rand [0..<nat len]))"

fun generate_keys :: "(nat \<Rightarrow> nat \<Rightarrow> byte) \<Rightarrow> int \<Rightarrow> nat \<Rightarrow> nat \<Rightarrow> ('e, bytes list) result" where
  "generate_keys rand keySize i 0 = Ok []"
| "generate_keys rand keySize i (Suc n) =
     rbind (generateData (rand i) keySize) (\<lambda>k. rbind (generate_keys rand keySize (Suc i) n) (\<lambda>ks. Ok (k # ks)))"

fun write_testdata ::
  "codecs \<Rightarrow> digest \<Rightarrow> ('s, 'w) zstor_Client \<Rightarrow> bytes \<Rightarrow> bytes list \<Rightarrow> 's \<times> 'w client_world \<Rightarrow>
   (bench_error, 's \<times> 'w client_world) result option" where
  "write_testdata lib dg client value [] st = Some (Ok st)"
| "write_testdata lib dg client value (key # keys) st =
     (case writeFunc lib dg client key value st of
        None \<Rightarrow> None
      | Some (Ok st) \<Rightarrow> write_testdata lib dg client value keys st
      | Some (Err e) \<Rightarrow> Some (Err (BenchTestData e))
      | Some Panic \<Rightarrow> Some Panic)"

text \<open>The keys and the value that are generated, and how many.\<close>

definition key_count :: "BenchmarkConfig \<Rightarrow> nat" where
  "key_count bc = (if bc_Operations bc \<le> 0 then defaultKeyCount else nat (bc_Operations bc))"

definition bencher_func :: "BencherMethod \<Rightarrow> (bench_error, bencherFunc) result" where
  "bencher_func m = (if m = BencherRead then Ok ReadFunc else if m = BencherWrite then Ok WriteFunc else Err (BenchInvalidMethod (unat m)))"

definition make_bencher ::
  "(nat \<Rightarrow> nat \<Rightarrow> byte) \<Rightarrow> (nat \<Rightarrow> nat) \<Rightarrow> (client_Config \<Rightarrow> int \<Rightarrow> bool \<Rightarrow> (config_error, ('s, 'w) zstor_Client) result) \<Rightarrow>
   string \<Rightarrow> Scenario \<Rightarrow> (bench_error, ('s, 'w) Bencher) result" where
  "make_bencher rand intn newClient scenarioID scenario =
     (let bc = sc_BenchConf scenario in
      rbind (bencher_func (bc_Method bc)) (\<lambda>f.
      rbind (generate_keys rand (bc_KeySize bc) 0 (key_count bc)) (\<lambda>keys.
      rbind (generateData (rand (key_count bc)) (bc_ValueSize bc)) (\<lambda>value.
      let scenario = scenario\<lparr>sc_ZstorConf := SetupClientConfig intn (sc_ZstorConf scenario)\<rparr> in
      rbind (map_err BenchClient (newClient (sc_ZstorConf scenario) 1 True)) (\<lambda>client.
        Ok \<lparr>b_client = client, b_scenario = scenario, b_scenarioID = scenarioID, b_keys = keys, b_value = value, b_func = f\<rparr>)))))"

definition NewBencher ::
  "codecs \<Rightarrow> digest \<Rightarrow> (nat \<Rightarrow> nat \<Rightarrow> byte) \<Rightarrow> (nat \<Rightarrow> nat) \<Rightarrow> (client_Config \<Rightarrow> int \<Rightarrow> bool \<Rightarrow> (config_error, ('s, 'w) zstor_Client) result) \<Rightarrow>
   string \<Rightarrow> Scenario \<Rightarrow> 's \<times> 'w client_world \<Rightarrow> (bench_error, ('s, 'w) Bencher \<times> 's \<times> 'w client_world) result option" where
  "NewBencher lib dg rand intn newClient scenarioID scenario st =
     (case make_bencher rand intn newClient scenarioID scenario of
        Err e \<Rightarrow> Some (Err e)
      | Panic \<Rightarrow> Some Panic
      | Ok b \<Rightarrow>
          if bc_Method (sc_BenchConf scenario) = BencherRead
          then map_option (\<lambda>r. rbind r (\<lambda>st. Ok (b, st))) (write_testdata lib dg (b_client b) (b_value b) (b_keys b) st)
          else Some (Ok (b, st)))"

text \<open>What the \<open>select\<close> of a round finds.\<close>

datatype event = TimedOut | Ticked | Nothing

definition bench_interval :: "BenchmarkConfig \<Rightarrow> nat" where
  "bench_interval bc = (case ResultOptions (bc_Output bc) of None \<Rightarrow> 0 | Some d \<Rightarrow> d)"

text \<open>The channels of a timeout and of ticks are nil when they are not configured.\<close>

definition seen :: "BenchmarkConfig \<Rightarrow> event \<Rightarrow> event" where
  "seen bc ev =
     (case ev of
        TimedOut \<Rightarrow> if bc_Duration bc > 0 then TimedOut else Nothing
      | Ticked \<Rightarrow> if bench_interval bc > 0 then Ticked else Nothing
      | Nothing \<Rightarrow> Nothing)"

definition MaxInt64 :: int where "MaxInt64 = 2 ^ 63 - 1"

definition maxIterations :: "BenchmarkConfig \<Rightarrow> int" where
  "maxIterations bc = (if bc_Operations bc = 0 then MaxInt64 else bc_Operations bc)"

record bench_run =
  br_i :: int
  br_counter :: int
  br_intervalCounter :: int
  br_PerInterval :: "int list"

definition bench_start :: bench_run where
  "bench_start = \<lparr>br_i = 0, br_counter = 0, br_intervalCounter = 0, br_PerInterval = []\<rparr>"

definition bench_result :: "BenchmarkConfig \<Rightarrow> bench_run \<Rightarrow> bench_Result" where
  "bench_result bc r =
     \<lparr>res_Count = br_counter r,
      res_PerInterval = br_PerInterval r @ (if bench_interval bc > 0 then [br_intervalCounter r] else [])\<rparr>"

text \<open>One round of the loop: it goes on, or leaves the loop with a result or an error.  \<open>None\<close> is an operation that does not return.\<close>

datatype 'r round = Going bench_run | Left 'r

definition bench_round ::
  "codecs \<Rightarrow> digest \<Rightarrow> ('s, 'w) Bencher \<Rightarrow> event \<Rightarrow> bench_run \<Rightarrow> 's \<times> 'w client_world \<Rightarrow>
   ((zstor_err, bench_Result) result round \<times> ('s \<times> 'w client_world)) option" where
  "bench_round lib dg b ev r st =
     (let bc = sc_BenchConf (b_scenario b) in
      if \<not> br_i r < maxIterations bc then Some (Left (Ok (bench_result bc r)), st)
      else if b_keys b = [] then Some (Left Panic, st)
      else
        let key = b_keys b ! nat (br_i r mod int (length (b_keys b))) in
        (case seen bc ev of
           TimedOut \<Rightarrow> Some (Left (Ok (bench_result bc r)), st)
         | Ticked \<Rightarrow> Some (Going (r\<lparr>br_PerInterval := br_PerInterval r @ [br_intervalCounter r], br_intervalCounter := 0\<rparr>), st)
         | Nothing \<Rightarrow>
             (case run_func lib dg b key st of
                None \<Rightarrow> None
              | Some (Err e) \<Rightarrow> Some (Left (Err e), st)
              | Some Panic \<Rightarrow> Some (Left Panic, st)
              | Some (Ok st) \<Rightarrow>
                  Some (Going (r\<lparr>br_intervalCounter := br_intervalCounter r + 1, br_counter := br_counter r + 1, br_i := br_i r + 1\<rparr>), st))))"

fun bench_loop ::
  "codecs \<Rightarrow> digest \<Rightarrow> ('s, 'w) Bencher \<Rightarrow> event list \<Rightarrow> bench_run \<Rightarrow> 's \<times> 'w client_world \<Rightarrow>
   ((zstor_err, bench_Result) result \<times> ('s \<times> 'w client_world)) option" where
  "bench_loop lib dg b [] r st = None"
| "bench_loop lib dg b (ev # evs) r st =
     (case bench_round lib dg b ev r st of
        None \<Rightarrow> None
      | Some (Going r, st) \<Rightarrow> bench_loop lib dg b evs r st
      | Some (Left res, st) \<Rightarrow> Some (res, st))"

definition RunBenchmark ::
  "codecs \<Rightarrow> digest \<Rightarrow> ('s, 'w) Bencher \<Rightarrow> event list \<Rightarrow> 's \<times> 'w client_world \<Rightarrow> ((zstor_err, bench_Result) result \<times> ('s \<times> 'w client_world)) option" where
  "RunBenchmark lib dg b evs st = bench_loop lib dg b evs bench_start st"

section \<open>The command (root.go, output.go)\<close>

text \<open>
  The goroutines of a scenario, all of which run the benchmark of the last client: they take turns, and
  each that ends leaves its result in its place and its error in the variable they share.
\<close>

datatype goroutine = Running bench_run | Ended

record 's bench_state =
  bs_routines :: "goroutine list"
  bs_results :: "bench_Result option list"
  bs_err :: "zstor_err option"
  bs_world :: 's

definition routine_turn ::
  "codecs \<Rightarrow> digest \<Rightarrow> ('s, 'w) Bencher \<Rightarrow> nat \<times> event \<Rightarrow> ('s \<times> 'w client_world) bench_state \<Rightarrow> ('s \<times> 'w client_world) bench_state option" where
  "routine_turn lib dg b turn s =
     (case turn of (g, ev) \<Rightarrow>
        if \<not> g < length (bs_routines s) then Some s
        else case bs_routines s ! g of
          Ended \<Rightarrow> Some s
        | Running r \<Rightarrow>
            (case bench_round lib dg b ev r (bs_world s) of
               None \<Rightarrow> None
             | Some (Going r, st) \<Rightarrow> Some (s\<lparr>bs_routines := (bs_routines s)[g := Running r], bs_world := st\<rparr>)
             | Some (Left (Ok res), st) \<Rightarrow>
                 Some (s\<lparr>bs_routines := (bs_routines s)[g := Ended], bs_results := (bs_results s)[g := Some res], bs_err := None, bs_world := st\<rparr>)
             | Some (Left (Err e), st) \<Rightarrow>
                 Some (s\<lparr>bs_routines := (bs_routines s)[g := Ended], bs_results := (bs_results s)[g := None], bs_err := Some e, bs_world := st\<rparr>)
             | Some (Left Panic, st) \<Rightarrow> None))"

fun run_routines ::
  "codecs \<Rightarrow> digest \<Rightarrow> ('s, 'w) Bencher \<Rightarrow> (nat \<times> event) list \<Rightarrow> ('s \<times> 'w client_world) bench_state \<Rightarrow> ('s \<times> 'w client_world) bench_state option" where
  "run_routines lib dg b [] s = (if list_all (\<lambda>g. g = Ended) (bs_routines s) then Some s else None)"
| "run_routines lib dg b (turn # turns) s = Option.bind (routine_turn lib dg b turn s) (run_routines lib dg b turns)"

definition client_count :: "BenchmarkConfig \<Rightarrow> nat" where
  "client_count bc = (if bc_Clients bc < 1 then 1 else nat (bc_Clients bc))"

fun init_clients :: "(nat \<Rightarrow> 'st \<Rightarrow> (bench_error, 'b \<times> 'st) result option) \<Rightarrow> nat \<Rightarrow> nat \<Rightarrow> 'st \<Rightarrow> (bench_error, 'b list \<times> 'st) result option" where
  "init_clients new i 0 st = Some (Ok ([], st))"
| "init_clients new i (Suc n) st =
     (case new i st of
        None \<Rightarrow> None
      | Some (Err e) \<Rightarrow> Some (Err e)
      | Some Panic \<Rightarrow> Some Panic
      | Some (Ok (b, st)) \<Rightarrow> map_option (\<lambda>r. rbind r (\<lambda>(bs, st). Ok (b # bs, st))) (init_clients new (Suc i) n st))"

record ScenarioOutputFormat =
  out_Results :: "bench_Result option list"
  out_ScenarioConf :: Scenario
  out_Error :: "bench_error option"

definition FormatOutput :: "bench_Result option list \<Rightarrow> Scenario \<Rightarrow> bench_error option \<Rightarrow> ScenarioOutputFormat" where
  "FormatOutput results scenarioConfig err =
     (case err of
        Some e \<Rightarrow> \<lparr>out_Results = [], out_ScenarioConf = scenarioConfig, out_Error = Some e\<rparr>
      | None \<Rightarrow> \<lparr>out_Results = results, out_ScenarioConf = scenarioConfig, out_Error = None\<rparr>)"

text \<open>The scenario after its first client was set up: the namespace was drawn, unless the method is not known.\<close>

definition used_scenario :: "(nat \<Rightarrow> nat) \<Rightarrow> Scenario \<Rightarrow> Scenario" where
  "used_scenario intn sc =
     (case bencher_func (bc_Method (sc_BenchConf sc)) of Ok _ \<Rightarrow> sc\<lparr>sc_ZstorConf := SetupClientConfig intn (sc_ZstorConf sc)\<rparr> | _ \<Rightarrow> sc)"

text \<open>One scenario.  When a client cannot be made the state is taken to be the one before the scenario.\<close>

definition run_scenario ::
  "codecs \<Rightarrow> digest \<Rightarrow> (nat \<Rightarrow> nat \<Rightarrow> nat \<Rightarrow> byte) \<Rightarrow> (nat \<Rightarrow> nat) \<Rightarrow> (client_Config \<Rightarrow> int \<Rightarrow> bool \<Rightarrow> (config_error, ('s, 'w) zstor_Client) result) \<Rightarrow>
   (nat \<times> event) list \<Rightarrow> string \<Rightarrow> Scenario \<Rightarrow> 's \<times> 'w client_world \<Rightarrow> ('e, ScenarioOutputFormat \<times> 's \<times> 'w client_world) result option" where
  "run_scenario lib dg rand intn newClient turns scID sc st =
     (let cc = client_count (sc_BenchConf sc); used = used_scenario intn sc in
      case init_clients (\<lambda>i. NewBencher lib dg (rand i) intn newClient scID sc) 0 cc st of
        None \<Rightarrow> None
      | Some Panic \<Rightarrow> Some Panic
      | Some (Err e) \<Rightarrow> Some (Ok (FormatOutput (replicate cc None) used (Some e), st))
      | Some (Ok (clients, st)) \<Rightarrow>
          map_option (\<lambda>s. Ok (FormatOutput (bs_results s) used (map_option BenchOp (bs_err s)), bs_world s))
            (run_routines lib dg (last clients) turns
              \<lparr>bs_routines = replicate cc (Running bench_start), bs_results = replicate cc None, bs_err = None, bs_world = st\<rparr>))"

fun run_scenarios ::
  "(string \<Rightarrow> Scenario \<Rightarrow> 'st \<Rightarrow> ('e, ScenarioOutputFormat \<times> 'st) result option) \<Rightarrow> ClientConf \<Rightarrow> 'st \<Rightarrow> ('e, (string \<times> ScenarioOutputFormat) list \<times> 'st) result option" where
  "run_scenarios run [] st = Some (Ok ([], st))"
| "run_scenarios run ((scID, sc) # scs) st =
     (case run scID sc st of
        None \<Rightarrow> None
      | Some (Err e) \<Rightarrow> Some (Err e)
      | Some Panic \<Rightarrow> Some Panic
      | Some (Ok (out, st)) \<Rightarrow> map_option (\<lambda>r. rbind r (\<lambda>(outs, st). Ok ((scID, out) # outs, st))) (run_scenarios run scs st))"

text \<open>The command, for what it reads from the configuration file; \<open>write\<close> is the writing of the results.\<close>

definition bench_rootFunc ::
  "(string, ClientConf) result \<Rightarrow> (string \<Rightarrow> Scenario \<Rightarrow> 'st \<Rightarrow> (string, ScenarioOutputFormat \<times> 'st) result option) \<Rightarrow>
   ((string \<times> ScenarioOutputFormat) list \<Rightarrow> (string, unit) result) \<Rightarrow> 'st \<Rightarrow> (string, unit) result option" where
  "bench_rootFunc conf run write st =
     (case conf of
        Err e \<Rightarrow> Some (Err e)
      | Panic \<Rightarrow> Some Panic
      | Ok clientConf \<Rightarrow> map_option (\<lambda>r. rbind r (\<lambda>(outs, st). write outs)) (run_scenarios run clientConf st))"

definition bench_readConfig ::
  "(string \<Rightarrow> (string, bytes) result) \<Rightarrow> (bytes \<Rightarrow> (string, ClientConf) result) \<Rightarrow> (ClientConf \<Rightarrow> (string, unit) result) \<Rightarrow> string \<Rightarrow> (string, ClientConf) result" where
  "bench_readConfig readFile yaml validator path = rbind (readFile path) (UnmarshalYAML yaml validator)"

section \<open>Lemmas\<close>

lemma method_roundtrip:
  "bm \<le> BencherWrite \<Longrightarrow> \<exists>text. BencherMethod_MarshalText bm = Ok text \<and> BencherMethod_UnmarshalText text old = (Ok (), bm)"
proof -
  assume "bm \<le> BencherWrite"
  then have "bm = 0 \<or> bm = 1" by (simp add: BencherWrite_def word_le_nat_alt word_unat_eq_iff) linarith
  then show ?thesis
    by (auto simp: BencherMethod_MarshalText_def BencherMethod_UnmarshalText_def BencherMethod_String_def BencherMethodEnumToStringMapping_def
        BencherMethodStringToEnumMapping_def BencherMethodStrings_def BencherRead_def BencherWrite_def ToLower_def ToLower_char_def)
qed

lemma random_namespace: "cc_Namespace (SetupClientConfig intn c) \<noteq> []" "SetupClientConfig intn (SetupClientConfig intn' c) = SetupClientConfig intn' c"
  by (simp_all add: SetupClientConfig_def)

lemma generate_keys_Ok: "0 \<le> n \<Longrightarrow> \<exists>ks. generate_keys rand n i k = (Ok ks :: ('e, bytes list) result) \<and> length ks = k \<and> (\<forall>x\<in>set ks. length x = nat n)"
proof (induction k arbitrary: i)
  case (Suc k)
  then obtain ks where "generate_keys rand n (Suc i) k = (Ok ks :: ('e, bytes list) result) \<and> length ks = k \<and> (\<forall>x\<in>set ks. length x = nat n)" by blast
  then show ?case using Suc.prems by (intro exI [of _ "map (rand i) [0..<nat n] # ks"]) (simp add: generateData_def)
qed simp

text \<open>What a run keeps: the operations that were counted, those of the intervals, and where they go together.\<close>

definition counted :: "bench_run \<Rightarrow> bool" where
  "counted r \<longleftrightarrow> 0 \<le> br_i r \<and> br_counter r = br_i r \<and> sum_list (br_PerInterval r) + br_intervalCounter r = br_counter r"

lemma counted_start: "counted bench_start"
  by (simp add: counted_def bench_start_def)

lemma bench_round_counted:
  assumes "counted r" "bench_round lib dg b ev r st = Some (res, st')" "bc = sc_BenchConf (b_scenario b)"
  shows "res = Going r' \<Longrightarrow> counted r'"
    "res = Left (Ok out) \<Longrightarrow> out = bench_result bc r \<and> (maxIterations bc \<le> br_i r \<or> seen bc ev = TimedOut)"
  using assms
  by (auto simp: bench_round_def counted_def Let_def split: if_splits event.splits option.splits result.splits)

lemma bench_round_bounded:
  assumes "br_i r \<le> m" "0 \<le> m" "bench_round lib dg b ev r st = Some (Going r', st')" "maxIterations (sc_BenchConf (b_scenario b)) \<le> m"
  shows "br_i r' \<le> m"
  using assms by (auto simp: bench_round_def Let_def split: if_splits event.splits option.splits result.splits)

lemma bench_loop_counted:
  assumes "bench_loop lib dg b evs r st = Some (Ok out, st')" "counted r" "bc = sc_BenchConf (b_scenario b)"
    and "br_i r \<le> m" "0 \<le> m" "maxIterations bc \<le> m"
  shows "\<exists>r'. counted r' \<and> br_i r' \<le> m \<and> out = bench_result bc r' \<and> (maxIterations bc \<le> br_i r' \<or> TimedOut \<in> seen bc ` set evs)"
  using assms
proof (induction evs arbitrary: r st)
  case (Cons ev evs)
  from Cons.prems(1) obtain res st1 where rd: "bench_round lib dg b ev r st = Some (res, st1)" by (auto split: option.splits)
  show ?case
  proof (cases res)
    case (Going r1)
    have "br_i r1 \<le> m" using bench_round_bounded [OF Cons.prems(4,5) rd [unfolded Going]] Cons.prems(3,6) by simp
    then have "\<exists>r'. counted r' \<and> br_i r' \<le> m \<and> out = bench_result bc r' \<and> (maxIterations bc \<le> br_i r' \<or> TimedOut \<in> seen bc ` set evs)"
      using Cons.prems rd Going bench_round_counted(1) [OF Cons.prems(2) rd Cons.prems(3) Going]
      by (intro Cons.IH [of r1 st1]) auto
    then show ?thesis by auto
  next
    case (Left a)
    then show ?thesis using Cons.prems rd bench_round_counted(2) [OF Cons.prems(2) rd Cons.prems(3)] by (auto intro!: exI [of _ r])
  qed
qed simp

text \<open>
  The result of a benchmark adds up: the operations of its intervals are the operations it counts,
  which are no more than were asked for, and no fewer unless a duration was set and has passed.
\<close>

lemma benchmark_counts:
  assumes run: "RunBenchmark lib dg b evs st = Some (Ok out, st')" and bc: "bc = sc_BenchConf (b_scenario b)"
  shows "(bench_interval bc > 0 \<longrightarrow> sum_list (res_PerInterval out) = res_Count out) \<and> 0 \<le> res_Count out \<and>
    (0 \<le> maxIterations bc \<longrightarrow> res_Count out \<le> maxIterations bc) \<and>
    (res_Count out < maxIterations bc \<longrightarrow> bc_Duration bc > 0 \<and> TimedOut \<in> set evs)"
proof -
  obtain r where r: "counted r" "br_i r \<le> max 0 (maxIterations bc)" "out = bench_result bc r" "maxIterations bc \<le> br_i r \<or> TimedOut \<in> seen bc ` set evs"
    using bench_loop_counted [OF run [unfolded RunBenchmark_def] counted_start bc, of "max 0 (maxIterations bc)"] by (auto simp: bench_start_def)
  have "bc_Duration bc > 0 \<and> TimedOut \<in> set evs" if "TimedOut \<in> seen bc ` set evs"
    using that by (auto simp: seen_def split: event.splits if_splits)
  with r show ?thesis by (auto simp: bench_result_def counted_def)
qed

text \<open>A benchmark whose operations succeed comes to its end, when it is given its turns.\<close>

lemma benchmark_ends:
  assumes ops: "\<And>key st. key \<in> set (b_keys b) \<Longrightarrow> good st \<Longrightarrow> \<exists>st'. run_func lib dg b key st = Some (Ok st') \<and> good st'"
    and keys: "b_keys b \<noteq> []" and bc: "bc = sc_BenchConf (b_scenario b)"
  shows "good st \<Longrightarrow> 0 \<le> br_i r \<Longrightarrow> evs \<noteq> [] \<Longrightarrow> maxIterations bc - br_i r < int (length (filter (\<lambda>ev. seen bc ev = Nothing) evs)) \<Longrightarrow>
    \<exists>out st'. bench_loop lib dg b evs r st = Some (Ok out, st') \<and> good st'"
proof (induction evs arbitrary: r st)
  case (Cons ev evs)
  let ?key = "b_keys b ! nat (br_i r mod int (length (b_keys b)))"
  have len: "0 < length (b_keys b)" using keys by simp
  have "?key \<in> set (b_keys b)" using len Cons.prems(2) by (intro nth_mem) (simp add: nat_less_iff)
  from ops [OF this Cons.prems(1)] obtain st1 where st1: "run_func lib dg b ?key st = Some (Ok st1)" "good st1" by blast
  show ?case
  proof (cases "br_i r < maxIterations bc")
    case more: True
    let ?r1 = "r\<lparr>br_intervalCounter := br_intervalCounter r + 1, br_counter := br_counter r + 1, br_i := br_i r + 1\<rparr>"
    let ?r2 = "r\<lparr>br_PerInterval := br_PerInterval r @ [br_intervalCounter r], br_intervalCounter := 0\<rparr>"
    have ne: "evs \<noteq> []" if "seen bc ev \<noteq> TimedOut" using Cons.prems(4) more by (cases evs) (auto split: if_splits)
    show ?thesis
    proof (cases "seen bc ev")
      case TimedOut
      then show ?thesis using more Cons.prems(1) keys bc by (simp add: bench_round_def)
    next
      case Ticked
      with Cons.IH [of st ?r2] Cons.prems ne more keys bc show ?thesis by (simp add: bench_round_def)
    next
      case Nothing
      with Cons.IH [of st1 ?r1] Cons.prems ne more keys bc st1 show ?thesis by (simp add: bench_round_def)
    qed
  next
    case False
    then show ?thesis using Cons.prems(1) bc by (simp add: bench_round_def)
  qed
qed simp

section \<open>Errors\<close>

text \<open>Fewer operations than none are accepted next to a duration, and then none is run.\<close>

lemma negative_operations:
  assumes "bc_Operations bc < 0" "0 < bc_Duration bc" "bc = sc_BenchConf (b_scenario b)"
  shows "BenchmarkConfig_validate bc = Ok ()" "\<exists>out. RunBenchmark lib dg b (ev # evs) st = Some (Ok out, st) \<and> res_Count out = 0"
  using assms by (simp_all add: BenchmarkConfig_validate_def RunBenchmark_def bench_round_def maxIterations_def bench_start_def bench_result_def)

text \<open>The error of a client is lost when another client ends well after it: the output has no error, and a result that is missing.\<close>

lemma error_lost:
  assumes "bench_round lib dg b ev1 bench_start st = Some (Left (Err e), st1)" "bench_round lib dg b ev2 bench_start st1 = Some (Left (Ok res), st2)"
  shows "run_routines lib dg b [(0, ev1), (1, ev2)]
      \<lparr>bs_routines = replicate 2 (Running bench_start), bs_results = replicate 2 None, bs_err = None, bs_world = st\<rparr> =
    Some \<lparr>bs_routines = [Ended, Ended], bs_results = [None, Some res], bs_err = None, bs_world = st2\<rparr>"
  using assms by (simp add: routine_turn_def numeral_2_eq_2)

text \<open>A size below zero panics; the validator refuses only zero.\<close>

lemma negative_size_panics:
  assumes "bencher_func (bc_Method (sc_BenchConf sc)) = Ok f" "bc_KeySize (sc_BenchConf sc) < 0"
  shows "NewBencher lib dg rand intn newClient scID sc st = Some Panic"
proof -
  have "0 < key_count (sc_BenchConf sc)" by (simp add: key_count_def defaultKeyCount_def)
  then obtain n where "key_count (sc_BenchConf sc) = Suc n" by (cases "key_count (sc_BenchConf sc)") auto
  then show ?thesis using assms by (simp add: NewBencher_def make_bencher_def generateData_def)
qed

end
