(* ===== verification/Spec2Isabelle.thy ===== *)
theory Spec2Isabelle
  imports Linked_Data Badger_Open Metastor_Etcd Cmd_Zstor Benchmark
begin

text \<open>
  \<^bold>\<open>0-stor, a distributed object store.\<close>

  \<^bold>\<open>The program.\<close> A zstordb server keeps objects in a key-value database, one key space per namespace,
  behind a gRPC object service and a namespace service that check a JSON Web Token on every
  request.  The client library splits data into chunks, hashes, compresses and encrypts them, stores
  each chunk on one server, on several or in erasure-coded parts, and records where the chunks are in
  a metadata database.  The client daemon offers the library as gRPC services for files, data,
  metadata and namespaces.  The commands \<open>zstordb\<close>, \<open>zstor\<close> and \<open>zstorbench\<close> put these parts together.
  A write goes from a daemon handler through the client, its pipeline, the
  processors, a chunk storage and a zstordb client to the object service and its database; the
  metadata of the result goes through the metadata client to the metadata database.

  \<^bold>\<open>Shared theories.\<close> \<open>Zstor_Prelude\<close> has the type \<open>result\<close> of a Go call (value, error or panic), the
  collections of simplification rules and generic lemmas; \<open>Go_Strings\<close>, \<open>Go_Regexp\<close>, \<open>Go_Net\<close> and \<open>Crc32\<close>
  the parts of the standard library that the sources use.  A computation of type \<open>option\<close> that is \<open>None\<close> does not
  return.

  \<^bold>\<open>The server\<close> (\<open>src/server\<close>).
  \<^item> \<open>Server_Encoding\<close>: the storage format (\<open>encoding/*.go\<close>): an object decodes exactly when it is the
    encoding of something, and a damaged encoding is rejected.
  \<^item> \<open>Db_Keys\<close>: the key layout (\<open>db/keys.go\<close>); the key families of different namespaces are disjoint,
    except for labels with a colon.
  \<^item> \<open>Server_Db\<close>: the interface \<open>db/db.go\<close> and the in-memory database.  The laws the services rely on
    are the locales \<open>kv_db\<close> and \<open>scoped_db\<close> (keys are not reused while there is room).
  \<^item> \<open>Lru_Cache\<close>, \<open>Badger_Db\<close>, \<open>Badger_Server\<close>, \<open>Badger_Open\<close>: the persistent database (\<open>db/badger/*.go\<close>) with its
    bounded cache of key sequences.  The cache is the locale \<open>bounded_cache\<close>; the sequences never give
    a key twice, also across restarts and evictions.  The locale \<open>db_simulation\<close> relates two
    databases; its interpretation on the two databases of the program shows that the object service
    answers every list of requests alike on both.  Garbage collection between requests is not noticed.
  \<^item> \<open>Rpc_Types\<close>, \<open>Object_Api\<close>, \<open>Namespace_Api\<close>: the errors, the handlers of both services
    (\<open>api/*.go\<close>, \<open>api/grpc/*.go\<close>), the rate counters (\<open>stats/rates.go\<close>), the interceptor chain and the
    configuration of the server; what every handler does to the database on every branch, and
    that it leaves the other namespaces alone.
  \<^item> \<open>Server_Auth\<close>: token verification with its cache of verified tokens (\<open>jwt/*.go\<close>,
    \<open>api/grpc/auth\<close>); a request is served only with a token valid for the permission it needs.

  \<^bold>\<open>The client library\<close> (\<open>src/client\<close>).
  \<^item> \<open>Datastor_Client\<close>: the client of one server, the cluster and its shard iterators (\<open>datastor/grpc\<close>,
    \<open>datastor/*.go\<close>), on a world of servers that each run the object service above.
  \<^item> \<open>Chunk_Storage\<close>, \<open>Write_Workers\<close>, \<open>Replicated_Storage\<close>, \<open>Distributed_Storage\<close>,
    \<open>Storage_Contracts\<close>: the storages (\<open>datastor/pipeline/storage\<close>).  What they need of a cluster is the locale
    \<open>shard_cluster\<close>, interpreted on clusters of zstordb servers; \<open>fresh_cluster\<close> extends it, and a sublocale
    gives the contract \<open>chunk_storage\<close> of the pipelines.  Writing, reading, checking and repairing
    are shown correct while enough servers are up, under every schedule of the writing workers.
  \<^item> \<open>Type_Registry\<close>, \<open>Crypto_Hash\<close>, \<open>Processing\<close>: the registries, the hashers and the processors
    (\<open>datastor/pipeline/crypto\<close>, \<open>processing\<close>, \<open>metastor/encoding\<close>); processors act on an explicit memory, because they hand out
    slices of their own buffers.
  \<^item> \<open>Pipeline_Stages\<close>, \<open>Pipelines\<close>, \<open>Pipeline_Config\<close>: both pipelines (\<open>datastor/pipeline\<close>), with goroutines
    as explicit schedules; what is written is read back, for every configuration.
  \<^item> \<open>Metastor_Db\<close>, \<open>Metastor_Badger\<close>, \<open>Metastor_Etcd\<close>, \<open>Metastor_Client\<close>: the metadata databases (\<open>metastor/db\<close>) and
    the metadata client (\<open>metastor/client.go\<close>).  The laws of a database are the locale \<open>metadata_db\<close>, extended by
    \<open>metadata_store\<close>, which is interpreted on all three databases; etcd is reached through the
    transactions of its client, modelled from the vendored \<open>concurrency/stm.go\<close>.  On each database the client is a
    map from keys to metadata, and an update is atomic although other clients write between its steps.
  \<^item> \<open>Zstor_Client\<close>, \<open>Linked_Data\<close>: the client (\<open>client.go\<close>, \<open>client_linked_data.go\<close>), which refines a map from
    keys to data, and chains of linked data with their traversals.
  \<^item> \<open>Iyo_Client\<close>, \<open>Jwt_Cache\<close>: the client of the identity service (\<open>itsyouonline\<close>) and the cache of tokens
    (\<open>datastor/jwt.go\<close>): the scopes that are asked for are those the server wants, cached tokens
    are live, and the cache stays within its size.
  \<^item> \<open>Client_Config\<close>: making and closing a client and a daemon from a configuration (\<open>config.go\<close>).

  \<^bold>\<open>The daemon\<close> (\<open>src/daemon/api/grpc\<close>).  \<open>Daemon_Types\<close> has the errors, the message conversions, the
  local files and the pipe; \<open>Daemon_Data\<close>, \<open>Daemon_Files\<close> and \<open>Daemon_Namespaces\<close> the handlers of the four
  services, each on the client operations it calls.  A file or stream that is uploaded is what a
  download returns; setting a permission makes it exactly the requested one.

  \<^bold>\<open>The commands\<close> (\<open>src/cmd\<close>, \<open>src/benchmark\<close>).
  \<^item> \<open>Cmd_Flags\<close>, \<open>Cmd_Version\<close>: the types of flags and the versions (\<open>flag.go\<close>, \<open>version.go\<close>): what a flag prints it
    parses, and so does a version, with its expression as a regular expression.
  \<^item> \<open>Cmd_Zstordb\<close>: the server command (\<open>zstordb/commands/root.go\<close>) with its certificates.  Its flags keep the
    configuration well-formed, and unless they disable authentication no handler runs without a
    valid token.
  \<^item> \<open>Cmd_Zstor\<close>: the client command (\<open>zstor/commands\<close>), with the configuration its commands share and the order in
    which the command library runs their functions; a file that is uploaded on the command line is
    what a later download gives, and permissions that are set are printed.
  \<^item> \<open>Benchmark\<close>: the benchmark tool (\<open>benchmark\<close>, \<open>cmd/zstorbench\<close>), whose results add up.

  \<^bold>\<open>Loops and bounds.\<close>  Readers are finite lists of reads, so reading to the end is structural
  recursion.  A schedule of the write workers is an explicit list of choices; a run of at most five
  steps per job, two per shard and one per worker ends, so a schedule of that length is enough.
  Loops that need not end are \<open>partial_function (option)\<close>: the retry of a metadata update in each of
  the three databases, the steps of a linked-data iterator, and drawing a key from a sequence; that they return is proved where a
  theorem needs it (an update returns when finitely many other writes interfere).  Counters of 64
  bits are words, and so are the parts of a version and the modes of flags: a key counter wraps, and the freshness of keys holds while there is room.

  \<^bold>\<open>Parameters.\<close>  Code outside the sources is an argument, with its documented behaviour as named
  hypotheses: parsing and verifying tokens (jwt-go), the Reed-Solomon code, the compression and
  cipher codecs and the digests, the generated protocol buffer code, the store of the badger
  library and its garbage collector, the etcd servers, the HTTP client of itsyou.online, reading keys
  and certificates, directories of the host, dialling and listening, YAML and JSON.  The order
  in which Go traverses a map, random numbers, the clock and the schedule of goroutines are
  arguments as well.

  \<^bold>\<open>Not modelled.\<close>  The gRPC server and client connections themselves, profiling and logging (calls of
  libraries), the generated code, the examples and the test suites with their stubs.
\<close>

end
